(* ===== verification/Prelude.thy ===== *)
theory Prelude
  imports Complex_Main "HOL-Library.AList"
begin

text \<open>
  The vocabulary every component shares.

  \<^item> Python text is a list of Unicode code points (\<open>ustr\<close>); \<open>lit\<close> embeds an ASCII literal.
  \<^item> A raised exception is a value \<open>Exn kind message\<close>, and a fallible pure function returns
    \<open>exn + 'a\<close>; \<open>bindE\<close>, \<open>guardE\<close> and \<open>mapE\<close> sequence such functions the way statements
    of the source follow one another.
  \<^item> A Python dict and a directory are association lists with one entry per key: \<open>aget\<close>,
    \<open>aput\<close> and \<open>adel\<close> read, overwrite and delete an entry.
\<close>

section \<open>Rule collections\<close>

named_theorems result_simps \<open>unfolding of the result combinators\<close>
named_theorems valid_defs \<open>definitions of the validators\<close>

section \<open>Text\<close>

type_synonym ustr = "nat list"

definition lit :: "string \<Rightarrow> ustr" where
  "lit s = map of_char s"

lemma lit_inject [simp]: "lit s = lit t \<longleftrightarrow> s = t"
proof -
  have "inj (of_char :: char \<Rightarrow> nat)"
    by (rule injI) simp
  then show ?thesis
    unfolding lit_def by (simp add: inj_map_eq_map)
qed

lemma length_lit [simp]: "length (lit s) = length s"
  by (simp add: lit_def)

lemma lit_Nil: "lit [] = []"
  by (simp add: lit_def)

lemma lit_Cons: "lit (c # s) = of_char c # lit s"
  by (simp add: lit_def)

lemma lit_append: "lit (s @ t) = lit s @ lit t"
  by (simp add: lit_def)

lemma lit_eq_Nil [simp]: "lit s = [] \<longleftrightarrow> s = []" "[] = lit s \<longleftrightarrow> s = []"
  by (auto simp: lit_def)

lemma of_char_less_256: "(of_char c :: nat) < 256"
  using nat_of_char_less_256 [of c] by simp

text \<open>\<open>text.split(sep)\<close> for a one-character separator, and \<open>text.startswith(prefix)\<close>.\<close>

fun split_on :: "nat \<Rightarrow> ustr \<Rightarrow> ustr list" where
  "split_on sep [] = [[]]"
| "split_on sep (c # cs) =
     (if c = sep then [] # split_on sep cs
      else (case split_on sep cs of
              [] \<Rightarrow> [[c]]
            | w # ws \<Rightarrow> (c # w) # ws))"

definition starts_with :: "ustr \<Rightarrow> ustr \<Rightarrow> bool" where
  "starts_with p s \<longleftrightarrow> take (length p) s = p"

lemma split_on_nonempty [simp]: "split_on sep cs \<noteq> []"
  by (induction cs) (auto split: list.splits)

lemma split_on_no_sep: "sep \<notin> set cs \<Longrightarrow> split_on sep cs = [cs]"
  by (induction cs) auto

lemma split_on_append:
  "sep \<notin> set cs \<Longrightarrow> split_on sep (cs @ sep # ds) = cs # split_on sep ds"
  by (induction cs) auto

lemma split_on_pieces: "p \<in> set (split_on sep cs) \<Longrightarrow> sep \<notin> set p"
proof (induction cs arbitrary: p)
  case (Cons c cs)
  then show ?case
    by (cases "split_on sep cs") (auto split: if_splits)
qed simp

lemma split_on_snoc:
  "sep \<notin> set n \<Longrightarrow> split_on sep (p @ sep # n) = split_on sep p @ [n]"
proof (induction p)
  case (Cons c p)
  then show ?case
    by (cases "split_on sep p") auto
qed (simp add: split_on_no_sep)

lemma starts_with_append [simp]: "starts_with p (p @ s)"
  by (simp add: starts_with_def)

lemma starts_withD: "starts_with p s \<Longrightarrow> s = p @ drop (length p) s"
  unfolding starts_with_def by (metis append_take_drop_id)

section \<open>Exceptions and results\<close>

datatype exn_kind =
    ValueError | TypeError | RuntimeError | OSError | FileNotFoundError | FileExistsError
  | RecalculationError | StartupRecoveryError | FinalizationError
  | CalculationFinalizationError | ProductManifestError | ServiceShutdownError
  | InputValidationError | InputSnapshotError | ServiceUnavailableError
  | PrivateRequestCleanupError | InputPublicationError bool
  | DurableStateError "(string \<times> ustr \<times> string) list" | UnknownEventError
  | RequiredProductResolutionError | ProductValidationInputError | ProvenanceError
  | NativeProfileError string "ustr list option" "(ustr list \<times> ustr \<times> int) option"
  | OtherError

text \<open>
  The argument of \<open>InputPublicationError\<close> is its attribute \<open>_retain_private_tree\<close>, that of
  \<open>DurableStateError\<close> its problems: source, entry, message.
\<close>

datatype exn = Exn exn_kind string

fun exn_kind_of :: "exn \<Rightarrow> exn_kind" where
  "exn_kind_of (Exn k m) = k"

fun exn_message :: "exn \<Rightarrow> string" where
  "exn_message (Exn k m) = m"

text \<open>\<open>except OSError\<close> also catches its two subclasses.\<close>

definition is_os_error :: "exn \<Rightarrow> bool" where
  "is_os_error e \<longleftrightarrow> exn_kind_of e \<in> {OSError, FileNotFoundError, FileExistsError}"

definition is_value_error :: "exn \<Rightarrow> bool" where
  "is_value_error e \<longleftrightarrow> exn_kind_of e \<in> {ValueError, InputValidationError, ProductValidationInputError}"

definition is_type_error :: "exn \<Rightarrow> bool" where
  "is_type_error e \<longleftrightarrow> exn_kind_of e = TypeError"

definition bindE :: "exn + 'a \<Rightarrow> ('a \<Rightarrow> exn + 'b) \<Rightarrow> exn + 'b" where
  "bindE m f = (case m of Inl e \<Rightarrow> Inl e | Inr x \<Rightarrow> f x)"

definition guardE :: "bool \<Rightarrow> exn_kind \<Rightarrow> string \<Rightarrow> exn + unit" where
  "guardE ok k msg = (if ok then Inr () else Inl (Exn k msg))"

definition okE :: "exn + 'a \<Rightarrow> bool" where
  "okE m \<longleftrightarrow> (case m of Inl e \<Rightarrow> False | Inr x \<Rightarrow> True)"

lemma okE_iff: "okE m \<longleftrightarrow> (\<exists>x. m = Inr x)"
  by (simp add: okE_def split: sum.splits)

fun mapE :: "('a \<Rightarrow> exn + 'b) \<Rightarrow> 'a list \<Rightarrow> exn + 'b list" where
  "mapE f [] = Inr []"
| "mapE f (x # xs) = bindE (f x) (\<lambda>y. bindE (mapE f xs) (\<lambda>ys. Inr (y # ys)))"

lemma bindE_simps [simp]: "bindE (Inl e) f = Inl e" "bindE (Inr x) f = f x"
  by (simp_all add: bindE_def)

lemma guardE_True [simp]: "guardE True k m = Inr ()"
  by (simp add: guardE_def)

lemma guardE_False [simp]: "guardE False k m = Inl (Exn k m)"
  by (simp add: guardE_def)

lemma bindE_Inr_iff [result_simps]: "bindE m f = Inr y \<longleftrightarrow> (\<exists>x. m = Inr x \<and> f x = Inr y)"
  by (cases m) auto

lemma bindE_Inl_iff [result_simps]:
  "bindE m f = Inl e \<longleftrightarrow> m = Inl e \<or> (\<exists>x. m = Inr x \<and> f x = Inl e)"
  by (cases m) auto

lemma guardE_Inr_iff [result_simps]: "guardE ok k m = Inr x \<longleftrightarrow> ok"
  by (simp add: guardE_def)

lemma guardE_Inl_iff [result_simps]: "guardE ok k m = Inl e \<longleftrightarrow> \<not> ok \<and> e = Exn k m"
  by (auto simp: guardE_def)

lemma bindE_guardE_Inr:
  "bindE (guardE ok k m) f = Inr y \<longleftrightarrow> ok \<and> f () = Inr y"
  by (simp add: guardE_def)

lemma okE_simps [simp]: "okE (Inr x)" "\<not> okE (Inl e)"
  by (simp_all add: okE_iff)

lemma okE_bindE [result_simps]: "okE (bindE m f) \<longleftrightarrow> (\<exists>x. m = Inr x \<and> okE (f x))"
  by (cases m) auto

lemma okE_guardE [result_simps]: "okE (guardE ok k m) \<longleftrightarrow> ok"
  by (simp add: guardE_def)

lemma okE_unit: "okE (m :: exn + unit) \<longleftrightarrow> m = Inr ()"
  by (cases m) auto

lemma mapE_Inr_length: "mapE f xs = Inr ys \<Longrightarrow> length ys = length xs"
  by (induction xs arbitrary: ys) (auto simp: result_simps)

section \<open>Association lists: dicts and directories\<close>

definition aget :: "('k \<times> 'v) list \<Rightarrow> 'k \<Rightarrow> 'v option" where
  "aget d k = map_of d k"

definition aput :: "'k \<Rightarrow> 'v \<Rightarrow> ('k \<times> 'v) list \<Rightarrow> ('k \<times> 'v) list" where
  "aput k v d = AList.update k v d"

definition adel :: "'k \<Rightarrow> ('k \<times> 'v) list \<Rightarrow> ('k \<times> 'v) list" where
  "adel k d = AList.delete k d"

definition akeys :: "('k \<times> 'v) list \<Rightarrow> 'k list" where
  "akeys d = map fst d"

text \<open>The interface the components use; its laws are all that the proofs rest on.\<close>

locale entry_table =
  fixes lookup :: "'t \<Rightarrow> 'k \<Rightarrow> 'v option"
    and insert_entry :: "'k \<Rightarrow> 'v \<Rightarrow> 't \<Rightarrow> 't"
    and delete_entry :: "'k \<Rightarrow> 't \<Rightarrow> 't"
    and names :: "'t \<Rightarrow> 'k list"
  assumes lookup_insert: "lookup (insert_entry k v t) k' = (if k' = k then Some v else lookup t k')"
    and lookup_delete: "lookup (delete_entry k t) k' = (if k' = k then None else lookup t k')"
    and names_lookup: "k \<in> set (names t) \<longleftrightarrow> lookup t k \<noteq> None"
begin

lemma names_insert: "set (names (insert_entry k v t)) = insert k (set (names t))"
  by (auto simp: names_lookup lookup_insert split: if_splits)

lemma names_delete: "set (names (delete_entry k t)) = set (names t) - {k}"
  by (auto simp: names_lookup lookup_delete split: if_splits)

lemma move_keeps_value:
  "lookup t k = Some v \<Longrightarrow> k' \<noteq> k \<Longrightarrow>
    lookup (insert_entry k' v (delete_entry k t)) k' = Some v
    \<and> lookup (insert_entry k' v (delete_entry k t)) k = None"
  by (simp add: lookup_insert lookup_delete)

end

interpretation alist: entry_table aget aput adel akeys
proof
  show "aget (aput k v t) k' = (if k' = k then Some v else aget t k')"
    for k k' :: 'a and v :: 'b and t
    by (simp add: aget_def aput_def update_conv')
  show "aget (adel k t) k' = (if k' = k then None else aget t k')"
    for k k' :: 'a and t :: "('a \<times> 'b) list"
    by (simp add: aget_def adel_def delete_conv')
  show "k \<in> set (akeys t) \<longleftrightarrow> aget t k \<noteq> None" for k :: 'a and t :: "('a \<times> 'b) list"
    by (metis aget_def akeys_def list.set_map map_of_eq_None_iff)
qed

lemmas aget_aput [simp] = alist.lookup_insert
lemmas aget_adel [simp] = alist.lookup_delete
lemmas in_akeys = alist.names_lookup
lemmas akeys_aput [simp] = alist.names_insert
lemmas akeys_adel [simp] = alist.names_delete

lemma aget_Nil [simp]: "aget [] k = None"
  by (simp add: aget_def)

lemma aget_Cons [simp]: "aget ((k', v) # d) k = (if k = k' then Some v else aget d k)"
  by (auto simp: aget_def)

lemma akeys_simps [simp]: "akeys [] = []" "akeys ((k, v) # d) = k # akeys d"
  by (simp_all add: akeys_def)

lemma distinct_akeys_aput [simp]: "distinct (akeys d) \<Longrightarrow> distinct (akeys (aput k v d))"
  by (simp add: akeys_def aput_def distinct_update)

lemma distinct_akeys_adel [simp]: "distinct (akeys d) \<Longrightarrow> distinct (akeys (adel k d))"
  by (simp add: akeys_def adel_def distinct_delete)

lemma aput_aput [simp]: "aput k v (aput k v' d) = aput k v d"
  by (induction d) (auto simp: aput_def)

lemma aput_same: "aget d k = Some v \<Longrightarrow> aput k v d = d"
  by (induction d) (auto simp: aput_def aget_def split: if_splits)

end
