(* ===== verification/Json.thy ===== *)
theory Json
  imports Prelude
begin

text \<open>
  The values \<open>json.load\<close> returns and \<open>json.dumps\<close> accepts, which are also the dynamically
  typed values a \<open>CalculationRecord\<close> and a transaction journal hold. An object is an association
  list; the decoder keeps one entry per key. A float carries its exact value.
\<close>

datatype json =
    JNull
  | JBool bool
  | JInt int
  | JFloat rat
  | JStr ustr
  | JList "json list"
  | JObj "(ustr \<times> json) list"

abbreviation jstr :: "string \<Rightarrow> json" where
  "jstr s \<equiv> JStr (lit s)"

definition jobj :: "(string \<times> json) list \<Rightarrow> json" where
  "jobj kvs = JObj (map (\<lambda>(k, v). (lit k, v)) kvs)"

section \<open>isinstance tests\<close>

fun is_dict :: "json \<Rightarrow> bool" where
  "is_dict (JObj kvs) = True" | "is_dict j = False"

fun is_str :: "json \<Rightarrow> bool" where
  "is_str (JStr s) = True" | "is_str j = False"

fun is_bool :: "json \<Rightarrow> bool" where
  "is_bool (JBool b) = True" | "is_bool j = False"

text \<open>\<open>isinstance(x, int) and not isinstance(x, bool)\<close>, the source's test for an integer.\<close>

fun is_int :: "json \<Rightarrow> bool" where
  "is_int (JInt i) = True" | "is_int j = False"

fun is_list :: "json \<Rightarrow> bool" where
  "is_list (JList js) = True" | "is_list j = False"

fun is_str_list :: "json \<Rightarrow> bool" where
  "is_str_list (JList js) = list_all is_str js" | "is_str_list j = False"

text \<open>A value that a Python set or dict accepts as a member: lists and dicts are unhashable.\<close>

fun hashable :: "json \<Rightarrow> bool" where
  "hashable (JList js) = False" | "hashable (JObj kvs) = False" | "hashable j = True"

fun truthy :: "json \<Rightarrow> bool" where
  "truthy JNull = False"
| "truthy (JBool b) = b"
| "truthy (JInt i) = (i \<noteq> 0)"
| "truthy (JFloat q) = (q \<noteq> 0)"
| "truthy (JStr s) = (s \<noteq> [])"
| "truthy (JList js) = (js \<noteq> [])"
| "truthy (JObj kvs) = (kvs \<noteq> [])"

text \<open>\<open>value == n\<close> for an integer \<open>n\<close>: Python compares booleans and floats by value.\<close>

fun py_eq_int :: "json \<Rightarrow> int \<Rightarrow> bool" where
  "py_eq_int (JInt i) n = (i = n)"
| "py_eq_int (JBool b) n = ((if b then 1 else 0) = n)"
| "py_eq_int (JFloat q) n = (q = of_int n)"
| "py_eq_int j n = False"

section \<open>Object access\<close>

fun entries :: "json \<Rightarrow> (ustr \<times> json) list" where
  "entries (JObj kvs) = kvs" | "entries j = []"

text \<open>\<open>value.get(key)\<close>: a missing key reads as \<open>None\<close>.\<close>

definition jget :: "json \<Rightarrow> string \<Rightarrow> json" where
  "jget j k = (case aget (entries j) (lit k) of None \<Rightarrow> JNull | Some v \<Rightarrow> v)"

definition jput :: "string \<Rightarrow> json \<Rightarrow> json \<Rightarrow> json" where
  "jput k v j = JObj (aput (lit k) v (entries j))"

definition jkeys :: "json \<Rightarrow> ustr set" where
  "jkeys j = set (akeys (entries j))"

definition has_exact_keys :: "json \<Rightarrow> string list \<Rightarrow> bool" where
  "has_exact_keys j ks \<longleftrightarrow> jkeys j = lit ` set ks"

fun str_of :: "json \<Rightarrow> ustr" where
  "str_of (JStr s) = s" | "str_of j = []"

fun int_of :: "json \<Rightarrow> int" where
  "int_of (JInt i) = i" | "int_of j = 0"

fun bool_of :: "json \<Rightarrow> bool" where
  "bool_of (JBool b) = b" | "bool_of j = False"

fun list_of :: "json \<Rightarrow> json list" where
  "list_of (JList js) = js" | "list_of j = []"

lemma is_strD: "is_str j \<Longrightarrow> \<exists>s. j = JStr s"
  by (cases j) auto

lemma is_intD: "is_int j \<Longrightarrow> \<exists>i. j = JInt i"
  by (cases j) auto

lemma is_boolD: "is_bool j \<Longrightarrow> \<exists>b. j = JBool b"
  by (cases j) auto

lemma is_dictD: "is_dict j \<Longrightarrow> \<exists>kvs. j = JObj kvs"
  by (cases j) auto

lemma is_str_str_of: "is_str j \<Longrightarrow> JStr (str_of j) = j"
  by (cases j) auto

lemma entries_jput [simp]: "entries (jput k v j) = aput (lit k) v (entries j)"
  by (simp add: jput_def)

lemma is_dict_jput [simp]: "is_dict (jput k v j)"
  by (simp add: jput_def)

lemma jget_jput [simp]: "jget (jput k v j) k' = (if k' = k then v else jget j k')"
  by (simp add: jget_def)

lemma jkeys_jput [simp]: "jkeys (jput k v j) = insert (lit k) (jkeys j)"
  by (simp add: jkeys_def)

lemma has_exact_keys_jput:
  "has_exact_keys j ks \<Longrightarrow> k \<in> set ks \<Longrightarrow> has_exact_keys (jput k v j) ks"
  by (auto simp: has_exact_keys_def)

lemma is_dict_jobj [simp]: "is_dict (jobj kvs)"
  by (simp add: jobj_def)

lemma jobj_not_null [simp]: "jobj kvs \<noteq> JNull"
  by (simp add: jobj_def)

lemma jget_jobj_Nil [simp]: "jget (jobj []) k = JNull"
  by (simp add: jobj_def jget_def)

lemma jget_jobj_Cons [simp]:
  "jget (jobj ((k', v) # kvs)) k = (if k = k' then v else jget (jobj kvs) k)"
  by (simp add: jobj_def jget_def)

lemma jkeys_jobj [simp]: "jkeys (jobj kvs) = lit ` fst ` set kvs"
  by (induction kvs) (simp_all add: jkeys_def jobj_def case_prod_beta)

lemma has_exact_keys_jobj: "has_exact_keys (jobj kvs) ks \<longleftrightarrow> fst ` set kvs = set ks"
proof -
  have "inj lit" by (rule injI) simp
  then show ?thesis
    unfolding has_exact_keys_def by (simp add: inj_image_eq_iff)
qed

end
