(* ===== verification/Config.thy ===== *)
theory Config
  imports Json
begin

text \<open>
  Settings and names: \<open>config.py\<close> and \<open>paths.py\<close>. A setting that is a \<open>Path\<close> is kept as its
  rendered string. \<open>queue_entry_name\<close> and \<open>parse_queue_entry_name\<close> are the two directions of the
  queue's directory names; \<open>path_parts\<close> is the component view \<open>pathlib\<close> compares paths by.
\<close>

section \<open>Settings\<close>

definition MODULE_PLAN :: "ustr list" where
  "MODULE_PLAN = map lit
     [''select'', ''assemble'', ''model'', ''contour'', ''mapping'', ''stations'', ''gridxml'']"

record settings =
  service_root :: ustr
  shared_service_root :: ustr
  module_plan :: "ustr list"
  max_concurrent :: int
  required_products :: "ustr list"

definition is_digit :: "nat \<Rightarrow> bool" where
  "is_digit c \<longleftrightarrow> 48 \<le> c \<and> c \<le> 57"

definition digits_val :: "ustr \<Rightarrow> nat" where
  "digits_val s = foldl (\<lambda>a c. a * 10 + (c - 48)) 0 s"

definition is_space :: "nat \<Rightarrow> bool" where
  "is_space c \<longleftrightarrow> c = 32 \<or> (9 \<le> c \<and> c \<le> 13) \<or> (28 \<le> c \<and> c \<le> 31)"

definition strip :: "ustr \<Rightarrow> ustr" where
  "strip s = rev (dropWhile is_space (rev (dropWhile is_space s)))"

text \<open>
  \<open>int(text)\<close> on ASCII text: surrounding white space, a sign, digits with single underscores
  between them.
\<close>

fun underscored_digits :: "ustr \<Rightarrow> bool" where
  "underscored_digits [] = False"
| "underscored_digits [c] = is_digit c"
| "underscored_digits (c # d # s) =
     (is_digit c \<and> (if d = 95 then underscored_digits s else underscored_digits (d # s)))"

definition py_int :: "ustr \<Rightarrow> int option" where
  "py_int s =
     (let t = strip s;
          neg = (starts_with (lit ''-'') t);
          body = (if neg \<or> starts_with (lit ''+'') t then tl t else t)
      in if underscored_digits body
         then Some ((if neg then -1 else 1) * int (digits_val (filter is_digit body)))
         else None)"

definition positive_integer :: "ustr \<Rightarrow> exn + int" where
  "positive_integer value =
     (case py_int value of
        None \<Rightarrow> Inl (Exn ValueError ''must be a positive integer'')
      | Some parsed \<Rightarrow>
          if parsed < 1 then Inl (Exn ValueError ''must be a positive integer'') else Inr parsed)"

section \<open>Decimal names\<close>

text \<open>\<open>pad w n\<close> is the last \<open>w\<close> decimal digits of \<open>n\<close>; \<open>decimal n\<close> is \<open>str(n)\<close>.\<close>

fun pad :: "nat \<Rightarrow> nat \<Rightarrow> ustr" where
  "pad 0 n = []"
| "pad (Suc w) n = pad w (n div 10) @ [48 + n mod 10]"

fun decimal :: "nat \<Rightarrow> ustr" where
  "decimal n = (if n < 10 then [48 + n] else decimal (n div 10) @ [48 + n mod 10])"

declare decimal.simps [simp del]

definition QUEUE_ENTRY_WIDTH :: nat where
  "QUEUE_ENTRY_WIDTH = 20"

definition queue_entry_name :: "int \<Rightarrow> ustr" where
  "queue_entry_name sequence =
     (let n = nat sequence
      in if n < 10 ^ QUEUE_ENTRY_WIDTH then pad QUEUE_ENTRY_WIDTH n else decimal n)"

definition checked_queue_entry_name :: "json \<Rightarrow> exn + ustr" where
  "checked_queue_entry_name sequence =
     bindE (guardE (is_int sequence \<and> 1 \<le> int_of sequence) ValueError
              ''queue sequence must be a positive integer'')
       (\<lambda>_. Inr (queue_entry_name (int_of sequence)))"

definition parse_queue_entry_name :: "ustr \<Rightarrow> exn + int" where
  "parse_queue_entry_name name =
     bindE (guardE (length name = QUEUE_ENTRY_WIDTH \<and> list_all is_digit name) ValueError
              ''queue entry name must be exactly 20 ASCII digits'')
       (\<lambda>_. let sequence = int (digits_val name) in
          bindE (guardE (1 \<le> sequence) ValueError ''queue sequence must be positive'')
            (\<lambda>_. Inr sequence))"

lemma digits_val_Nil [simp]: "digits_val [] = 0"
  by (simp add: digits_val_def)

lemma digits_val_snoc [simp]: "digits_val (s @ [c]) = digits_val s * 10 + (c - 48)"
  by (simp add: digits_val_def)

lemma length_pad [simp]: "length (pad w n) = w"
  by (induction w arbitrary: n) auto

lemma digits_pad [simp]: "list_all is_digit (pad w n)"
proof (induction w arbitrary: n)
  case (Suc w)
  have "n mod 10 < 10" by simp
  with Suc show ?case by (simp add: is_digit_def)
qed simp

lemma digits_val_pad: "n < 10 ^ w \<Longrightarrow> digits_val (pad w n) = n"
proof (induction w arbitrary: n)
  case (Suc w)
  then have "n div 10 < 10 ^ w" by (simp add: less_mult_imp_div_less mult.commute)
  with Suc.IH show ?case by simp
qed simp

lemma digits_val_bound: "list_all is_digit s \<Longrightarrow> digits_val s < 10 ^ length s"
proof (induction s rule: rev_induct)
  case (snoc c s)
  then show ?case by (auto simp: is_digit_def)
qed simp

lemma pad_digits_val: "list_all is_digit s \<Longrightarrow> pad (length s) (digits_val s) = s"
proof (induction s rule: rev_induct)
  case (snoc c s)
  then obtain d where c: "c = 48 + d" "d < 10"
    by (auto simp: is_digit_def le_iff_add)
  from snoc c show ?case by simp
qed simp

lemma pad_no_char:
  assumes "\<not> is_digit c"
  shows "c \<notin> set (pad w n)"
  using assms digits_pad [of w n] by (auto simp: list_all_iff simp del: digits_pad)

lemma digits_decimal: "list_all is_digit (decimal n)"
proof (induction n rule: decimal.induct)
  case (1 n)
  have "n mod 10 < 10" by simp
  then have "is_digit (48 + n mod 10)" "n < 10 \<Longrightarrow> is_digit (48 + n)"
    unfolding is_digit_def by auto
  with 1 show ?case by (subst decimal.simps) simp
qed

lemma digits_val_decimal: "digits_val (decimal n) = n"
proof (induction n rule: decimal.induct)
  case (1 n)
  show ?case
  proof (cases "n < 10")
    case True
    then show ?thesis
      by (subst decimal.simps) (simp add: digits_val_def)
  next
    case False
    with 1 show ?thesis by (subst decimal.simps) simp
  qed
qed

lemma digits_val_queue_entry_name: "1 \<le> s \<Longrightarrow> digits_val (queue_entry_name s) = nat s"
  by (auto simp: queue_entry_name_def Let_def digits_val_pad digits_val_decimal)

lemma queue_entry_name_inject:
  "1 \<le> s \<Longrightarrow> 1 \<le> t \<Longrightarrow> queue_entry_name s = queue_entry_name t \<longleftrightarrow> s = t"
  by (metis digits_val_queue_entry_name eq_nat_nat_iff order_trans zero_le_one)

lemma parse_queue_entry_name_Inr:
  "parse_queue_entry_name name = Inr s \<Longrightarrow> 1 \<le> s \<and> queue_entry_name s = name"
  using pad_digits_val [of name] digits_val_bound [of name]
  by (auto simp: parse_queue_entry_name_def result_simps Let_def queue_entry_name_def
      QUEUE_ENTRY_WIDTH_def)

lemma parse_queue_entry_name_name:
  assumes "1 \<le> s" "s < 10 ^ QUEUE_ENTRY_WIDTH"
  shows "parse_queue_entry_name (queue_entry_name s) = Inr s"
proof -
  have "nat s < 10 ^ QUEUE_ENTRY_WIDTH"
    using assms by (simp add: nat_less_iff)
  then show ?thesis
    using assms
    by (simp add: parse_queue_entry_name_def queue_entry_name_def digits_val_pad Let_def)
qed

section \<open>Paths\<close>

text \<open>
  \<open>path_parts\<close> is what \<open>pathlib\<close> compares: the components without empty and \<open>.\<close> ones, and
  whether the path is absolute.
\<close>

definition path_parts :: "ustr \<Rightarrow> bool \<times> ustr list" where
  "path_parts s =
     (starts_with (lit ''/'') s, filter (\<lambda>c. c \<noteq> [] \<and> c \<noteq> lit ''.'') (split_on 47 s))"

definition path_name :: "ustr \<Rightarrow> ustr" where
  "path_name s = (let ps = snd (path_parts s) in if ps = [] then [] else last ps)"

definition path_parent :: "ustr \<Rightarrow> bool \<times> ustr list" where
  "path_parent s = (fst (path_parts s), butlast (snd (path_parts s)))"

definition path_join :: "ustr \<Rightarrow> ustr \<Rightarrow> ustr" where
  "path_join base name = base @ lit ''/'' @ name"

definition archive_dir :: "settings \<Rightarrow> ustr" where
  "archive_dir cfg = service_root cfg @ lit ''/.service/archive''"

definition event_archive_name :: "ustr \<Rightarrow> ustr \<Rightarrow> ustr" where
  "event_archive_name event_id utc_timestamp = event_id @ lit ''-'' @ utc_timestamp"

definition shared_event_input_dir :: "settings \<Rightarrow> ustr \<Rightarrow> ustr" where
  "shared_event_input_dir cfg event_id =
     shared_service_root cfg @ lit ''/data/inputs/'' @ event_id"

definition shared_event_native_products_dir :: "settings \<Rightarrow> ustr \<Rightarrow> ustr" where
  "shared_event_native_products_dir cfg event_id =
     shared_service_root cfg @ lit ''/products/'' @ event_id @ lit ''/current/products''"

definition shared_event_service_path :: "settings \<Rightarrow> ustr \<Rightarrow> string \<Rightarrow> ustr" where
  "shared_event_service_path cfg event_id relative =
     shared_service_root cfg @ lit ''/.service/events/'' @ event_id @ lit ''/'' @ lit relative"

lemma split_on_slash_join:
  "47 \<notin> set name \<Longrightarrow> split_on 47 (base @ lit ''/'' @ name) = split_on 47 base @ [name]"
  using split_on_snoc [of 47 name base] by (simp add: lit_Cons lit_Nil)

lemma starts_with_slash: "starts_with (lit ''/'') s \<longleftrightarrow> (s \<noteq> [] \<and> hd s = 47)"
  by (cases s) (auto simp: starts_with_def lit_Cons lit_Nil)

lemma path_join_parts:
  assumes "47 \<notin> set name" "name \<noteq> []" "name \<noteq> lit ''.''" "base \<noteq> []"
  shows "path_name (path_join base name) = name"
    and "path_parent (path_join base name) = path_parts base"
proof -
  have s: "split_on 47 (path_join base name) = split_on 47 base @ [name]"
    using assms(1) by (simp add: path_join_def split_on_slash_join)
  show "path_name (path_join base name) = name"
    using assms by (simp add: path_name_def path_parts_def s Let_def)
  show "path_parent (path_join base name) = path_parts base"
    using assms
    by (simp add: path_parent_def path_parts_def s starts_with_slash)
       (simp add: path_join_def)
qed

end
