(* ===== verification/Validation.thy ===== *)
theory Validation
  imports Config
begin

text \<open>
  \<open>request_validation.py\<close>: the safety checks on caller identifiers and file names. A value arrives
  dynamically typed (\<open>json\<close>); an accepted one is returned unchanged. \<open>utf8\<close> is the native
  encoding \<open>os.fsencode\<close> uses for text without surrogates.
\<close>

definition NATIVE_BASENAME_LIMIT_BYTES :: nat where
  "NATIVE_BASENAME_LIMIT_BYTES = 255"

definition EVENT_ID_LIMIT_BYTES :: nat where
  "EVENT_ID_LIMIT_BYTES = 231"

text \<open>\<open>unicodedata.category\<close> restricted to the two categories the checks name.\<close>

definition is_control :: "nat \<Rightarrow> bool" where
  "is_control c \<longleftrightarrow> c < 32 \<or> (127 \<le> c \<and> c < 160)"

definition is_surrogate :: "nat \<Rightarrow> bool" where
  "is_surrogate c \<longleftrightarrow> 55296 \<le> c \<and> c < 57344"

definition utf8_char :: "nat \<Rightarrow> nat list" where
  "utf8_char c =
     (if c < 128 then [c]
      else if c < 2048 then [192 + c div 64, 128 + c mod 64]
      else if c < 65536 then [224 + c div 4096, 128 + c div 64 mod 64, 128 + c mod 64]
      else [240 + c div 262144, 128 + c div 4096 mod 64, 128 + c div 64 mod 64, 128 + c mod 64])"

definition utf8 :: "ustr \<Rightarrow> nat list" where
  "utf8 s = concat (map utf8_char s)"

definition validate_unchanged_basename :: "json \<Rightarrow> exn + ustr" where
  "validate_unchanged_basename value =
     bindE (guardE (is_str value) ValueError ''must be a string'') (\<lambda>_.
     let s = str_of value in
     bindE (guardE (s \<noteq> []) ValueError ''cannot be empty'') (\<lambda>_.
     bindE (guardE (s \<noteq> lit ''.'' \<and> s \<noteq> lit ''..'') ValueError ''cannot be . or ..'') (\<lambda>_.
     bindE (guardE (47 \<notin> set s) ValueError ''cannot contain a path separator'') (\<lambda>_.
     bindE (guardE (\<not> list_ex (\<lambda>c. is_control c \<or> is_surrogate c) s) ValueError
              ''cannot contain control or surrogate characters'') (\<lambda>_.
     bindE (guardE (length (utf8 s) \<le> NATIVE_BASENAME_LIMIT_BYTES) ValueError
              ''exceeds the native directory-entry limit'') (\<lambda>_.
     Inr s))))))"

definition validate_event_id :: "json \<Rightarrow> exn + ustr" where
  "validate_event_id event_id =
     bindE (validate_unchanged_basename event_id) (\<lambda>s.
     bindE (guardE (\<not> starts_with (lit ''-'') s) ValueError ''event_id cannot begin with -'') (\<lambda>_.
     bindE (guardE (length (utf8 s) \<le> EVENT_ID_LIMIT_BYTES) ValueError
              ''event_id is too long for timestamped archive names'') (\<lambda>_.
     Inr s)))"

definition validate_configuration_name :: "json \<Rightarrow> exn + ustr" where
  "validate_configuration_name configuration = validate_unchanged_basename configuration"

definition validate_upload_basename :: "json \<Rightarrow> exn + ustr" where
  "validate_upload_basename basename = validate_unchanged_basename basename"

definition validate_overwrite :: "json \<Rightarrow> exn + bool" where
  "validate_overwrite overwrite =
     bindE (guardE (is_bool overwrite) ValueError ''overwrite must be a boolean'')
       (\<lambda>_. Inr (bool_of overwrite))"

section \<open>What acceptance means\<close>

definition safe_basename :: "ustr \<Rightarrow> bool" where
  "safe_basename s \<longleftrightarrow>
     s \<noteq> [] \<and> s \<noteq> lit ''.'' \<and> s \<noteq> lit ''..'' \<and> 47 \<notin> set s
     \<and> (\<forall>c\<in>set s. \<not> is_control c \<and> \<not> is_surrogate c)
     \<and> length (utf8 s) \<le> NATIVE_BASENAME_LIMIT_BYTES"

definition valid_event_id :: "ustr \<Rightarrow> bool" where
  "valid_event_id s \<longleftrightarrow>
     safe_basename s \<and> hd s \<noteq> 45 \<and> length (utf8 s) \<le> EVENT_ID_LIMIT_BYTES"

lemma starts_with_dash: "s \<noteq> [] \<Longrightarrow> starts_with (lit ''-'') s \<longleftrightarrow> hd s = 45"
  by (cases s) (auto simp: starts_with_def lit_Cons lit_Nil)

lemma validate_unchanged_basename_Inr:
  "validate_unchanged_basename v = Inr s \<longleftrightarrow> v = JStr s \<and> safe_basename s"
  by (cases v)
     (auto simp: validate_unchanged_basename_def safe_basename_def Let_def result_simps list_ex_iff)

lemma validate_event_id_Inr: "validate_event_id v = Inr s \<longleftrightarrow> v = JStr s \<and> valid_event_id s"
  by (auto simp: validate_event_id_def valid_event_id_def result_simps starts_with_dash
      validate_unchanged_basename_Inr safe_basename_def)

lemma validate_event_id_JStr [simp]: "valid_event_id s \<Longrightarrow> validate_event_id (JStr s) = Inr s"
  by (simp add: validate_event_id_Inr)

lemma validate_configuration_name_Inr:
  "validate_configuration_name v = Inr s \<longleftrightarrow> v = JStr s \<and> safe_basename s"
  by (simp add: validate_configuration_name_def validate_unchanged_basename_Inr)

lemma validate_upload_basename_Inr:
  "validate_upload_basename v = Inr s \<longleftrightarrow> v = JStr s \<and> safe_basename s"
  by (simp add: validate_upload_basename_def validate_unchanged_basename_Inr)

lemma validate_event_id_error: "validate_event_id v = Inl e \<Longrightarrow> is_value_error e"
  by (auto simp: validate_event_id_def validate_unchanged_basename_def result_simps Let_def
      is_value_error_def)

lemma utf8_append [simp]: "utf8 (s @ t) = utf8 s @ utf8 t"
  by (simp add: utf8_def)

lemma utf8_ascii: "(\<forall>c\<in>set s. c < 128) \<Longrightarrow> utf8 s = s"
  by (induction s) (auto simp: utf8_def utf8_char_def)

lemma utf8_Nil_iff [simp]: "utf8 s = [] \<longleftrightarrow> s = []"
  by (cases s) (auto simp: utf8_def utf8_char_def split: if_splits)

lemma valid_event_idD:
  "valid_event_id s \<Longrightarrow> s \<noteq> [] \<and> s \<noteq> lit ''.'' \<and> s \<noteq> lit ''..'' \<and> 47 \<notin> set s"
  by (simp add: valid_event_id_def safe_basename_def)

end
