(* ===== verification/Timestamps.thy ===== *)
theory Timestamps
  imports Config
begin

text \<open>
  UTC timestamps: the clock value, the two renderings the service writes
  (\<open>_now_iso\<close> in \<open>status.py\<close> and \<open>recalculation.py\<close>, the archive suffix
  \<open>%Y%m%dT%H%M%S.%fZ\<close>), and the two readers that accept them.
\<close>

record datetime =
  year :: nat
  month :: nat
  day :: nat
  hour :: nat
  minute :: nat
  second :: nat
  micro :: nat

definition leap :: "nat \<Rightarrow> bool" where
  "leap y \<longleftrightarrow> y mod 4 = 0 \<and> (y mod 100 \<noteq> 0 \<or> y mod 400 = 0)"

definition days_in_month :: "nat \<Rightarrow> nat \<Rightarrow> nat" where
  "days_in_month y m =
     (if m = 2 then (if leap y then 29 else 28)
      else if m \<in> {4, 6, 9, 11} then 30 else 31)"

text \<open>The ranges the constructor of \<open>datetime.datetime\<close> enforces.\<close>

definition valid_datetime :: "datetime \<Rightarrow> bool" where
  "valid_datetime t \<longleftrightarrow>
     1 \<le> year t \<and> year t \<le> 9999 \<and> 1 \<le> month t \<and> month t \<le> 12
     \<and> 1 \<le> day t \<and> day t \<le> days_in_month (year t) (month t)
     \<and> hour t \<le> 23 \<and> minute t \<le> 59 \<and> second t \<le> 59 \<and> micro t \<le> 999999"

definition now_iso :: "datetime \<Rightarrow> ustr" where
  "now_iso t =
     pad 4 (year t) @ lit ''-'' @ pad 2 (month t) @ lit ''-'' @ pad 2 (day t) @ lit ''T''
     @ pad 2 (hour t) @ lit '':'' @ pad 2 (minute t) @ lit '':'' @ pad 2 (second t)
     @ lit ''.'' @ pad 6 (micro t) @ lit ''Z''"

definition archive_timestamp :: "datetime \<Rightarrow> ustr" where
  "archive_timestamp t =
     pad 4 (year t) @ pad 2 (month t) @ pad 2 (day t) @ lit ''T''
     @ pad 2 (hour t) @ pad 2 (minute t) @ pad 2 (second t)
     @ lit ''.'' @ pad 6 (micro t) @ lit ''Z''"

section \<open>Readers\<close>

text \<open>A shape is a sequence of digit groups and separators, the form of both regular expressions.\<close>

datatype segment = Digits nat | Sep char

fun has_shape :: "segment list \<Rightarrow> ustr \<Rightarrow> bool" where
  "has_shape [] s = (s = [])"
| "has_shape (Digits n # p) s =
     (n \<le> length s \<and> list_all is_digit (take n s) \<and> has_shape p (drop n s))"
| "has_shape (Sep c # p) s = (s \<noteq> [] \<and> hd s = of_char c \<and> has_shape p (tl s))"

definition field :: "nat \<Rightarrow> nat \<Rightarrow> ustr \<Rightarrow> nat" where
  "field i n s = digits_val (take n (drop i s))"

text \<open>\<open>_RFC3339_UTC_RE.fullmatch\<close>.\<close>

definition rfc3339_shape :: "ustr \<Rightarrow> bool" where
  "rfc3339_shape s \<longleftrightarrow>
     has_shape [Digits 4, Sep CHR ''-'', Digits 2, Sep CHR ''-'', Digits 2, Sep CHR ''T'',
         Digits 2, Sep CHR '':'', Digits 2, Sep CHR '':'', Digits 2] (take 19 s)
     \<and> (let rest = drop 19 s
        in rest = lit ''Z''
           \<or> (3 \<le> length rest \<and> hd rest = 46 \<and> last rest = 90
              \<and> list_all is_digit (butlast (tl rest))))"

text \<open>
  \<open>datetime.fromisoformat(value[:-1])\<close> on text of that shape: the fields must be in range (a
  fraction of any length is accepted and truncated to microseconds).
\<close>

definition fromisoformat_ok :: "ustr \<Rightarrow> bool" where
  "fromisoformat_ok s \<longleftrightarrow>
     valid_datetime \<lparr>year = field 0 4 s, month = field 5 2 s, day = field 8 2 s,
       hour = field 11 2 s, minute = field 14 2 s, second = field 17 2 s, micro = 0\<rparr>"

text \<open>\<open>_ARCHIVE_TIMESTAMP.fullmatch\<close> followed by \<open>datetime.strptime\<close>.\<close>

definition parse_archive_timestamp :: "ustr \<Rightarrow> exn + datetime" where
  "parse_archive_timestamp s =
     (let t = \<lparr>year = field 0 4 s, month = field 4 2 s, day = field 6 2 s,
                hour = field 9 2 s, minute = field 11 2 s, second = field 13 2 s,
                micro = field 16 6 s\<rparr>
      in if has_shape [Digits 8, Sep CHR ''T'', Digits 6, Sep CHR ''.'', Digits 6, Sep CHR ''Z''] s \<and> valid_datetime t then Inr t
         else Inl (Exn RecalculationError ''transaction archive timestamp is invalid''))"

section \<open>The next microsecond\<close>

definition next_day :: "datetime \<Rightarrow> datetime" where
  "next_day t =
     (if day t < days_in_month (year t) (month t) then t\<lparr>day := day t + 1\<rparr>
      else if month t < 12 then t\<lparr>month := month t + 1, day := 1\<rparr>
      else t\<lparr>year := year t + 1, month := 1, day := 1\<rparr>)"

definition next_micro :: "datetime \<Rightarrow> datetime" where
  "next_micro t =
     (if micro t < 999999 then t\<lparr>micro := micro t + 1\<rparr>
      else if second t < 59 then t\<lparr>second := second t + 1, micro := 0\<rparr>
      else if minute t < 59 then t\<lparr>minute := minute t + 1, second := 0, micro := 0\<rparr>
      else if hour t < 23 then t\<lparr>hour := hour t + 1, minute := 0, second := 0, micro := 0\<rparr>
      else (next_day t)\<lparr>hour := 0, minute := 0, second := 0, micro := 0\<rparr>)"

lemma days_in_month_bounds: "28 \<le> days_in_month y m" "days_in_month y m \<le> 31"
  by (auto simp: days_in_month_def)

lemma valid_next_micro:
  assumes "valid_datetime t" "year t < 9999"
  shows "valid_datetime (next_micro t)"
  using assms days_in_month_bounds [of "year t" "month t + 1"]
    days_in_month_bounds [of "year t + 1" 1]
  by (auto simp: valid_datetime_def next_micro_def next_day_def)

section \<open>What the writers produce is accepted by the readers\<close>

lemma valid_datetime_bounds:
  "valid_datetime t \<Longrightarrow> year t < 10 ^ 4 \<and> month t < 10 ^ 2 \<and> day t < 10 ^ 2 \<and> hour t < 10 ^ 2
     \<and> minute t < 10 ^ 2 \<and> second t < 10 ^ 2 \<and> micro t < 10 ^ 6"
  using days_in_month_bounds [of "year t" "month t"] by (auto simp: valid_datetime_def)

lemma hd_lit_append [simp]: "hd (lit (c # a) @ s) = of_char c"
  by (simp add: lit_Cons)

lemma tl_lit_append [simp]: "tl (lit (c # a) @ s) = lit a @ s"
  by (simp add: lit_Cons)

lemma valid_datetime_fields:
  assumes "valid_datetime t"
  shows "digits_val (pad 4 (year t)) = year t" "digits_val (pad 2 (month t)) = month t"
    "digits_val (pad 2 (day t)) = day t" "digits_val (pad 2 (hour t)) = hour t"
    "digits_val (pad 2 (minute t)) = minute t" "digits_val (pad 2 (second t)) = second t"
    "digits_val (pad 6 (micro t)) = micro t"
  using valid_datetime_bounds [OF assms] by (simp_all add: digits_val_pad)

lemma rfc3339_now_iso: "rfc3339_shape (now_iso t)"
proof -
  have digits: "list_all is_digit (butlast (pad 6 m @ lit ''Z''))" for m
    by (simp add: butlast_append lit_Cons lit_Nil)
  show ?thesis
    using digits by (simp add: rfc3339_shape_def now_iso_def lit_Nil lit_Cons Let_def)
qed

lemma fromisoformat_now_iso: "valid_datetime t \<Longrightarrow> fromisoformat_ok (now_iso t)"
  by (simp add: fromisoformat_ok_def now_iso_def field_def valid_datetime_fields)
     (simp add: valid_datetime_def)

lemma length_archive_timestamp [simp]: "length (archive_timestamp t) = 23"
  by (simp add: archive_timestamp_def)

lemma archive_timestamp_ascii: "c \<in> set (archive_timestamp t) \<Longrightarrow> c < 128 \<and> c \<noteq> 47 \<and> 32 \<le> c"
proof -
  have "list_all is_digit s \<Longrightarrow> c \<in> set s \<Longrightarrow> 48 \<le> c \<and> c \<le> 57" for s
    by (auto simp: list_all_iff is_digit_def)
  from this [OF digits_pad] have "c \<in> set (pad w n) \<Longrightarrow> 48 \<le> c \<and> c \<le> 57" for w n .
  then show "c \<in> set (archive_timestamp t) \<Longrightarrow> ?thesis"
    unfolding archive_timestamp_def
    by (fastforce simp: lit_Cons lit_Nil)
qed

lemma parse_archive_timestamp_format:
  assumes "valid_datetime t"
  shows "parse_archive_timestamp (archive_timestamp t) = Inr t"
proof -
  have "has_shape [Digits 8, Sep CHR ''T'', Digits 6, Sep CHR ''.'', Digits 6, Sep CHR ''Z'']
      (archive_timestamp t)"
    by (simp add: archive_timestamp_def lit_Cons lit_Nil)
  moreover have "\<lparr>year = field 0 4 (archive_timestamp t), month = field 4 2 (archive_timestamp t),
      day = field 6 2 (archive_timestamp t), hour = field 9 2 (archive_timestamp t),
      minute = field 11 2 (archive_timestamp t), second = field 13 2 (archive_timestamp t),
      micro = field 16 6 (archive_timestamp t)\<rparr> = t"
    using assms by (simp add: archive_timestamp_def field_def valid_datetime_fields)
  ultimately show ?thesis
    using assms by (simp add: parse_archive_timestamp_def Let_def)
qed

lemma archive_timestamp_inject:
  "valid_datetime s \<Longrightarrow> valid_datetime t \<Longrightarrow>
    archive_timestamp s = archive_timestamp t \<longleftrightarrow> s = t"
  by (metis parse_archive_timestamp_format sum.inject(2))

end
