(* ===== verification/Status_Record.thy ===== *)
theory Status_Record
  imports Validation Timestamps
begin

text \<open>
  The durable calculation record of \<open>status.py\<close>: its fields, the strict validator, the JSON
  round trip, the constructor for a queued request and the lifecycle transition function. All of
  it is pure; \<open>Status_Store\<close> adds the directory reads and writes around it. A field holds the
  dynamically typed value the JSON file held, exactly as the dataclass does.
\<close>

section \<open>Lifecycle states\<close>

datatype lifecycle_state = QUEUED | RUNNING | SUCCESS | FAILED

fun state_value :: "lifecycle_state \<Rightarrow> string" where
  "state_value QUEUED = ''QUEUED''"
| "state_value RUNNING = ''RUNNING''"
| "state_value SUCCESS = ''SUCCESS''"
| "state_value FAILED = ''FAILED''"

definition parse_state :: "json \<Rightarrow> lifecycle_state option" where
  "parse_state j = find (\<lambda>s. j = jstr (state_value s)) [QUEUED, RUNNING, SUCCESS, FAILED]"

fun is_terminal :: "lifecycle_state \<Rightarrow> bool" where
  "is_terminal s = (s \<in> {SUCCESS, FAILED})"

fun allowed_transitions :: "lifecycle_state \<Rightarrow> lifecycle_state list" where
  "allowed_transitions QUEUED = [RUNNING]"
| "allowed_transitions RUNNING = [SUCCESS, FAILED]"
| "allowed_transitions SUCCESS = []"
| "allowed_transitions FAILED = []"

definition OPERATIONAL_PHASES :: "string list" where
  "OPERATIONAL_PHASES =
     [''preceding_tree_disposition'', ''calculation_preparation'', ''native_execution'',
      ''product_validation'', ''record_finalization'']"

lemma parse_state_value [simp]: "parse_state (jstr (state_value s)) = Some s"
  by (cases s) (simp_all add: parse_state_def)

lemma parse_state_literal [simp]:
  "parse_state (jstr ''QUEUED'') = Some QUEUED" "parse_state (jstr ''RUNNING'') = Some RUNNING"
  "parse_state (jstr ''SUCCESS'') = Some SUCCESS" "parse_state (jstr ''FAILED'') = Some FAILED"
  by (simp_all add: parse_state_def)

lemma parse_state_Some: "parse_state j = Some s \<longleftrightarrow> j = jstr (state_value s)"
proof
  assume "parse_state j = Some s"
  then show "j = jstr (state_value s)"
    by (auto simp: parse_state_def split: if_splits)
qed simp

lemma state_value_inject [simp]: "state_value s = state_value t \<longleftrightarrow> s = t"
  by (cases s; cases t) simp_all

section \<open>The record\<close>

record calculation_record =
  r_schema_version :: json
  r_event_id :: json
  r_internal_sequence :: json
  r_status :: json
  r_overwrite :: json
  r_warnings :: json
  r_request :: json
  r_configuration :: json
  r_progress :: json
  r_native_outcome :: json
  r_service_outcome :: json
  r_failure :: json
  r_timestamps :: json
  r_shared_paths :: json

definition event_id_of :: "calculation_record \<Rightarrow> ustr" where
  "event_id_of r = str_of (r_event_id r)"

definition sequence_of :: "calculation_record \<Rightarrow> int" where
  "sequence_of r = int_of (r_internal_sequence r)"

definition shared_paths_for :: "settings \<Rightarrow> json \<Rightarrow> exn + json" where
  "shared_paths_for cfg event_id =
     bindE (validate_event_id event_id) (\<lambda>e.
     Inr (jobj [(''input'', JStr (shared_event_input_dir cfg e)),
                (''products'', JStr (shared_event_native_products_dir cfg e)),
                (''provenance'', JNull), (''product_manifest'', JNull),
                (''service_log'', JNull), (''shake_log'', JNull)]))"

definition new_queued_record ::
  "settings \<Rightarrow> ustr \<Rightarrow> json \<Rightarrow> int \<Rightarrow> json \<Rightarrow> bool \<Rightarrow> ustr list \<Rightarrow> json \<Rightarrow> exn + calculation_record"
where
  "new_queued_record cfg submitted_at event_id internal_sequence selected_configuration
       overwrite warnings input_mode =
     bindE (shared_paths_for cfg event_id) (\<lambda>shared.
     Inr \<lparr>r_schema_version = JInt 1,
          r_event_id = event_id,
          r_internal_sequence = JInt internal_sequence,
          r_status = jstr ''QUEUED'',
          r_overwrite = JBool overwrite,
          r_warnings = JList (map JStr warnings),
          r_request = jobj [(''snapshot'', jstr ''request''),
                            (''manifest'', jstr ''request-manifest.json''),
                            (''input_mode'', input_mode)],
          r_configuration = jobj [(''selected'', selected_configuration)],
          r_progress = jobj [(''phase'', JNull), (''phase_started_at'', JNull),
                             (''module_plan'', JList (map JStr (module_plan cfg))),
                             (''current_module'', JNull), (''completed_modules'', JList [])],
          r_native_outcome = JNull,
          r_service_outcome = JNull,
          r_failure = JNull,
          r_timestamps = jobj [(''submitted_at'', JStr submitted_at), (''started_at'', JNull),
                               (''native_started_at'', JNull), (''native_finished_at'', JNull),
                               (''completed_at'', JNull)],
          r_shared_paths = shared\<rparr>)"

section \<open>Field validators\<close>

definition require_exact_keys :: "json \<Rightarrow> string list \<Rightarrow> string \<Rightarrow> exn + json" where
  "require_exact_keys value ks label =
     bindE (guardE (is_dict value) ValueError (label @ '' must be an object'')) (\<lambda>_.
     bindE (guardE (has_exact_keys value ks) ValueError (label @ '' fields are invalid'')) (\<lambda>_.
     Inr value))"

definition validate_optional_text :: "json \<Rightarrow> string \<Rightarrow> exn + unit" where
  "validate_optional_text value label =
     guardE (value = JNull \<or> is_str value) ValueError (label @ '' must be a string or null'')"

definition validate_timestamp :: "json \<Rightarrow> string \<Rightarrow> bool \<Rightarrow> exn + unit" where
  "validate_timestamp value label required =
     (if value = JNull \<and> \<not> required then Inr ()
      else bindE (guardE (is_str value \<and> rfc3339_shape (str_of value)) ValueError
                    (label @ '' must be an RFC 3339 UTC timestamp ending in Z'')) (\<lambda>_.
           guardE (fromisoformat_ok (str_of value)) ValueError
             (label @ '' is not a valid timestamp'')))"

text \<open>\<open>value not in {...}\<close> on a set literal raises \<open>TypeError\<close> for an unhashable value.\<close>

definition require_member :: "json \<Rightarrow> json list \<Rightarrow> string \<Rightarrow> exn + unit" where
  "require_member value allowed msg =
     bindE (guardE (hashable value) TypeError ''unhashable type'') (\<lambda>_.
     guardE (value \<in> set allowed) ValueError msg)"

section \<open>The record validator, section by section\<close>

definition validate_identity ::
  "calculation_record \<Rightarrow> int option \<Rightarrow> ustr option \<Rightarrow> exn + unit" where
  "validate_identity r expected_sequence expected_event_id =
     bindE (guardE (py_eq_int (r_schema_version r) 1) ValueError ''unsupported schema_version'') (\<lambda>_.
     bindE (validate_event_id (r_event_id r)) (\<lambda>_.
     bindE (guardE (is_int (r_internal_sequence r) \<and> 1 \<le> int_of (r_internal_sequence r)) ValueError
              ''internal_sequence must be a positive integer'') (\<lambda>_.
     bindE (guardE (case expected_sequence of None \<Rightarrow> True | Some s \<Rightarrow> r_internal_sequence r = JInt s)
              ValueError ''record sequence does not match queue entry'') (\<lambda>_.
     guardE (case expected_event_id of None \<Rightarrow> True | Some e \<Rightarrow> r_event_id r = JStr e)
       ValueError ''current record event_id does not match''))))"

definition validate_state :: "calculation_record \<Rightarrow> exn + lifecycle_state" where
  "validate_state r =
     bindE (case parse_state (r_status r) of
              None \<Rightarrow> Inl (Exn ValueError ''invalid lifecycle state'') | Some s \<Rightarrow> Inr s) (\<lambda>state.
     bindE (guardE (is_bool (r_overwrite r)) ValueError ''overwrite must be a boolean'') (\<lambda>_.
     bindE (guardE (is_str_list (r_warnings r)) ValueError ''warnings must be a list of strings'') (\<lambda>_.
     Inr state)))"

definition validate_request :: "calculation_record \<Rightarrow> exn + unit" where
  "validate_request r =
     bindE (require_exact_keys (r_request r) [''snapshot'', ''manifest'', ''input_mode''] ''request'')
       (\<lambda>request.
     bindE (guardE (jget request ''snapshot'' = jstr ''request''
                    \<and> jget request ''manifest'' = jstr ''request-manifest.json'')
              ValueError ''request snapshot paths are invalid'') (\<lambda>_.
     bindE (require_member (jget request ''input_mode'')
              [jstr ''directory'', jstr ''upload'', jstr ''mixed''] ''request input_mode is invalid'')
       (\<lambda>_.
     bindE (require_exact_keys (r_configuration r) [''selected''] ''configuration'') (\<lambda>configuration.
     bindE (validate_configuration_name (jget configuration ''selected'')) (\<lambda>_. Inr ())))))"

definition PROGRESS_KEYS :: "string list" where
  "PROGRESS_KEYS =
     [''phase'', ''phase_started_at'', ''module_plan'', ''current_module'', ''completed_modules'']"

definition validate_progress :: "settings \<Rightarrow> calculation_record \<Rightarrow> exn + unit" where
  "validate_progress cfg r =
     bindE (require_exact_keys (r_progress r) PROGRESS_KEYS ''progress'') (\<lambda>p.
     bindE (validate_optional_text (jget p ''phase'') ''progress.phase'') (\<lambda>_.
     bindE (guardE (jget p ''phase'' = JNull \<or> jget p ''phase'' \<in> set (map jstr OPERATIONAL_PHASES))
              ValueError ''progress.phase is not an approved operational phase'') (\<lambda>_.
     bindE (validate_timestamp (jget p ''phase_started_at'') ''progress.phase_started_at'' False) (\<lambda>_.
     bindE (validate_optional_text (jget p ''current_module'') ''progress.current_module'') (\<lambda>_.
     bindE (guardE (is_str_list (jget p ''module_plan'')) ValueError
              ''progress.module_plan must be a list of strings'') (\<lambda>_.
     bindE (guardE (is_str_list (jget p ''completed_modules'')) ValueError
              ''progress.completed_modules must be a list of strings'') (\<lambda>_.
     bindE (guardE (jget p ''module_plan'' = JList (map JStr (module_plan cfg))) ValueError
              ''progress.module_plan differs from the fixed native plan'') (\<lambda>_.
     bindE (guardE (jget p ''current_module'' = JNull
                    \<or> jget p ''current_module'' \<in> set (list_of (jget p ''module_plan''))) ValueError
              ''progress.current_module is not in the native plan'') (\<lambda>_.
     guardE (list_all (\<lambda>m. m \<in> set (list_of (jget p ''module_plan'')))
               (list_of (jget p ''completed_modules''))) ValueError
       ''progress.completed_modules contains an unknown module'')))))))))"

definition TIMESTAMP_KEYS :: "string list" where
  "TIMESTAMP_KEYS =
     [''submitted_at'', ''started_at'', ''native_started_at'', ''native_finished_at'', ''completed_at'']"

definition validate_timestamps :: "calculation_record \<Rightarrow> lifecycle_state \<Rightarrow> exn + unit" where
  "validate_timestamps r state =
     bindE (require_exact_keys (r_timestamps r) TIMESTAMP_KEYS ''timestamps'') (\<lambda>t.
     bindE (validate_timestamp (jget t ''submitted_at'') ''timestamps.submitted_at'' True) (\<lambda>_.
     bindE (mapE (\<lambda>name. validate_timestamp (jget t name) (''timestamps.'' @ name) False)
              [''started_at'', ''native_started_at'', ''native_finished_at'', ''completed_at'']) (\<lambda>_.
     bindE (guardE (\<not> (state = QUEUED
                        \<and> (jget t ''started_at'' \<noteq> JNull \<or> jget t ''completed_at'' \<noteq> JNull)))
              ValueError ''QUEUED records cannot have start or completion timestamps'') (\<lambda>_.
     bindE (guardE (\<not> (state \<noteq> QUEUED \<and> jget t ''started_at'' = JNull)) ValueError
              ''records require a start timestamp'') (\<lambda>_.
     bindE (guardE (\<not> (is_terminal state \<and> jget t ''completed_at'' = JNull)) ValueError
              ''records require a completion timestamp'') (\<lambda>_.
     guardE (\<not> (state = RUNNING \<and> jget t ''completed_at'' \<noteq> JNull)) ValueError
       ''RUNNING records cannot have a completion timestamp''))))))"

definition validate_outcomes :: "calculation_record \<Rightarrow> lifecycle_state \<Rightarrow> exn + unit" where
  "validate_outcomes r state =
     bindE (mapE (\<lambda>v. guardE (v = JNull \<or> is_dict v) ValueError ''must be an object or null'')
              [r_native_outcome r, r_service_outcome r, r_failure r]) (\<lambda>_.
     bindE (guardE (\<not> (state = SUCCESS \<and> r_failure r \<noteq> JNull)) ValueError
              ''SUCCESS records cannot contain a failure'') (\<lambda>_.
     bindE (guardE (\<not> (state = FAILED \<and> r_failure r = JNull)) ValueError
              ''FAILED records require failure evidence'') (\<lambda>_.
     bindE (if state = QUEUED
            then bindE (guardE (jget (r_progress r) ''phase'' = JNull
                                \<and> jget (r_progress r) ''phase_started_at'' = JNull
                                \<and> jget (r_progress r) ''current_module'' = JNull
                                \<and> \<not> truthy (jget (r_progress r) ''completed_modules''))
                          ValueError ''QUEUED records cannot contain execution progress'') (\<lambda>_.
                 guardE (r_native_outcome r = JNull \<and> r_service_outcome r = JNull
                         \<and> r_failure r = JNull)
                   ValueError ''QUEUED records cannot contain execution outcomes'')
            else guardE (jget (r_progress r) ''phase'' \<noteq> JNull
                         \<and> jget (r_progress r) ''phase_started_at'' \<noteq> JNull)
                   ValueError ''records require an operational phase and start timestamp'') (\<lambda>_.
     guardE (\<not> (state = FAILED
                 \<and> jget (r_failure r) ''phase'' \<noteq> jget (r_progress r) ''phase''))
       ValueError ''FAILED record phase and failure.phase must match''))))"

definition SHARED_PATH_KEYS :: "string list" where
  "SHARED_PATH_KEYS =
     [''input'', ''products'', ''provenance'', ''product_manifest'', ''service_log'', ''shake_log'']"

definition expected_service_paths :: "settings \<Rightarrow> ustr \<Rightarrow> (string \<times> ustr) list" where
  "expected_service_paths cfg e =
     [(''provenance'', shared_event_service_path cfg e ''provenance.json''),
      (''product_manifest'', shared_event_service_path cfg e ''product-manifest.json''),
      (''service_log'', shared_event_service_path cfg e ''logs/service.log''),
      (''shake_log'', shared_event_service_path cfg e ''logs/shake.log'')]"

definition validate_shared_paths :: "settings \<Rightarrow> calculation_record \<Rightarrow> exn + unit" where
  "validate_shared_paths cfg r =
     bindE (require_exact_keys (r_shared_paths r) SHARED_PATH_KEYS ''shared_paths'') (\<lambda>shared.
     bindE (mapE (\<lambda>name. validate_optional_text (jget shared name) (''shared_paths.'' @ name))
              SHARED_PATH_KEYS) (\<lambda>_.
     bindE (shared_paths_for cfg (r_event_id r)) (\<lambda>expected.
     bindE (guardE (jget shared ''input'' = jget expected ''input'') ValueError
              ''shared_paths.input does not match event_id'') (\<lambda>_.
     bindE (guardE (jget shared ''products'' = jget expected ''products'') ValueError
              ''shared_paths.products does not match event_id'') (\<lambda>_.
     bindE (mapE (\<lambda>(name, path). guardE (jget shared name \<in> {JNull, JStr path}) ValueError
                    (''shared_paths.'' @ name @ '' does not match event_id''))
              (expected_service_paths cfg (event_id_of r))) (\<lambda>_.
     Inr ()))))))"

definition validate_record ::
  "settings \<Rightarrow> calculation_record \<Rightarrow> int option \<Rightarrow> ustr option \<Rightarrow> exn + unit" where
  "validate_record cfg r expected_sequence expected_event_id =
     bindE (validate_identity r expected_sequence expected_event_id) (\<lambda>_.
     bindE (validate_state r) (\<lambda>state.
     bindE (validate_request r) (\<lambda>_.
     bindE (validate_progress cfg r) (\<lambda>_.
     bindE (validate_timestamps r state) (\<lambda>_.
     bindE (validate_outcomes r state) (\<lambda>_.
     validate_shared_paths cfg r))))))"

section \<open>The JSON form\<close>

definition RECORD_FIELDS :: "string list" where
  "RECORD_FIELDS =
     [''schema_version'', ''event_id'', ''internal_sequence'', ''status'', ''overwrite'',
      ''warnings'', ''request'', ''configuration'', ''progress'', ''native_outcome'',
      ''service_outcome'', ''failure'', ''timestamps'', ''shared_paths'']"

definition record_to_dict :: "calculation_record \<Rightarrow> json" where
  "record_to_dict r = jobj
     [(''schema_version'', r_schema_version r), (''event_id'', r_event_id r),
      (''internal_sequence'', r_internal_sequence r), (''status'', r_status r),
      (''overwrite'', r_overwrite r), (''warnings'', r_warnings r), (''request'', r_request r),
      (''configuration'', r_configuration r), (''progress'', r_progress r),
      (''native_outcome'', r_native_outcome r), (''service_outcome'', r_service_outcome r),
      (''failure'', r_failure r), (''timestamps'', r_timestamps r),
      (''shared_paths'', r_shared_paths r)]"

text \<open>\<open>CalculationRecord(**data)\<close>: every field once and nothing else.\<close>

definition construct_record :: "json \<Rightarrow> exn + calculation_record" where
  "construct_record d =
     bindE (guardE (is_dict d) ValueError ''calculation record is not a JSON object'') (\<lambda>_.
     bindE (guardE (has_exact_keys d RECORD_FIELDS) ValueError
              ''calculation record fields are invalid'') (\<lambda>_.
     Inr \<lparr>r_schema_version = jget d ''schema_version'', r_event_id = jget d ''event_id'',
          r_internal_sequence = jget d ''internal_sequence'', r_status = jget d ''status'',
          r_overwrite = jget d ''overwrite'', r_warnings = jget d ''warnings'',
          r_request = jget d ''request'', r_configuration = jget d ''configuration'',
          r_progress = jget d ''progress'', r_native_outcome = jget d ''native_outcome'',
          r_service_outcome = jget d ''service_outcome'', r_failure = jget d ''failure'',
          r_timestamps = jget d ''timestamps'', r_shared_paths = jget d ''shared_paths''\<rparr>))"

definition dict_to_record :: "settings \<Rightarrow> json \<Rightarrow> exn + calculation_record" where
  "dict_to_record cfg d =
     bindE (construct_record d) (\<lambda>r.
     bindE (validate_record cfg r None None) (\<lambda>_. Inr r))"

end
