(* ===== verification/Store.thy ===== *)
theory Store
  imports Status_Record
begin

text \<open>
  The durable store and the effects on it. The service owns six directory trees under its runtime
  root (\<open>paths.py\<close>); a tree is a \<open>node\<close>, a regular file holds JSON or raw bytes, and \<open>Special\<close> is
  anything a safe open refuses (a symbolic link, a device).

  An effectful computation maps an environment and a world (the store, an operation counter and
  the in-memory object the running operation mutates) to an outcome and a world. The outcome
  \<open>Dead\<close> is the end of the process: no handler and no \<open>finally\<close> runs after it. Every system call
  that changes the store consults the fault oracle of the environment at its own index, so that a
  theorem about all oracles is a theorem about an error or a process death at every operation.
  Reads do not fail spuriously, locks are uncontended (one calculation tree is worked on by one
  thread), and a completed rename is visible after a process death.
\<close>

section \<open>Trees\<close>

datatype content = Json json | Bytes "nat list"

datatype node = File content | Dir "(ustr \<times> node) list" | Special

fun is_file :: "node \<Rightarrow> bool" where
  "is_file (File c) = True" | "is_file n = False"

datatype root = Queue | Events | Archive | Products | Inputs | Service

type_synonym dirc = "(ustr \<times> node) list"
type_synonym fsys = "root \<Rightarrow> dirc"
type_synonym path = "root \<times> ustr list"

fun walk :: "dirc \<Rightarrow> ustr list \<Rightarrow> dirc option" where
  "walk d [] = Some d"
| "walk d (n # p) = (case aget d n of Some (Dir d') \<Rightarrow> walk d' p | _ \<Rightarrow> None)"

fun change_at :: "(dirc \<Rightarrow> dirc) \<Rightarrow> ustr list \<Rightarrow> dirc \<Rightarrow> dirc" where
  "change_at f [] d = f d"
| "change_at f (n # p) d =
     (case aget d n of Some (Dir d') \<Rightarrow> aput n (Dir (change_at f p d')) d | _ \<Rightarrow> d)"

definition dir_at :: "path \<Rightarrow> fsys \<Rightarrow> dirc option" where
  "dir_at p s = walk (s (fst p)) (snd p)"

definition entry_at :: "path \<Rightarrow> ustr \<Rightarrow> fsys \<Rightarrow> node option" where
  "entry_at p n s = (case dir_at p s of None \<Rightarrow> None | Some d \<Rightarrow> aget d n)"

definition update_at :: "path \<Rightarrow> (dirc \<Rightarrow> dirc) \<Rightarrow> fsys \<Rightarrow> fsys" where
  "update_at p f s = s(fst p := change_at f (snd p) (s (fst p)))"

lemma dir_at_simps [simp]:
  "dir_at (r, []) s = Some (s r)"
  "dir_at (r, [n]) s = (case aget (s r) n of Some (Dir d) \<Rightarrow> Some d | _ \<Rightarrow> None)"
  by (simp_all add: dir_at_def split: option.splits node.splits)

lemma update_at_simps [simp]:
  "update_at (r, []) f s = s(r := f (s r))"
  "update_at (r, [n]) f s =
     (case aget (s r) n of Some (Dir d) \<Rightarrow> s(r := aput n (Dir (f d)) (s r)) | _ \<Rightarrow> s)"
  by (simp_all add: update_at_def fun_eq_iff split: option.splits node.splits)

lemma walk_change: "walk d p = Some d' \<Longrightarrow> walk (change_at f p d) p = Some (f d')"
  by (induction p arbitrary: d) (auto split: option.splits node.splits)

lemma change_change:
  "walk d p = Some d' \<Longrightarrow> change_at f p (change_at g p d) = change_at (\<lambda>x. f (g x)) p d"
proof (induction p arbitrary: d)
  case (Cons n p)
  then obtain e where e: "aget d n = Some (Dir e)" "walk e p = Some d'"
    by (auto split: option.splits node.splits)
  with Cons.IH have "change_at f p (change_at g p e) = change_at (\<lambda>x. f (g x)) p e" by blast
  with e show ?case by (simp add: aput_aput)
qed simp

lemma change_const: "walk d p = Some d' \<Longrightarrow> change_at f p d = change_at (\<lambda>_. f d') p d"
  by (induction p arbitrary: d) (auto split: option.splits node.splits)

lemma dir_at_update_at: "dir_at p s = Some d \<Longrightarrow> dir_at p (update_at p f s) = Some (f d)"
  by (simp add: dir_at_def update_at_def walk_change)

lemma update_update_at:
  "dir_at p s = Some d \<Longrightarrow> update_at p f (update_at p g s) = update_at p (\<lambda>x. f (g x)) s"
  by (auto simp: dir_at_def update_at_def fun_eq_iff change_change)

lemma change_id: "change_at (\<lambda>x. x) p d = d"
proof (induction p arbitrary: d)
  case (Cons n p)
  then show ?case by (auto simp: aput_same split: option.splits node.splits)
qed simp

lemma update_at_id: "update_at p (\<lambda>x. x) s = s"
  by (simp add: update_at_def change_id)

lemma update_at_const: "dir_at p s = Some d \<Longrightarrow> update_at p f s = update_at p (\<lambda>_. f d) s"
  unfolding update_at_def dir_at_def using change_const by metis

section \<open>Computations\<close>

datatype fault = Proceed | Fails nat | Dies nat

record env =
  cfg :: settings
  fault_at :: "nat \<Rightarrow> fault"
  time_at :: "nat \<Rightarrow> datetime"
  uuid_at :: "nat \<Rightarrow> ustr"
  sha256 :: "nat list \<Rightarrow> ustr"
  encoded :: "json \<Rightarrow> nat list"
  printable :: "nat \<Rightarrow> bool"
  same_device :: bool

record 'm world =
  fs :: fsys
  clock :: nat
  mem :: 'm

datatype 'a outcome = Val 'a | Exc exn | Dead

type_synonym ('m, 'a) io = "env \<Rightarrow> 'm world \<Rightarrow> 'a outcome \<times> 'm world"

definition ret :: "'a \<Rightarrow> ('m, 'a) io" where
  "ret x = (\<lambda>E w. (Val x, w))"

definition raise :: "exn_kind \<Rightarrow> string \<Rightarrow> ('m, 'a) io" where
  "raise k msg = (\<lambda>E w. (Exc (Exn k msg), w))"

definition reraise :: "exn \<Rightarrow> ('m, 'a) io" where
  "reraise e = (\<lambda>E w. (Exc e, w))"

definition bindM :: "('m, 'a) io \<Rightarrow> ('a \<Rightarrow> ('m, 'b) io) \<Rightarrow> ('m, 'b) io" where
  "bindM m f = (\<lambda>E w. case m E w of
       (Val x, w') \<Rightarrow> f x E w' | (Exc e, w') \<Rightarrow> (Exc e, w') | (Dead, w') \<Rightarrow> (Dead, w'))"

definition thenM :: "('m, 'a) io \<Rightarrow> ('m, 'b) io \<Rightarrow> ('m, 'b) io" where
  "thenM m n = bindM m (\<lambda>_. n)"

definition catchM :: "('m, 'a) io \<Rightarrow> (exn \<Rightarrow> ('m, 'a) io) \<Rightarrow> ('m, 'a) io" where
  "catchM m h = (\<lambda>E w. case m E w of
       (Val x, w') \<Rightarrow> (Val x, w') | (Exc e, w') \<Rightarrow> h e E w' | (Dead, w') \<Rightarrow> (Dead, w'))"

text \<open>\<open>try: m\<close> with every \<open>Exception\<close> turned into a value.\<close>

definition attempt :: "('m, 'a) io \<Rightarrow> ('m, exn + 'a) io" where
  "attempt m = catchM (bindM m (\<lambda>x. ret (Inr x))) (\<lambda>e. ret (Inl e))"

text \<open>\<open>try: m finally: f\<close>; an exception of \<open>f\<close> replaces the outcome of \<open>m\<close>.\<close>

definition finallyM :: "('m, 'a) io \<Rightarrow> ('m, unit) io \<Rightarrow> ('m, 'a) io" where
  "finallyM m f =
     bindM (attempt m) (\<lambda>r. thenM f (case r of Inl e \<Rightarrow> reraise e | Inr x \<Rightarrow> ret x))"

definition whenM :: "bool \<Rightarrow> ('m, unit) io \<Rightarrow> ('m, unit) io" where
  "whenM b m = (if b then m else ret ())"

definition check :: "bool \<Rightarrow> exn_kind \<Rightarrow> string \<Rightarrow> ('m, unit) io" where
  "check ok k msg = (if ok then ret () else raise k msg)"

definition liftE :: "exn + 'a \<Rightarrow> ('m, 'a) io" where
  "liftE m = (case m of Inl e \<Rightarrow> reraise e | Inr x \<Rightarrow> ret x)"

definition ask :: "(env \<Rightarrow> 'a) \<Rightarrow> ('m, 'a) io" where
  "ask f = (\<lambda>E w. (Val (f E), w))"

definition observe :: "(env \<Rightarrow> fsys \<Rightarrow> exn + 'a) \<Rightarrow> ('m, 'a) io" where
  "observe f = (\<lambda>E w. case f E (fs w) of Inl e \<Rightarrow> (Exc e, w) | Inr x \<Rightarrow> (Val x, w))"

fun forM :: "'a list \<Rightarrow> ('a \<Rightarrow> ('m, unit) io) \<Rightarrow> ('m, unit) io" where
  "forM [] f = ret ()"
| "forM (x # xs) f = thenM (f x) (forM xs f)"

fun collectM :: "'a list \<Rightarrow> ('a \<Rightarrow> ('m, 'b) io) \<Rightarrow> ('m, 'b list) io" where
  "collectM [] f = ret []"
| "collectM (x # xs) f = bindM (f x) (\<lambda>y. bindM (collectM xs f) (\<lambda>ys. ret (y # ys)))"

text \<open>The in-memory object.\<close>

definition get_mem :: "('m, 'm) io" where
  "get_mem = (\<lambda>E w. (Val (mem w), w))"

definition modify_mem :: "('m \<Rightarrow> 'm) \<Rightarrow> ('m, unit) io" where
  "modify_mem f = (\<lambda>E w. (Val (), w\<lparr>mem := f (mem w)\<rparr>))"

text \<open>\<open>_now_iso()\<close> and \<open>uuid.uuid4().hex\<close>: each reading is a new one.\<close>

definition read_now :: "('m, ustr) io" where
  "read_now = (\<lambda>E w. (Val (now_iso (time_at E (clock w))), w\<lparr>clock := Suc (clock w)\<rparr>))"

definition read_datetime :: "('m, datetime) io" where
  "read_datetime = (\<lambda>E w. (Val (time_at E (clock w)), w\<lparr>clock := Suc (clock w)\<rparr>))"

definition read_uuid :: "('m, ustr) io" where
  "read_uuid = (\<lambda>E w. (Val (uuid_at E (clock w)), w\<lparr>clock := Suc (clock w)\<rparr>))"

section \<open>System calls\<close>

definition injected :: exn where
  "injected = Exn OSError ''operation failed''"

text \<open>
  \<open>op\<close> is the call's effect or its error; \<open>part n\<close> is what a failed or interrupted call may leave
  behind (only the recursive removal leaves anything).
\<close>

definition sys :: "(fsys \<Rightarrow> exn + fsys) \<Rightarrow> (nat \<Rightarrow> fsys \<Rightarrow> fsys) \<Rightarrow> ('m, unit) io" where
  "sys op part = (\<lambda>E w.
     let w1 = w\<lparr>clock := Suc (clock w)\<rparr> in
     case fault_at E (clock w) of
       Proceed \<Rightarrow> (case op (fs w) of
                     Inl e \<Rightarrow> (Exc e, w1) | Inr s \<Rightarrow> (Val (), w1\<lparr>fs := s\<rparr>))
     | Fails n \<Rightarrow> (Exc injected, w1\<lparr>fs := part n (fs w)\<rparr>)
     | Dies n \<Rightarrow> (Dead, w1\<lparr>fs := part n (fs w)\<rparr>))"

definition untouched :: "nat \<Rightarrow> fsys \<Rightarrow> fsys" where
  "untouched n s = s"

definition not_found :: exn where
  "not_found = Exn FileNotFoundError ''no such file or directory''"

definition mkdir_effect :: "path \<Rightarrow> ustr \<Rightarrow> fsys \<Rightarrow> exn + fsys" where
  "mkdir_effect p n s =
     (case dir_at p s of
        None \<Rightarrow> Inl not_found
      | Some d \<Rightarrow>
          if aget d n \<noteq> None then Inl (Exn FileExistsError ''file exists'')
          else Inr (update_at p (aput n (Dir [])) s))"

text \<open>\<open>O_CREAT | O_EXCL\<close>.\<close>

definition create_effect :: "path \<Rightarrow> ustr \<Rightarrow> fsys \<Rightarrow> exn + fsys" where
  "create_effect p n s =
     (case dir_at p s of
        None \<Rightarrow> Inl not_found
      | Some d \<Rightarrow>
          if aget d n \<noteq> None then Inl (Exn FileExistsError ''file exists'')
          else Inr (update_at p (aput n (File (Bytes []))) s))"

text \<open>The same for a name with a fresh \<open>uuid4\<close> part, which is taken not to exist.\<close>

definition create_private_effect :: "path \<Rightarrow> ustr \<Rightarrow> fsys \<Rightarrow> exn + fsys" where
  "create_private_effect p n s =
     (case dir_at p s of
        None \<Rightarrow> Inl not_found
      | Some d \<Rightarrow> Inr (update_at p (aput n (File (Bytes []))) s))"

text \<open>Writing the whole payload through the descriptor \<open>create_effect\<close> opened.\<close>

definition write_effect :: "path \<Rightarrow> ustr \<Rightarrow> content \<Rightarrow> fsys \<Rightarrow> exn + fsys" where
  "write_effect p n c s = Inr (update_at p (aput n (File c)) s)"

definition unlink_effect :: "path \<Rightarrow> ustr \<Rightarrow> fsys \<Rightarrow> exn + fsys" where
  "unlink_effect p n s =
     (case entry_at p n s of
        None \<Rightarrow> Inl not_found
      | Some (Dir d) \<Rightarrow> Inl (Exn OSError ''is a directory'')
      | Some _ \<Rightarrow> Inr (update_at p (adel n) s))"

text \<open>\<open>rename(2)\<close>: a directory replaces only an empty directory, a file never a directory.\<close>

fun rename_allowed :: "node \<Rightarrow> node option \<Rightarrow> bool" where
  "rename_allowed src None = True"
| "rename_allowed (Dir d) (Some (Dir d')) = (d' = [])"
| "rename_allowed (Dir d) (Some other) = False"
| "rename_allowed src (Some (Dir d')) = False"
| "rename_allowed src (Some other) = True"

definition rename_effect :: "path \<Rightarrow> ustr \<Rightarrow> path \<Rightarrow> ustr \<Rightarrow> fsys \<Rightarrow> exn + fsys" where
  "rename_effect p n p' n' s =
     (case (entry_at p n s, dir_at p' s) of
        (Some v, Some d') \<Rightarrow>
          if rename_allowed v (aget d' n')
          then Inr (update_at p' (aput n' v) (update_at p (adel n) s))
          else Inl (Exn OSError ''rename target is in the way'')
      | _ \<Rightarrow> Inl not_found)"

definition rmtree_effect :: "path \<Rightarrow> ustr \<Rightarrow> fsys \<Rightarrow> exn + fsys" where
  "rmtree_effect p n s =
     (case entry_at p n s of
        None \<Rightarrow> Inl not_found
      | Some (Dir d) \<Rightarrow> Inr (update_at p (adel n) s)
      | Some _ \<Rightarrow> Inl (Exn OSError ''not a directory''))"

definition rmtree_part :: "path \<Rightarrow> ustr \<Rightarrow> nat \<Rightarrow> fsys \<Rightarrow> fsys" where
  "rmtree_part p n k s =
     (case entry_at p n s of
        Some (Dir d) \<Rightarrow> update_at p (aput n (Dir (drop k d))) s
      | _ \<Rightarrow> s)"

text \<open>
  A hard link of a file. Files are replaced, never written again, once they have two names, so the
  link is the file's contents under a second name.
\<close>

definition link_effect :: "path \<Rightarrow> ustr \<Rightarrow> path \<Rightarrow> ustr \<Rightarrow> fsys \<Rightarrow> exn + fsys" where
  "link_effect p n p' n' s =
     (case (entry_at p n s, dir_at p' s) of
        (Some (Dir d), _) \<Rightarrow> Inl (Exn OSError ''operation not permitted'')
      | (Some v, Some d') \<Rightarrow>
          if aget d' n' \<noteq> None then Inl (Exn FileExistsError ''file exists'')
          else Inr (update_at p' (aput n' v) s)
      | _ \<Rightarrow> Inl not_found)"

definition rmdir_effect :: "path \<Rightarrow> ustr \<Rightarrow> fsys \<Rightarrow> exn + fsys" where
  "rmdir_effect p n s =
     (case entry_at p n s of
        None \<Rightarrow> Inl not_found
      | Some (Dir []) \<Rightarrow> Inr (update_at p (adel n) s)
      | Some _ \<Rightarrow> Inl (Exn OSError ''not an empty directory''))"

definition link :: "path \<Rightarrow> ustr \<Rightarrow> path \<Rightarrow> ustr \<Rightarrow> ('m, unit) io" where
  "link p n p' n' = sys (link_effect p n p' n') untouched"

definition rmdir :: "path \<Rightarrow> ustr \<Rightarrow> ('m, unit) io" where
  "rmdir p n = sys (rmdir_effect p n) untouched"

definition mkdir :: "path \<Rightarrow> ustr \<Rightarrow> ('m, unit) io" where
  "mkdir p n = sys (mkdir_effect p n) untouched"

definition create_file :: "path \<Rightarrow> ustr \<Rightarrow> ('m, unit) io" where
  "create_file p n = sys (create_effect p n) untouched"

definition create_private :: "path \<Rightarrow> ustr \<Rightarrow> ('m, unit) io" where
  "create_private p n = sys (create_private_effect p n) untouched"

definition write_file :: "path \<Rightarrow> ustr \<Rightarrow> content \<Rightarrow> ('m, unit) io" where
  "write_file p n c = sys (write_effect p n c) untouched"

definition unlink :: "path \<Rightarrow> ustr \<Rightarrow> ('m, unit) io" where
  "unlink p n = sys (unlink_effect p n) untouched"

definition rename :: "path \<Rightarrow> ustr \<Rightarrow> path \<Rightarrow> ustr \<Rightarrow> ('m, unit) io" where
  "rename p n p' n' = sys (rename_effect p n p' n') untouched"

definition rmtree :: "path \<Rightarrow> ustr \<Rightarrow> ('m, unit) io" where
  "rmtree p n = sys (rmtree_effect p n) (rmtree_part p n)"

definition fsync :: "('m, unit) io" where
  "fsync = sys Inr untouched"

section \<open>Publishing a JSON file\<close>

text \<open>
  The write-temporary, sync, rename, sync-directory sequence that \<open>status.json\<close> and
  \<open>transaction.json\<close> are written with. When the rename has not happened the temporary file is
  removed; \<open>swallow\<close> says which errors of that removal are ignored.
\<close>

definition publish_json :: "(exn \<Rightarrow> bool) \<Rightarrow> string \<Rightarrow> path \<Rightarrow> ustr \<Rightarrow> json \<Rightarrow> ('m, unit) io" where
  "publish_json swallow prefix p target j =
     bindM read_uuid (\<lambda>u.
     let tmp = lit prefix @ u @ lit ''.tmp'' in
     thenM (create_private p tmp)
    (thenM (catchM (thenM (write_file p tmp (Json j)) (thenM fsync (rename p tmp p target)))
              (\<lambda>e. thenM (catchM (unlink p tmp) (\<lambda>e'. if swallow e' then ret () else reraise e'))
                         (reraise e)))
            fsync))"

section \<open>Reads\<close>

definition open_regular :: "path \<Rightarrow> ustr \<Rightarrow> exn_kind \<Rightarrow> fsys \<Rightarrow> exn + content" where
  "open_regular p n k s =
     (case entry_at p n s of
        Some (File c) \<Rightarrow> Inr c
      | Some _ \<Rightarrow> Inl (Exn k ''not a regular file'')
      | None \<Rightarrow> Inl (Exn k ''missing or unsafe''))"

definition read_json :: "path \<Rightarrow> ustr \<Rightarrow> exn_kind \<Rightarrow> fsys \<Rightarrow> exn + json" where
  "read_json p n k s =
     bindE (open_regular p n k s) (\<lambda>c.
       case c of Json j \<Rightarrow> Inr j | Bytes b \<Rightarrow> Inl (Exn k ''malformed JSON''))"

end
