(* ===== verification/Triples.thy ===== *)
theory Triples
  imports Store
begin

text \<open>
  Total-outcome triples over the store: \<open>triple E P m Q X\<close> says that from a store satisfying \<open>P\<close>
  the computation \<open>m\<close> ends with a value satisfying \<open>Q\<close>, or with an exception or a process death
  (\<open>None\<close>) satisfying \<open>X\<close>. Nothing is assumed of the fault oracle in \<open>E\<close> unless \<open>quiet E\<close> is:
  so a triple covers an error and a death at every operation of \<open>m\<close>.
\<close>

definition triple ::
  "env \<Rightarrow> (fsys \<Rightarrow> bool) \<Rightarrow> ('m, 'a) io \<Rightarrow> ('a \<Rightarrow> fsys \<Rightarrow> bool) \<Rightarrow> (exn option \<Rightarrow> fsys \<Rightarrow> bool) \<Rightarrow> bool"
where
  "triple E P m Q X \<longleftrightarrow> (\<forall>w. P (fs w) \<longrightarrow>
     (case m E w of
        (Val x, w') \<Rightarrow> Q x (fs w')
      | (Exc e, w') \<Rightarrow> X (Some e) (fs w')
      | (Dead, w') \<Rightarrow> X None (fs w')))"

definition quiet :: "env \<Rightarrow> bool" where
  "quiet E \<longleftrightarrow> (\<forall>k. fault_at E k = Proceed)"

definition clock_valid :: "env \<Rightarrow> bool" where
  "clock_valid E \<longleftrightarrow> (\<forall>k. valid_datetime (time_at E k))"

named_theorems triple_rules \<open>structural rules for triples\<close>

lemma tripleI:
  "(\<And>w. P (fs w) \<Longrightarrow> case m E w of
        (Val x, w') \<Rightarrow> Q x (fs w') | (Exc e, w') \<Rightarrow> X (Some e) (fs w') | (Dead, w') \<Rightarrow> X None (fs w'))
   \<Longrightarrow> triple E P m Q X"
  by (simp add: triple_def)

lemma tripleD:
  assumes "triple E P m Q X" "P (fs w)"
  shows "m E w = (Val x, w') \<Longrightarrow> Q x (fs w')" "m E w = (Exc e, w') \<Longrightarrow> X (Some e) (fs w')"
    "m E w = (Dead, w') \<Longrightarrow> X None (fs w')"
  using assms by (auto simp: triple_def)

lemma triple_weaken:
  fixes m :: "('m, 'a) io"
  assumes "triple E P m Q X" "\<And>s. P' s \<Longrightarrow> P s" "\<And>x s. Q x s \<Longrightarrow> Q' x s" "\<And>e s. X e s \<Longrightarrow> X' e s"
  shows "triple E P' m Q' X'"
proof (rule tripleI)
  fix w :: "'m world" assume "P' (fs w)"
  with assms(1,2) have "case m E w of
      (Val x, w') \<Rightarrow> Q x (fs w') | (Exc e, w') \<Rightarrow> X (Some e) (fs w') | (Dead, w') \<Rightarrow> X None (fs w')"
    by (simp add: triple_def)
  then show "case m E w of
      (Val x, w') \<Rightarrow> Q' x (fs w') | (Exc e, w') \<Rightarrow> X' (Some e) (fs w') | (Dead, w') \<Rightarrow> X' None (fs w')"
    using assms(3,4) by (auto split: outcome.splits prod.splits)
qed

lemma triple_pre: "triple E P m Q X \<Longrightarrow> (\<And>s. P' s \<Longrightarrow> P s) \<Longrightarrow> triple E P' m Q X"
  by (rule triple_weaken)

lemma triple_post: "triple E P m Q X \<Longrightarrow> (\<And>x s. Q x s \<Longrightarrow> Q' x s) \<Longrightarrow> triple E P m Q' X"
  by (rule triple_weaken)

lemma triple_pure: "(b \<Longrightarrow> triple E P m Q X) \<Longrightarrow> triple E (\<lambda>s. b \<and> P s) m Q X"
  by (simp add: triple_def)

lemma triple_ex:
  fixes m :: "('m, 'a) io"
  assumes "\<And>a. triple E (P a) m Q X"
  shows "triple E (\<lambda>s. \<exists>a. P a s) m Q X"
proof (rule tripleI)
  fix w :: "'m world" assume "\<exists>a. P a (fs w)"
  then obtain a where "P a (fs w)" ..
  with assms [of a] show "case m E w of (Val x, w') \<Rightarrow> Q x (fs w')
      | (Exc e, w') \<Rightarrow> X (Some e) (fs w') | (Dead, w') \<Rightarrow> X None (fs w')"
    by (simp add: triple_def)
qed

lemma triple_fixed:
  fixes m :: "('m, 'a) io"
  assumes "\<And>s0. P s0 \<Longrightarrow> triple E (\<lambda>s. s = s0) m Q X"
  shows "triple E P m Q X"
proof (rule tripleI)
  fix w :: "'m world" assume "P (fs w)"
  with assms [of "fs w"] show "case m E w of (Val x, w') \<Rightarrow> Q x (fs w')
      | (Exc e, w') \<Rightarrow> X (Some e) (fs w') | (Dead, w') \<Rightarrow> X None (fs w')"
    by (simp add: triple_def)
qed

lemma triple_conj:
  "triple E P m Q X \<Longrightarrow> triple E P' m Q' X' \<Longrightarrow>
    triple E (\<lambda>s. P s \<and> P' s) m (\<lambda>x s. Q x s \<and> Q' x s) (\<lambda>e s. X e s \<and> X' e s)"
  unfolding triple_def by (auto split: outcome.splits prod.splits)

lemma triple_all:
  fixes m :: "('m, 'a) io"
  assumes "\<And>a. triple E (P a) m (Q a) (X a)"
  shows "triple E (\<lambda>s. \<forall>a. P a s) m (\<lambda>x s. \<forall>a. Q a x s) (\<lambda>e s. \<forall>a. X a e s)"
proof (rule tripleI)
  fix w :: "'m world" assume P: "\<forall>a. P a (fs w)"
  obtain r w' where m: "m E w = (r, w')" by fastforce
  with P show "case m E w of (Val x, w') \<Rightarrow> \<forall>a. Q a x (fs w')
      | (Exc e, w') \<Rightarrow> \<forall>a. X a (Some e) (fs w') | (Dead, w') \<Rightarrow> \<forall>a. X a None (fs w')"
    by (cases r) (auto dest: tripleD [OF assms])
qed

lemma triple_ret [triple_rules]: "(\<And>s. P s \<Longrightarrow> Q x s) \<Longrightarrow> triple E P (ret x) Q X"
  by (simp add: triple_def ret_def)

lemma triple_raise [triple_rules]:
  "(\<And>s. P s \<Longrightarrow> X (Some (Exn k m)) s) \<Longrightarrow> triple E P (raise k m) Q X"
  by (simp add: triple_def raise_def)

lemma triple_reraise [triple_rules]:
  "(\<And>s. P s \<Longrightarrow> X (Some e) s) \<Longrightarrow> triple E P (reraise e) Q X"
  by (simp add: triple_def reraise_def)

lemma triple_bind:
  fixes m :: "('m, 'a) io"
  assumes "triple E P m R X" "\<And>x. triple E (R x) (f x) Q X"
  shows "triple E P (bindM m f) Q X"
proof (rule tripleI)
  fix w :: "'m world" assume P: "P (fs w)"
  obtain r w1 where m: "m E w = (r, w1)" by fastforce
  show "case bindM m f E w of (Val x, w') \<Rightarrow> Q x (fs w') | (Exc e, w') \<Rightarrow> X (Some e) (fs w')
      | (Dead, w') \<Rightarrow> X None (fs w')"
  proof (cases r)
    case (Val x)
    with m P assms(1) have "R x (fs w1)" by (auto dest: tripleD)
    with assms(2) [of x] Val m show ?thesis by (simp add: triple_def bindM_def)
  qed (use m P assms(1) in \<open>auto simp: bindM_def dest: tripleD\<close>)
qed

lemma triple_then:
  "triple E P m (\<lambda>_. R) X \<Longrightarrow> triple E R n Q X \<Longrightarrow> triple E P (thenM m n) Q X"
  unfolding thenM_def by (rule triple_bind)

lemma triple_catch:
  fixes m :: "('m, 'a) io"
  assumes "triple E P m Q (\<lambda>e. case e of None \<Rightarrow> X None | Some e' \<Rightarrow> R e')"
    and "\<And>e. triple E (R e) (h e) Q X"
  shows "triple E P (catchM m h) Q X"
proof (rule tripleI)
  fix w :: "'m world" assume P: "P (fs w)"
  obtain r w1 where m: "m E w = (r, w1)" by fastforce
  show "case catchM m h E w of (Val x, w') \<Rightarrow> Q x (fs w') | (Exc e, w') \<Rightarrow> X (Some e) (fs w')
      | (Dead, w') \<Rightarrow> X None (fs w')"
  proof (cases r)
    case (Exc e)
    with m P assms(1) have "R e (fs w1)" using tripleD(2) by fastforce
    with assms(2) [of e] Exc m show ?thesis by (simp add: triple_def catchM_def)
  next
    case (Val x)
    with m P assms(1) show ?thesis using tripleD(1) by (fastforce simp: catchM_def)
  next
    case Dead
    with m P assms(1) show ?thesis using tripleD(3) by (fastforce simp: catchM_def)
  qed
qed

lemma triple_check [triple_rules]:
  "(\<And>s. P s \<Longrightarrow> ok \<Longrightarrow> Q () s) \<Longrightarrow> (\<And>s. P s \<Longrightarrow> \<not> ok \<Longrightarrow> X (Some (Exn k m)) s) \<Longrightarrow>
    triple E P (check ok k m) Q X"
  by (simp add: triple_def check_def ret_def raise_def)

lemma triple_when [triple_rules]:
  "(b \<Longrightarrow> triple E P m Q X) \<Longrightarrow> (\<And>s. \<not> b \<Longrightarrow> P s \<Longrightarrow> Q () s) \<Longrightarrow> triple E P (whenM b m) Q X"
  by (simp add: whenM_def triple_ret)

lemma triple_if:
  "(b \<Longrightarrow> triple E P m Q X) \<Longrightarrow> (\<not> b \<Longrightarrow> triple E P n Q X) \<Longrightarrow>
    triple E P (if b then m else n) Q X"
  by simp

lemma triple_liftE:
  "(\<And>x s. m = Inr x \<Longrightarrow> P s \<Longrightarrow> Q x s) \<Longrightarrow> (\<And>e s. m = Inl e \<Longrightarrow> P s \<Longrightarrow> X (Some e) s) \<Longrightarrow>
    triple E P (liftE m) Q X"
  by (cases m) (simp_all add: liftE_def triple_def ret_def reraise_def)

lemma triple_ask [triple_rules]: "(\<And>s. P s \<Longrightarrow> Q (f E) s) \<Longrightarrow> triple E P (ask f) Q X"
  by (simp add: triple_def ask_def)

lemma triple_observe:
  "(\<And>s x. P s \<Longrightarrow> f E s = Inr x \<Longrightarrow> Q x s) \<Longrightarrow> (\<And>s e. P s \<Longrightarrow> f E s = Inl e \<Longrightarrow> X (Some e) s) \<Longrightarrow>
    triple E P (observe f) Q X"
  by (auto simp: triple_def observe_def split: sum.splits)

lemma triple_read_now:
  "(\<And>s k. P s \<Longrightarrow> Q (now_iso (time_at E k)) s) \<Longrightarrow> triple E P read_now Q X"
  by (simp add: triple_def read_now_def)

lemma triple_read_datetime:
  "(\<And>s k. P s \<Longrightarrow> Q (time_at E k) s) \<Longrightarrow> triple E P read_datetime Q X"
  by (simp add: triple_def read_datetime_def)

lemma triple_read_uuid: "(\<And>s u. P s \<Longrightarrow> Q u s) \<Longrightarrow> triple E P read_uuid Q X"
  by (simp add: triple_def read_uuid_def)

lemma triple_sys:
  assumes "\<And>s s'. P s \<Longrightarrow> op s = Inr s' \<Longrightarrow> Q () s'"
    and "\<And>s e. P s \<Longrightarrow> op s = Inl e \<Longrightarrow> X (Some e) s"
    and "\<And>s n. \<not> quiet E \<Longrightarrow> P s \<Longrightarrow> X (Some injected) (part n s) \<and> X None (part n s)"
  shows "triple E P (sys op part) Q X"
  using assms
  by (fastforce simp: triple_def sys_def quiet_def Let_def split: fault.splits sum.splits)

text \<open>A call that cannot fail by itself, on the stores \<open>P\<close> describes.\<close>

lemma triple_sys_ok:
  assumes "\<And>s. P s \<Longrightarrow> \<exists>s'. op s = Inr s' \<and> Q () s'"
    and "\<And>s n. \<not> quiet E \<Longrightarrow> P s \<Longrightarrow> X (Some injected) (part n s) \<and> X None (part n s)"
  shows "triple E P (sys op part) Q X"
proof (rule triple_sys)
  show "P s \<Longrightarrow> op s = Inr s' \<Longrightarrow> Q () s'" for s s' using assms(1) by fastforce
  show "P s \<Longrightarrow> op s = Inl e \<Longrightarrow> X (Some e) s" for s e using assms(1) by fastforce
qed (use assms(2) in blast)

lemma triple_fsync:
  "(\<And>s. P s \<Longrightarrow> Q () s) \<Longrightarrow> (\<And>s. \<not> quiet E \<Longrightarrow> P s \<Longrightarrow> X (Some injected) s \<and> X None s) \<Longrightarrow>
    triple E P fsync Q X"
  unfolding fsync_def by (rule triple_sys_ok) (auto simp: untouched_def)

lemma triple_forM:
  "(\<And>x. x \<in> set xs \<Longrightarrow> triple E P (f x) (\<lambda>_. P) X) \<Longrightarrow> triple E P (forM xs f) (\<lambda>_. P) X"
proof (induction xs)
  case Nil
  then show ?case by (simp add: triple_ret)
next
  case (Cons x xs)
  then show ?case by (auto intro: triple_then)
qed

text \<open>A quiet run from a store that satisfies the triple with an unreachable exit ends normally.\<close>

lemma triple_total:
  assumes "triple E P m Q (\<lambda>_ _. False)" "P (fs w)"
  shows "\<exists>x w'. m E w = (Val x, w') \<and> Q x (fs w')"
proof -
  obtain r w' where m: "m E w = (r, w')" by fastforce
  with assms show ?thesis
    by (cases r) (auto dest: tripleD)
qed

section \<open>Publishing a JSON file\<close>

definition tmp_name :: "ustr \<Rightarrow> bool" where
  "tmp_name n \<longleftrightarrow> starts_with (lit ''.status-'') n \<or> starts_with (lit ''.transaction-'') n
     \<or> starts_with (lit ''.product-manifest-'') n \<or> starts_with (lit ''.provenance-'') n"

text \<open>Equal but for temporary files.\<close>

definition agree :: "dirc \<Rightarrow> dirc \<Rightarrow> bool" where
  "agree d d' \<longleftrightarrow> (\<forall>n. \<not> tmp_name n \<longrightarrow> aget d' n = aget d n)"

lemma agree_refl [simp]: "agree d d"
  by (simp add: agree_def)

lemma agreeD: "agree d d' \<Longrightarrow> \<not> tmp_name n \<Longrightarrow> aget d' n = aget d n"
  by (simp add: agree_def)

lemma starts_with_lit: "starts_with (lit p) (lit s) \<longleftrightarrow> take (length p) s = p"
proof -
  have "take (length p) (lit s) = lit (take (length p) s)"
    by (simp add: lit_def take_map)
  then show ?thesis by (simp add: starts_with_def)
qed

lemma tmp_name_lit:
  "tmp_name (lit s) \<longleftrightarrow> take 8 s = ''.status-'' \<or> take 13 s = ''.transaction-''
     \<or> take 18 s = ''.product-manifest-'' \<or> take 12 s = ''.provenance-''"
  unfolding tmp_name_def starts_with_lit by (simp add: numeral_eq_Suc)

lemma agree_aput_tmp: "tmp_name t \<Longrightarrow> agree d d' \<Longrightarrow> agree d (aput t v d')"
  by (auto simp: agree_def)

lemma agree_adel_tmp: "tmp_name t \<Longrightarrow> agree d d' \<Longrightarrow> agree d (adel t d')"
  by (auto simp: agree_def)

text \<open>\<open>put_dir p d' s0\<close> is \<open>s0\<close> with the directory at \<open>p\<close> replaced by \<open>d'\<close>.\<close>

definition put_dir :: "path \<Rightarrow> dirc \<Rightarrow> fsys \<Rightarrow> fsys" where
  "put_dir p d s = update_at p (\<lambda>_. d) s"

lemma put_dir_put_dir: "dir_at p s = Some d \<Longrightarrow> put_dir p d2 (put_dir p d1 s) = put_dir p d2 s"
  by (simp add: put_dir_def update_update_at)

lemma dir_at_put_dir: "dir_at p s = Some d \<Longrightarrow> dir_at p (put_dir p d' s) = Some d'"
  by (simp add: put_dir_def dir_at_update_at)

lemma update_put_dir:
  "dir_at p s = Some d \<Longrightarrow> update_at p f (put_dir p d' s) = put_dir p (f d') s"
  by (simp add: put_dir_def update_update_at)

lemma put_dir_change: "dir_at p s = Some d \<Longrightarrow> update_at p f s = put_dir p (f d) s"
  unfolding put_dir_def by (rule update_at_const)

definition dir_in :: "path \<Rightarrow> fsys \<Rightarrow> (dirc \<Rightarrow> bool) \<Rightarrow> fsys \<Rightarrow> bool" where
  "dir_in p s0 A s \<longleftrightarrow> (\<exists>d. s = put_dir p d s0 \<and> A d)"

lemma dir_in_start: "dir_at p s0 = Some d \<Longrightarrow> A d \<Longrightarrow> dir_in p s0 A s0"
  using put_dir_change [of p s0 d "\<lambda>x. x"]
  by (metis change_const dir_at_def dir_in_def fun_upd_triv put_dir_def update_at_def update_at_id)

lemma dir_inI: "A d' \<Longrightarrow> dir_in p s0 A (put_dir p d' s0)"
  by (auto simp: dir_in_def)

lemma dir_inE:
  assumes "dir_in p s0 A s"
  obtains d' where "s = put_dir p d' s0" "A d'"
  using assms by (auto simp: dir_in_def)

lemma dir_in_mono: "dir_in p s0 A s \<Longrightarrow> (\<And>d. A d \<Longrightarrow> B d) \<Longrightarrow> dir_in p s0 B s"
  by (auto simp: dir_in_def)

text \<open>The three states of the temporary file: absent, present, holding the payload.\<close>

definition tmp_made :: "dirc \<Rightarrow> ustr \<Rightarrow> dirc \<Rightarrow> bool" where
  "tmp_made d t d' \<longleftrightarrow> agree d d' \<and> (\<exists>c. aget d' t = Some (File c))"

definition tmp_full :: "dirc \<Rightarrow> ustr \<Rightarrow> json \<Rightarrow> dirc \<Rightarrow> bool" where
  "tmp_full d t j d' \<longleftrightarrow> agree d d' \<and> aget d' t = Some (File (Json j))"

lemma tmp_full_made: "tmp_full d t j d' \<Longrightarrow> tmp_made d t d'"
  by (auto simp: tmp_full_def tmp_made_def)

lemma dir_in_full_made: "dir_in p s0 (tmp_full d t j) s \<Longrightarrow> dir_in p s0 (tmp_made d t) s"
  by (auto elim: dir_in_mono intro: tmp_full_made)

lemma dir_in_made_agree:
  "dir_in p s0 (tmp_made d t) s \<Longrightarrow> dir_in p s0 (\<lambda>d'. agree d d' \<or> B d') s"
  by (auto elim: dir_in_mono simp: tmp_made_def)

lemma publish_create:
  assumes at: "dir_at p s0 = Some d" and t: "tmp_name t"
  shows "triple E (\<lambda>s. s = s0) (create_private p t) (\<lambda>_. dir_in p s0 (tmp_made d t))
     (\<lambda>_ s. \<not> quiet E \<and> dir_in p s0 (agree d) s)"
  unfolding create_private_def
proof (rule triple_sys_ok)
  fix s assume s: "s = s0"
  have "create_private_effect p t s = Inr (put_dir p (aput t (File (Bytes [])) d) s0)"
    by (simp add: create_private_effect_def s at put_dir_change)
  then show "\<exists>s'. create_private_effect p t s = Inr s' \<and> dir_in p s0 (tmp_made d t) s'"
    by (auto simp: tmp_made_def agree_aput_tmp t intro!: dir_inI)
qed (auto simp: untouched_def dir_in_start at)

lemma publish_write:
  assumes at: "dir_at p s0 = Some d" and t: "tmp_name t"
  shows "triple E (dir_in p s0 (tmp_made d t)) (write_file p t (Json j)) (\<lambda>_. dir_in p s0 (tmp_full d t j))
     (\<lambda>_ s. \<not> quiet E \<and> dir_in p s0 (tmp_made d t) s)"
  unfolding write_file_def
proof (rule triple_sys_ok)
  fix s assume "dir_in p s0 (tmp_made d t) s"
  then obtain d' where s: "s = put_dir p d' s0" and d': "tmp_made d t d'" by (rule dir_inE)
  have "write_effect p t (Json j) s = Inr (put_dir p (aput t (File (Json j)) d') s0)"
    by (simp add: write_effect_def s update_put_dir [OF at])
  moreover have "tmp_full d t j (aput t (File (Json j)) d')"
    using d' t by (simp add: tmp_full_def tmp_made_def agree_aput_tmp)
  ultimately show "\<exists>s'. write_effect p t (Json j) s = Inr s' \<and> dir_in p s0 (tmp_full d t j) s'"
    by (auto intro!: dir_inI)
qed (simp add: untouched_def)

lemma publish_unlink:
  assumes at: "dir_at p s0 = Some d" and t: "tmp_name t"
  shows "triple E (\<lambda>s. \<not> quiet E \<and> dir_in p s0 (tmp_made d t) s) (unlink p t)
     (\<lambda>_ s. \<not> quiet E \<and> dir_in p s0 (agree d) s) (\<lambda>_ s. \<not> quiet E \<and> dir_in p s0 (agree d) s)"
  unfolding unlink_def
proof (rule triple_sys_ok)
  fix s assume a: "\<not> quiet E \<and> dir_in p s0 (tmp_made d t) s"
  then obtain d' c where s: "s = put_dir p d' s0" and d': "agree d d'" "aget d' t = Some (File c)"
    unfolding tmp_made_def by (blast elim: dir_inE)
  have "unlink_effect p t s = Inr (put_dir p (adel t d') s0)"
    by (simp add: unlink_effect_def entry_at_def s dir_at_put_dir [OF at] d' update_put_dir [OF at])
  then show "\<exists>s'. unlink_effect p t s = Inr s' \<and> \<not> quiet E \<and> dir_in p s0 (agree d) s'"
    using a d' by (auto intro!: dir_inI agree_adel_tmp t)
qed (auto simp: untouched_def tmp_made_def elim: dir_in_mono)

lemma publish_rename:
  assumes at: "dir_at p s0 = Some d" and t: "tmp_name t"
    and target: "\<not> tmp_name target" "\<And>d'. aget d target \<noteq> Some (Dir d')"
  shows "triple E (dir_in p s0 (tmp_full d t j)) (rename p t p target)
     (\<lambda>_. dir_in p s0 (agree (aput target (File (Json j)) d)))
     (\<lambda>_ s. \<not> quiet E \<and> dir_in p s0 (tmp_made d t) s)"
  unfolding rename_def
proof (rule triple_sys_ok)
  fix s assume "dir_in p s0 (tmp_full d t j) s"
  then obtain d' where s: "s = put_dir p d' s0" and d': "agree d d'" "aget d' t = Some (File (Json j))"
    unfolding tmp_full_def by (blast elim: dir_inE)
  have "t \<noteq> target" using t target(1) by auto
  moreover have "rename_allowed (File (Json j)) (aget d' target)"
    using target agreeD [OF d'(1) target(1)]
    by (cases "aget d target"; cases "the (aget d target)") auto
  ultimately have "rename_effect p t p target s
      = Inr (put_dir p (aput target (File (Json j)) (adel t d')) s0)"
    by (simp add: rename_effect_def entry_at_def s dir_at_put_dir [OF at] d' update_put_dir [OF at])
  moreover have "agree (aput target (File (Json j)) d) (aput target (File (Json j)) (adel t d'))"
    using d' t by (auto simp: agree_def)
  ultimately show "\<exists>s'. rename_effect p t p target s = Inr s'
      \<and> dir_in p s0 (agree (aput target (File (Json j)) d)) s'"
    by (auto intro!: dir_inI)
qed (auto simp: untouched_def elim: dir_in_mono intro: tmp_full_made)

lemma triple_publish:
  assumes at: "dir_at p s0 = Some d"
    and tmp: "\<not> tmp_name target" "\<And>u. tmp_name (lit prefix @ u @ lit ''.tmp'')"
    and target: "\<And>d'. aget d target \<noteq> Some (Dir d')"
  shows "triple E (\<lambda>s. s = s0) (publish_json swallow prefix p target j)
     (\<lambda>_. dir_in p s0 (agree (aput target (File (Json j)) d)))
     (\<lambda>_ s. \<not> quiet E \<and> dir_in p s0 (\<lambda>d'. agree d d' \<or> agree (aput target (File (Json j)) d) d') s)"
    (is "triple E _ _ ?Q ?X")
proof -
  have "triple E (\<lambda>s. s = s0) (thenM (create_private p t)
      (thenM (catchM (thenM (write_file p t (Json j)) (thenM fsync (rename p t p target)))
              (\<lambda>e. thenM (catchM (unlink p t) (\<lambda>e'. if swallow e' then ret () else reraise e'))
                         (reraise e))) fsync)) ?Q ?X"
    if t: "tmp_name t" for t
  proof (rule triple_then)
    show "triple E (\<lambda>s. s = s0) (create_private p t) (\<lambda>_. dir_in p s0 (tmp_made d t)) ?X"
      by (rule triple_weaken [OF publish_create [OF at t]]) (auto elim: dir_in_mono)
    show "triple E (dir_in p s0 (tmp_made d t))
      (thenM (catchM (thenM (write_file p t (Json j)) (thenM fsync (rename p t p target)))
              (\<lambda>e. thenM (catchM (unlink p t) (\<lambda>e'. if swallow e' then ret () else reraise e'))
                         (reraise e))) fsync) ?Q ?X"
    proof (rule triple_then)
      show "triple E (dir_in p s0 (tmp_made d t))
        (catchM (thenM (write_file p t (Json j)) (thenM fsync (rename p t p target)))
              (\<lambda>e. thenM (catchM (unlink p t) (\<lambda>e'. if swallow e' then ret () else reraise e'))
                         (reraise e))) ?Q ?X"
      proof (rule triple_catch [where R = "\<lambda>_ s. \<not> quiet E \<and> dir_in p s0 (tmp_made d t) s"])
        show "triple E (dir_in p s0 (tmp_made d t))
          (thenM (write_file p t (Json j)) (thenM fsync (rename p t p target))) ?Q
          (\<lambda>e. case e of None \<Rightarrow> ?X None
             | Some e' \<Rightarrow> (\<lambda>s. \<not> quiet E \<and> dir_in p s0 (tmp_made d t) s))"
          by (rule triple_then [OF triple_weaken [OF publish_write [OF at t]]], assumption, assumption)
             (auto split: option.splits intro: dir_in_full_made dir_in_made_agree
                 dir_in_made_agree [OF dir_in_full_made]
               intro!: triple_then [where R = "dir_in p s0 (tmp_full d t j)"] triple_fsync
                 triple_weaken [OF publish_rename [OF at t tmp(1) target]])
        show "triple E (\<lambda>s. \<not> quiet E \<and> dir_in p s0 (tmp_made d t) s)
          (thenM (catchM (unlink p t) (\<lambda>e'. if swallow e' then ret () else reraise e')) (reraise e))
          ?Q ?X" for e
          by (rule triple_then [where R = "\<lambda>s. \<not> quiet E \<and> dir_in p s0 (agree d) s"],
              rule triple_catch [where R = "\<lambda>_ s. \<not> quiet E \<and> dir_in p s0 (agree d) s"],
              rule triple_weaken [OF publish_unlink [OF at t]])
             (auto split: option.splits elim: dir_in_mono intro!: triple_ret triple_reraise)
      qed
    qed (rule triple_fsync, auto elim: dir_in_mono)
  qed
  then show ?thesis
    unfolding publish_json_def Let_def using tmp(2)
    by (intro triple_bind [where R = "\<lambda>_ s. s = s0"] triple_read_uuid) auto
qed

end
