(* ===== verification/Memory_Triples.thy ===== *)
theory Memory_Triples
  imports Triples
begin

text \<open>
  Triples whose assertions also speak of the memory, the in-memory object an operation mutates
  (the open transaction, the scheduler). A computation that keeps the memory has the memory triples
  its store triples give (\<open>mtriple_lift\<close>), so everything proved about the store carries over.
\<close>

definition mtriple ::
  "env \<Rightarrow> ('m \<Rightarrow> fsys \<Rightarrow> bool) \<Rightarrow> ('m, 'a) io \<Rightarrow> ('a \<Rightarrow> 'm \<Rightarrow> fsys \<Rightarrow> bool)
     \<Rightarrow> (exn option \<Rightarrow> 'm \<Rightarrow> fsys \<Rightarrow> bool) \<Rightarrow> bool"
where
  "mtriple E P m Q X \<longleftrightarrow> (\<forall>w. P (mem w) (fs w) \<longrightarrow>
     (case m E w of
        (Val x, w') \<Rightarrow> Q x (mem w') (fs w')
      | (Exc e, w') \<Rightarrow> X (Some e) (mem w') (fs w')
      | (Dead, w') \<Rightarrow> X None (mem w') (fs w')))"

lemma mtripleD:
  assumes "mtriple E P m Q X" "P (mem w) (fs w)"
  shows "m E w = (Val x, w') \<Longrightarrow> Q x (mem w') (fs w')"
    "m E w = (Exc e, w') \<Longrightarrow> X (Some e) (mem w') (fs w')"
    "m E w = (Dead, w') \<Longrightarrow> X None (mem w') (fs w')"
  using assms by (auto simp: mtriple_def)

lemma mtripleI:
  fixes m :: "('m, 'a) io"
  assumes "\<And>w x w'. P (mem w) (fs w) \<Longrightarrow> m E w = (Val x, w') \<Longrightarrow> Q x (mem w') (fs w')"
    and "\<And>w e w'. P (mem w) (fs w) \<Longrightarrow> m E w = (Exc e, w') \<Longrightarrow> X (Some e) (mem w') (fs w')"
    and "\<And>w w'. P (mem w) (fs w) \<Longrightarrow> m E w = (Dead, w') \<Longrightarrow> X None (mem w') (fs w')"
  shows "mtriple E P m Q X"
  using assms by (auto simp: mtriple_def split: prod.splits outcome.splits)

lemma mtriple_weaken:
  fixes m :: "('m, 'a) io"
  assumes "mtriple E P m Q X" "\<And>t s. P' t s \<Longrightarrow> P t s" "\<And>x t s. Q x t s \<Longrightarrow> Q' x t s"
    "\<And>e t s. X e t s \<Longrightarrow> X' e t s"
  shows "mtriple E P' m Q' X'"
  using assms by (intro mtripleI) (blast dest: mtripleD)+

lemma mtriple_pre: "mtriple E P m Q X \<Longrightarrow> (\<And>t s. P' t s \<Longrightarrow> P t s) \<Longrightarrow> mtriple E P' m Q X"
  by (rule mtriple_weaken)

lemma mtriple_post: "mtriple E P m Q X \<Longrightarrow> (\<And>x t s. Q x t s \<Longrightarrow> Q' x t s) \<Longrightarrow> mtriple E P m Q' X"
  by (rule mtriple_weaken)

lemma mtriple_conj:
  "mtriple E P m Q X \<Longrightarrow> mtriple E P' m Q' X' \<Longrightarrow>
    mtriple E (\<lambda>t s. P t s \<and> P' t s) m (\<lambda>x t s. Q x t s \<and> Q' x t s) (\<lambda>e t s. X e t s \<and> X' e t s)"
  unfolding mtriple_def by (auto split: outcome.splits prod.splits)

lemma mtriple_pure: "(b \<Longrightarrow> mtriple E P m Q X) \<Longrightarrow> mtriple E (\<lambda>t s. b \<and> P t s) m Q X"
  by (simp add: mtriple_def)

text \<open>A triple for each memory and store the precondition allows is a triple.\<close>

lemma mtriple_fixed:
  fixes m :: "('m, 'a) io"
  assumes "\<And>t0 s0. P t0 s0 \<Longrightarrow> mtriple E (\<lambda>t s. t = t0 \<and> s = s0) m Q X"
  shows "mtriple E P m Q X"
  using assms by (intro mtripleI) (blast dest: mtripleD)+

section \<open>Structural rules\<close>

lemma mtriple_ret: "(\<And>t s. P t s \<Longrightarrow> Q x t s) \<Longrightarrow> mtriple E P (ret x) Q X"
  by (simp add: mtriple_def ret_def)

lemma mtriple_raise: "(\<And>t s. P t s \<Longrightarrow> X (Some (Exn k m)) t s) \<Longrightarrow> mtriple E P (raise k m) Q X"
  by (simp add: mtriple_def raise_def)

lemma mtriple_reraise: "(\<And>t s. P t s \<Longrightarrow> X (Some e) t s) \<Longrightarrow> mtriple E P (reraise e) Q X"
  by (simp add: mtriple_def reraise_def)

lemma mtriple_bind:
  fixes m :: "('m, 'a) io"
  assumes "mtriple E P m R X" "\<And>x. mtriple E (R x) (f x) Q X"
  shows "mtriple E P (bindM m f) Q X"
proof -
  have "case bindM m f E w of (Val x, w') \<Rightarrow> Q x (mem w') (fs w')
      | (Exc e, w') \<Rightarrow> X (Some e) (mem w') (fs w') | (Dead, w') \<Rightarrow> X None (mem w') (fs w')"
    if P: "P (mem w) (fs w)" for w
  proof -
    obtain r w1 where m: "m E w = (r, w1)" by fastforce
    show ?thesis
    proof (cases r)
      case (Val x)
      with m P assms(1) have "R x (mem w1) (fs w1)" by (auto dest: mtripleD)
      with assms(2) [of x] Val m show ?thesis by (simp add: mtriple_def bindM_def)
    qed (use m P assms(1) in \<open>auto simp: bindM_def dest: mtripleD\<close>)
  qed
  then show ?thesis by (simp add: mtriple_def)
qed

lemma mtriple_then:
  "mtriple E P m (\<lambda>_. R) X \<Longrightarrow> mtriple E R n Q X \<Longrightarrow> mtriple E P (thenM m n) Q X"
  unfolding thenM_def by (rule mtriple_bind)

lemma mtriple_catch:
  fixes m :: "('m, 'a) io"
  assumes "mtriple E P m Q (\<lambda>e. case e of None \<Rightarrow> X None | Some e' \<Rightarrow> R e')"
    and "\<And>e. mtriple E (R e) (h e) Q X"
  shows "mtriple E P (catchM m h) Q X"
proof -
  have "case catchM m h E w of (Val x, w') \<Rightarrow> Q x (mem w') (fs w')
      | (Exc e, w') \<Rightarrow> X (Some e) (mem w') (fs w') | (Dead, w') \<Rightarrow> X None (mem w') (fs w')"
    if P: "P (mem w) (fs w)" for w
  proof -
    obtain r w1 where m: "m E w = (r, w1)" by fastforce
    show ?thesis
    proof (cases r)
      case (Exc e)
      with m P assms(1) have "R e (mem w1) (fs w1)" using mtripleD(2) by fastforce
      with assms(2) [of e] Exc m show ?thesis by (simp add: mtriple_def catchM_def)
    next
      case (Val x)
      with m P assms(1) show ?thesis using mtripleD(1) by (fastforce simp: catchM_def)
    next
      case Dead
      with m P assms(1) show ?thesis using mtripleD(3) by (fastforce simp: catchM_def)
    qed
  qed
  then show ?thesis by (simp add: mtriple_def)
qed

lemma mtriple_check:
  "(\<And>t s. P t s \<Longrightarrow> ok \<Longrightarrow> Q () t s) \<Longrightarrow> (\<And>t s. P t s \<Longrightarrow> \<not> ok \<Longrightarrow> X (Some (Exn k m)) t s) \<Longrightarrow>
    mtriple E P (check ok k m) Q X"
  by (simp add: mtriple_def check_def ret_def raise_def)

lemma mtriple_when:
  "(b \<Longrightarrow> mtriple E P m Q X) \<Longrightarrow> (\<And>t s. \<not> b \<Longrightarrow> P t s \<Longrightarrow> Q () t s) \<Longrightarrow> mtriple E P (whenM b m) Q X"
  by (simp add: whenM_def mtriple_ret)

lemma mtriple_if:
  "(b \<Longrightarrow> mtriple E P m Q X) \<Longrightarrow> (\<not> b \<Longrightarrow> mtriple E P n Q X) \<Longrightarrow>
    mtriple E P (if b then m else n) Q X"
  by simp

lemma mtriple_get: "(\<And>t s. P t s \<Longrightarrow> Q t t s) \<Longrightarrow> mtriple E P get_mem Q X"
  by (simp add: mtriple_def get_mem_def)

text \<open>Reading the memory, with the memory fixed to what was read.\<close>

lemma mtriple_with_mem:
  assumes "\<And>t. mtriple E (\<lambda>t' s. t' = t \<and> P t s) (f t) Q X"
  shows "mtriple E P (bindM get_mem f) Q X"
  by (rule mtriple_bind [where R = "\<lambda>t t' s. t' = t \<and> P t s"]) (auto intro: mtriple_get assms)

lemma mtriple_modify: "(\<And>t s. P t s \<Longrightarrow> Q () (f t) s) \<Longrightarrow> mtriple E P (modify_mem f) Q X"
  by (simp add: mtriple_def modify_mem_def)

lemma mtriple_forM:
  "(\<And>x. x \<in> set xs \<Longrightarrow> mtriple E P (f x) (\<lambda>_. P) X) \<Longrightarrow> mtriple E P (forM xs f) (\<lambda>_. P) X"
proof (induction xs)
  case Nil
  then show ?case by (simp add: mtriple_ret)
next
  case (Cons x xs)
  then show ?case by (auto intro: mtriple_then)
qed

section \<open>Computations that keep the memory\<close>

definition keeps_mem :: "('m, 'a) io \<Rightarrow> bool" where
  "keeps_mem m \<longleftrightarrow> (\<forall>E w. mem (snd (m E w)) = mem w)"

lemma keeps_memD: "keeps_mem m \<Longrightarrow> m E w = (r, w') \<Longrightarrow> mem w' = mem w"
  unfolding keeps_mem_def by (metis snd_conv)

named_theorems keeps \<open>computations that keep the memory\<close>

lemma keeps_basic [keeps]:
  "keeps_mem (ret x)" "keeps_mem (raise k msg)" "keeps_mem (reraise e)" "keeps_mem (check b k msg)"
  "keeps_mem (liftE r)" "keeps_mem (ask f)" "keeps_mem (observe g)" "keeps_mem get_mem"
  "keeps_mem read_now" "keeps_mem read_datetime" "keeps_mem read_uuid"
  by (auto simp: keeps_mem_def ret_def raise_def reraise_def check_def liftE_def ask_def observe_def
      get_mem_def read_now_def read_datetime_def read_uuid_def split: sum.splits)

lemma keeps_sys [keeps]: "keeps_mem (sys op part)"
  by (auto simp: keeps_mem_def sys_def Let_def split: fault.splits sum.splits)

lemma keeps_bind [keeps]: "keeps_mem m \<Longrightarrow> (\<And>x. keeps_mem (f x)) \<Longrightarrow> keeps_mem (bindM m f)"
  by (auto simp: keeps_mem_def bindM_def split: prod.splits outcome.splits) (metis snd_conv)+

lemma keeps_then [keeps]: "keeps_mem m \<Longrightarrow> keeps_mem n \<Longrightarrow> keeps_mem (thenM m n)"
  unfolding thenM_def by (rule keeps_bind)

lemma keeps_catch [keeps]: "keeps_mem m \<Longrightarrow> (\<And>e. keeps_mem (h e)) \<Longrightarrow> keeps_mem (catchM m h)"
  by (auto simp: keeps_mem_def catchM_def split: prod.splits outcome.splits) (metis snd_conv)+

lemma keeps_when [keeps]: "keeps_mem m \<Longrightarrow> keeps_mem (whenM b m)"
  by (simp add: whenM_def keeps)

lemma keeps_if [keeps]: "keeps_mem m \<Longrightarrow> keeps_mem n \<Longrightarrow> keeps_mem (if b then m else n)"
  by simp

lemma keeps_forM [keeps]: "(\<And>x. keeps_mem (f x)) \<Longrightarrow> keeps_mem (forM xs f)"
  by (induction xs) (auto intro: keeps)

lemma keeps_calls [keeps]:
  "keeps_mem (mkdir p n)" "keeps_mem (create_file p n)" "keeps_mem (create_private p n)"
  "keeps_mem (write_file p n c)" "keeps_mem (unlink p n)" "keeps_mem (rename p n p' n')"
  "keeps_mem (rmtree p n)" "keeps_mem fsync"
  by (simp_all add: keeps_sys mkdir_def create_file_def create_private_def write_file_def unlink_def
      rename_def rmtree_def fsync_def)

lemma keeps_publish [keeps]: "keeps_mem (publish_json swallow prefix p target j)"
  unfolding publish_json_def Let_def by (intro keeps)

lemma mtriple_lift:
  fixes m :: "('m, 'a) io"
  assumes "keeps_mem m" "\<And>t. triple E (P t) m (\<lambda>x. Q x t) (\<lambda>e. X e t)"
  shows "mtriple E P m Q X"
proof -
  have "case m E w of (Val x, w') \<Rightarrow> Q x (mem w') (fs w')
      | (Exc e, w') \<Rightarrow> X (Some e) (mem w') (fs w') | (Dead, w') \<Rightarrow> X None (mem w') (fs w')"
    if P: "P (mem w) (fs w)" for w
  proof -
    have "mem (snd (m E w)) = mem w" using assms(1) by (simp add: keeps_mem_def)
    with assms(2) [of "mem w"] P show ?thesis
      by (auto simp: triple_def split: prod.splits outcome.splits)
  qed
  then show ?thesis by (simp add: mtriple_def)
qed

lemma mtriple_observe:
  "(\<And>t s x. P t s \<Longrightarrow> f E s = Inr x \<Longrightarrow> Q x t s) \<Longrightarrow>
    (\<And>t s e. P t s \<Longrightarrow> f E s = Inl e \<Longrightarrow> X (Some e) t s) \<Longrightarrow> mtriple E P (observe f) Q X"
  by (rule mtriple_lift) (auto intro: keeps triple_observe)

lemma mtriple_liftE:
  "(\<And>x t s. m = Inr x \<Longrightarrow> P t s \<Longrightarrow> Q x t s) \<Longrightarrow>
    (\<And>e t s. m = Inl e \<Longrightarrow> P t s \<Longrightarrow> X (Some e) t s) \<Longrightarrow> mtriple E P (liftE m) Q X"
  by (rule mtriple_lift) (auto intro: keeps triple_liftE)

lemma mtriple_ask: "(\<And>t s. P t s \<Longrightarrow> Q (f E) t s) \<Longrightarrow> mtriple E P (ask f) Q X"
  by (rule mtriple_lift) (auto intro: keeps triple_ask)

lemma mtriple_fsync:
  "(\<And>t s. P t s \<Longrightarrow> Q () t s) \<Longrightarrow>
    (\<And>t s. \<not> quiet E \<Longrightarrow> P t s \<Longrightarrow> X (Some injected) t s \<and> X None t s) \<Longrightarrow> mtriple E P fsync Q X"
  by (rule mtriple_lift) (auto intro: keeps triple_fsync)

lemma mtriple_sys:
  assumes "\<And>t s s'. P t s \<Longrightarrow> op s = Inr s' \<Longrightarrow> Q () t s'"
    and "\<And>t s e. P t s \<Longrightarrow> op s = Inl e \<Longrightarrow> X (Some e) t s"
    and "\<And>t s n. \<not> quiet E \<Longrightarrow> P t s \<Longrightarrow> X (Some injected) t (part n s) \<and> X None t (part n s)"
  shows "mtriple E P (sys op part) Q X"
  by (rule mtriple_lift [OF keeps_sys triple_sys]) (use assms in blast)+

lemma mtriple_total:
  assumes "mtriple E P m Q (\<lambda>_ _ _. False)" "P (mem w) (fs w)"
  shows "\<exists>x w'. m E w = (Val x, w') \<and> Q x (mem w') (fs w')"
proof -
  obtain r w' where m: "m E w = (r, w')" by fastforce
  with assms show ?thesis
    by (cases r) (auto dest: mtripleD)
qed

text \<open>What always holds at the end, whatever the outcome.\<close>

definition always :: "env \<Rightarrow> ('m \<Rightarrow> fsys \<Rightarrow> bool) \<Rightarrow> ('m, 'a) io \<Rightarrow> ('m \<Rightarrow> fsys \<Rightarrow> bool) \<Rightarrow> bool" where
  "always E P m R \<longleftrightarrow> mtriple E P m (\<lambda>_. R) (\<lambda>_. R)"

lemma alwaysD: "always E P m R \<Longrightarrow> P (mem w) (fs w) \<Longrightarrow> R (mem (snd (m E w))) (fs (snd (m E w)))"
  unfolding always_def mtriple_def by (cases "m E w"; cases "fst (m E w)") auto

section \<open>Running with a memory of its own\<close>

definition with_memory :: "'n \<Rightarrow> ('n, 'a) io \<Rightarrow> ('m, 'a) io" where
  "with_memory t m = (\<lambda>E w. case m E \<lparr>fs = fs w, clock = clock w, mem = t\<rparr> of
     (r, w') \<Rightarrow> (r, \<lparr>fs = fs w', clock = clock w', mem = mem w\<rparr>))"

lemma keeps_with_memory [keeps]: "keeps_mem (with_memory t m)"
  by (auto simp: keeps_mem_def with_memory_def split: prod.splits)

lemma mtriple_with_memory:
  fixes m :: "('n, 'a) io" and P :: "'m \<Rightarrow> fsys \<Rightarrow> bool"
  assumes "\<And>t'. mtriple E (\<lambda>u s. u = t \<and> P t' s) m (\<lambda>x u s. Q x t' s) (\<lambda>e u s. X e t' s)"
  shows "mtriple E P (with_memory t m) Q X"
proof (rule mtripleI)
  fix w w' :: "'m world" and x e
  let ?w = "\<lparr>fs = fs w, clock = clock w, mem = t\<rparr>"
  assume P: "P (mem w) (fs w)"
  obtain r w1 where m: "m E ?w = (r, w1)" by fastforce
  show "with_memory t m E w = (Val x, w') \<Longrightarrow> Q x (mem w') (fs w')"
    "with_memory t m E w = (Exc e, w') \<Longrightarrow> X (Some e) (mem w') (fs w')"
    "with_memory t m E w = (Dead, w') \<Longrightarrow> X None (mem w') (fs w')"
    using m P mtripleD [OF assms [of "mem w"], of ?w] by (auto simp: with_memory_def)
qed

end
