(* ===== verification/Lifecycle.thy ===== *)
theory Lifecycle
  imports Status_Record
begin

text \<open>
  The lifecycle operations of \<open>status.py\<close> on one loaded record: field updates, the transition
  function and the recovery rewrite of a stale RUNNING record; and the facts that make them
  correct, gathered in \<open>record_lifecycle\<close>, the interface the calculation tree and the scheduler
  rely on.
\<close>

section \<open>Field updates\<close>

fun set_field :: "string \<Rightarrow> json \<Rightarrow> calculation_record \<Rightarrow> calculation_record option" where
  "set_field name v r =
     (if name = ''schema_version'' then Some (r\<lparr>r_schema_version := v\<rparr>)
      else if name = ''event_id'' then Some (r\<lparr>r_event_id := v\<rparr>)
      else if name = ''internal_sequence'' then Some (r\<lparr>r_internal_sequence := v\<rparr>)
      else if name = ''status'' then Some (r\<lparr>r_status := v\<rparr>)
      else if name = ''overwrite'' then Some (r\<lparr>r_overwrite := v\<rparr>)
      else if name = ''warnings'' then Some (r\<lparr>r_warnings := v\<rparr>)
      else if name = ''request'' then Some (r\<lparr>r_request := v\<rparr>)
      else if name = ''configuration'' then Some (r\<lparr>r_configuration := v\<rparr>)
      else if name = ''progress'' then Some (r\<lparr>r_progress := v\<rparr>)
      else if name = ''native_outcome'' then Some (r\<lparr>r_native_outcome := v\<rparr>)
      else if name = ''service_outcome'' then Some (r\<lparr>r_service_outcome := v\<rparr>)
      else if name = ''failure'' then Some (r\<lparr>r_failure := v\<rparr>)
      else if name = ''timestamps'' then Some (r\<lparr>r_timestamps := v\<rparr>)
      else if name = ''shared_paths'' then Some (r\<lparr>r_shared_paths := v\<rparr>)
      else None)"

definition FORBIDDEN_CHANGES :: "string list" where
  "FORBIDDEN_CHANGES = [''schema_version'', ''event_id'', ''internal_sequence'', ''status'']"

fun apply_changes :: "(string \<times> json) list \<Rightarrow> calculation_record \<Rightarrow> exn + calculation_record" where
  "apply_changes [] r = Inr r"
| "apply_changes ((name, v) # cs) r =
     (case set_field name v r of
        None \<Rightarrow> Inl (Exn ValueError ''unknown calculation-record field'')
      | Some r' \<Rightarrow> apply_changes cs r')"

section \<open>Transitions\<close>

text \<open>The keyword arguments of \<open>_transition_record_directory\<close>; \<open>None\<close> is \<open>_UNSET\<close>.\<close>

record transition_args =
  t_progress :: "json option"
  t_native_outcome :: "json option"
  t_service_outcome :: "json option"
  t_failure :: "json option"
  t_terminal_timestamp :: "json option"
  t_shared_paths :: "json option"

definition no_args :: transition_args where
  "no_args = \<lparr>t_progress = None, t_native_outcome = None, t_service_outcome = None,
     t_failure = None, t_terminal_timestamp = None, t_shared_paths = None\<rparr>"

definition or_else :: "json option \<Rightarrow> json \<Rightarrow> json" where
  "or_else x d = (case x of None \<Rightarrow> d | Some v \<Rightarrow> v)"

lemma or_else_simps [simp]: "or_else None d = d" "or_else (Some v) d = v"
  by (simp_all add: or_else_def)

definition start_running :: "ustr \<Rightarrow> calculation_record \<Rightarrow> exn + calculation_record" where
  "start_running started_at r =
     (let r1 = r\<lparr>r_timestamps := jput ''started_at'' (JStr started_at) (r_timestamps r)\<rparr>
      in bindE (guardE (is_dict (r_progress r)) ValueError ''progress must be an object'') (\<lambda>_.
         Inr (r1\<lparr>r_progress :=
                jput ''completed_modules'' (JList [])
               (jput ''current_module'' JNull
               (jput ''phase_started_at'' (JStr started_at)
               (jput ''phase'' (jstr ''preceding_tree_disposition'') (r_progress r))))\<rparr>)))"

text \<open>
  A FAILED record carries its failed phase twice, in \<open>failure\<close> and in \<open>progress\<close>; a failure
  without a phase takes the recorded one, another phase moves the progress to it.
\<close>

definition normalize_failure :: "json \<Rightarrow> calculation_record \<Rightarrow> calculation_record" where
  "normalize_failure completed_at r =
     (let failed_phase = jget (r_failure r) ''phase'';
          recorded_phase = jget (r_progress r) ''phase''
      in if failed_phase = JNull
         then r\<lparr>r_failure := jput ''phase'' recorded_phase (r_failure r)\<rparr>
         else if failed_phase \<noteq> recorded_phase
         then r\<lparr>r_progress := jput ''phase_started_at'' completed_at
                               (jput ''phase'' failed_phase (r_progress r))\<rparr>
         else r)"

definition transition_record ::
  "ustr \<Rightarrow> lifecycle_state \<Rightarrow> transition_args \<Rightarrow> calculation_record \<Rightarrow> exn + calculation_record"
where
  "transition_record now target args r =
     bindE (case parse_state (r_status r) of
              None \<Rightarrow> Inl (Exn ValueError ''invalid lifecycle state'') | Some s \<Rightarrow> Inr s) (\<lambda>source.
     bindE (guardE (target \<in> set (allowed_transitions source)) ValueError
              ''invalid lifecycle transition'') (\<lambda>_.
     let r1 = r\<lparr>r_status := jstr (state_value target),
                r_progress := or_else (t_progress args) (r_progress r)\<rparr> in
     bindE (if target = RUNNING then start_running now r1 else Inr r1) (\<lambda>r2.
     let completed_at = or_else (t_terminal_timestamp args) (JStr now) in
     bindE (if is_terminal target
            then bindE (validate_timestamp completed_at ''timestamps.completed_at'' True) (\<lambda>_.
                 Inr (r2\<lparr>r_timestamps := jput ''completed_at'' completed_at (r_timestamps r2)\<rparr>))
            else Inr r2) (\<lambda>r3.
     let r4 = r3\<lparr>r_native_outcome := or_else (t_native_outcome args) (r_native_outcome r3),
                 r_service_outcome := or_else (t_service_outcome args) (r_service_outcome r3),
                 r_failure := or_else (t_failure args) (r_failure r3)\<rparr> in
     bindE (if target = FAILED \<and> is_dict (r_failure r4)
            then bindE (guardE (is_dict (r_progress r4)) OtherError ''progress has no get'') (\<lambda>_.
                 Inr (normalize_failure completed_at r4))
            else Inr r4) (\<lambda>r5.
     Inr (r5\<lparr>r_shared_paths := or_else (t_shared_paths args) (r_shared_paths r5)\<rparr>))))))"

definition service_failed :: json where
  "service_failed = jobj [(''completed'', JBool True), (''successful'', JBool False)]"

definition failure_args :: "json \<Rightarrow> transition_args" where
  "failure_args failure = no_args\<lparr>t_failure := Some failure, t_service_outcome := Some service_failed\<rparr>"

text \<open>The rewrite in \<open>fail_matching_running_record_if_child_absent\<close>.\<close>

definition fail_stale_record :: "ustr \<Rightarrow> json \<Rightarrow> calculation_record \<Rightarrow> calculation_record" where
  "fail_stale_record completed_at failure r =
     (let r1 = normalize_failure (JStr completed_at)
                 (r\<lparr>r_status := jstr ''FAILED'', r_failure := failure\<rparr>)
      in r1\<lparr>r_service_outcome := service_failed,
            r_timestamps := jput ''completed_at'' (JStr completed_at) (r_timestamps r1)\<rparr>)"

section \<open>Validity\<close>

definition valid_record :: "settings \<Rightarrow> calculation_record \<Rightarrow> bool" where
  "valid_record cfg r \<longleftrightarrow> validate_record cfg r None None = Inr ()"

definition state_of :: "calculation_record \<Rightarrow> lifecycle_state option" where
  "state_of r = parse_state (r_status r)"

definition valid_ts :: "json \<Rightarrow> bool" where
  "valid_ts v \<longleftrightarrow> is_str v \<and> rfc3339_shape (str_of v) \<and> fromisoformat_ok (str_of v)"

lemma validate_timestamp_Inr [simp]:
  "validate_timestamp v l req = Inr x \<longleftrightarrow> valid_ts v \<or> (v = JNull \<and> \<not> req)"
  by (cases v) (auto simp: validate_timestamp_def valid_ts_def result_simps)

lemma validate_timestamp_ok [simp]: "valid_ts v \<Longrightarrow> validate_timestamp v l req = Inr ()"
  using validate_timestamp_Inr [of v l req "()"] by simp

lemma valid_ts_now [simp]: "valid_datetime t \<Longrightarrow> valid_ts (JStr (now_iso t))"
  by (simp add: valid_ts_def rfc3339_now_iso fromisoformat_now_iso)

lemma valid_ts_not_null [simp]: "\<not> valid_ts JNull"
  by (simp add: valid_ts_def)

lemma require_exact_keys_Inr:
  "require_exact_keys v ks l = Inr x \<longleftrightarrow> is_dict v \<and> has_exact_keys v ks \<and> x = v"
  by (auto simp: require_exact_keys_def result_simps)

lemma require_member_Inr: "require_member v vs m = Inr x \<longleftrightarrow> hashable v \<and> v \<in> set vs"
  by (auto simp: require_member_def result_simps)

lemma mapE_unit_Inr:
  "(\<exists>ys. mapE f xs = Inr (ys :: unit list)) \<longleftrightarrow> (\<forall>x\<in>set xs. f x = Inr ())"
proof (induction xs)
  case (Cons x xs)
  then show ?case
    by (cases "f x"; cases "mapE f xs") auto
qed simp

lemma validate_identity_Inr:
  "validate_identity r es ee = Inr x \<longleftrightarrow>
     py_eq_int (r_schema_version r) 1 \<and> r_event_id r = JStr (event_id_of r)
     \<and> valid_event_id (event_id_of r) \<and> r_internal_sequence r = JInt (sequence_of r)
     \<and> 1 \<le> sequence_of r
     \<and> (\<forall>s. es = Some s \<longrightarrow> sequence_of r = s) \<and> (\<forall>e. ee = Some e \<longrightarrow> event_id_of r = e)"
proof -
  have "(\<exists>s. validate_event_id (r_event_id r) = Inr s) \<longleftrightarrow>
      r_event_id r = JStr (event_id_of r) \<and> valid_event_id (event_id_of r)"
    by (auto simp: validate_event_id_Inr event_id_of_def)
  moreover have "is_int (r_internal_sequence r) \<longleftrightarrow> r_internal_sequence r = JInt (sequence_of r)"
    by (cases "r_internal_sequence r") (auto simp: sequence_of_def)
  ultimately show ?thesis
    by (cases es; cases ee)
       (auto simp: validate_identity_def result_simps sequence_of_def event_id_of_def
         validate_event_id_Inr)
qed

lemma validate_state_Inr:
  "validate_state r = Inr s \<longleftrightarrow>
     r_status r = jstr (state_value s) \<and> is_bool (r_overwrite r) \<and> is_str_list (r_warnings r)"
  by (auto simp: validate_state_def result_simps parse_state_Some split: option.splits)

lemma validate_record_Inr:
  "validate_record cfg r es ee = Inr x \<longleftrightarrow>
     validate_identity r es ee = Inr ()
     \<and> (\<exists>s. validate_state r = Inr s \<and> validate_request r = Inr ()
         \<and> validate_progress cfg r = Inr () \<and> validate_timestamps r s = Inr ()
         \<and> validate_outcomes r s = Inr () \<and> validate_shared_paths cfg r = Inr ())"
  by (auto simp: validate_record_def result_simps)

lemma validate_record_expected:
  "validate_record cfg r es ee = Inr x \<longleftrightarrow>
     valid_record cfg r \<and> (\<forall>s. es = Some s \<longrightarrow> sequence_of r = s)
     \<and> (\<forall>e. ee = Some e \<longrightarrow> event_id_of r = e)"
  by (auto simp: valid_record_def validate_record_Inr validate_identity_Inr)

lemma valid_record_state: "valid_record cfg r \<Longrightarrow> \<exists>s. state_of r = Some s"
  by (auto simp: valid_record_def validate_record_Inr validate_state_Inr state_of_def)

lemma valid_record_identity:
  assumes "valid_record cfg r"
  shows "r_event_id r = JStr (event_id_of r)" "valid_event_id (event_id_of r)"
    "r_internal_sequence r = JInt (sequence_of r)" "1 \<le> sequence_of r"
    "is_bool (r_overwrite r)" "is_str_list (r_warnings r)" "is_dict (r_progress r)"
  using assms
  by (auto simp: valid_record_def validate_record_Inr validate_identity_Inr validate_state_Inr
      validate_progress_def result_simps require_exact_keys_Inr)

section \<open>The validators, characterised\<close>

lemma validate_progress_Inr:
  "validate_progress cfg r = Inr x \<longleftrightarrow>
     (let p = r_progress r in
      is_dict p \<and> has_exact_keys p PROGRESS_KEYS
      \<and> (jget p ''phase'' = JNull \<or> jget p ''phase'' \<in> set (map jstr OPERATIONAL_PHASES))
      \<and> (valid_ts (jget p ''phase_started_at'') \<or> jget p ''phase_started_at'' = JNull)
      \<and> jget p ''module_plan'' = JList (map JStr (module_plan cfg))
      \<and> is_str_list (jget p ''completed_modules'')
      \<and> (jget p ''current_module'' = JNull
           \<or> is_str (jget p ''current_module'')
             \<and> jget p ''current_module'' \<in> JStr ` set (module_plan cfg))
      \<and> list_all (\<lambda>m. m \<in> JStr ` set (module_plan cfg)) (list_of (jget p ''completed_modules'')))"
proof -
  have plan: "is_str_list (JList (map JStr ms))" for ms
    by (induction ms) auto
  have phase: "q \<in> set (map jstr OPERATIONAL_PHASES) \<Longrightarrow> is_str q" for q
    by auto
  show ?thesis
    unfolding validate_progress_def Let_def bindE_Inr_iff require_exact_keys_Inr guardE_Inr_iff
      validate_optional_text_def validate_timestamp_Inr
    using plan phase by (auto simp: list_all_iff)
qed

lemma validate_timestamps_Inr:
  "validate_timestamps r s = Inr x \<longleftrightarrow>
     (let t = r_timestamps r in
      is_dict t \<and> has_exact_keys t TIMESTAMP_KEYS \<and> valid_ts (jget t ''submitted_at'')
      \<and> (valid_ts (jget t ''native_started_at'') \<or> jget t ''native_started_at'' = JNull)
      \<and> (valid_ts (jget t ''native_finished_at'') \<or> jget t ''native_finished_at'' = JNull)
      \<and> (if s = QUEUED then jget t ''started_at'' = JNull else valid_ts (jget t ''started_at''))
      \<and> (if is_terminal s then valid_ts (jget t ''completed_at'')
          else jget t ''completed_at'' = JNull))"
  by (cases s)
     (auto simp: validate_timestamps_def result_simps require_exact_keys_Inr Let_def)

lemma validate_outcomes_Inr:
  "validate_outcomes r s = Inr x \<longleftrightarrow>
     (r_native_outcome r = JNull \<or> is_dict (r_native_outcome r))
     \<and> (r_service_outcome r = JNull \<or> is_dict (r_service_outcome r))
     \<and> (r_failure r = JNull \<or> is_dict (r_failure r))
     \<and> (s = SUCCESS \<longrightarrow> r_failure r = JNull)
     \<and> (s = FAILED \<longrightarrow> r_failure r \<noteq> JNull
          \<and> jget (r_failure r) ''phase'' = jget (r_progress r) ''phase'')
     \<and> (if s = QUEUED
         then jget (r_progress r) ''phase'' = JNull \<and> jget (r_progress r) ''phase_started_at'' = JNull
              \<and> jget (r_progress r) ''current_module'' = JNull
              \<and> \<not> truthy (jget (r_progress r) ''completed_modules'')
              \<and> r_native_outcome r = JNull \<and> r_service_outcome r = JNull \<and> r_failure r = JNull
         else jget (r_progress r) ''phase'' \<noteq> JNull
              \<and> jget (r_progress r) ''phase_started_at'' \<noteq> JNull)"
  by (cases s) (auto simp: validate_outcomes_def result_simps)

lemma validate_request_Inr:
  "validate_request r = Inr x \<longleftrightarrow>
     is_dict (r_request r) \<and> has_exact_keys (r_request r) [''snapshot'', ''manifest'', ''input_mode'']
     \<and> jget (r_request r) ''snapshot'' = jstr ''request''
     \<and> jget (r_request r) ''manifest'' = jstr ''request-manifest.json''
     \<and> jget (r_request r) ''input_mode'' \<in> {jstr ''directory'', jstr ''upload'', jstr ''mixed''}
     \<and> is_dict (r_configuration r) \<and> has_exact_keys (r_configuration r) [''selected'']
     \<and> (\<exists>c. jget (r_configuration r) ''selected'' = JStr c \<and> safe_basename c)"
  by (auto simp: validate_request_def result_simps require_exact_keys_Inr require_member_Inr
      validate_configuration_name_Inr)

lemma shared_paths_for_Inr:
  "shared_paths_for cfg (JStr e) = Inr j \<longleftrightarrow> valid_event_id e \<and> j = jobj
     [(''input'', JStr (shared_event_input_dir cfg e)),
      (''products'', JStr (shared_event_native_products_dir cfg e)),
      (''provenance'', JNull), (''product_manifest'', JNull),
      (''service_log'', JNull), (''shake_log'', JNull)]"
  by (auto simp: shared_paths_for_def result_simps validate_event_id_Inr)

lemma validate_shared_paths_cong:
  assumes "r_shared_paths r' = r_shared_paths r" "r_event_id r' = r_event_id r"
  shows "validate_shared_paths cfg r' = validate_shared_paths cfg r"
  using assms by (simp add: validate_shared_paths_def event_id_of_def)

lemma validate_request_cong:
  "r_request r' = r_request r \<Longrightarrow> r_configuration r' = r_configuration r \<Longrightarrow>
    validate_request r' = validate_request r"
  by (simp add: validate_request_def)

lemma validate_identity_cong:
  "r_schema_version r' = r_schema_version r \<Longrightarrow> r_event_id r' = r_event_id r \<Longrightarrow>
    r_internal_sequence r' = r_internal_sequence r \<Longrightarrow>
    validate_identity r' es ee = validate_identity r es ee"
  unfolding validate_identity_def by (simp only:)

lemma validate_progress_cong:
  "r_progress r' = r_progress r \<Longrightarrow> validate_progress cfg r' = validate_progress cfg r"
  unfolding validate_progress_def by (simp only:)

lemmas record_validators =
  validate_record_Inr validate_state_Inr validate_progress_Inr validate_timestamps_Inr
  validate_outcomes_Inr

lemma keys_cases:
  "k \<in> set ks \<Longrightarrow> has_exact_keys j ks \<Longrightarrow> has_exact_keys (jput k v j) ks"
  by (simp add: has_exact_keys_jput)

section \<open>The JSON round trip\<close>

lemma construct_record_to_dict [simp]: "construct_record (record_to_dict r) = Inr r"
proof -
  have "has_exact_keys (record_to_dict r) RECORD_FIELDS"
    unfolding record_to_dict_def has_exact_keys_jobj by (simp add: RECORD_FIELDS_def)
  then show ?thesis
    by (simp add: construct_record_def) (simp add: record_to_dict_def)
qed

lemma dict_to_record_to_dict: "valid_record cfg r \<Longrightarrow> dict_to_record cfg (record_to_dict r) = Inr r"
  by (simp add: dict_to_record_def valid_record_def)

lemma dict_to_record_valid: "dict_to_record cfg d = Inr r \<Longrightarrow> valid_record cfg r"
  by (auto simp: dict_to_record_def valid_record_def result_simps)

section \<open>Transitions of valid records\<close>

definition same_identity :: "calculation_record \<Rightarrow> calculation_record \<Rightarrow> bool" where
  "same_identity r r' \<longleftrightarrow>
     r_event_id r' = r_event_id r \<and> r_internal_sequence r' = r_internal_sequence r
     \<and> r_overwrite r' = r_overwrite r"

lemma same_identityD:
  "same_identity r r' \<Longrightarrow> event_id_of r' = event_id_of r \<and> sequence_of r' = sequence_of r"
  by (simp add: same_identity_def event_id_of_def sequence_of_def)

lemma valid_recordD:
  assumes "valid_record cfg r" "state_of r = Some s"
  shows "validate_identity r None None = Inr ()" "validate_request r = Inr ()"
    "validate_progress cfg r = Inr ()" "validate_timestamps r s = Inr ()"
    "validate_outcomes r s = Inr ()" "validate_shared_paths cfg r = Inr ()"
    "validate_state r = Inr s"
  using assms
  by (auto simp: valid_record_def validate_record_Inr validate_state_Inr state_of_def
      parse_state_Some)

lemma valid_recordI:
  assumes "validate_identity r None None = Inr ()" "validate_state r = Inr s"
    "validate_request r = Inr ()" "validate_progress cfg r = Inr ()"
    "validate_timestamps r s = Inr ()" "validate_outcomes r s = Inr ()"
    "validate_shared_paths cfg r = Inr ()"
  shows "valid_record cfg r \<and> state_of r = Some s"
  using assms
  by (auto simp: valid_record_def validate_record_Inr validate_state_Inr state_of_def
      parse_state_Some)

lemma jget_phase_string: "q \<in> set (map jstr OPERATIONAL_PHASES) \<Longrightarrow> q \<noteq> JNull"
  by auto

lemma start_transition:
  assumes r: "valid_record cfg r" "state_of r = Some QUEUED"
    and now: "valid_ts (JStr now)"
  shows "\<exists>r'. transition_record now RUNNING no_args r = Inr r' \<and> valid_record cfg r'
           \<and> state_of r' = Some RUNNING \<and> same_identity r r'
           \<and> jget (r_progress r') ''phase'' = jstr ''preceding_tree_disposition''
           \<and> jget (r_timestamps r') ''started_at'' = JStr now"
proof -
  note v = valid_recordD [OF r]
  have st: "parse_state (r_status r) = Some QUEUED" using r by (simp add: state_of_def)
  have dict: "is_dict (r_progress r)"
    using v(3) by (simp add: validate_progress_Inr Let_def)
  define r' where "r' = r\<lparr>r_status := jstr ''RUNNING'',
     r_timestamps := jput ''started_at'' (JStr now) (r_timestamps r),
     r_progress := jput ''completed_modules'' (JList [])
       (jput ''current_module'' JNull
       (jput ''phase_started_at'' (JStr now)
       (jput ''phase'' (jstr ''preceding_tree_disposition'') (r_progress r))))\<rparr>"
  have "transition_record now RUNNING no_args r = Inr r'"
    using st dict by (simp add: transition_record_def start_running_def no_args_def Let_def r'_def)
  moreover have "valid_record cfg r' \<and> state_of r' = Some RUNNING"
  proof (rule valid_recordI)
    show "validate_identity r' None None = Inr ()"
      using v(1) validate_identity_cong [of r' r] by (simp add: r'_def)
    show "validate_state r' = Inr RUNNING"
      using v(7) by (simp add: validate_state_Inr r'_def)
    show "validate_request r' = Inr ()"
      using v(2) validate_request_cong [of r' r] by (simp add: r'_def)
    show "validate_progress cfg r' = Inr ()"
      using v(3) now
      by (simp add: validate_progress_Inr Let_def r'_def keys_cases PROGRESS_KEYS_def
          OPERATIONAL_PHASES_def)
    show "validate_timestamps r' RUNNING = Inr ()"
      using v(4) now
      by (simp add: validate_timestamps_Inr Let_def r'_def keys_cases TIMESTAMP_KEYS_def)
    show "validate_outcomes r' RUNNING = Inr ()"
      using v(5) by (simp add: validate_outcomes_Inr r'_def)
    show "validate_shared_paths cfg r' = Inr ()"
      using v(6) validate_shared_paths_cong [of r' r] by (simp add: r'_def)
  qed
  ultimately show ?thesis
    by (intro exI [of _ r']) (simp add: r'_def same_identity_def)
qed

text \<open>A failure dict is acceptable when it names no phase or an approved one.\<close>

definition failure_ok :: "json \<Rightarrow> bool" where
  "failure_ok f \<longleftrightarrow>
     is_dict f \<and> (jget f ''phase'' = JNull \<or> jget f ''phase'' \<in> set (map jstr OPERATIONAL_PHASES))"

lemma normalize_failure_phase:
  "is_dict (r_failure r) \<Longrightarrow> jget (r_progress r) ''phase'' \<noteq> JNull \<Longrightarrow>
    jget (r_failure (normalize_failure c r)) ''phase'' = jget (r_progress (normalize_failure c r)) ''phase''
    \<and> is_dict (r_failure (normalize_failure c r))
    \<and> jget (r_progress (normalize_failure c r)) ''phase'' \<noteq> JNull"
  by (simp add: normalize_failure_def Let_def)

lemma normalize_failure_fields [simp]:
  "r_event_id (normalize_failure c r) = r_event_id r"
  "r_schema_version (normalize_failure c r) = r_schema_version r"
  "r_internal_sequence (normalize_failure c r) = r_internal_sequence r"
  "r_status (normalize_failure c r) = r_status r"
  "r_overwrite (normalize_failure c r) = r_overwrite r"
  "r_warnings (normalize_failure c r) = r_warnings r"
  "r_request (normalize_failure c r) = r_request r"
  "r_configuration (normalize_failure c r) = r_configuration r"
  "r_native_outcome (normalize_failure c r) = r_native_outcome r"
  "r_service_outcome (normalize_failure c r) = r_service_outcome r"
  "r_timestamps (normalize_failure c r) = r_timestamps r"
  "r_shared_paths (normalize_failure c r) = r_shared_paths r"
  by (simp_all add: normalize_failure_def Let_def)

lemma normalize_failure_progress:
  assumes "validate_progress cfg r = Inr ()" "failure_ok (r_failure r)" "valid_ts c"
    "jget (r_progress r) ''phase_started_at'' \<noteq> JNull"
  shows "validate_progress cfg (normalize_failure c r) = Inr ()
    \<and> jget (r_progress (normalize_failure c r)) ''phase_started_at'' \<noteq> JNull"
proof -
  have "c \<noteq> JNull" using assms(3) by auto
  with assms show ?thesis
    by (auto simp add: validate_progress_Inr Let_def normalize_failure_def failure_ok_def keys_cases
        PROGRESS_KEYS_def)
qed

text \<open>What both ways of failing a RUNNING record establish.\<close>

lemma failed_record_valid:
  assumes r: "valid_record cfg r" "state_of r = Some RUNNING"
    and f: "failure_ok f" and ts: "valid_ts c"
    and r1: "r1 = normalize_failure c (r\<lparr>r_status := jstr ''FAILED'', r_failure := f\<rparr>)"
    and r': "r' = r1\<lparr>r_service_outcome := so, r_native_outcome := no,
                     r_timestamps := jput ''completed_at'' c (r_timestamps r),
                     r_shared_paths := sp\<rparr>"
    and so: "is_dict so" and no: "no = JNull \<or> is_dict no"
    and sp: "validate_shared_paths cfg (r\<lparr>r_shared_paths := sp\<rparr>) = Inr ()"
  shows "valid_record cfg r' \<and> state_of r' = Some FAILED"
proof (rule valid_recordI)
  note v = valid_recordD [OF r]
  let ?r0 = "r\<lparr>r_status := jstr ''FAILED'', r_failure := f\<rparr>"
  have phase: "jget (r_progress ?r0) ''phase'' \<noteq> JNull"
      "jget (r_progress ?r0) ''phase_started_at'' \<noteq> JNull"
    using v(5) by (simp_all add: validate_outcomes_Inr)
  have dict: "is_dict (r_failure ?r0)" using f by (simp add: failure_ok_def)
  have p0: "validate_progress cfg ?r0 = Inr ()" using v(3) by (simp add: validate_progress_Inr)
  note norm = normalize_failure_phase [OF dict phase(1), of c]
    normalize_failure_progress [OF p0 _ ts phase(2)]
  show "validate_identity r' None None = Inr ()"
    using v(1) validate_identity_cong [of r' r] by (simp add: r' r1)
  show "validate_state r' = Inr FAILED"
    using v(7) by (simp add: validate_state_Inr r' r1)
  show "validate_request r' = Inr ()"
    using v(2) validate_request_cong [of r' r] by (simp add: r' r1)
  show "validate_progress cfg r' = Inr ()"
    using norm(2) f validate_progress_cong [of r' r1 cfg] by (simp add: r' r1)
  show "validate_timestamps r' FAILED = Inr ()"
    using v(4) ts
    by (simp add: validate_timestamps_Inr Let_def r' r1 keys_cases TIMESTAMP_KEYS_def)
  show "validate_outcomes r' FAILED = Inr ()"
    using norm f so no by (auto simp: validate_outcomes_Inr r' r1)
  show "validate_shared_paths cfg r' = Inr ()"
    using sp validate_shared_paths_cong [of r' "r\<lparr>r_shared_paths := sp\<rparr>"] by (simp add: r' r1)
qed

lemma fail_transition:
  assumes r: "valid_record cfg r" "state_of r = Some RUNNING"
    and args: "t_progress args = None" "t_failure args = Some f" "t_service_outcome args = Some so"
    and f: "failure_ok f" and so: "is_dict so"
    and no: "t_native_outcome args = None \<or> (\<exists>v. t_native_outcome args = Some v \<and> (v = JNull \<or> is_dict v))"
    and ts: "valid_ts (or_else (t_terminal_timestamp args) (JStr now))"
    and sp: "validate_shared_paths cfg
               (r\<lparr>r_shared_paths := or_else (t_shared_paths args) (r_shared_paths r)\<rparr>) = Inr ()"
  shows "\<exists>r'. transition_record now FAILED args r = Inr r' \<and> valid_record cfg r'
           \<and> state_of r' = Some FAILED \<and> same_identity r r'"
proof -
  note v = valid_recordD [OF r]
  let ?c = "or_else (t_terminal_timestamp args) (JStr now)"
  let ?r1 = "normalize_failure ?c (r\<lparr>r_status := jstr ''FAILED'', r_failure := f\<rparr>)"
  let ?no = "or_else (t_native_outcome args) (r_native_outcome r)"
  define r' where "r' = ?r1\<lparr>r_service_outcome := so, r_native_outcome := ?no,
     r_timestamps := jput ''completed_at'' ?c (r_timestamps r),
     r_shared_paths := or_else (t_shared_paths args) (r_shared_paths r)\<rparr>"
  have st: "parse_state (r_status r) = Some RUNNING" using r by (simp add: state_of_def)
  have dict: "is_dict (r_progress r)"
    using v(3) by (simp add: validate_progress_Inr Let_def)
  have no': "?no = JNull \<or> is_dict ?no"
    using no v(5) by (auto simp: validate_outcomes_Inr)
  have "is_dict f" using f by (simp add: failure_ok_def)
  then have "transition_record now FAILED args r = Inr r'"
    using st dict args ts
    by (simp add: transition_record_def Let_def r'_def normalize_failure_def)
  moreover have "valid_record cfg r' \<and> state_of r' = Some FAILED"
    by (rule failed_record_valid [OF r f ts refl _ so no' sp]) (simp add: r'_def)
  ultimately show ?thesis
    by (intro exI [of _ r']) (simp add: r'_def same_identity_def)
qed

lemma success_transition:
  assumes r: "valid_record cfg r" "state_of r = Some RUNNING"
    and args: "t_progress args = None" "t_failure args = Some JNull" "t_service_outcome args = Some so"
      "t_native_outcome args = Some no" "t_shared_paths args = Some sp"
      "t_terminal_timestamp args = Some c"
    and so: "is_dict so" and no: "no = JNull \<or> is_dict no" and ts: "valid_ts c"
    and sp: "validate_shared_paths cfg (r\<lparr>r_shared_paths := sp\<rparr>) = Inr ()"
  shows "\<exists>r'. transition_record now SUCCESS args r = Inr r' \<and> valid_record cfg r'
           \<and> state_of r' = Some SUCCESS \<and> same_identity r r'"
proof -
  note v = valid_recordD [OF r]
  define r' where "r' = r\<lparr>r_status := jstr ''SUCCESS'',
     r_timestamps := jput ''completed_at'' c (r_timestamps r), r_native_outcome := no,
     r_service_outcome := so, r_failure := JNull, r_shared_paths := sp\<rparr>"
  have st: "parse_state (r_status r) = Some RUNNING" using r by (simp add: state_of_def)
  have "transition_record now SUCCESS args r = Inr r'"
    using st args ts by (simp add: transition_record_def Let_def r'_def)
  moreover have "valid_record cfg r' \<and> state_of r' = Some SUCCESS"
  proof (rule valid_recordI)
    show "validate_identity r' None None = Inr ()"
      using v(1) validate_identity_cong [of r' r] by (simp add: r'_def)
    show "validate_state r' = Inr SUCCESS"
      using v(7) by (simp add: validate_state_Inr r'_def)
    show "validate_request r' = Inr ()"
      using v(2) validate_request_cong [of r' r] by (simp add: r'_def)
    show "validate_progress cfg r' = Inr ()"
      using v(3) validate_progress_cong [of r' r cfg] by (simp add: r'_def)
    show "validate_timestamps r' SUCCESS = Inr ()"
      using v(4) ts
      by (simp add: validate_timestamps_Inr Let_def r'_def keys_cases TIMESTAMP_KEYS_def)
    show "validate_outcomes r' SUCCESS = Inr ()"
      using v(5) so no by (auto simp: validate_outcomes_Inr r'_def)
    show "validate_shared_paths cfg r' = Inr ()"
      using sp validate_shared_paths_cong [of r' "r\<lparr>r_shared_paths := sp\<rparr>"] by (simp add: r'_def)
  qed
  ultimately show ?thesis
    by (intro exI [of _ r']) (simp add: r'_def same_identity_def)
qed

lemma fail_stale_valid:
  assumes r: "valid_record cfg r" "state_of r = Some RUNNING"
    and f: "failure_ok f" and ts: "valid_ts (JStr now)"
  shows "valid_record cfg (fail_stale_record now f r) \<and> state_of (fail_stale_record now f r) = Some FAILED
    \<and> same_identity r (fail_stale_record now f r)"
proof -
  note v = valid_recordD [OF r]
  let ?r1 = "normalize_failure (JStr now) (r\<lparr>r_status := jstr ''FAILED'', r_failure := f\<rparr>)"
  have eq: "fail_stale_record now f r = ?r1\<lparr>r_service_outcome := service_failed,
      r_native_outcome := r_native_outcome r,
      r_timestamps := jput ''completed_at'' (JStr now) (r_timestamps r),
      r_shared_paths := r_shared_paths r\<rparr>"
    by (simp add: fail_stale_record_def Let_def normalize_failure_def)
  have no: "r_native_outcome r = JNull \<or> is_dict (r_native_outcome r)"
    using v(5) by (simp add: validate_outcomes_Inr)
  have "valid_record cfg (fail_stale_record now f r) \<and> state_of (fail_stale_record now f r) = Some FAILED"
    by (rule failed_record_valid [OF r f ts refl eq _ no])
       (use v(6) in \<open>simp_all add: service_failed_def\<close>)
  then show ?thesis
    by (simp add: same_identity_def fail_stale_record_def Let_def)
qed

lemma new_queued_valid:
  assumes "valid_event_id e" "1 \<le> s" "safe_basename c" "valid_ts (JStr now)"
    and "mode \<in> {jstr ''directory'', jstr ''upload'', jstr ''mixed''}"
  shows "\<exists>r. new_queued_record cfg now (JStr e) s (JStr c) overwrite ws mode = Inr r
    \<and> valid_record cfg r \<and> state_of r = Some QUEUED \<and> event_id_of r = e \<and> sequence_of r = s
    \<and> r_overwrite r = JBool overwrite"
proof -
  obtain r where eq: "new_queued_record cfg now (JStr e) s (JStr c) overwrite ws mode = Inr r"
    using assms(1) by (auto simp: new_queued_record_def shared_paths_for_def)
  then have r: "r = \<lparr>r_schema_version = JInt 1, r_event_id = JStr e,
      r_internal_sequence = JInt s, r_status = jstr ''QUEUED'', r_overwrite = JBool overwrite,
      r_warnings = JList (map JStr ws),
      r_request = jobj [(''snapshot'', jstr ''request''),
        (''manifest'', jstr ''request-manifest.json''), (''input_mode'', mode)],
      r_configuration = jobj [(''selected'', JStr c)],
      r_progress = jobj [(''phase'', JNull), (''phase_started_at'', JNull),
        (''module_plan'', JList (map JStr (module_plan cfg))), (''current_module'', JNull),
        (''completed_modules'', JList [])],
      r_native_outcome = JNull, r_service_outcome = JNull, r_failure = JNull,
      r_timestamps = jobj [(''submitted_at'', JStr now), (''started_at'', JNull),
        (''native_started_at'', JNull), (''native_finished_at'', JNull), (''completed_at'', JNull)],
      r_shared_paths = r_shared_paths r\<rparr>"
    and sp: "shared_paths_for cfg (JStr e) = Inr (r_shared_paths r)"
    by (auto simp: new_queued_record_def result_simps)
  have warn: "is_str_list (JList (map JStr ws))" by (induction ws) auto
  have "valid_record cfg r \<and> state_of r = Some QUEUED"
  proof (rule valid_recordI)
    show "validate_identity r None None = Inr ()"
      by (subst r) (use assms in \<open>simp add: validate_identity_Inr event_id_of_def sequence_of_def\<close>)
    show "validate_state r = Inr QUEUED"
      by (subst r) (use warn in \<open>simp add: validate_state_Inr\<close>)
    show "validate_request r = Inr ()"
      by (subst r) (use assms in \<open>auto simp: validate_request_Inr has_exact_keys_jobj\<close>)
    show "validate_progress cfg r = Inr ()"
      by (subst r) (simp add: validate_progress_Inr has_exact_keys_jobj PROGRESS_KEYS_def)
    show "validate_timestamps r QUEUED = Inr ()"
      by (subst r)
         (use assms in \<open>simp add: validate_timestamps_Inr has_exact_keys_jobj TIMESTAMP_KEYS_def\<close>)
    show "validate_outcomes r QUEUED = Inr ()"
      by (subst r) (simp add: validate_outcomes_Inr)
    have e: "r_event_id r = JStr e" by (subst r) simp
    show "validate_shared_paths cfg r = Inr ()"
      using sp e
      by (auto simp: validate_shared_paths_def require_exact_keys_Inr shared_paths_for_Inr
          result_simps has_exact_keys_jobj SHARED_PATH_KEYS_def expected_service_paths_def
          validate_optional_text_def)
  qed
  moreover have "event_id_of r = e" "sequence_of r = s" "r_overwrite r = JBool overwrite"
    by (subst r, simp add: event_id_of_def sequence_of_def)+
  ultimately show ?thesis using eq by blast
qed

lemma transition_allowed:
  assumes "transition_record now target args r = Inr r'"
  shows "\<exists>s. state_of r = Some s \<and> target \<in> set (allowed_transitions s)"
  using assms
  by (auto simp: transition_record_def state_of_def result_simps split: option.splits)

lemma transition_state:
  assumes "transition_record now target args r = Inr r'"
  shows "state_of r' = Some target \<and> same_identity r r'"
  using assms
  by (cases target)
     (auto simp: transition_record_def start_running_def state_of_def same_identity_def
       result_simps Let_def split: option.splits if_splits)

lemma terminal_is_final:
  "state_of r = Some s \<Longrightarrow> is_terminal s \<Longrightarrow> transition_record now target args r =
    Inl (Exn ValueError ''invalid lifecycle transition'')"
  by (cases s) (auto simp: transition_record_def state_of_def)

end
