(* ===== verification/Status_Store.thy ===== *)
theory Status_Store
  imports Lifecycle Triples "HOL-Library.List_Lexorder"
begin

text \<open>
  The directory side of \<open>status.py\<close>: opening a record directory, loading and replacing its
  \<open>status.json\<close>, the update and transition operations on queued and current records, the recovery
  of a stale RUNNING record, and the two scans. A record directory is named by its path: a queue
  entry is \<open>(Queue, [queue_entry_name sequence])\<close>, a current record \<open>(Events, [event_id])\<close>.
\<close>

section \<open>Record directories\<close>

definition queue_entry_dir :: "int \<Rightarrow> path" where
  "queue_entry_dir sequence = (Queue, [queue_entry_name sequence])"

definition event_service_dir :: "ustr \<Rightarrow> path" where
  "event_service_dir event_id = (Events, [event_id])"

definition STATUS_FILE :: ustr where
  "STATUS_FILE = lit ''status.json''"

text \<open>
  \<open>open_service_directory(path, create=False)\<close>: a missing component is \<open>FileNotFoundError\<close>
  (\<open>None\<close> here), anything but a directory on the way is refused.
\<close>

fun open_walk :: "dirc \<Rightarrow> ustr list \<Rightarrow> exn + dirc option" where
  "open_walk d [] = Inr (Some d)"
| "open_walk d (n # p) =
     (case aget d n of
        None \<Rightarrow> Inr None
      | Some (Dir d') \<Rightarrow> open_walk d' p
      | Some _ \<Rightarrow> Inl (Exn ValueError ''record directory is missing or unsafe''))"

definition open_record_directory :: "path \<Rightarrow> fsys \<Rightarrow> exn + dirc option" where
  "open_record_directory p s = open_walk (s (fst p)) (snd p)"

definition load_record ::
  "settings \<Rightarrow> path \<Rightarrow> int option \<Rightarrow> ustr option \<Rightarrow> fsys \<Rightarrow> exn + calculation_record" where
  "load_record c p expected_sequence expected_event_id s =
     bindE (read_json p STATUS_FILE ValueError s) (\<lambda>data.
     bindE (dict_to_record c data) (\<lambda>r.
     bindE (validate_record c r expected_sequence expected_event_id) (\<lambda>_. Inr r)))"

definition read_record_directory ::
  "settings \<Rightarrow> path \<Rightarrow> int option \<Rightarrow> ustr option \<Rightarrow> fsys \<Rightarrow> exn + calculation_record option" where
  "read_record_directory c p expected_sequence expected_event_id s =
     bindE (open_record_directory p s) (\<lambda>access.
       case access of
         None \<Rightarrow> Inr None
       | Some d \<Rightarrow> bindE (load_record c p expected_sequence expected_event_id s) (\<lambda>r. Inr (Some r)))"

definition read_status :: "settings \<Rightarrow> int \<Rightarrow> fsys \<Rightarrow> exn + calculation_record option" where
  "read_status c sequence s =
     read_record_directory c (queue_entry_dir sequence) (Some sequence) None s"

definition read_current_record :: "settings \<Rightarrow> ustr \<Rightarrow> fsys \<Rightarrow> exn + calculation_record option" where
  "read_current_record c event_id s =
     bindE (validate_event_id (JStr event_id)) (\<lambda>_.
     read_record_directory c (event_service_dir event_id) None (Some event_id) s)"

definition replace_record ::
  "path \<Rightarrow> calculation_record \<Rightarrow> int option \<Rightarrow> ustr option \<Rightarrow> ('m, unit) io" where
  "replace_record p r expected_sequence expected_event_id =
     bindM (ask cfg) (\<lambda>c.
     thenM (liftE (validate_record c r expected_sequence expected_event_id))
           (publish_json is_os_error ''.status-'' p STATUS_FILE (record_to_dict r)))"

section \<open>Updates and transitions\<close>

text \<open>Opening the directory for writing: the record must be there.\<close>

definition load_existing ::
  "path \<Rightarrow> int option \<Rightarrow> ustr option \<Rightarrow> ('m, calculation_record) io" where
  "load_existing p expected_sequence expected_event_id =
     observe (\<lambda>E s. bindE (open_record_directory p s) (\<lambda>access.
       case access of
         None \<Rightarrow> Inl (Exn FileNotFoundError ''calculation record does not exist'')
       | Some d \<Rightarrow> load_record (cfg E) p expected_sequence expected_event_id s))"

definition update_record_directory ::
  "path \<Rightarrow> int option \<Rightarrow> ustr option \<Rightarrow> (string \<times> json) list \<Rightarrow> ('m, calculation_record) io" where
  "update_record_directory p expected_sequence expected_event_id changes =
     thenM (check (list_all (\<lambda>(name, v). name \<notin> set FORBIDDEN_CHANGES) changes) ValueError
              ''identity and lifecycle fields require their dedicated operations'')
    (bindM (load_existing p expected_sequence expected_event_id) (\<lambda>r.
     bindM (liftE (apply_changes changes r)) (\<lambda>r'.
     thenM (replace_record p r' expected_sequence expected_event_id) (ret r'))))"

definition update_status :: "int \<Rightarrow> (string \<times> json) list \<Rightarrow> ('m, calculation_record) io" where
  "update_status sequence changes =
     update_record_directory (queue_entry_dir sequence) (Some sequence) None changes"

definition update_current_record :: "ustr \<Rightarrow> (string \<times> json) list \<Rightarrow> ('m, calculation_record) io" where
  "update_current_record event_id changes =
     bindM (liftE (validate_event_id (JStr event_id))) (\<lambda>_.
     update_record_directory (event_service_dir event_id) None (Some event_id) changes)"

definition transition_record_directory ::
  "path \<Rightarrow> lifecycle_state \<Rightarrow> int option \<Rightarrow> ustr option \<Rightarrow> transition_args \<Rightarrow> ('m, calculation_record) io"
where
  "transition_record_directory p target expected_sequence expected_event_id args =
     bindM (load_existing p expected_sequence expected_event_id) (\<lambda>r.
     bindM read_now (\<lambda>now.
     bindM (liftE (transition_record now target args r)) (\<lambda>r'.
     thenM (replace_record p r' expected_sequence expected_event_id) (ret r'))))"

definition transition_status ::
  "int \<Rightarrow> lifecycle_state \<Rightarrow> transition_args \<Rightarrow> ('m, calculation_record) io" where
  "transition_status sequence target args =
     thenM (check (target \<noteq> SUCCESS) ValueError ''SUCCESS requires calculation finalization'')
           (transition_record_directory (queue_entry_dir sequence) target (Some sequence) None args)"

definition transition_current_record ::
  "ustr \<Rightarrow> lifecycle_state \<Rightarrow> transition_args \<Rightarrow> ('m, calculation_record) io" where
  "transition_current_record event_id target args =
     thenM (check (target \<noteq> SUCCESS) ValueError ''SUCCESS requires calculation finalization'')
    (bindM (liftE (validate_event_id (JStr event_id))) (\<lambda>_.
     transition_record_directory (event_service_dir event_id) target None (Some event_id) args))"

definition transition_current_record_terminal ::
  "ustr \<Rightarrow> int \<Rightarrow> lifecycle_state \<Rightarrow> transition_args \<Rightarrow> ('m, calculation_record) io" where
  "transition_current_record_terminal event_id sequence target args =
     bindM (liftE (validate_event_id (JStr event_id))) (\<lambda>_.
     thenM (check (1 \<le> sequence) ValueError ''internal_sequence must be a positive integer'')
    (thenM (check (is_terminal target) ValueError ''target must be a terminal LifecycleState'')
           (transition_record_directory (event_service_dir event_id) target (Some sequence)
              (Some event_id) args)))"

definition transition_to_running :: "int \<Rightarrow> ('m, calculation_record) io" where
  "transition_to_running sequence = transition_status sequence RUNNING no_args"

definition transition_to_failed :: "int \<Rightarrow> ustr \<Rightarrow> string \<Rightarrow> ('m, calculation_record) io" where
  "transition_to_failed sequence reason code =
     transition_status sequence FAILED
       (failure_args (jobj [(''code'', jstr code), (''message'', JStr reason)]))"

section \<open>Recovery of a stale RUNNING record\<close>

datatype recovery_result =
  MISSING | IDENTITY_MISMATCH | BLOCKING_CHILD_PRESENT | NOT_RUNNING | RECOVERY_FAILED

definition inspect_stale ::
  "settings \<Rightarrow> path \<Rightarrow> ustr \<Rightarrow> int \<Rightarrow> ustr \<Rightarrow> fsys \<Rightarrow> exn + (recovery_result + calculation_record)"
where
  "inspect_stale c p expected_event_id expected_sequence blocking_child s =
     bindE (open_record_directory p s) (\<lambda>access.
       case access of
         None \<Rightarrow> Inr (Inl MISSING)
       | Some d \<Rightarrow>
           bindE (load_record c p None None s) (\<lambda>r.
           Inr (if event_id_of r \<noteq> expected_event_id \<or> sequence_of r \<noteq> expected_sequence
                then Inl IDENTITY_MISMATCH
                else if aget d blocking_child \<noteq> None then Inl BLOCKING_CHILD_PRESENT
                else if r_status r \<noteq> jstr ''RUNNING'' then Inl NOT_RUNNING
                else Inr r)))"

definition fail_matching_running_record_if_child_absent ::
  "path \<Rightarrow> ustr \<Rightarrow> int \<Rightarrow> ustr \<Rightarrow> json \<Rightarrow> ('m, recovery_result) io" where
  "fail_matching_running_record_if_child_absent p expected_event_id expected_sequence
       blocking_child failure =
     bindM (liftE (validate_event_id (JStr expected_event_id))) (\<lambda>_.
     thenM (check (1 \<le> expected_sequence) ValueError ''expected_sequence must be a positive integer'')
    (bindM (liftE (validate_upload_basename (JStr blocking_child))) (\<lambda>_.
     bindM (observe (\<lambda>E. inspect_stale (cfg E) p expected_event_id expected_sequence blocking_child))
       (\<lambda>found.
       case found of
         Inl result \<Rightarrow> ret result
       | Inr r \<Rightarrow>
           bindM read_now (\<lambda>completed_at.
           thenM (replace_record p (fail_stale_record completed_at failure r)
                    (Some expected_sequence) (Some expected_event_id))
                 (ret RECOVERY_FAILED))))))"

section \<open>Request manifests\<close>

definition is_hex_digest :: "json \<Rightarrow> bool" where
  "is_hex_digest v \<longleftrightarrow>
     is_str v \<and> length (str_of v) = 64
     \<and> list_all (\<lambda>c. is_digit c \<or> (97 \<le> c \<and> c \<le> 102)) (str_of v)"

text \<open>
  The manifest's file entries, in order, as (basename, size, digest); \<open>k\<close> is the exception the
  reading module raises.
\<close>

fun manifest_files ::
  "exn_kind \<Rightarrow> (ustr \<times> int \<times> ustr) list \<Rightarrow> json list \<Rightarrow> exn + (ustr \<times> int \<times> ustr) list" where
  "manifest_files k expected [] = Inr expected"
| "manifest_files k expected (item # items) =
     bindE (guardE (is_dict item \<and> has_exact_keys item [''basename'', ''size_bytes'', ''sha256''])
              k ''request manifest file entry is invalid'') (\<lambda>_.
     bindE (case validate_upload_basename (jget item ''basename'') of
              Inl e \<Rightarrow> Inl (Exn k ''request manifest basename is invalid'') | Inr b \<Rightarrow> Inr b) (\<lambda>b.
     bindE (guardE (aget expected b = None) k ''request manifest contains duplicate basename'') (\<lambda>_.
     bindE (guardE (is_int (jget item ''size_bytes'') \<and> 0 \<le> int_of (jget item ''size_bytes''))
              k ''request snapshot size is invalid'') (\<lambda>_.
     bindE (guardE (is_hex_digest (jget item ''sha256'')) k ''request snapshot checksum is invalid'')
       (\<lambda>_.
     manifest_files k (expected @ [(b, int_of (jget item ''size_bytes''), str_of (jget item ''sha256''))])
       items)))))"

definition load_request_manifest_identity ::
  "exn_kind \<Rightarrow> path \<Rightarrow> calculation_record \<Rightarrow> fsys \<Rightarrow> exn + json" where
  "load_request_manifest_identity k p r s =
     bindE (read_json p (lit ''request-manifest.json'') k s) (\<lambda>m.
     bindE (guardE (is_dict m
              \<and> has_exact_keys m [''schema_version'', ''event_id'', ''internal_sequence'', ''files''])
              k ''request manifest fields are invalid'') (\<lambda>_.
     bindE (guardE (jget m ''schema_version'' = JInt 1 \<and> jget m ''event_id'' = r_event_id r
                    \<and> is_int (jget m ''internal_sequence'')
                    \<and> jget m ''internal_sequence'' = r_internal_sequence r
                    \<and> is_list (jget m ''files''))
              k ''request manifest identity or schema is invalid'') (\<lambda>_.
     Inr m)))"

definition content_bytes :: "env \<Rightarrow> content \<Rightarrow> nat list" where
  "content_bytes E c = (case c of Bytes b \<Rightarrow> b | Json j \<Rightarrow> encoded E j)"

text \<open>A retained record; its path is \<open>archive/<name>/service\<close>.\<close>

definition read_archived_record :: "settings \<Rightarrow> path \<Rightarrow> ustr \<Rightarrow> fsys \<Rightarrow> exn + calculation_record option" where
  "read_archived_record c p expected_event_id s =
     bindE (validate_event_id (JStr expected_event_id)) (\<lambda>_.
     bindE (guardE (fst p = Archive \<and> length (snd p) = 2 \<and> last (snd p) = lit ''service'') ValueError
              ''archived service record path is invalid'') (\<lambda>_.
     bindE (open_record_directory p s) (\<lambda>access.
     case access of
       None \<Rightarrow> Inr None
     | Some d \<Rightarrow>
         bindE (load_record c p None (Some expected_event_id) s) (\<lambda>r.
         bindE (load_request_manifest_identity ValueError p r s) (\<lambda>_. Inr (Some r))))))"

section \<open>Scans\<close>

definition validate_queue_entry :: "env \<Rightarrow> int \<Rightarrow> ustr \<Rightarrow> fsys \<Rightarrow> exn + calculation_record" where
  "validate_queue_entry E sequence entry_name s =
     (let p = (Queue, [entry_name]) in
     bindE (open_record_directory p s) (\<lambda>access.
     bindE (guardE (access \<noteq> None) ValueError ''queue entry is missing'') (\<lambda>_.
     bindE (load_record (cfg E) p (Some sequence) None s) (\<lambda>r.
     bindE (case dir_at (Queue, [entry_name, lit ''request'']) s of
              None \<Rightarrow> Inl (Exn ValueError ''request snapshot directory is missing or unsafe'')
            | Some d \<Rightarrow> Inr d) (\<lambda>request.
     bindE (load_request_manifest_identity ValueError p r s) (\<lambda>m.
     bindE (manifest_files ValueError [] (list_of (jget m ''files''))) (\<lambda>expected.
     bindE (guardE (aget expected (lit ''event.xml'') \<noteq> None) ValueError
              ''request manifest must contain exactly one event.xml'') (\<lambda>_.
     bindE (guardE (list_all (\<lambda>(n, v). is_file v) request) ValueError
              ''request snapshot contains a non-regular entry'') (\<lambda>_.
     bindE (guardE (list_all (\<lambda>(n, f). aget request n \<noteq> None) expected) ValueError
              ''request snapshot is missing manifest entries'') (\<lambda>_.
     bindE (guardE (list_all (\<lambda>(n, v). aget expected n \<noteq> None) request) ValueError
              ''request snapshot contains unmanifested entries'') (\<lambda>_.
     bindE (guardE (list_all (\<lambda>(n, size, digest).
                case aget request n of
                  Some (File c) \<Rightarrow> int (length (content_bytes E c)) = size | _ \<Rightarrow> False) expected)
              ValueError ''request snapshot size differs'') (\<lambda>_.
     Inr r))))))))))))"

text \<open>One entry of a scan: a record, or the entry's name with its problem.\<close>

definition hidden :: "ustr \<Rightarrow> bool" where
  "hidden name \<longleftrightarrow> starts_with (lit ''.'') name"

fun collect :: "('a \<Rightarrow> exn + 'b) \<Rightarrow> 'a list \<Rightarrow> 'b list \<times> ('a \<times> exn) list" where
  "collect f [] = ([], [])"
| "collect f (x # xs) =
     (let (good, bad) = collect f xs in
      case f x of Inl e \<Rightarrow> (good, (x, e) # bad) | Inr y \<Rightarrow> (y # good, bad))"

text \<open>\<open>sorted(os.listdir(...))\<close>: every name of a directory once.\<close>

definition listing :: "dirc \<Rightarrow> ustr list" where
  "listing d = sort (remdups (akeys d))"

lemma set_listing [simp]: "set (listing d) = set (akeys d)"
  and sorted_listing [simp]: "sorted (listing d)" and distinct_listing [simp]: "distinct (listing d)"
  by (simp_all add: listing_def)

lemma listing_simps [simp]: "listing [] = []" "listing [(n, v)] = [n]"
  by (simp_all add: listing_def)

definition scan_queue_records :: "env \<Rightarrow> fsys \<Rightarrow> calculation_record list \<times> (ustr \<times> exn) list" where
  "scan_queue_records E s =
     (let (records, malformed) =
            collect (\<lambda>name. bindE (parse_queue_entry_name name) (\<lambda>sequence.
                              validate_queue_entry E sequence name s))
              (filter (\<lambda>n. \<not> hidden n) (listing (s Queue)))
      in (sort_key sequence_of records, malformed))"

definition scan_current_entry :: "env \<Rightarrow> fsys \<Rightarrow> ustr \<Rightarrow> exn + calculation_record" where
  "scan_current_entry E s event_id =
     bindE (validate_event_id (JStr event_id)) (\<lambda>_.
     bindE (open_record_directory (Events, [event_id]) s) (\<lambda>access.
     bindE (guardE (access \<noteq> None) ValueError ''current record is missing'') (\<lambda>_.
     bindE (load_record (cfg E) (Events, [event_id]) None (Some event_id) s) (\<lambda>r.
     bindE (load_request_manifest_identity ValueError (Events, [event_id]) r s) (\<lambda>_. Inr r)))))"

definition scan_current_records :: "env \<Rightarrow> fsys \<Rightarrow> calculation_record list \<times> (ustr \<times> exn) list" where
  "scan_current_records E s =
     (let (records, malformed) = collect (scan_current_entry E s) (listing (s Events))
      in (sort_key sequence_of records, malformed))"

end
