(* ===== verification/Frames.thy ===== *)
theory Frames
  imports Memory_Triples Status_Store
begin

text \<open>
  What an operation on one record directory leaves alone: every other directory of the store
  (\<open>only_at\<close>), and inside it every entry but the published one and temporary names. These hold from
  any store and for any fault.
\<close>

definition only_at :: "path \<Rightarrow> fsys \<Rightarrow> fsys \<Rightarrow> bool" where
  "only_at p s s' \<longleftrightarrow> (\<forall>r n. (r, [n]) \<noteq> p \<longrightarrow> aget (s' r) n = aget (s r) n)"

lemma only_at_refl [simp]: "only_at p s s"
  by (simp add: only_at_def)

lemma only_at_trans: "only_at p s s' \<Longrightarrow> only_at p s' s'' \<Longrightarrow> only_at p s s''"
  by (simp add: only_at_def)

lemma only_at_update: "only_at (r, [n]) s (update_at (r, [n]) f s)"
  by (auto simp: only_at_def split: option.splits node.splits)

lemma only_at_dir: "only_at p s s' \<Longrightarrow> (r, [n]) \<noteq> p \<Longrightarrow> dir_at (r, [n]) s' = dir_at (r, [n]) s"
  by (simp add: only_at_def)

lemma only_at_entry: "only_at p s s' \<Longrightarrow> (r, [n]) \<noteq> p \<Longrightarrow> entry_at (r, [n]) m s' = entry_at (r, [n]) m s"
  by (simp add: only_at_def entry_at_def)

lemma only_at_put_dir: "only_at (r, [n]) s (put_dir (r, [n]) d s)"
  unfolding put_dir_def by (rule only_at_update)

text \<open>Publishing touches one directory.\<close>

lemma triple_publish_only:
  "triple E (\<lambda>s. only_at (r, [n]) s0 s) (publish_json swallow prefix (r, [n]) target j)
     (\<lambda>_ s. only_at (r, [n]) s0 s) (\<lambda>_ s. only_at (r, [n]) s0 s)"
    (is "triple E ?P _ ?Q ?X")
proof -
  have sys: "triple E ?P (sys op untouched) ?Q ?X"
    if "\<And>s s'. op s = Inr s' \<Longrightarrow> only_at (r, [n]) s s'" for op :: "fsys \<Rightarrow> exn + fsys"
    by (rule triple_sys) (auto simp: untouched_def dest: that intro: only_at_trans)
  have two: "only_at (r, [n]) s (update_at (r, [n]) f (update_at (r, [n]) g s))" for s f g
    by (rule only_at_trans [OF only_at_update only_at_update])
  have calls: "triple E ?P (create_private (r, [n]) t) ?Q ?X"
    "triple E ?P (write_file (r, [n]) t c) ?Q ?X" "triple E ?P (unlink (r, [n]) t) ?Q ?X"
    "triple E ?P (rename (r, [n]) t (r, [n]) t') ?Q ?X" "triple E ?P fsync ?Q ?X" for t t' c
    by (auto simp: create_private_def write_file_def unlink_def rename_def fsync_def
        create_private_effect_def write_effect_def unlink_effect_def rename_effect_def
        only_at_update two simp del: update_at_simps
        split: option.splits node.splits if_splits intro!: sys)
  show ?thesis
    unfolding publish_json_def Let_def
    by (intro triple_bind [where R = "\<lambda>_. ?P"] triple_then [where R = ?P]
        triple_catch [where R = "\<lambda>_. ?P"] triple_read_uuid triple_if triple_ret triple_reraise
        triple_weaken [OF calls(1)] triple_weaken [OF calls(2)] triple_weaken [OF calls(3)]
        triple_weaken [OF calls(4)] triple_weaken [OF calls(5)])
       (auto split: option.splits)
qed

text \<open>Publishing keeps every other entry of every directory.\<close>

lemma entry_update_other:
  assumes "\<And>d. aget (f d) m = aget d m"
  shows "entry_at (r, [n]) m (update_at (r', [n']) f s) = entry_at (r, [n]) m s"
  using assms by (auto simp: entry_at_def split: option.splits node.splits)

lemma triple_publish_entry:
  assumes m: "m \<noteq> target" "\<not> tmp_name m" and tmp: "\<And>u. tmp_name (lit prefix @ u @ lit ''.tmp'')"
  shows "triple E (\<lambda>s. entry_at (r, [n]) m s = v) (publish_json swallow prefix (r', [n']) target j)
     (\<lambda>_ s. entry_at (r, [n]) m s = v) (\<lambda>_ s. entry_at (r, [n]) m s = v)"
    (is "triple E ?P _ ?Q ?X")
proof -
  have sys: "triple E ?P (sys op untouched) ?Q ?X"
    if "\<And>s s'. op s = Inr s' \<Longrightarrow> entry_at (r, [n]) m s' = entry_at (r, [n]) m s"
    for op :: "fsys \<Rightarrow> exn + fsys"
    by (rule triple_sys) (auto simp: untouched_def dest: that)
  have t: "m \<noteq> lit prefix @ u @ lit ''.tmp''" for u using m(2) tmp [of u] by auto
  note defs = create_private_def write_file_def unlink_def rename_def fsync_def
    create_private_effect_def write_effect_def unlink_effect_def rename_effect_def
  have calls: "triple E ?P (create_private (r', [n']) t) ?Q ?X"
    "triple E ?P (write_file (r', [n']) t c) ?Q ?X" "triple E ?P (unlink (r', [n']) t) ?Q ?X"
    "triple E ?P (rename (r', [n']) t (r', [n']) target) ?Q ?X"
    if "m \<noteq> t" for t c
    using that m(1)
    by (auto simp: defs entry_update_other simp del: update_at_simps
        split: option.splits node.splits if_splits intro!: sys)
  have sync: "triple E ?P fsync ?Q ?X"
    by (rule triple_fsync) auto
  show ?thesis
    unfolding publish_json_def Let_def
    by (intro triple_bind [where R = "\<lambda>_. ?P"] triple_then [where R = ?P]
        triple_catch [where R = "\<lambda>_. ?P"] triple_read_uuid triple_if triple_ret triple_reraise
        triple_weaken [OF calls(1) [OF t]] triple_weaken [OF calls(2) [OF t]]
        triple_weaken [OF calls(3) [OF t]] triple_weaken [OF calls(4) [OF t]]
        triple_weaken [OF sync])
       (auto split: option.splits)
qed

end
