(* ===== verification/Status_Triples.thy ===== *)
theory Status_Triples
  imports Frames
begin

text \<open>
  What the record operations of \<open>status.py\<close> do to the store: reading back a stored record, the
  frame of every operation, and the exact effect of a transition (the new record, or on an error or
  a death the old one or the new one, never anything else).
\<close>

section \<open>Frames\<close>

lemma tmp_status: "tmp_name (lit ''.status-'' @ u @ lit ''.tmp'')"
  by (simp add: tmp_name_def starts_with_append)

lemma not_tmp_status: "\<not> tmp_name STATUS_FILE"
  by (simp add: STATUS_FILE_def tmp_name_lit)

lemma triple_replace_only:
  "triple E (\<lambda>s. only_at (r, [n]) s0 s) (replace_record (r, [n]) c es ee)
     (\<lambda>_ s. only_at (r, [n]) s0 s) (\<lambda>_ s. only_at (r, [n]) s0 s)"
  unfolding replace_record_def
  by (intro triple_bind [where R = "\<lambda>_ s. only_at (r, [n]) s0 s"] triple_ask
      triple_then [where R = "\<lambda>s. only_at (r, [n]) s0 s"] triple_liftE triple_publish_only)

lemma triple_replace_entry:
  assumes "m \<noteq> STATUS_FILE" "\<not> tmp_name m"
  shows "triple E (\<lambda>s. entry_at (r, [n]) m s = v) (replace_record (r', [n']) c es ee)
     (\<lambda>_ s. entry_at (r, [n]) m s = v) (\<lambda>_ s. entry_at (r, [n]) m s = v)"
  unfolding replace_record_def
  by (intro triple_bind [where R = "\<lambda>_ s. entry_at (r, [n]) m s = v"] triple_ask
      triple_then [where R = "\<lambda>s. entry_at (r, [n]) m s = v"] triple_liftE
      triple_publish_entry assms tmp_status)

text \<open>An operation built from reads and \<open>replace_record\<close> at one directory keeps what that keeps.\<close>

lemma triple_transition_keeps:
  fixes A :: "fsys \<Rightarrow> bool"
  assumes "\<And>c es ee. triple E A (replace_record p c es ee :: ('m, unit) io) (\<lambda>_. A) (\<lambda>_. A)"
  shows "triple E A (transition_record_directory p target es ee args :: ('m, calculation_record) io)
     (\<lambda>_. A) (\<lambda>_. A)"
  unfolding transition_record_directory_def load_existing_def
  by (intro triple_bind [where R = "\<lambda>_. A"] triple_then [where R = A] triple_observe triple_read_now
      triple_liftE triple_ret assms)

lemma triple_update_keeps:
  fixes A :: "fsys \<Rightarrow> bool"
  assumes "\<And>c es ee. triple E A (replace_record p c es ee :: ('m, unit) io) (\<lambda>_. A) (\<lambda>_. A)"
  shows "triple E A (update_record_directory p es ee changes :: ('m, calculation_record) io)
     (\<lambda>_. A) (\<lambda>_. A)"
  unfolding update_record_directory_def load_existing_def
  by (intro triple_bind [where R = "\<lambda>_. A"] triple_then [where R = A] triple_observe triple_check
      triple_liftE triple_ret assms)

lemmas transition_keeps = triple_transition_keeps triple_replace_only triple_replace_entry

lemma triple_transition_status_only:
  "triple E (\<lambda>s. only_at (queue_entry_dir seq) s0 s) (transition_status seq target args)
     (\<lambda>_ s. only_at (queue_entry_dir seq) s0 s) (\<lambda>_ s. only_at (queue_entry_dir seq) s0 s)"
  unfolding transition_status_def queue_entry_dir_def
  by (intro triple_then [where R = "\<lambda>s. only_at (Queue, [queue_entry_name seq]) s0 s"] triple_check
      triple_transition_keeps triple_replace_only)

lemma triple_transition_current_only:
  "triple E (\<lambda>s. only_at (event_service_dir e) s0 s) (transition_current_record e target args)
     (\<lambda>_ s. only_at (event_service_dir e) s0 s) (\<lambda>_ s. only_at (event_service_dir e) s0 s)"
  unfolding transition_current_record_def event_service_dir_def
  by (intro triple_then [where R = "\<lambda>s. only_at (Events, [e]) s0 s"] triple_check triple_liftE
      triple_bind [where R = "\<lambda>_ s. only_at (Events, [e]) s0 s"]
      triple_transition_keeps triple_replace_only)

lemma triple_transition_status_entry:
  assumes "m \<noteq> STATUS_FILE" "\<not> tmp_name m"
  shows "triple E (\<lambda>s. entry_at (r, [n]) m s = v) (transition_status seq target args)
      (\<lambda>_ s. entry_at (r, [n]) m s = v) (\<lambda>_ s. entry_at (r, [n]) m s = v)"
  unfolding transition_status_def queue_entry_dir_def
  by (intro triple_then [where R = "\<lambda>s. entry_at (r, [n]) m s = v"] triple_check
      triple_transition_keeps triple_replace_entry assms)

lemma triple_transition_current_entry:
  assumes "m \<noteq> STATUS_FILE" "\<not> tmp_name m"
  shows "triple E (\<lambda>s. entry_at (r, [n]) m s = v) (transition_current_record e target args)
      (\<lambda>_ s. entry_at (r, [n]) m s = v) (\<lambda>_ s. entry_at (r, [n]) m s = v)"
  unfolding transition_current_record_def event_service_dir_def
  by (intro triple_then [where R = "\<lambda>s. entry_at (r, [n]) m s = v"] triple_check triple_liftE
      triple_bind [where R = "\<lambda>_ s. entry_at (r, [n]) m s = v"]
      triple_transition_keeps triple_replace_entry assms)

section \<open>Memory\<close>

lemma keeps_replace [keeps]: "keeps_mem (replace_record p r es ee)"
  unfolding replace_record_def by (intro keeps)

lemma keeps_update [keeps]: "keeps_mem (update_record_directory p es ee changes)"
  unfolding update_record_directory_def load_existing_def by (intro keeps)

lemma keeps_update_status [keeps]: "keeps_mem (update_status seq changes)"
  unfolding update_status_def by (intro keeps)

lemma keeps_transition [keeps]:
  "keeps_mem (transition_record_directory p target es ee args)"
  unfolding transition_record_directory_def load_existing_def by (intro keeps)

lemma keeps_transitions [keeps]:
  "keeps_mem (transition_status seq target args)" "keeps_mem (transition_current_record e target args)"
  "keeps_mem (transition_current_record_terminal e seq target args)"
  "keeps_mem (transition_to_running seq)" "keeps_mem (transition_to_failed seq reason code)"
  unfolding transition_status_def transition_current_record_def transition_current_record_terminal_def
    transition_to_running_def transition_to_failed_def
  by (intro keeps)+

section \<open>Reading back\<close>

lemma open_record_dir: "dir_at (r, [n]) s = Some d \<Longrightarrow> open_record_directory (r, [n]) s = Inr (Some d)"
  by (auto simp: open_record_directory_def split: option.splits node.splits)

lemma load_record_iff:
  "load_record c p es ee s = Inr r \<longleftrightarrow>
     (\<exists>j. read_json p STATUS_FILE ValueError s = Inr j \<and> dict_to_record c j = Inr r
        \<and> (\<forall>x. es = Some x \<longrightarrow> sequence_of r = x) \<and> (\<forall>x. ee = Some x \<longrightarrow> event_id_of r = x))"
  by (auto simp: load_record_def result_simps validate_record_expected dict_to_record_valid)

lemma load_record_valid: "load_record c p es ee s = Inr r \<Longrightarrow> valid_record c r"
  by (auto simp: load_record_iff dict_to_record_valid)

lemma load_stored:
  assumes "entry_at p STATUS_FILE s = Some (File (Json (record_to_dict r)))" "valid_record c r"
    and "\<And>x. es = Some x \<Longrightarrow> sequence_of r = x" "\<And>x. ee = Some x \<Longrightarrow> event_id_of r = x"
  shows "load_record c p es ee s = Inr r"
  using assms by (simp add: load_record_iff read_json_def open_regular_def dict_to_record_to_dict)

section \<open>The effect of a replacement\<close>

text \<open>\<open>stored r d\<close> is the directory \<open>d\<close> with \<open>status.json\<close> holding \<open>r\<close>.\<close>

definition stored :: "calculation_record \<Rightarrow> dirc \<Rightarrow> dirc" where
  "stored r d = aput STATUS_FILE (File (Json (record_to_dict r))) d"

lemma triple_replace:
  assumes "dir_at p s0 = Some d" "\<And>d'. aget d STATUS_FILE \<noteq> Some (Dir d')"
    and "validate_record (cfg E) r es ee = Inr ()"
  shows "triple E (\<lambda>s. s = s0) (replace_record p r es ee) (\<lambda>_. dir_in p s0 (agree (stored r d)))
     (\<lambda>_ s. \<not> quiet E \<and> dir_in p s0 (\<lambda>d'. agree d d' \<or> agree (stored r d) d') s)"
proof -
  have "triple E (\<lambda>s. s = s0) (bindM (ask cfg) (\<lambda>c. thenM (liftE (validate_record c r es ee))
      (publish_json is_os_error ''.status-'' p STATUS_FILE (record_to_dict r))))
    (\<lambda>_. dir_in p s0 (agree (stored r d)))
    (\<lambda>_ s. \<not> quiet E \<and> dir_in p s0 (\<lambda>d'. agree d d' \<or> agree (stored r d) d') s)"
    unfolding stored_def
    by (rule triple_bind [where R = "\<lambda>c s. c = cfg E \<and> s = s0"], rule triple_ask, simp,
        rule triple_pure, rule triple_then [where R = "\<lambda>s. s = s0"])
       (use assms(3) in \<open>auto intro!: triple_liftE
          triple_publish [OF assms(1) not_tmp_status tmp_status assms(2)]\<close>)
  then show ?thesis by (simp add: replace_record_def)
qed

text \<open>Reading a known record, and writing a changed one back.\<close>

lemma triple_load:
  assumes "dir_at (r, [n]) s0 = Some d" "aget d STATUS_FILE = Some (File (Json (record_to_dict rec)))"
    and "valid_record (cfg E) rec"
    and "\<And>x. es = Some x \<Longrightarrow> sequence_of rec = x" "\<And>x. ee = Some x \<Longrightarrow> event_id_of rec = x"
  shows "triple E (\<lambda>s. s = s0) (load_existing (r, [n]) es ee) (\<lambda>x s. x = rec \<and> s = s0) X"
proof -
  have load: "load_record (cfg E) (r, [n]) es ee s0 = Inr rec"
    by (rule load_stored) (use assms in \<open>auto simp: entry_at_def\<close>)
  show ?thesis
    unfolding load_existing_def
    by (rule triple_observe) (auto simp: open_record_dir [OF assms(1)] load)
qed

lemma triple_write_back:
  assumes "dir_at (r, [n]) s0 = Some d" "aget d STATUS_FILE = Some (File (Json (record_to_dict rec)))"
    and "\<And>x. es = Some x \<Longrightarrow> sequence_of rec = x" "\<And>x. ee = Some x \<Longrightarrow> event_id_of rec = x"
    and "valid_record (cfg E) rec'" "same_identity rec rec'"
  shows "triple E (\<lambda>s. s = s0) (thenM (replace_record (r, [n]) rec' es ee) (ret rec'))
     (\<lambda>x s. x = rec' \<and> dir_in (r, [n]) s0 (agree (stored rec' d)) s)
     (\<lambda>_ s. \<not> quiet E \<and> dir_in (r, [n]) s0 (\<lambda>d'. agree d d' \<or> agree (stored rec' d) d') s)"
proof -
  have ok: "validate_record (cfg E) rec' es ee = Inr ()"
    using assms(3-6) same_identityD [OF assms(6)] by (auto simp: validate_record_expected)
  show ?thesis
    by (intro triple_then [OF triple_replace [OF assms(1) _ ok]] triple_ret) (auto simp: assms(2))
qed

text \<open>An update of a field.\<close>

lemma triple_update:
  assumes "dir_at (r, [n]) s0 = Some d" "aget d STATUS_FILE = Some (File (Json (record_to_dict rec)))"
    and "valid_record (cfg E) rec"
    and "\<And>x. es = Some x \<Longrightarrow> sequence_of rec = x" "\<And>x. ee = Some x \<Longrightarrow> event_id_of rec = x"
    and "list_all (\<lambda>(name, v). name \<notin> set FORBIDDEN_CHANGES) changes"
    and "apply_changes changes rec = Inr rec'" "valid_record (cfg E) rec'" "same_identity rec rec'"
  shows "triple E (\<lambda>s. s = s0) (update_record_directory (r, [n]) es ee changes)
     (\<lambda>x s. x = rec' \<and> dir_in (r, [n]) s0 (agree (stored rec' d)) s)
     (\<lambda>_ s. \<not> quiet E \<and> dir_in (r, [n]) s0 (\<lambda>d'. agree d d' \<or> agree (stored rec' d) d') s)"
  unfolding update_record_directory_def
  by (rule triple_then [where R = "\<lambda>s. s = s0"], rule triple_check, assumption, simp add: assms(6),
      rule triple_bind [OF triple_load [OF assms(1-5)]], assumption, assumption, rule triple_pure,
      rule triple_bind [where R = "\<lambda>x s. x = rec' \<and> s = s0"], rule triple_liftE)
     (use assms(7) in \<open>auto intro!: triple_pure triple_write_back assms\<close>)

text \<open>A transition from a store whose record is known.\<close>

lemma triple_transition:
  fixes f :: "ustr \<Rightarrow> calculation_record"
  assumes at: "dir_at (r, [n]) s0 = Some d"
    and st: "aget d STATUS_FILE = Some (File (Json (record_to_dict rec)))"
    and valid: "valid_record (cfg E) rec"
    and es: "\<And>x. es = Some x \<Longrightarrow> sequence_of rec = x" and ee: "\<And>x. ee = Some x \<Longrightarrow> event_id_of rec = x"
    and clk: "clock_valid E"
    and step: "\<And>now. valid_ts (JStr now) \<Longrightarrow> \<exists>rec'. transition_record now target args rec = Inr rec'
        \<and> valid_record (cfg E) rec' \<and> R rec'"
  shows "triple E (\<lambda>s. s = s0) (transition_record_directory (r, [n]) target es ee args)
     (\<lambda>rec' s. valid_record (cfg E) rec' \<and> state_of rec' = Some target \<and> same_identity rec rec' \<and> R rec'
        \<and> dir_in (r, [n]) s0 (agree (stored rec' d)) s)
     (\<lambda>_ s. \<not> quiet E \<and> (\<exists>rec'. valid_record (cfg E) rec' \<and> state_of rec' = Some target
        \<and> same_identity rec rec' \<and> R rec'
        \<and> dir_in (r, [n]) s0 (\<lambda>d'. agree d d' \<or> agree (stored rec' d) d') s))"
    (is "triple E _ _ ?Q ?X")
proof -
  have rest: "triple E (\<lambda>s. s = s0) (thenM (replace_record (r, [n]) rec' es ee) (ret rec')) ?Q ?X"
    if "transition_record now target args rec = Inr rec'" "valid_record (cfg E) rec'" "R rec'"
    for rec' now
    using that(2,3) transition_state [OF that(1)]
    by (intro triple_weaken [OF triple_write_back [OF at st es ee that(2)]]) auto
  have now: "triple E (\<lambda>s. valid_ts (JStr now) \<and> s = s0)
      (bindM (liftE (transition_record now target args rec)) (\<lambda>r'.
        thenM (replace_record (r, [n]) r' es ee) (ret r'))) ?Q ?X" for now
  proof (rule triple_pure)
    assume "valid_ts (JStr now)"
    then obtain rec' where t: "transition_record now target args rec = Inr rec'"
        "valid_record (cfg E) rec'" "R rec'"
      using step by blast
    show "triple E (\<lambda>s. s = s0) (bindM (liftE (transition_record now target args rec)) (\<lambda>r'.
        thenM (replace_record (r, [n]) r' es ee) (ret r'))) ?Q ?X"
      by (rule triple_bind [where R = "\<lambda>x s. x = rec' \<and> s = s0"])
         (auto simp: t(1) intro!: triple_liftE triple_pure rest t)
  qed
  have read: "triple E (\<lambda>s. s = s0) read_now (\<lambda>now s. valid_ts (JStr now) \<and> s = s0) ?X"
    by (rule triple_read_now) (use clk in \<open>simp add: clock_valid_def\<close>)
  show ?thesis
    unfolding transition_record_directory_def
    by (rule triple_bind [OF triple_load [OF at st valid es ee]], assumption, assumption, rule triple_pure)
       (simp, rule triple_bind [OF read now])
qed

end
