(* ===== verification/Samples.thy ===== *)
theory Samples
  imports Status_Triples
begin

text \<open>
  A concrete configuration, clock, environment and record, on which the properties are shown to
  have instances.
\<close>

definition sample_cfg :: settings where
  "sample_cfg = \<lparr>service_root = lit ''/r/.service'', shared_service_root = lit ''/s'',
     module_plan = [lit ''select''], max_concurrent = 2, required_products = []\<rparr>"

definition sample_time :: datetime where
  "sample_time = \<lparr>year = 2024, month = 2, day = 29, hour = 12, minute = 30, second = 5, micro = 42\<rparr>"

definition sample_env :: env where
  "sample_env = \<lparr>cfg = sample_cfg, fault_at = (\<lambda>_. Proceed), time_at = (\<lambda>_. sample_time),
     uuid_at = (\<lambda>_. lit ''u''), sha256 = (\<lambda>_. replicate 64 48), encoded = (\<lambda>_. []),
     printable = (\<lambda>_. True), same_device = True\<rparr>"

lemma sample_time_valid: "valid_datetime sample_time"
  by (simp add: sample_time_def valid_datetime_def days_in_month_def leap_def)

lemma sample_env_simps [simp]:
  "cfg sample_env = sample_cfg" "fault_at sample_env k = Proceed" "time_at sample_env k = sample_time"
  "uuid_at sample_env k = lit ''u''" "sha256 sample_env b = replicate 64 48"
  by (simp_all add: sample_env_def)

lemma sample_quiet: "quiet sample_env" and sample_clock: "clock_valid sample_env"
  by (simp_all add: quiet_def clock_valid_def sample_time_valid)

definition sample_event :: ustr where
  "sample_event = lit ''e''"

lemma sample_event_valid: "valid_event_id sample_event"
  by (simp add: sample_event_def valid_event_id_def safe_basename_def lit_Cons lit_Nil utf8_def
      utf8_char_def is_control_def is_surrogate_def NATIVE_BASENAME_LIMIT_BYTES_def
      EVENT_ID_LIMIT_BYTES_def)

lemma sample_configuration: "safe_basename (lit ''global'')"
  by (simp add: safe_basename_def lit_Cons lit_Nil utf8_def utf8_char_def is_control_def
      is_surrogate_def NATIVE_BASENAME_LIMIT_BYTES_def)

lemma sample_now: "valid_ts (JStr (now_iso sample_time))"
  by (simp add: sample_time_valid)

text \<open>A queued record, and the running record it becomes.\<close>

definition sample_queued :: "bool \<Rightarrow> calculation_record" where
  "sample_queued ow =
     (case new_queued_record sample_cfg (now_iso sample_time) (JStr sample_event) 7
             (JStr (lit ''global'')) ow [] (jstr ''upload'') of Inr r \<Rightarrow> r)"

definition sample_running :: "bool \<Rightarrow> calculation_record" where
  "sample_running ow =
     (case transition_record (now_iso sample_time) RUNNING no_args (sample_queued ow) of Inr r \<Rightarrow> r)"

lemma sample_queued:
  "valid_record sample_cfg (sample_queued ow)" "state_of (sample_queued ow) = Some QUEUED"
  "event_id_of (sample_queued ow) = sample_event" "sequence_of (sample_queued ow) = 7"
  "r_overwrite (sample_queued ow) = JBool ow"
proof -
  obtain r where "new_queued_record sample_cfg (now_iso sample_time) (JStr sample_event) 7
      (JStr (lit ''global'')) ow [] (jstr ''upload'') = Inr r"
    "valid_record sample_cfg r \<and> state_of r = Some QUEUED \<and> event_id_of r = sample_event
    \<and> sequence_of r = 7 \<and> r_overwrite r = JBool ow"
    using new_queued_valid [OF sample_event_valid _ sample_configuration sample_now, where s = 7
        and mode = "jstr ''upload''" and cfg = sample_cfg and overwrite = ow and ws = "[]"] by auto
  then show "valid_record sample_cfg (sample_queued ow)" "state_of (sample_queued ow) = Some QUEUED"
    "event_id_of (sample_queued ow) = sample_event" "sequence_of (sample_queued ow) = 7"
    "r_overwrite (sample_queued ow) = JBool ow"
    by (simp_all add: sample_queued_def)
qed

lemma sample_running:
  "transition_record (now_iso sample_time) RUNNING no_args (sample_queued ow) = Inr (sample_running ow)"
  "valid_record sample_cfg (sample_running ow)" "state_of (sample_running ow) = Some RUNNING"
  "event_id_of (sample_running ow) = sample_event" "sequence_of (sample_running ow) = 7"
  "r_overwrite (sample_running ow) = JBool ow"
proof -
  obtain r where r: "transition_record (now_iso sample_time) RUNNING no_args (sample_queued ow) = Inr r"
    "valid_record sample_cfg r" "state_of r = Some RUNNING" "same_identity (sample_queued ow) r"
    using start_transition [OF sample_queued(1,2) sample_now] by blast
  from r(1) have eq: "sample_running ow = r" by (simp add: sample_running_def)
  show "transition_record (now_iso sample_time) RUNNING no_args (sample_queued ow) = Inr (sample_running ow)"
    "valid_record sample_cfg (sample_running ow)" "state_of (sample_running ow) = Some RUNNING"
    using r by (simp_all add: eq)
  show "event_id_of (sample_running ow) = sample_event" "sequence_of (sample_running ow) = 7"
    using same_identityD [OF r(4)] by (simp_all add: eq sample_queued)
  show "r_overwrite (sample_running ow) = JBool ow"
    using r(4) sample_queued(5) [of ow] by (simp add: same_identity_def eq)
qed

text \<open>A store whose queue holds one record directory, with its request snapshot.\<close>

definition sample_manifest :: json where
  "sample_manifest = jobj
     [(''schema_version'', JInt 1), (''event_id'', JStr sample_event), (''internal_sequence'', JInt 7),
      (''files'', JList [jobj [(''basename'', jstr ''event.xml''), (''size_bytes'', JInt 0),
                              (''sha256'', JStr (replicate 64 48))]])]"

definition sample_entry :: "calculation_record \<Rightarrow> dirc" where
  "sample_entry r =
     [(STATUS_FILE, File (Json (record_to_dict r))),
      (lit ''request-manifest.json'', File (Json sample_manifest)),
      (lit ''request'', Dir [(lit ''event.xml'', File (Bytes []))])]"

definition sample_store :: "calculation_record \<Rightarrow> fsys" where
  "sample_store r = (\<lambda>_. [])(Queue := [(queue_entry_name 7, Dir (sample_entry r))])"

lemma sample_entry_status [simp]:
  "aget (sample_entry r) STATUS_FILE = Some (File (Json (record_to_dict r)))"
  "aget (sample_entry r) (lit ''request-manifest.json'') = Some (File (Json sample_manifest))"
  "aget (sample_entry r) (lit ''request'') = Some (Dir [(lit ''event.xml'', File (Bytes []))])"
  by (simp_all add: sample_entry_def STATUS_FILE_def lit_inject)

lemma sample_store_queue [simp]:
  "dir_at (Queue, [queue_entry_name 7]) (sample_store r) = Some (sample_entry r)"
  "entry_at (Queue, [queue_entry_name 7]) n (sample_store r) = aget (sample_entry r) n"
  by (simp_all add: sample_store_def entry_at_def)

lemma sample_event_xml: "validate_upload_basename (jstr ''event.xml'') = Inr (lit ''event.xml'')"
  unfolding validate_upload_basename_Inr
  by (simp add: safe_basename_def lit_Cons lit_Nil utf8_def utf8_char_def is_control_def
      is_surrogate_def NATIVE_BASENAME_LIMIT_BYTES_def)

lemma sample_manifest_identity:
  assumes "r_event_id r = JStr sample_event" "r_internal_sequence r = JInt 7"
    and "entry_at p (lit ''request-manifest.json'') s = Some (File (Json sample_manifest))"
  shows "load_request_manifest_identity k p r s = Inr sample_manifest"
  using assms
  by (simp add: load_request_manifest_identity_def read_json_def open_regular_def)
     (simp add: sample_manifest_def has_exact_keys_jobj)

lemma sample_manifest_files:
  "manifest_files k [] (list_of (jget sample_manifest ''files''))
     = Inr [(lit ''event.xml'', 0, replicate 64 48)]"
  by (simp add: sample_manifest_def has_exact_keys_jobj sample_event_xml is_hex_digest_def is_digit_def list_all_iff)

lemma sample_scan_entry:
  assumes "r = sample_queued ow"
  shows "validate_queue_entry sample_env 7 (queue_entry_name 7) (sample_store r) = Inr r"
proof -
  have "load_record sample_cfg (Queue, [queue_entry_name 7]) (Some 7) None (sample_store r) = Inr r"
    by (rule load_stored) (simp_all add: assms sample_queued)
  moreover have "load_request_manifest_identity ValueError (Queue, [queue_entry_name 7]) r (sample_store r)
      = Inr sample_manifest"
    by (rule sample_manifest_identity)
       (use valid_record_identity [OF sample_queued(1)] in \<open>simp_all add: assms sample_queued\<close>)
  moreover have "dir_at (Queue, [queue_entry_name 7, lit ''request'']) (sample_store r)
      = Some [(lit ''event.xml'', File (Bytes []))]"
    by (simp add: dir_at_def sample_store_def)
  ultimately show ?thesis
    by (simp add: validate_queue_entry_def open_record_dir [OF sample_store_queue(1)] sample_manifest_files
        content_bytes_def)
qed

lemma of_char_dot: "of_char (CHR ''.'') = (46 :: nat)"
  by simp

lemma sample_scan: "scan_queue_records sample_env (sample_store (sample_queued ow)) = ([sample_queued ow], [])"
proof -
  have "queue_entry_name 7 = pad QUEUE_ENTRY_WIDTH 7"
    by (simp add: queue_entry_name_def QUEUE_ENTRY_WIDTH_def)
  then have "46 \<notin> set (queue_entry_name 7)"
    by (simp add: pad_no_char is_digit_def)
  then have "\<not> hidden (queue_entry_name 7)"
    using starts_withD [of "lit ''.''" "queue_entry_name 7"]
    by (metis hidden_def in_set_conv_decomp lit_Cons lit_Nil append_Cons append_Nil of_char_dot)
  moreover have "parse_queue_entry_name (queue_entry_name 7) = Inr 7"
    by (rule parse_queue_entry_name_name) (simp_all add: QUEUE_ENTRY_WIDTH_def)
  ultimately show ?thesis
    by (simp add: scan_queue_records_def sample_scan_entry [OF refl])
       (simp add: sample_store_def sample_scan_entry [OF refl, unfolded sample_store_def])
qed

end
