(* ===== verification/Journal.thy ===== *)
theory Journal
  imports Status_Store
begin

text \<open>
  The transaction journal of \<open>recalculation.py\<close>: its value, its JSON form in \<open>transaction.json\<close>,
  the validator \<open>_load_journal\<close> and the archive path it may name. \<open>load_journal_round_trip\<close> says
  that whatever the service writes while it works on a transaction, it reads back unchanged.
\<close>

definition TRANSACTION_FILE :: ustr where
  "TRANSACTION_FILE = lit ''transaction.json''"

definition STAGING_DIRECTORY :: ustr where
  "STAGING_DIRECTORY = lit ''.recalculation-stage''"

definition NATIVE_CANDIDATE_DIRECTORY :: ustr where
  "NATIVE_CANDIDATE_DIRECTORY = lit ''.native-event-candidate''"

definition CHECKPOINTS :: "string list" where
  "CHECKPOINTS =
     [''products_staged'', ''service_staged'', ''preceding_disposed'', ''record_promoted'',
      ''candidate_ready'', ''native_tree_published'']"

record journal =
  j_event_id :: ustr
  j_sequence :: int
  j_overwrite :: bool
  j_products :: bool
  j_service :: bool
  j_archive_path :: "ustr option"
  j_completed :: "string list"
  j_stage_removal :: bool
  j_candidate_removal :: bool
  j_recovery_failure :: json

definition has_preceding :: "journal \<Rightarrow> bool" where
  "has_preceding j \<longleftrightarrow> j_products j \<or> j_service j"

definition path_json :: "ustr option \<Rightarrow> json" where
  "path_json p = (case p of None \<Rightarrow> JNull | Some s \<Rightarrow> JStr s)"

definition journal_to_json :: "journal \<Rightarrow> json" where
  "journal_to_json j = jobj
     [(''schema_version'', JInt 1), (''event_id'', JStr (j_event_id j)),
      (''internal_sequence'', JInt (j_sequence j)), (''overwrite'', JBool (j_overwrite j)),
      (''preceding'', jobj [(''products'', JBool (j_products j)), (''service'', JBool (j_service j))]),
      (''archive_path'', path_json (j_archive_path j)),
      (''completed'', JList (map jstr (j_completed j))),
      (''intents'', jobj [(''stage_removal_started'', JBool (j_stage_removal j)),
                          (''candidate_removal_started'', JBool (j_candidate_removal j))]),
      (''recovery_failure'', j_recovery_failure j)]"

section \<open>Archive paths\<close>

definition validate_archive_path :: "settings \<Rightarrow> ustr \<Rightarrow> json \<Rightarrow> exn + ustr" where
  "validate_archive_path c event_id value =
     bindE (guardE (is_str value) RecalculationError ''transaction archive path is invalid'') (\<lambda>_.
     let p = str_of value; prefix = event_id @ lit ''-'' in
     bindE (guardE (path_parent p = path_parts (archive_dir c)) RecalculationError
              ''transaction archive path is outside the archive directory'') (\<lambda>_.
     bindE (guardE (starts_with prefix (path_name p)) RecalculationError
              ''transaction archive name does not match event_id'') (\<lambda>_.
     bindE (parse_archive_timestamp (drop (length prefix) (path_name p))) (\<lambda>_. Inr p))))"

definition archive_path_for :: "settings \<Rightarrow> ustr \<Rightarrow> datetime \<Rightarrow> ustr" where
  "archive_path_for c event_id t =
     path_join (archive_dir c) (event_archive_name event_id (archive_timestamp t))"

section \<open>Loading\<close>

definition JOURNAL_KEYS :: "string list" where
  "JOURNAL_KEYS =
     [''schema_version'', ''event_id'', ''internal_sequence'', ''overwrite'', ''preceding'',
      ''archive_path'', ''completed'', ''intents'', ''recovery_failure'']"

definition checkpoint_names :: "json \<Rightarrow> string list option" where
  "checkpoint_names completed =
     (let n = length (list_of completed)
      in if is_str_list completed \<and> completed = JList (map jstr (take n CHECKPOINTS))
         then Some (take n CHECKPOINTS) else None)"

definition valid_recovery_failure :: "json \<Rightarrow> bool" where
  "valid_recovery_failure f \<longleftrightarrow>
     f = JNull
     \<or> (is_dict f \<and> has_exact_keys f [''type'', ''message'', ''recorded_at'']
        \<and> is_str (jget f ''type'') \<and> is_str (jget f ''message'') \<and> is_str (jget f ''recorded_at'')
        \<and> rfc3339_shape (str_of (jget f ''recorded_at''))
        \<and> fromisoformat_ok (str_of (jget f ''recorded_at'')))"

definition validate_journal_head :: "json \<Rightarrow> exn + ustr" where
  "validate_journal_head d =
     bindE (guardE (is_dict d \<and> has_exact_keys d JOURNAL_KEYS) RecalculationError
              ''transaction journal fields are invalid'') (\<lambda>_.
     bindE (guardE (jget d ''schema_version'' = JInt 1) RecalculationError
              ''transaction journal schema is unsupported'') (\<lambda>_.
     bindE (guardE (is_str (jget d ''event_id'')) RecalculationError
              ''transaction event_id is invalid'') (\<lambda>_.
     bindE (validate_event_id (jget d ''event_id'')) (\<lambda>e.
     bindE (guardE (is_int (jget d ''internal_sequence'') \<and> 1 \<le> int_of (jget d ''internal_sequence'')
                    \<and> is_bool (jget d ''overwrite'')) RecalculationError
              ''transaction identity is invalid'') (\<lambda>_. Inr e)))))"

definition validate_journal_disposition :: "settings \<Rightarrow> ustr \<Rightarrow> json \<Rightarrow> exn + ustr option" where
  "validate_journal_disposition c e d =
     (let preceding = jget d ''preceding''; archive_path = jget d ''archive_path'' in
     bindE (guardE (is_dict preceding \<and> has_exact_keys preceding [''products'', ''service'']
                    \<and> is_bool (jget preceding ''products'') \<and> is_bool (jget preceding ''service''))
              RecalculationError ''transaction preceding-tree evidence is invalid'') (\<lambda>_.
     let present = bool_of (jget preceding ''products'') \<or> bool_of (jget preceding ''service'');
         archive_required = (\<not> bool_of (jget d ''overwrite'') \<and> present) in
     bindE (guardE ((archive_path \<noteq> JNull) = archive_required) RecalculationError
              ''transaction archive intent is inconsistent'') (\<lambda>_.
     if archive_path = JNull then Inr None
     else bindE (validate_archive_path c e archive_path) (\<lambda>p. Inr (Some p)))))"

definition validate_journal_progress :: "json \<Rightarrow> exn + string list" where
  "validate_journal_progress d =
     bindE (case checkpoint_names (jget d ''completed'') of
              None \<Rightarrow> Inl (Exn RecalculationError ''transaction checkpoints are invalid'')
            | Some names \<Rightarrow> Inr names) (\<lambda>completed.
     let intents = jget d ''intents'' in
     bindE (guardE (is_dict intents
              \<and> has_exact_keys intents [''stage_removal_started'', ''candidate_removal_started'']
              \<and> is_bool (jget intents ''stage_removal_started'')
              \<and> is_bool (jget intents ''candidate_removal_started'')) RecalculationError
              ''transaction intents are invalid'') (\<lambda>_.
     bindE (guardE (bool_of (jget intents ''stage_removal_started'') \<longrightarrow>
                    ''service_staged'' \<in> set completed) RecalculationError
              ''stage-removal intent precedes staging'') (\<lambda>_.
     bindE (guardE (bool_of (jget intents ''candidate_removal_started'') \<longrightarrow>
                    ''record_promoted'' \<in> set completed) RecalculationError
              ''candidate-removal intent precedes promotion'') (\<lambda>_.
     bindE (guardE (valid_recovery_failure (jget d ''recovery_failure'')) RecalculationError
              ''transaction recovery failure is invalid'') (\<lambda>_. Inr completed)))))"

definition journal_of_json :: "settings \<Rightarrow> json \<Rightarrow> exn + journal" where
  "journal_of_json c d =
     bindE (validate_journal_head d) (\<lambda>e.
     bindE (validate_journal_disposition c e d) (\<lambda>archive_path.
     bindE (validate_journal_progress d) (\<lambda>completed.
     Inr \<lparr>j_event_id = e, j_sequence = int_of (jget d ''internal_sequence''),
          j_overwrite = bool_of (jget d ''overwrite''),
          j_products = bool_of (jget (jget d ''preceding'') ''products''),
          j_service = bool_of (jget (jget d ''preceding'') ''service''),
          j_archive_path = archive_path, j_completed = completed,
          j_stage_removal = bool_of (jget (jget d ''intents'') ''stage_removal_started''),
          j_candidate_removal = bool_of (jget (jget d ''intents'') ''candidate_removal_started''),
          j_recovery_failure = jget d ''recovery_failure''\<rparr>)))"

definition load_journal :: "settings \<Rightarrow> path \<Rightarrow> fsys \<Rightarrow> exn + journal" where
  "load_journal c p s =
     bindE (read_json p TRANSACTION_FILE RecalculationError s) (journal_of_json c)"

definition validate_journal_identity :: "journal \<Rightarrow> calculation_record \<Rightarrow> exn + unit" where
  "validate_journal_identity j r =
     guardE (JStr (j_event_id j) = r_event_id r \<and> JInt (j_sequence j) = r_internal_sequence r
             \<and> JBool (j_overwrite j) = r_overwrite r) RecalculationError
       ''transaction journal identity does not match its calculation record''"

section \<open>The round trip\<close>

text \<open>The journals the service itself builds.\<close>

definition journal_ok :: "settings \<Rightarrow> journal \<Rightarrow> bool" where
  "journal_ok c j \<longleftrightarrow>
     valid_event_id (j_event_id j) \<and> 1 \<le> j_sequence j
     \<and> (if \<not> j_overwrite j \<and> has_preceding j
         then \<exists>t. valid_datetime t \<and> j_archive_path j = Some (archive_path_for c (j_event_id j) t)
         else j_archive_path j = None)
     \<and> (\<exists>k\<le>6. j_completed j = take k CHECKPOINTS)
     \<and> (j_stage_removal j \<longrightarrow> ''service_staged'' \<in> set (j_completed j))
     \<and> (j_candidate_removal j \<longrightarrow> ''record_promoted'' \<in> set (j_completed j))
     \<and> valid_recovery_failure (j_recovery_failure j)"

lemma archive_name_safe:
  assumes "valid_event_id e"
  shows "47 \<notin> set (event_archive_name e (archive_timestamp t))"
    and "event_archive_name e (archive_timestamp t) \<noteq> []"
    and "event_archive_name e (archive_timestamp t) \<noteq> lit ''.''"
proof -
  show "47 \<notin> set (event_archive_name e (archive_timestamp t))"
    using valid_event_idD [OF assms] archive_timestamp_ascii [of 47 t]
    by (auto simp: event_archive_name_def lit_Cons lit_Nil)
  have "length (event_archive_name e (archive_timestamp t)) > 1"
    by (simp add: event_archive_name_def)
  then show "event_archive_name e (archive_timestamp t) \<noteq> []"
    "event_archive_name e (archive_timestamp t) \<noteq> lit ''.''"
    by auto
qed

lemma archive_path_for_parts:
  assumes "valid_event_id e"
  shows "path_name (archive_path_for c e t) = event_archive_name e (archive_timestamp t)"
    and "path_parent (archive_path_for c e t) = path_parts (archive_dir c)"
  using path_join_parts [OF archive_name_safe [OF assms], of "archive_dir c" t]
  by (simp_all add: archive_path_for_def archive_dir_def)

lemma validate_archive_path_for:
  assumes "valid_event_id e" "valid_datetime t"
  shows "validate_archive_path c e (JStr (archive_path_for c e t)) = Inr (archive_path_for c e t)"
proof -
  have "event_archive_name e (archive_timestamp t) = (e @ lit ''-'') @ archive_timestamp t"
    by (simp add: event_archive_name_def)
  then show ?thesis
    using assms parse_archive_timestamp_format [OF assms(2)]
    by (simp add: validate_archive_path_def archive_path_for_parts Let_def
        starts_with_append [of "e @ lit ''-''", simplified])
qed

lemma checkpoint_names_take: "k \<le> 6 \<Longrightarrow>
  checkpoint_names (JList (map jstr (take k CHECKPOINTS))) = Some (take k CHECKPOINTS)"
proof -
  have "is_str_list (JList (map jstr xs))" for xs by (induction xs) auto
  moreover assume "k \<le> 6"
  ultimately show ?thesis by (simp add: checkpoint_names_def CHECKPOINTS_def Let_def min_def)
qed

lemma journal_of_json_to_json:
  assumes "journal_ok c j"
  shows "journal_of_json c (journal_to_json j) = Inr j"
proof -
  let ?d = "journal_to_json j"
  have keys: "has_exact_keys ?d JOURNAL_KEYS"
    unfolding journal_to_json_def has_exact_keys_jobj by (simp add: JOURNAL_KEYS_def)
  have head: "validate_journal_head ?d = Inr (j_event_id j)"
    using keys assms by (simp add: validate_journal_head_def journal_ok_def) (simp add: journal_to_json_def)
  have disp: "validate_journal_disposition c (j_event_id j) ?d = Inr (j_archive_path j)"
    using assms
    by (auto simp: validate_journal_disposition_def journal_to_json_def journal_ok_def
        has_preceding_def has_exact_keys_jobj path_json_def validate_archive_path_for
        split: if_splits)
  obtain k where k: "k \<le> 6" "j_completed j = take k CHECKPOINTS"
    using assms by (auto simp: journal_ok_def)
  have prog: "validate_journal_progress ?d = Inr (j_completed j)"
    using assms checkpoint_names_take [OF k(1)]
    by (simp add: validate_journal_progress_def journal_to_json_def journal_ok_def k(2)
        has_exact_keys_jobj Let_def)
  show ?thesis
    unfolding journal_of_json_def
    by (simp add: head disp prog) (simp add: journal_to_json_def)
qed

lemma load_journal_round_trip:
  "journal_ok c j \<Longrightarrow> entry_at p TRANSACTION_FILE s = Some (File (Json (journal_to_json j))) \<Longrightarrow>
    load_journal c p s = Inr j"
  by (simp add: load_journal_def read_json_def open_regular_def journal_of_json_to_json)

end
