(* ===== verification/Record_Properties.thy ===== *)
theory Record_Properties
  imports Samples Journal
begin

text \<open>
  The properties of names, records and journals: the queue's directory names, the archive names an
  accepted event id gives, the lifecycle, and the durability of one \<open>status.json\<close> replacement.
\<close>

section \<open>Names\<close>

lemma less_snoc:
  "length xs = length ys \<Longrightarrow> xs @ [a] < ys @ [b] \<longleftrightarrow> xs < ys \<or> xs = ys \<and> a < (b :: nat)"
  by (induction xs ys rule: list_induct2) (auto simp: Cons_less_Cons)

lemma digits_less:
  "b < 10 \<Longrightarrow> d < 10 \<Longrightarrow> (10 * a + b < 10 * c + d) = (a < c \<or> a = c \<and> b < (d :: nat))"
  by linarith

lemma pad_less: "m < 10 ^ w \<Longrightarrow> n < 10 ^ w \<Longrightarrow> pad w m < pad w n \<longleftrightarrow> m < n"
proof (induction w arbitrary: m n)
  case (Suc w)
  have less: "m div 10 < 10 ^ w" "n div 10 < 10 ^ w"
    using Suc.prems by (simp_all add: less_mult_imp_div_less mult.commute)
  then have "pad w (m div 10) = pad w (n div 10) \<longleftrightarrow> m div 10 = n div 10"
    by (metis digits_val_pad)
  moreover have "m < n \<longleftrightarrow> m div 10 < n div 10 \<or> m div 10 = n div 10 \<and> m mod 10 < n mod 10"
    using digits_less [of "m mod 10" "n mod 10" "m div 10" "n div 10"] by simp
  ultimately show ?case
    using Suc.IH [OF less] by (simp add: less_snoc)
qed simp

text \<open>
  C20: \<open>parse_queue_entry_name\<close> accepts exactly the names \<open>queue_entry_name\<close> gives to the
  sequences that fit its twenty digits, and returns that sequence.
\<close>

theorem queue_names_round_trip:
  "parse_queue_entry_name name = Inr q \<longleftrightarrow>
     1 \<le> q \<and> q < 10 ^ QUEUE_ENTRY_WIDTH \<and> name = queue_entry_name q"
proof
  assume p: "parse_queue_entry_name name = Inr q"
  have "q < 10 ^ QUEUE_ENTRY_WIDTH"
    using p digits_val_bound [of name]
    by (auto simp: parse_queue_entry_name_def result_simps Let_def simp flip: of_nat_less_iff)
  with parse_queue_entry_name_Inr [OF p] show "1 \<le> q \<and> q < 10 ^ QUEUE_ENTRY_WIDTH \<and> name = queue_entry_name q"
    by simp
qed (auto simp: parse_queue_entry_name_name)

text \<open>
  C19: the byte order in which the queue directory is listed is the order of the sequences, so
  the oldest accepted calculation comes first.
\<close>

theorem queue_listing_is_fifo:
  assumes "1 \<le> a" "a < 10 ^ QUEUE_ENTRY_WIDTH" "1 \<le> b" "b < 10 ^ QUEUE_ENTRY_WIDTH"
  shows "queue_entry_name a < queue_entry_name b \<longleftrightarrow> a < b"
proof -
  have "nat a < 10 ^ QUEUE_ENTRY_WIDTH" "nat b < 10 ^ QUEUE_ENTRY_WIDTH"
    using assms by (simp_all add: nat_less_iff)
  then show ?thesis
    using assms by (simp add: queue_entry_name_def Let_def pad_less)
qed

theorem queue_listing_is_fifo_witness: "queue_entry_name 9 < queue_entry_name 10"
  using queue_listing_is_fifo [of 9 10] by (simp add: QUEUE_ENTRY_WIDTH_def)

text \<open>
  C21: an accepted event id is a single path component, and every archive directory the service
  derives from it still fits the file system's 255-byte limit on a name.
\<close>

theorem event_archive_name_fits:
  assumes "validate_event_id v = Inr e"
  shows "e \<notin> {[], lit ''.'', lit ''..''} \<and> 47 \<notin> set e
    \<and> 47 \<notin> set (event_archive_name e (archive_timestamp t))
    \<and> length (utf8 (event_archive_name e (archive_timestamp t))) \<le> 255"
proof -
  have e: "valid_event_id e" using assms by (simp add: validate_event_id_Inr)
  have "utf8 (lit ''-'' @ archive_timestamp t) = lit ''-'' @ archive_timestamp t"
    by (rule utf8_ascii) (auto dest: archive_timestamp_ascii simp: lit_Cons lit_Nil)
  then have "length (utf8 (event_archive_name e (archive_timestamp t))) = length (utf8 e) + 24"
    by (simp add: event_archive_name_def)
  then show ?thesis
    using e valid_event_idD [OF e] archive_name_safe(1) [OF e, of t]
    by (simp add: valid_event_id_def EVENT_ID_LIMIT_BYTES_def)
qed

theorem event_archive_name_fits_witness:
  "length (utf8 (event_archive_name sample_event (archive_timestamp sample_time))) \<le> 255"
  using event_archive_name_fits [OF validate_event_id_JStr [OF sample_event_valid], of sample_time]
  by blast

section \<open>Records\<close>

text \<open>
  C16: whatever a valid record holds, \<open>status.json\<close> reads back as that record; and nothing but a
  valid record is ever read from a \<open>status.json\<close>.
\<close>

theorem stored_record_reads_back:
  assumes "entry_at p STATUS_FILE s = Some (File (Json (record_to_dict r)))"
  shows "load_record c p es ee s = Inr r' \<longleftrightarrow>
     r' = r \<and> valid_record c r \<and> (\<forall>x. es = Some x \<longrightarrow> sequence_of r = x)
     \<and> (\<forall>x. ee = Some x \<longrightarrow> event_id_of r = x)"
  using assms
  by (auto simp: load_record_iff read_json_def open_regular_def dict_to_record_def result_simps
      valid_record_def)

theorem stored_record_reads_back_witness:
  "load_record sample_cfg (Queue, [queue_entry_name 7]) (Some 7) None (sample_store (sample_queued True))
     = Inr (sample_queued True)"
  using stored_record_reads_back [of "(Queue, [queue_entry_name 7])" "sample_store (sample_queued True)"
      "sample_queued True" sample_cfg "Some 7" None "sample_queued True"]
  by (simp add: sample_store_def entry_at_def sample_queued)

fun rank :: "lifecycle_state \<Rightarrow> nat" where
  "rank QUEUED = 0" | "rank RUNNING = 1" | "rank SUCCESS = 2" | "rank FAILED = 2"

text \<open>
  C17: the lifecycle only moves forward, \<open>QUEUED\<close> to \<open>RUNNING\<close> to one of the two terminal states,
  never out of a terminal state, and no transition changes the record's event, sequence or
  overwrite choice.
\<close>

theorem lifecycle_moves_forward:
  assumes "transition_record now target args r = Inr r'"
  shows "\<exists>source. state_of r = Some source \<and> state_of r' = Some target
     \<and> rank target = Suc (rank source) \<and> \<not> is_terminal source \<and> same_identity r r'"
proof -
  obtain source where "state_of r = Some source" "target \<in> set (allowed_transitions source)"
    using transition_allowed [OF assms] by blast
  with transition_state [OF assms] show ?thesis by (cases source) auto
qed

theorem lifecycle_moves_forward_witness:
  "\<exists>source. state_of (sample_queued False) = Some source \<and> state_of (sample_running False) = Some RUNNING
     \<and> rank RUNNING = Suc (rank source) \<and> \<not> is_terminal source
     \<and> same_identity (sample_queued False) (sample_running False)"
  by (rule lifecycle_moves_forward [OF sample_running(1)])

text \<open>
  C18: failing a valid \<open>RUNNING\<close> record always succeeds and gives a valid \<open>FAILED\<close> record, whose
  failure names the phase its progress names, whatever approved phase the failure came with.
\<close>

theorem failing_a_running_record:
  assumes "valid_record c r" "state_of r = Some RUNNING" "failure_ok f" "valid_ts (JStr now)"
  shows "\<exists>r'. transition_record now FAILED (failure_args f) r = Inr r' \<and> valid_record c r'
     \<and> state_of r' = Some FAILED \<and> same_identity r r'
     \<and> jget (r_failure r') ''phase'' = jget (r_progress r') ''phase''
     \<and> r_service_outcome r' = service_failed"
proof -
  obtain r' where r': "transition_record now FAILED (failure_args f) r = Inr r'" "valid_record c r'"
      "state_of r' = Some FAILED" "same_identity r r'"
    using fail_transition [OF assms(1,2), of "failure_args f" f service_failed now] assms
      valid_recordD(6) [OF assms(1,2)]
    by (auto simp: failure_args_def no_args_def service_failed_def)
  then have "jget (r_failure r') ''phase'' = jget (r_progress r') ''phase''"
    using valid_recordD(5) [OF r'(2,3)] by (simp add: validate_outcomes_Inr)
  moreover have "r_service_outcome r' = service_failed"
    using r'(1) by (auto simp: transition_record_def failure_args_def no_args_def result_simps Let_def
        start_running_def split: option.splits if_splits)
  ultimately show ?thesis using r' by blast
qed

theorem failing_a_running_record_witness:
  "\<exists>r'. transition_record (now_iso sample_time) FAILED (failure_args (jobj [(''code'', jstr ''x'')]))
       (sample_running True) = Inr r' \<and> valid_record sample_cfg r'
     \<and> state_of r' = Some FAILED \<and> same_identity (sample_running True) r'
     \<and> jget (r_failure r') ''phase'' = jget (r_progress r') ''phase''
     \<and> r_service_outcome r' = service_failed"
  by (rule failing_a_running_record [OF sample_running(2,3) _ sample_now]) (simp add: failure_ok_def)

text \<open>
  C8: replacing a record is atomic. Whatever system call fails or kills the process, the directory
  holds the old \<open>status.json\<close> or the complete new one, nothing else in it changes but temporary
  names, and no other directory changes at all; without a fault the new record is stored.
\<close>

theorem replace_record_is_atomic:
  assumes "dir_at (k, [n]) s0 = Some d" "\<And>d'. aget d STATUS_FILE \<noteq> Some (Dir d')"
    and "validate_record (cfg E) r es ee = Inr ()"
  shows "triple E (\<lambda>s. s = s0) (replace_record (k, [n]) r es ee)
     (\<lambda>_ s. only_at (k, [n]) s0 s
        \<and> (\<exists>d'. dir_at (k, [n]) s = Some d' \<and> agree (stored r d) d'))
     (\<lambda>_ s. \<not> quiet E \<and> only_at (k, [n]) s0 s
        \<and> (\<exists>d'. dir_at (k, [n]) s = Some d' \<and> (agree d d' \<or> agree (stored r d) d')))"
  by (rule triple_weaken [OF triple_replace [OF assms]])
     (auto simp: dir_in_def dir_at_put_dir [OF assms(1)] only_at_put_dir simp del: dir_at_simps)

theorem replace_record_is_atomic_witness:
  "triple sample_env (\<lambda>s. s = sample_store (sample_queued True))
     (replace_record (Queue, [queue_entry_name 7]) (sample_running True) (Some 7) None :: (unit, unit) io)
     (\<lambda>_ s. only_at (Queue, [queue_entry_name 7]) (sample_store (sample_queued True)) s
        \<and> (\<exists>d'. dir_at (Queue, [queue_entry_name 7]) s = Some d'
              \<and> agree (stored (sample_running True)
                   (sample_entry (sample_queued True))) d'))
     (\<lambda>_ s. \<not> quiet sample_env \<and> only_at (Queue, [queue_entry_name 7]) (sample_store (sample_queued True)) s
        \<and> (\<exists>d'. dir_at (Queue, [queue_entry_name 7]) s = Some d'
              \<and> (agree (sample_entry (sample_queued True)) d'
                   \<or> agree (stored (sample_running True)
                        (sample_entry (sample_queued True))) d')))"
  by (rule replace_record_is_atomic)
     (simp_all add: validate_record_expected sample_running del: dir_at_simps)

text \<open>
  C15: a journal the service writes reads back as itself from \<open>transaction.json\<close>, at every
  checkpoint and with every intent, so recovery sees the progress that was recorded.
\<close>

theorem journal_reads_back:
  assumes "journal_ok c j" "entry_at p TRANSACTION_FILE s = Some (File (Json (journal_to_json j)))"
  shows "load_journal c p s = Inr j"
  by (rule load_journal_round_trip [OF assms])

definition sample_journal :: journal where
  "sample_journal = \<lparr>j_event_id = sample_event, j_sequence = 7, j_overwrite = True, j_products = True,
     j_service = False, j_archive_path = None, j_completed = take 2 CHECKPOINTS, j_stage_removal = True,
     j_candidate_removal = False, j_recovery_failure = JNull\<rparr>"

theorem journal_reads_back_witness:
  "load_journal sample_cfg (Events, [sample_event])
     ((\<lambda>_. [])(Events := [(sample_event, Dir [(TRANSACTION_FILE, File (Json (journal_to_json sample_journal)))])]))
   = Inr sample_journal"
  by (rule journal_reads_back)
     (auto simp: sample_journal_def journal_ok_def sample_event_valid has_preceding_def
        valid_recovery_failure_def CHECKPOINTS_def entry_at_def intro!: exI [of _ 2])

end
