(* ===== verification/Evidence.thy ===== *)
theory Evidence
  imports Status_Store
begin

text \<open>
  \<open>calculation_finalization.py\<close>: the terminal state of one current calculation is decided from
  evidence that is already on disk. \<open>SUCCESS\<close> needs a normal native exit, a passed product
  validation, a complete product manifest and a provenance of this very calculation, and two
  nonempty logs; \<open>FAILED\<close> is written with whatever evidence there is. The records \<open>execution_result\<close>
  and \<open>validation_result\<close> are those of \<open>runner.py\<close> and \<open>product_validation.py\<close>.
\<close>

section \<open>Results of the preceding phases\<close>

record execution_result =
  x_command :: "ustr list"
  x_exit_code :: "int option"
  x_signal :: "int option"
  x_pid :: int
  x_started_at :: ustr
  x_completed_at :: ustr
  x_service_terminated :: bool
  x_configuration_error :: json

record required_product_check =
  c_path :: ustr
  c_size :: "int option"
  c_passed :: bool
  c_reason :: ustr

record validation_result =
  v_required_paths :: "ustr list"
  v_source :: string
  v_checks :: "required_product_check list"
  v_passed :: bool

fun opt_int :: "int option \<Rightarrow> json" where
  "opt_int None = JNull" | "opt_int (Some i) = JInt i"

section \<open>Reading the evidence\<close>

definition PROVENANCE_NAME :: ustr where
  "PROVENANCE_NAME = lit ''provenance.json''"

definition MANIFEST_NAME :: ustr where
  "MANIFEST_NAME = lit ''product-manifest.json''"

definition SERVICE_LOG_NAME :: ustr where
  "SERVICE_LOG_NAME = lit ''service.log''"

definition SHAKE_LOG_NAME :: ustr where
  "SHAKE_LOG_NAME = lit ''shake.log''"

definition event_logs_dir :: "ustr \<Rightarrow> path" where
  "event_logs_dir event_id = (Events, [event_id, lit ''logs''])"

text \<open>
  The supplied record and the current one must be the same running calculation. The other modules
  that publish evidence make the same check.
\<close>

definition require_matching_current ::
  "settings \<Rightarrow> calculation_record \<Rightarrow> fsys \<Rightarrow> exn + calculation_record" where
  "require_matching_current c r s =
     bindE (guardE (r_status r = jstr ''RUNNING'') ValueError
              ''supplied calculation record must be RUNNING'') (\<lambda>_.
     bindE (read_current_record c (event_id_of r) s) (\<lambda>found.
     case found of
       None \<Rightarrow> Inl (Exn FileNotFoundError ''current calculation record does not exist'')
     | Some current \<Rightarrow>
         bindE (guardE (event_id_of current = event_id_of r \<and> sequence_of current = sequence_of r)
                  ValueError ''current calculation record identity does not match'') (\<lambda>_.
         bindE (guardE (r_status current = jstr ''RUNNING'') ValueError
                  ''current calculation record must be RUNNING'') (\<lambda>_.
         Inr current))))"

definition read_service_json :: "env \<Rightarrow> path \<Rightarrow> ustr \<Rightarrow> fsys \<Rightarrow> exn + json" where
  "read_service_json E p name s =
     (case entry_at p name s of
        None \<Rightarrow> Inl (Exn CalculationFinalizationError ''evidence is unavailable'')
      | Some (File c) \<Rightarrow>
          if content_bytes E c = [] then Inl (Exn CalculationFinalizationError ''evidence is empty'')
          else (case c of
                  Bytes b \<Rightarrow> Inl (Exn CalculationFinalizationError ''evidence is unreadable'')
                | Json j \<Rightarrow>
                    if is_dict j then Inr j
                    else Inl (Exn CalculationFinalizationError ''evidence is not a JSON object''))
      | Some v \<Rightarrow> Inl (Exn CalculationFinalizationError ''evidence is not a regular file''))"

definition names_calculation :: "calculation_record \<Rightarrow> json \<Rightarrow> bool" where
  "names_calculation r payload \<longleftrightarrow>
     jget payload ''event_id'' = r_event_id r
     \<and> py_eq_int (jget payload ''internal_sequence'') (sequence_of r)"

definition require_product_manifest :: "env \<Rightarrow> calculation_record \<Rightarrow> fsys \<Rightarrow> exn + unit" where
  "require_product_manifest E r s =
     bindE (read_service_json E (event_service_dir (event_id_of r)) MANIFEST_NAME s) (\<lambda>payload.
     bindE (guardE (names_calculation r payload) CalculationFinalizationError
              ''product manifest calculation identity does not match'') (\<lambda>_.
     guardE (jget payload ''partial'' = JBool False) CalculationFinalizationError
       ''product manifest is not complete''))"

definition require_provenance :: "env \<Rightarrow> calculation_record \<Rightarrow> ustr \<Rightarrow> fsys \<Rightarrow> exn + unit" where
  "require_provenance E r terminal_timestamp s =
     bindE (read_service_json E (event_service_dir (event_id_of r)) PROVENANCE_NAME s) (\<lambda>payload.
     bindE (guardE (names_calculation r payload) CalculationFinalizationError
              ''provenance calculation identity does not match'') (\<lambda>_.
     guardE (is_dict (jget payload ''timestamps'')
             \<and> jget (jget payload ''timestamps'') ''terminal_at'' = JStr terminal_timestamp)
       CalculationFinalizationError ''provenance terminal timestamp does not match''))"

definition require_nonempty_log :: "env \<Rightarrow> path \<Rightarrow> ustr \<Rightarrow> fsys \<Rightarrow> exn + unit" where
  "require_nonempty_log E p name s =
     (case entry_at p name s of
        None \<Rightarrow> Inl (Exn CalculationFinalizationError ''log is unavailable'')
      | Some (File c) \<Rightarrow>
          guardE (content_bytes E c \<noteq> []) CalculationFinalizationError ''log is empty''
      | Some v \<Rightarrow> Inl (Exn CalculationFinalizationError ''log is not a regular file''))"

definition is_regular_readable_nonempty :: "env \<Rightarrow> path \<Rightarrow> ustr \<Rightarrow> fsys \<Rightarrow> bool" where
  "is_regular_readable_nonempty E p name s =
     (case entry_at p name s of Some (File c) \<Rightarrow> content_bytes E c \<noteq> [] | _ \<Rightarrow> False)"

text \<open>The four kinds of evidence: key of the record, local place, path under the service directory.\<close>

definition evidence_places :: "ustr \<Rightarrow> (string \<times> path \<times> ustr \<times> string) list" where
  "evidence_places event_id =
     [(''provenance'', event_service_dir event_id, PROVENANCE_NAME, ''provenance.json''),
      (''product_manifest'', event_service_dir event_id, MANIFEST_NAME, ''product-manifest.json''),
      (''service_log'', event_logs_dir event_id, SERVICE_LOG_NAME, ''logs/service.log''),
      (''shake_log'', event_logs_dir event_id, SHAKE_LOG_NAME, ''logs/shake.log'')]"

definition shared_evidence_paths :: "env \<Rightarrow> ustr \<Rightarrow> bool \<Rightarrow> fsys \<Rightarrow> exn + json" where
  "shared_evidence_paths E event_id require_all s =
     bindE (shared_paths_for (cfg E) (JStr event_id)) (\<lambda>shared.
     Inr (foldl (\<lambda>acc (key, p, name, relative).
            if require_all \<or> is_regular_readable_nonempty E p name s
            then jput key (JStr (shared_event_service_path (cfg E) event_id relative)) acc
            else acc)
          shared (evidence_places event_id)))"

definition native_outcome_of :: "execution_result option \<Rightarrow> json" where
  "native_outcome_of execution =
     (case execution of
        None \<Rightarrow> JNull
      | Some x \<Rightarrow> jobj [(''started'', JBool True), (''exit_code'', opt_int (x_exit_code x)),
                        (''signal'', opt_int (x_signal x))])"

section \<open>The two terminal writes\<close>

definition success_evidence ::
  "env \<Rightarrow> calculation_record \<Rightarrow> execution_result \<Rightarrow> validation_result \<Rightarrow> ustr \<Rightarrow> fsys
     \<Rightarrow> exn + calculation_record \<times> json" where
  "success_evidence E r execution validation terminal_timestamp s =
     bindE (require_matching_current (cfg E) r s) (\<lambda>current.
     bindE (guardE (x_exit_code execution = Some 0 \<and> x_signal execution = None)
              CalculationFinalizationError ''native execution did not complete normally'') (\<lambda>_.
     bindE (guardE (v_passed validation) CalculationFinalizationError
              ''required-product validation did not pass'') (\<lambda>_.
     bindE (require_product_manifest E current s) (\<lambda>_.
     bindE (require_provenance E current terminal_timestamp s) (\<lambda>_.
     bindE (require_nonempty_log E (event_logs_dir (event_id_of current)) SERVICE_LOG_NAME s) (\<lambda>_.
     bindE (require_nonempty_log E (event_logs_dir (event_id_of current)) SHAKE_LOG_NAME s) (\<lambda>_.
     bindE (shared_evidence_paths E (event_id_of current) True s) (\<lambda>shared.
     Inr (current, shared)))))))))"

definition success_args :: "execution_result \<Rightarrow> ustr \<Rightarrow> json \<Rightarrow> transition_args" where
  "success_args execution terminal_timestamp shared =
     no_args\<lparr>t_terminal_timestamp := Some (JStr terminal_timestamp),
       t_native_outcome := Some (native_outcome_of (Some execution)),
       t_service_outcome := Some (jobj [(''completed'', JBool True), (''successful'', JBool True)]),
       t_failure := Some JNull, t_shared_paths := Some shared\<rparr>"

definition finalize_success ::
  "calculation_record \<Rightarrow> execution_result \<Rightarrow> validation_result \<Rightarrow> ustr \<Rightarrow> ('m, calculation_record) io"
where
  "finalize_success r execution validation terminal_timestamp =
     bindM (observe (\<lambda>E. success_evidence E r execution validation terminal_timestamp))
       (\<lambda>(current, shared).
     transition_current_record_terminal (event_id_of current) (sequence_of current) SUCCESS
       (success_args execution terminal_timestamp shared))"

definition failure_fact ::
  "ustr \<Rightarrow> ustr \<Rightarrow> ustr \<Rightarrow> json list \<Rightarrow> json option \<Rightarrow> json" where
  "failure_fact phase code message secondary configuration_error =
     jobj ([(''phase'', JStr phase), (''code'', JStr code), (''message'', JStr message),
            (''secondary_evidence'', JList secondary)]
           @ (case configuration_error of None \<Rightarrow> [] | Some e \<Rightarrow> [(''configuration_error'', e)]))"

definition finalize_failure_args ::
  "execution_result option \<Rightarrow> ustr \<Rightarrow> json \<Rightarrow> json \<Rightarrow> transition_args" where
  "finalize_failure_args execution terminal_timestamp failure shared =
     no_args\<lparr>t_terminal_timestamp := Some (JStr terminal_timestamp),
       t_native_outcome := Some (native_outcome_of execution),
       t_service_outcome := Some service_failed,
       t_failure := Some failure, t_shared_paths := Some shared\<rparr>"

definition finalize_failure ::
  "calculation_record \<Rightarrow> ustr \<Rightarrow> ustr \<Rightarrow> ustr \<Rightarrow> ustr \<Rightarrow> execution_result option \<Rightarrow> json list \<Rightarrow> json option
     \<Rightarrow> ('m, calculation_record) io"
where
  "finalize_failure r terminal_timestamp phase code message execution secondary configuration_error =
     bindM (observe (\<lambda>E s.
        bindE (require_matching_current (cfg E) r s) (\<lambda>current.
        bindE (guardE (phase \<noteq> [] \<and> code \<noteq> [] \<and> message \<noteq> []) ValueError
                 ''phase, code and message must be nonempty strings'') (\<lambda>_.
        bindE (shared_evidence_paths E (event_id_of current) False s) (\<lambda>shared.
        Inr (current, shared)))))) (\<lambda>(current, shared).
     transition_current_record_terminal (event_id_of current) (sequence_of current) FAILED
       (finalize_failure_args execution terminal_timestamp
          (failure_fact phase code message secondary configuration_error) shared))"

end
