(* ===== verification/Evidence_Properties.thy ===== *)
theory Evidence_Properties
  imports Evidence Samples
begin

text \<open>
  What the terminal write of a calculation establishes: when \<open>SUCCESS\<close> is possible, and that it is
  then recorded.
\<close>

section \<open>Complete evidence\<close>

definition json_at :: "path \<Rightarrow> ustr \<Rightarrow> fsys \<Rightarrow> json \<Rightarrow> bool" where
  "json_at p name s j \<longleftrightarrow> entry_at p name s = Some (File (Json j))"

definition nonempty_file :: "env \<Rightarrow> path \<Rightarrow> ustr \<Rightarrow> fsys \<Rightarrow> bool" where
  "nonempty_file E p name s \<longleftrightarrow> (\<exists>c. entry_at p name s = Some (File c) \<and> content_bytes E c \<noteq> [])"

definition complete_evidence ::
  "env \<Rightarrow> ustr \<Rightarrow> int \<Rightarrow> execution_result \<Rightarrow> validation_result \<Rightarrow> ustr \<Rightarrow> fsys \<Rightarrow> bool" where
  "complete_evidence E e n execution validation terminal s \<longleftrightarrow>
     x_exit_code execution = Some 0 \<and> x_signal execution = None \<and> v_passed validation
     \<and> (\<exists>m. json_at (Events, [e]) MANIFEST_NAME s m \<and> is_dict m \<and> encoded E m \<noteq> []
          \<and> jget m ''event_id'' = JStr e \<and> py_eq_int (jget m ''internal_sequence'') n
          \<and> jget m ''partial'' = JBool False)
     \<and> (\<exists>p. json_at (Events, [e]) PROVENANCE_NAME s p \<and> is_dict p \<and> encoded E p \<noteq> []
          \<and> jget p ''event_id'' = JStr e \<and> py_eq_int (jget p ''internal_sequence'') n
          \<and> is_dict (jget p ''timestamps'') \<and> jget (jget p ''timestamps'') ''terminal_at'' = JStr terminal)
     \<and> nonempty_file E (Events, [e, lit ''logs'']) SERVICE_LOG_NAME s
     \<and> nonempty_file E (Events, [e, lit ''logs'']) SHAKE_LOG_NAME s"

lemma read_service_json_Inr:
  "read_service_json E p name s = Inr j \<longleftrightarrow> json_at p name s j \<and> is_dict j \<and> encoded E j \<noteq> []"
  by (auto simp: read_service_json_def json_at_def content_bytes_def split: option.splits node.splits
      content.splits if_splits)

lemma require_nonempty_log_Inr:
  "require_nonempty_log E p name s = Inr x \<longleftrightarrow> nonempty_file E p name s"
  by (auto simp: require_nonempty_log_def nonempty_file_def result_simps split: option.splits node.splits)

lemma require_matching_current_Inr:
  "require_matching_current c r s = Inr current \<longleftrightarrow>
     r_status r = jstr ''RUNNING'' \<and> read_current_record c (event_id_of r) s = Inr (Some current)
     \<and> event_id_of current = event_id_of r \<and> sequence_of current = sequence_of r
     \<and> r_status current = jstr ''RUNNING''"
  by (auto simp: require_matching_current_def result_simps split: option.splits)

lemma read_current_valid:
  assumes "read_current_record c e s = Inr (Some r)"
  shows "valid_record c r" "event_id_of r = e" "valid_event_id e"
    "load_record c (Events, [e]) None (Some e) s = Inr r"
  using assms
  by (auto simp: read_current_record_def read_record_directory_def result_simps validate_event_id_Inr
      event_service_dir_def load_record_iff dict_to_record_valid split: option.splits)

text \<open>The shared paths of a terminal record.\<close>

definition all_evidence_paths :: "settings \<Rightarrow> ustr \<Rightarrow> json \<Rightarrow> bool" where
  "all_evidence_paths c e shared \<longleftrightarrow>
     (\<forall>(name, path)\<in>set (expected_service_paths c e). jget shared name = JStr path)"

definition put_if :: "bool \<Rightarrow> string \<Rightarrow> json \<Rightarrow> json \<Rightarrow> json" where
  "put_if b k v j = (if b then jput k v j else j)"

lemma put_if_simps [simp]:
  "jget (put_if b k v j) k' = (if b \<and> k' = k then v else jget j k')"
  "is_dict j \<Longrightarrow> is_dict (put_if b k v j)"
  by (simp_all add: put_if_def)

lemma put_if_keys: "has_exact_keys j ks \<Longrightarrow> k \<in> set ks \<Longrightarrow> has_exact_keys (put_if b k v j) ks"
  by (simp add: put_if_def keys_cases)

lemma shared_evidence_paths_Inr:
  assumes "shared_evidence_paths E e all s = Inr shared"
  shows "validate_shared_paths (cfg E) (r\<lparr>r_event_id := JStr e, r_shared_paths := shared\<rparr>) = Inr ()"
    and "all \<Longrightarrow> all_evidence_paths (cfg E) e shared"
proof -
  obtain base where base: "shared_paths_for (cfg E) (JStr e) = Inr base"
    using assms by (auto simp: shared_evidence_paths_def result_simps)
  note b = base [unfolded shared_paths_for_Inr]
  let ?has = "\<lambda>p name. all \<or> is_regular_readable_nonempty E p name s"
  let ?put = "\<lambda>key p name relative. put_if (?has p name) key
      (JStr (shared_event_service_path (cfg E) e relative))"
  have shared: "shared =
      ?put ''shake_log'' (event_logs_dir e) SHAKE_LOG_NAME ''logs/shake.log''
     (?put ''service_log'' (event_logs_dir e) SERVICE_LOG_NAME ''logs/service.log''
     (?put ''product_manifest'' (event_service_dir e) MANIFEST_NAME ''product-manifest.json''
     (?put ''provenance'' (event_service_dir e) PROVENANCE_NAME ''provenance.json'' base)))"
    using assms base by (simp add: shared_evidence_paths_def evidence_places_def put_if_def)
  have eid: "event_id_of (r\<lparr>r_event_id := JStr e, r_shared_paths := shared\<rparr>) = e"
    by (simp add: event_id_of_def)
  have keys: "has_exact_keys base SHARED_PATH_KEYS" "is_dict base"
    using b by (simp_all add: has_exact_keys_jobj SHARED_PATH_KEYS_def)
  have exact: "has_exact_keys shared SHARED_PATH_KEYS" "is_dict shared"
    unfolding shared by (intro put_if_keys keys; simp add: SHARED_PATH_KEYS_def) (simp add: keys)
  have same: "jget shared ''input'' = jget base ''input''" "jget shared ''products'' = jget base ''products''"
    unfolding shared by simp_all
  have base_null: "jget base k = JNull" if "k \<in> {''provenance'', ''product_manifest'', ''service_log'', ''shake_log''}" for k
    using that b by auto
  have paths: "\<forall>(name, path)\<in>set (expected_service_paths (cfg E) e).
      jget shared name \<in> {JNull, JStr path} \<and> (all \<longrightarrow> jget shared name = JStr path)"
    unfolding shared expected_service_paths_def by (simp add: base_null)
  have texts: "\<forall>name\<in>set SHARED_PATH_KEYS. jget shared name = JNull \<or> is_str (jget shared name)"
    unfolding shared SHARED_PATH_KEYS_def using b by simp
  obtain us where "mapE (\<lambda>name. validate_optional_text (jget shared name) (''shared_paths.'' @ name))
      SHARED_PATH_KEYS = Inr us"
    using texts mapE_unit_Inr [of "\<lambda>name. validate_optional_text (jget shared name) (''shared_paths.'' @ name)"
        SHARED_PATH_KEYS]
    by (auto simp: validate_optional_text_def result_simps)
  moreover obtain vs where "mapE (\<lambda>(name, path). guardE (jget shared name \<in> {JNull, JStr path}) ValueError
      (''shared_paths.'' @ name @ '' does not match event_id'')) (expected_service_paths (cfg E) e) = Inr vs"
    using paths mapE_unit_Inr [of "\<lambda>(name, path). guardE (jget shared name \<in> {JNull, JStr path}) ValueError
      (''shared_paths.'' @ name @ '' does not match event_id'')" "expected_service_paths (cfg E) e"]
    by (fastforce simp: result_simps)
  ultimately show "validate_shared_paths (cfg E) (r\<lparr>r_event_id := JStr e, r_shared_paths := shared\<rparr>) = Inr ()"
    using exact same base
    by (simp add: validate_shared_paths_def require_exact_keys_def eid guardE_def)
  show "all \<Longrightarrow> all_evidence_paths (cfg E) e shared"
    using paths by (auto simp: all_evidence_paths_def)
qed

section \<open>What the evidence check accepts\<close>

lemma matching_current:
  assumes "require_matching_current c r s = Inr current"
  shows "valid_record c current" "state_of current = Some RUNNING"
    "event_id_of current = event_id_of r" "sequence_of current = sequence_of r"
    "r_event_id current = JStr (event_id_of r)" "valid_event_id (event_id_of r)"
    "load_record c (Events, [event_id_of r]) None (Some (event_id_of r)) s = Inr current"
proof -
  note m = assms [unfolded require_matching_current_Inr]
  then have rd: "read_current_record c (event_id_of r) s = Inr (Some current)" by simp
  note v = read_current_valid [OF rd]
  show "valid_record c current" "valid_event_id (event_id_of r)"
    "load_record c (Events, [event_id_of r]) None (Some (event_id_of r)) s = Inr current"
    by (rule v)+
  show "state_of current = Some RUNNING" "event_id_of current = event_id_of r"
    "sequence_of current = sequence_of r"
    using m by (simp_all add: state_of_def)
  show "r_event_id current = JStr (event_id_of r)"
    using valid_record_identity(1) [OF v(1)] v(2) by simp
qed

lemma success_evidence_Inr:
  "success_evidence E r x v ts s = Inr (current, shared) \<longleftrightarrow>
     require_matching_current (cfg E) r s = Inr current
     \<and> complete_evidence E (event_id_of r) (sequence_of r) x v ts s
     \<and> shared_evidence_paths E (event_id_of r) True s = Inr shared"
  (is "?lhs \<longleftrightarrow> ?rhs")
proof (cases "require_matching_current (cfg E) r s = Inr current")
  case True
  note m = matching_current [OF True]
  from True show ?thesis
    unfolding success_evidence_def complete_evidence_def
    by (auto simp: result_simps m require_product_manifest_def require_provenance_def read_service_json_Inr
        require_nonempty_log_Inr names_calculation_def event_service_dir_def event_logs_dir_def)
qed (auto simp: success_evidence_def result_simps)

lemma finalize_success_refused:
  assumes "success_evidence E r x v ts (fs w) = Inl e"
  shows "finalize_success r x v ts E w = (Exc e, w)"
  using assms by (simp add: finalize_success_def bindM_def observe_def)

lemma finalize_success_accepted:
  assumes "success_evidence E r x v ts (fs w) = Inr (current, shared)"
  shows "finalize_success r x v ts E w =
    transition_record_directory (Events, [event_id_of r]) SUCCESS (Some (sequence_of r)) (Some (event_id_of r))
      (success_args x ts shared) E w"
proof -
  have "require_matching_current (cfg E) r (fs w) = Inr current"
    using assms by (simp add: success_evidence_Inr)
  note m = matching_current [OF this] valid_record_identity(4) [OF matching_current(1) [OF this]]
  show ?thesis
    using assms m(3-6,8)
    by (simp add: finalize_success_def transition_current_record_terminal_def thenM_def bindM_def observe_def
        liftE_def validate_event_id_Inr check_def ret_def event_service_dir_def)
qed

lemma transition_directory_state:
  assumes "transition_record_directory p target es ee args E w = (Val r', w')"
  shows "state_of r' = Some target"
  using assms
  by (auto simp: transition_record_directory_def thenM_def bindM_def liftE_def ret_def reraise_def
      dest: transition_state split: prod.splits outcome.splits sum.splits)

text \<open>
  C5: \<open>SUCCESS\<close> is written only on complete evidence. Whatever fails, a finalization that returns has
  found a native exit code 0 with no signal, a passed product validation, a complete product manifest
  and a provenance of this very calculation with this terminal time, and both logs nonempty; and
  without that evidence it raises and touches nothing.
\<close>

theorem success_only_with_evidence:
  assumes "finalize_success r x v ts E w = (out, w')"
  shows "(\<forall>r'. out = Val r' \<longrightarrow> complete_evidence E (event_id_of r) (sequence_of r) x v ts (fs w)
           \<and> state_of r' = Some SUCCESS)
     \<and> (\<not> complete_evidence E (event_id_of r) (sequence_of r) x v ts (fs w) \<longrightarrow>
           (\<exists>e. out = Exc e) \<and> w' = w)"
proof (cases "success_evidence E r x v ts (fs w)")
  case (Inl e)
  with finalize_success_refused [of E r x v ts w e] assms show ?thesis by simp
next
  case (Inr cs)
  obtain current shared where cs: "cs = (current, shared)" by (cases cs)
  then have ev: "success_evidence E r x v ts (fs w) = Inr (current, shared)" using Inr by simp
  then have "complete_evidence E (event_id_of r) (sequence_of r) x v ts (fs w)"
    by (simp add: success_evidence_Inr)
  moreover have "state_of r' = Some SUCCESS" if "out = Val r'" for r'
    using assms finalize_success_accepted [OF ev] that by (auto dest: transition_directory_state)
  ultimately show ?thesis by blast
qed

section \<open>A calculation with evidence\<close>

definition sample_execution :: execution_result where
  "sample_execution = \<lparr>x_command = [lit ''shake''], x_exit_code = Some 0, x_signal = None, x_pid = 9,
     x_started_at = now_iso sample_time, x_completed_at = now_iso sample_time,
     x_service_terminated = False, x_configuration_error = JNull\<rparr>"

definition sample_validation :: validation_result where
  "sample_validation = \<lparr>v_required_paths = [lit ''a''], v_source = ''configured'',
     v_checks = [\<lparr>c_path = lit ''a'', c_size = Some 1, c_passed = True, c_reason = []\<rparr>], v_passed = True\<rparr>"

definition sample_evidence :: "dirc" where
  "sample_evidence =
     [(MANIFEST_NAME, File (Json (jobj [(''event_id'', JStr sample_event), (''internal_sequence'', JInt 7),
         (''partial'', JBool False)]))),
      (PROVENANCE_NAME, File (Json (jobj [(''event_id'', JStr sample_event), (''internal_sequence'', JInt 7),
         (''timestamps'', jobj [(''terminal_at'', JStr (now_iso sample_time))])]))),
      (lit ''logs'', Dir [(SERVICE_LOG_NAME, File (Bytes [1])), (SHAKE_LOG_NAME, File (Bytes [1]))])]"

definition sample_current_store :: fsys where
  "sample_current_store = (\<lambda>_. [])(Events :=
     [(sample_event, Dir (sample_evidence @ sample_entry (sample_running True)))])"

definition sample_env1 :: env where
  "sample_env1 = sample_env\<lparr>encoded := \<lambda>_. [1]\<rparr>"

lemma sample_env1_simps [simp]:
  "cfg sample_env1 = sample_cfg" "encoded sample_env1 j = [1]"
  by (simp_all add: sample_env1_def sample_env_def)

lemma sample_env1_ok: "quiet sample_env1" "clock_valid sample_env1"
  using sample_quiet sample_clock by (simp_all add: sample_env1_def quiet_def clock_valid_def)

lemma evidence_names [simp]:
  "MANIFEST_NAME \<noteq> PROVENANCE_NAME" "PROVENANCE_NAME \<noteq> MANIFEST_NAME" "SERVICE_LOG_NAME \<noteq> SHAKE_LOG_NAME"
  "SHAKE_LOG_NAME \<noteq> SERVICE_LOG_NAME" "MANIFEST_NAME \<noteq> lit ''logs''" "PROVENANCE_NAME \<noteq> lit ''logs''"
  "lit ''logs'' \<noteq> MANIFEST_NAME" "lit ''logs'' \<noteq> PROVENANCE_NAME" "STATUS_FILE \<noteq> lit ''logs''"
  "STATUS_FILE \<noteq> MANIFEST_NAME" "STATUS_FILE \<noteq> PROVENANCE_NAME"
  by (simp_all add: MANIFEST_NAME_def PROVENANCE_NAME_def SERVICE_LOG_NAME_def SHAKE_LOG_NAME_def
      STATUS_FILE_def lit_inject)

lemma sample_current_dir:
  "dir_at (Events, [sample_event]) sample_current_store
     = Some (sample_evidence @ sample_entry (sample_running True))"
  "dir_at (Events, [sample_event, lit ''logs'']) sample_current_store
     = Some [(SERVICE_LOG_NAME, File (Bytes [1])), (SHAKE_LOG_NAME, File (Bytes [1]))]"
  by (simp_all add: sample_current_store_def dir_at_def sample_evidence_def)

lemma aget_append: "aget (xs @ ys) k = (case aget xs k of None \<Rightarrow> aget ys k | Some v \<Rightarrow> Some v)"
  by (simp add: aget_def map_add_Some_iff map_of_append map_add_def split: option.splits)

lemma sample_current_status:
  "aget (sample_evidence @ sample_entry (sample_running True)) STATUS_FILE
     = Some (File (Json (record_to_dict (sample_running True))))"
  by (simp add: sample_evidence_def)

lemma sample_complete:
  "complete_evidence sample_env1 sample_event 7 sample_execution sample_validation (now_iso sample_time)
     sample_current_store"
proof -
  let ?d = "sample_evidence @ sample_entry (sample_running True)"
  have m: "json_at (Events, [sample_event]) MANIFEST_NAME sample_current_store
      (jobj [(''event_id'', JStr sample_event), (''internal_sequence'', JInt 7), (''partial'', JBool False)])"
    "json_at (Events, [sample_event]) PROVENANCE_NAME sample_current_store
      (jobj [(''event_id'', JStr sample_event), (''internal_sequence'', JInt 7),
         (''timestamps'', jobj [(''terminal_at'', JStr (now_iso sample_time))])])"
    using sample_current_dir(1) by (simp_all add: json_at_def entry_at_def sample_evidence_def)
  show ?thesis
    unfolding complete_evidence_def
    by (intro conjI exI [where x = "jobj [(''event_id'', JStr sample_event), (''internal_sequence'', JInt 7),
          (''partial'', JBool False)]"]
        exI [where x = "jobj [(''event_id'', JStr sample_event), (''internal_sequence'', JInt 7),
         (''timestamps'', jobj [(''terminal_at'', JStr (now_iso sample_time))])]"] m)
       (simp_all add: sample_execution_def sample_validation_def nonempty_file_def entry_at_def
          sample_current_dir content_bytes_def)
qed

lemma sample_load_current:
  "load_record sample_cfg (Events, [sample_event]) None (Some sample_event) sample_current_store
     = Inr (sample_running True)"
  by (rule load_stored)
     (simp_all add: entry_at_def sample_current_dir sample_current_status sample_running del: dir_at_simps)

lemma sample_matching:
  "require_matching_current sample_cfg (sample_running True) sample_current_store = Inr (sample_running True)"
  using sample_running(3) [of True] sample_load_current
  by (simp add: require_matching_current_Inr read_current_record_def read_record_directory_def
      event_service_dir_def open_record_dir [OF sample_current_dir(1)] sample_running sample_event_valid
      validate_event_id_Inr state_of_def parse_state_Some)

text \<open>The refusal, at a native exit code other than 0.\<close>

theorem success_only_with_evidence_witness:
  "\<exists>e. finalize_success (sample_running True) (sample_execution\<lparr>x_exit_code := Some 1\<rparr>) sample_validation
       (now_iso sample_time) sample_env1 \<lparr>fs = sample_current_store, clock = 0, mem = ()\<rparr>
     = (Exc e, \<lparr>fs = sample_current_store, clock = 0, mem = ()\<rparr>)"
proof -
  let ?m = "finalize_success (sample_running True) (sample_execution\<lparr>x_exit_code := Some 1\<rparr>)
      sample_validation (now_iso sample_time) sample_env1 \<lparr>fs = sample_current_store, clock = 0, mem = ()\<rparr>"
  obtain out w' where out: "?m = (out, w')" by fastforce
  from success_only_with_evidence [OF this] show ?thesis
    by (auto simp: out complete_evidence_def)
qed

section \<open>Recording success\<close>

lemma success_shared_paths:
  assumes "transition_record now SUCCESS (success_args x ts shared) r = Inr r'" "valid_ts (JStr ts)"
  shows "r_shared_paths r' = shared" "jget (r_timestamps r') ''completed_at'' = JStr ts"
  using assms
  by (auto simp: transition_record_def success_args_def no_args_def result_simps Let_def
      split: option.splits)

lemma success_step:
  assumes "valid_record c r" "state_of r = Some RUNNING" "valid_ts (JStr ts)"
    and "validate_shared_paths c (r\<lparr>r_shared_paths := shared\<rparr>) = Inr ()" "all_evidence_paths c e shared"
  shows "\<exists>r'. transition_record now SUCCESS (success_args x ts shared) r = Inr r' \<and> valid_record c r'
     \<and> all_evidence_paths c e (r_shared_paths r') \<and> jget (r_timestamps r') ''completed_at'' = JStr ts"
proof -
  obtain r' where r': "transition_record now SUCCESS (success_args x ts shared) r = Inr r'" "valid_record c r'"
    using success_transition [OF assms(1,2), of "success_args x ts shared"
        "jobj [(''completed'', JBool True), (''successful'', JBool True)]" "native_outcome_of (Some x)" shared
        "JStr ts" now] assms(3,4)
    by (auto simp: success_args_def no_args_def native_outcome_of_def)
  with success_shared_paths [OF r'(1) assms(3)] assms(5) show ?thesis by auto
qed



end
