(* ===== verification/Recalculation.thy ===== *)
theory Recalculation
  imports Journal
begin

text \<open>
  \<open>recalculation.py\<close>: the durable replacement of one event's calculation tree, operation by
  operation. The in-memory \<open>_Transaction\<close> (the record, its location, the journal) is the memory of
  the world, so that an exception leaves it exactly as far as the code had mutated it. Descriptors
  become paths: the record handle follows the record directory from the queue to the current tree.
  The identity re-checks against a concurrent rename are trivial here (one thread owns the tree);
  \<open>revalidate_status\<close> keeps the comparison of the stored record.
\<close>

record transaction =
  t_record :: calculation_record
  in_events :: bool
  t_journal :: journal

section \<open>Small readers\<close>

fun exn_name :: "exn_kind \<Rightarrow> string" where
  "exn_name ValueError = ''ValueError''"
| "exn_name TypeError = ''TypeError''"
| "exn_name RuntimeError = ''RuntimeError''"
| "exn_name OSError = ''OSError''"
| "exn_name FileNotFoundError = ''FileNotFoundError''"
| "exn_name FileExistsError = ''FileExistsError''"
| "exn_name RecalculationError = ''RecalculationError''"
| "exn_name StartupRecoveryError = ''StartupRecoveryError''"
| "exn_name FinalizationError = ''FinalizationError''"
| "exn_name CalculationFinalizationError = ''CalculationFinalizationError''"
| "exn_name ProductManifestError = ''ProductManifestError''"
| "exn_name ServiceShutdownError = ''ServiceShutdownError''"
| "exn_name InputValidationError = ''InputValidationError''"
| "exn_name InputSnapshotError = ''InputSnapshotError''"
| "exn_name ServiceUnavailableError = ''ServiceUnavailableError''"
| "exn_name PrivateRequestCleanupError = ''PrivateRequestCleanupError''"
| "exn_name (InputPublicationError retain) = ''InputPublicationError''"
| "exn_name (DurableStateError problems) = ''DurableStateError''"
| "exn_name UnknownEventError = ''UnknownEventError''"
| "exn_name RequiredProductResolutionError = ''RequiredProductResolutionError''"
| "exn_name ProductValidationInputError = ''ProductValidationInputError''"
| "exn_name ProvenanceError = ''ProvenanceError''"
| "exn_name (NativeProfileError stage command helper) = ''NativeProfileError''"
| "exn_name OtherError = ''Exception''"

definition is_not_found :: "exn \<Rightarrow> bool" where
  "is_not_found e \<longleftrightarrow> exn_kind_of e = FileNotFoundError"

definition record_dir :: "transaction \<Rightarrow> path" where
  "record_dir t =
     (if in_events t then event_service_dir (event_id_of (t_record t))
      else queue_entry_dir (sequence_of (t_record t)))"

definition safe_directory_entry :: "path \<Rightarrow> ustr \<Rightarrow> fsys \<Rightarrow> exn + bool" where
  "safe_directory_entry p n s =
     (case entry_at p n s of
        None \<Rightarrow> Inr False
      | Some (Dir d) \<Rightarrow> Inr True
      | Some _ \<Rightarrow> Inl (Exn RecalculationError ''not a safe directory''))"

definition entry_exists :: "path \<Rightarrow> ustr \<Rightarrow> ('m, bool) io" where
  "entry_exists p n = observe (\<lambda>E s. Inr (entry_at p n s \<noteq> None))"

definition safe_entry :: "path \<Rightarrow> ustr \<Rightarrow> ('m, bool) io" where
  "safe_entry p n = observe (\<lambda>E. safe_directory_entry p n)"

definition revalidate_status :: "path \<Rightarrow> calculation_record \<Rightarrow> ('m, unit) io" where
  "revalidate_status p r = observe (\<lambda>E s.
     bindE (read_json p STATUS_FILE RecalculationError s) (\<lambda>stored.
     guardE (construct_record stored = Inr r) RecalculationError
       ''calculation status changed after it was read''))"

section \<open>The journal on disk\<close>

definition write_journal :: "path \<Rightarrow> journal \<Rightarrow> ('m, unit) io" where
  "write_journal p j =
     publish_json is_not_found ''.transaction-'' p TRANSACTION_FILE (journal_to_json j)"

definition set_completed :: "(string list \<Rightarrow> string list) \<Rightarrow> transaction \<Rightarrow> transaction" where
  "set_completed f t = t\<lparr>t_journal := (t_journal t)\<lparr>j_completed := f (j_completed (t_journal t))\<rparr>\<rparr>"

definition save_journal :: "(transaction, unit) io" where
  "save_journal = bindM get_mem (\<lambda>t. write_journal (record_dir t) (t_journal t))"

definition named_checkpoint :: "string \<Rightarrow> (transaction, unit) io" where
  "named_checkpoint checkpoint =
     thenM (check (checkpoint \<in> set CHECKPOINTS) ValueError ''unknown transaction checkpoint'')
    (bindM get_mem (\<lambda>t.
     if checkpoint \<in> set (j_completed (t_journal t)) then ret ()
     else thenM (modify_mem (set_completed (\<lambda>cs. cs @ [checkpoint])))
            (catchM save_journal
               (\<lambda>e. thenM (modify_mem (set_completed butlast)) (reraise e)))))"

datatype intent = Stage_removal | Candidate_removal

fun intent_set :: "intent \<Rightarrow> journal \<Rightarrow> bool" where
  "intent_set Stage_removal j = j_stage_removal j"
| "intent_set Candidate_removal j = j_candidate_removal j"

fun put_intent :: "intent \<Rightarrow> bool \<Rightarrow> transaction \<Rightarrow> transaction" where
  "put_intent Stage_removal b t = t\<lparr>t_journal := (t_journal t)\<lparr>j_stage_removal := b\<rparr>\<rparr>"
| "put_intent Candidate_removal b t = t\<lparr>t_journal := (t_journal t)\<lparr>j_candidate_removal := b\<rparr>\<rparr>"

definition named_intent :: "intent \<Rightarrow> (transaction, unit) io" where
  "named_intent i =
     bindM get_mem (\<lambda>t.
     if intent_set i (t_journal t) then ret ()
     else thenM (modify_mem (put_intent i True))
            (catchM save_journal
               (\<lambda>e. thenM (modify_mem (put_intent i False)) (reraise e))))"

section \<open>Validating the request snapshot\<close>

definition validate_manifest :: "path \<Rightarrow> calculation_record \<Rightarrow> ('m, (ustr \<times> int \<times> ustr) list) io" where
  "validate_manifest p r = observe (\<lambda>E s.
     bindE (load_request_manifest_identity RecalculationError p r s) (\<lambda>m.
     bindE (manifest_files RecalculationError [] (list_of (jget m ''files''))) (\<lambda>expected.
     bindE (guardE (aget expected (lit ''event.xml'') \<noteq> None) RecalculationError
              ''request manifest must contain event.xml'') (\<lambda>_.
     bindE (case dir_at (fst p, snd p @ [lit ''request'']) s of
              None \<Rightarrow> Inl (Exn RecalculationError ''request snapshot is missing or unsafe'')
            | Some d \<Rightarrow> Inr d) (\<lambda>request.
     bindE (guardE (set (akeys request) = set (akeys expected)) RecalculationError
              ''request snapshot differs from manifest'') (\<lambda>_.
     bindE (mapE (\<lambda>(name, size, digest).
                case aget request name of
                  Some (File c) \<Rightarrow>
                    bindE (guardE (int (length (content_bytes E c)) = size) RecalculationError
                             ''request snapshot size differs'') (\<lambda>_.
                    guardE (sha256 E (content_bytes E c) = digest) RecalculationError
                      ''request snapshot checksum differs'')
                | _ \<Rightarrow> Inl (Exn RecalculationError ''request snapshot file is not regular''))
              expected) (\<lambda>_. Inr expected)))))))"

section \<open>Allocating the archive\<close>

fun archive_name_loop :: "nat \<Rightarrow> dirc \<Rightarrow> ustr \<Rightarrow> datetime \<Rightarrow> datetime option" where
  "archive_name_loop 0 d e t = None"
| "archive_name_loop (Suc n) d e t =
     (if \<not> valid_datetime t then None
      else if aget d (event_archive_name e (archive_timestamp t)) = None then Some t
      else archive_name_loop n d e (next_micro t))"

definition ARCHIVE_ATTEMPTS :: nat where
  "ARCHIVE_ATTEMPTS = 1000000"

definition allocate_archive_path :: "ustr \<Rightarrow> ('m, ustr) io" where
  "allocate_archive_path event_id =
     bindM read_datetime (\<lambda>selected.
     observe (\<lambda>E s.
       case archive_name_loop ARCHIVE_ATTEMPTS (s Archive) event_id selected of
         None \<Rightarrow> Inl (Exn RecalculationError ''could not allocate a collision-free archive path'')
       | Some t \<Rightarrow> Inr (archive_path_for (cfg E) event_id t)))"

definition missing_counterpart_warning :: "bool \<Rightarrow> bool \<Rightarrow> string option" where
  "missing_counterpart_warning products service =
     (if products \<and> service then None
      else if \<not> products \<and> \<not> service then Some ''no preceding products or service tree existed''
      else if \<not> products then Some ''preceding products tree was missing''
      else Some ''preceding service tree was missing'')"

definition persist_missing_counterpart_warning ::
  "calculation_record \<Rightarrow> string option \<Rightarrow> ('m, calculation_record) io" where
  "persist_missing_counterpart_warning r warning =
     (case warning of
        None \<Rightarrow> ret r
      | Some text \<Rightarrow>
          if jstr text \<in> set (list_of (r_warnings r)) then ret r
          else bindM (update_status (sequence_of r)
                        [(''warnings'', JList (list_of (r_warnings r) @ [jstr text]))]) (\<lambda>updated.
               thenM (revalidate_status (queue_entry_dir (sequence_of r)) updated) (ret updated)))"

section \<open>Opening a new transaction\<close>

definition load_running_record :: "int \<Rightarrow> ('m, calculation_record) io" where
  "load_running_record sequence = observe (\<lambda>E s.
     bindE (read_status (cfg E) sequence s) (\<lambda>found.
       case found of
         None \<Rightarrow> Inl (Exn RecalculationError ''claimed queue record does not exist'')
       | Some r \<Rightarrow>
           bindE (guardE (r_status r = jstr ''RUNNING'') RecalculationError
                    ''calculation must be durably RUNNING before preparation'') (\<lambda>_. Inr r)))"

definition require_absent :: "path \<Rightarrow> ustr \<Rightarrow> string \<Rightarrow> ('m, unit) io" where
  "require_absent p n msg =
     bindM (entry_exists p n) (\<lambda>present. check (\<not> present) RecalculationError msg)"

definition new_transaction :: "int \<Rightarrow> (transaction, (ustr \<times> int \<times> ustr) list) io" where
  "new_transaction sequence =
     (let p = queue_entry_dir sequence in
     bindM (safe_entry (Queue, []) (queue_entry_name sequence)) (\<lambda>present.
     thenM (check present RecalculationError ''claimed queue record is missing or unsafe'')
    (bindM (load_running_record sequence) (\<lambda>r.
     thenM (revalidate_status p r)
    (bindM (validate_manifest p r) (\<lambda>manifest.
     thenM (require_absent p TRANSACTION_FILE ''calculation already has a transaction journal'')
    (thenM (require_absent p STAGING_DIRECTORY ''calculation has unexpected private staging state'')
    (thenM (require_absent p NATIVE_CANDIDATE_DIRECTORY ''calculation has unexpected native candidate state'')
    (bindM (safe_entry (Products, []) (event_id_of r)) (\<lambda>products.
     bindM (safe_entry (Events, []) (event_id_of r)) (\<lambda>service.
     bindM (persist_missing_counterpart_warning r (missing_counterpart_warning products service)) (\<lambda>r'.
     bindM (if \<not> bool_of (r_overwrite r') \<and> (products \<or> service)
            then bindM (allocate_archive_path (event_id_of r')) (\<lambda>a. ret (Some a)) else ret None) (\<lambda>archive.
     let j = \<lparr>j_event_id = event_id_of r', j_sequence = sequence_of r',
              j_overwrite = bool_of (r_overwrite r'), j_products = products, j_service = service,
              j_archive_path = archive, j_completed = [], j_stage_removal = False,
              j_candidate_removal = False, j_recovery_failure = JNull\<rparr> in
     thenM (write_journal p j)
    (thenM (modify_mem (\<lambda>_. \<lparr>t_record = r', in_events = False, t_journal = j\<rparr>))
           (ret manifest)))))))))))))))"

section \<open>Staging and disposing of the preceding trees\<close>

text \<open>The two kinds of preceding tree: checkpoint, source root, name in the stage.\<close>

datatype kind = Products_kind | Service_kind

fun kind_checkpoint :: "kind \<Rightarrow> string" where
  "kind_checkpoint Products_kind = ''products_staged''"
| "kind_checkpoint Service_kind = ''service_staged''"

fun kind_source :: "kind \<Rightarrow> path" where
  "kind_source Products_kind = (Products, [])"
| "kind_source Service_kind = (Events, [])"

fun kind_name :: "kind \<Rightarrow> ustr" where
  "kind_name Products_kind = lit ''products''"
| "kind_name Service_kind = lit ''service''"

fun preceding :: "journal \<Rightarrow> kind \<Rightarrow> bool" where
  "preceding j Products_kind = j_products j"
| "preceding j Service_kind = j_service j"

definition child :: "path \<Rightarrow> ustr \<Rightarrow> path" where
  "child p n = (fst p, snd p @ [n])"

definition stage_kind :: "kind \<Rightarrow> (transaction, unit) io" where
  "stage_kind k =
     bindM get_mem (\<lambda>t.
     thenM (whenM (preceding (t_journal t) k)
              (thenM (rename (kind_source k) (event_id_of (t_record t))
                        (child (record_dir t) STAGING_DIRECTORY) (kind_name k))
              (thenM fsync fsync)))
           (named_checkpoint (kind_checkpoint k)))"

definition stage_preceding :: "(transaction, unit) io" where
  "stage_preceding =
     bindM get_mem (\<lambda>t.
     thenM (mkdir (record_dir t) STAGING_DIRECTORY)
    (thenM fsync
    (thenM (stage_kind Products_kind) (stage_kind Service_kind))))"

definition archive_stage :: "(transaction, unit) io" where
  "archive_stage =
     bindM get_mem (\<lambda>t.
     case j_archive_path (t_journal t) of
       None \<Rightarrow> raise TypeError ''archive path is null''
     | Some a \<Rightarrow>
         thenM (rename (record_dir t) STAGING_DIRECTORY (Archive, []) (path_name a))
               (thenM fsync fsync))"

definition remove_stage :: "(transaction, unit) io" where
  "remove_stage =
     bindM get_mem (\<lambda>t.
     thenM (named_intent Stage_removal)
    (thenM (rmtree (record_dir t) STAGING_DIRECTORY) fsync))"

definition dispose_preceding :: "(transaction, unit) io" where
  "dispose_preceding =
     bindM get_mem (\<lambda>t.
     thenM (if r_overwrite (t_record t) = JBool False \<and> has_preceding (t_journal t)
            then archive_stage else remove_stage)
           (named_checkpoint ''preceding_disposed''))"

section \<open>Promotion and the native tree\<close>

definition enter_events :: "transaction \<Rightarrow> transaction" where
  "enter_events t = t\<lparr>in_events := True\<rparr>"

definition promote_record :: "(transaction, unit) io" where
  "promote_record =
     bindM get_mem (\<lambda>t.
     thenM (revalidate_status (record_dir t) (t_record t))
    (thenM (rename (Queue, []) (queue_entry_name (sequence_of (t_record t)))
              (Events, []) (event_id_of (t_record t)))
    (thenM (modify_mem enter_events)
    (thenM fsync (thenM fsync (named_checkpoint ''record_promoted''))))))"

definition copy_request_file ::
  "path \<Rightarrow> path \<Rightarrow> (ustr \<times> int \<times> ustr) \<Rightarrow> ('m, unit) io" where
  "copy_request_file request current = (\<lambda>(name, size, digest).
     bindM (observe (\<lambda>E. open_regular request name RecalculationError)) (\<lambda>c.
     thenM (create_file current name)
    (bindM (ask (\<lambda>E. content_bytes E c)) (\<lambda>bytes.
     thenM (write_file current name c)
    (bindM (ask (\<lambda>E. sha256 E bytes)) (\<lambda>actual.
     thenM (check (int (length bytes) = size \<and> actual = digest) RecalculationError
              ''request snapshot changed during native-tree copy'')
           fsync))))))"

definition copy_manifested_request :: "(ustr \<times> int \<times> ustr) list \<Rightarrow> (transaction, unit) io" where
  "copy_manifested_request manifest =
     bindM get_mem (\<lambda>t.
     let p = record_dir t; candidate = child p NATIVE_CANDIDATE_DIRECTORY;
         current = child candidate (lit ''current'') in
     thenM (mkdir p NATIVE_CANDIDATE_DIRECTORY)
    (thenM (mkdir candidate (lit ''current''))
    (thenM (forM (sort_key fst manifest) (copy_request_file (child p (lit ''request'')) current))
    (thenM fsync (thenM fsync (thenM fsync (named_checkpoint ''candidate_ready'')))))))"

definition publish_native_tree :: "(transaction, unit) io" where
  "publish_native_tree =
     bindM get_mem (\<lambda>t.
     thenM (rename (record_dir t) NATIVE_CANDIDATE_DIRECTORY
              (Products, []) (event_id_of (t_record t)))
    (thenM fsync (thenM fsync (named_checkpoint ''native_tree_published''))))"

definition prepare_calculation :: "int \<Rightarrow> (transaction, transaction) io" where
  "prepare_calculation sequence =
     bindM (new_transaction sequence) (\<lambda>manifest.
     thenM stage_preceding
    (thenM dispose_preceding
    (thenM promote_record
    (thenM (copy_manifested_request manifest)
    (thenM publish_native_tree get_mem)))))"

end
