(* ===== verification/Reconcile.thy ===== *)
theory Reconcile
  imports Recalculation
begin

text \<open>
  The recovery half of \<open>recalculation.py\<close>: locating the journal of an interrupted transaction,
  finishing its disposition, failing the record, and removing the journal of a finished one; and
  \<open>startup_recovery.py\<close>, which drives it when the service starts.
\<close>

section \<open>Locating a transaction\<close>

definition holds_journal :: "path \<Rightarrow> fsys \<Rightarrow> bool" where
  "holds_journal p s \<longleftrightarrow> entry_at p TRANSACTION_FILE s \<noteq> None"

definition journal_candidate_present :: "ustr \<Rightarrow> int \<Rightarrow> ('m, bool) io" where
  "journal_candidate_present event_id sequence = observe (\<lambda>E s.
     bindE (safe_directory_entry (Queue, []) (queue_entry_name sequence) s) (\<lambda>queued.
     if queued \<and> holds_journal (queue_entry_dir sequence) s then Inr True
     else bindE (safe_directory_entry (Events, []) event_id s) (\<lambda>current.
          Inr (current \<and> holds_journal (event_service_dir event_id) s))))"

definition current_transaction_present :: "ustr \<Rightarrow> fsys \<Rightarrow> exn + bool" where
  "current_transaction_present event_id s =
     bindE (validate_event_id (JStr event_id)) (\<lambda>_.
     bindE (safe_directory_entry (Events, []) event_id s) (\<lambda>current.
     Inr (current \<and> holds_journal (event_service_dir event_id) s)))"

definition select_location :: "ustr \<Rightarrow> int \<Rightarrow> fsys \<Rightarrow> exn + bool option" where
  "select_location event_id sequence s =
     bindE (safe_directory_entry (Queue, []) (queue_entry_name sequence) s) (\<lambda>queued.
     bindE (safe_directory_entry (Events, []) event_id s) (\<lambda>current.
     let in_queue = queued \<and> holds_journal (queue_entry_dir sequence) s;
         in_current = current \<and> holds_journal (event_service_dir event_id) s in
     if in_queue \<and> in_current
     then Inl (Exn RecalculationError ''transaction journal exists in both queue and current state'')
     else if in_queue then Inr (Some False)
     else if in_current then Inr (Some True)
     else Inr None))"

definition load_transaction :: "ustr \<Rightarrow> int \<Rightarrow> bool \<Rightarrow> (transaction, unit) io" where
  "load_transaction event_id sequence current =
     (let p = (if current then event_service_dir event_id else queue_entry_dir sequence) in
     bindM (observe (\<lambda>E s.
        bindE (if current then read_current_record (cfg E) event_id s
               else read_status (cfg E) sequence s) (\<lambda>found.
        case found of
          None \<Rightarrow> Inl (Exn RecalculationError ''transaction record identity does not match its journal'')
        | Some r \<Rightarrow> bindE (guardE (sequence_of r = sequence) RecalculationError
                             ''transaction record identity does not match its journal'') (\<lambda>_. Inr r)))) (\<lambda>r.
     thenM (revalidate_status p r)
    (bindM (observe (\<lambda>E. load_journal (cfg E) p)) (\<lambda>j.
     thenM (check (j_event_id j = event_id \<and> j_sequence j = sequence) RecalculationError
              ''requested transaction identity does not match journal'')
    (thenM (liftE (validate_journal_identity j r))
           (modify_mem (\<lambda>_. \<lparr>t_record = r, in_events = current, t_journal = j\<rparr>)))))))"

definition locate_transaction :: "ustr \<Rightarrow> int \<Rightarrow> (transaction, bool) io" where
  "locate_transaction event_id sequence =
     bindM (journal_candidate_present event_id sequence) (\<lambda>candidate.
     if \<not> candidate then ret False
     else bindM (observe (\<lambda>E. select_location event_id sequence)) (\<lambda>location.
       case location of
         None \<Rightarrow> ret False
       | Some current \<Rightarrow> thenM (load_transaction event_id sequence current) (ret True)))"

section \<open>Finishing the disposition\<close>

definition expected_archive_names :: "journal \<Rightarrow> ustr set" where
  "expected_archive_names j =
     set (map kind_name (filter (preceding j) [Products_kind, Service_kind]))"

definition verify_archive_contents :: "ustr \<Rightarrow> journal \<Rightarrow> ('m, unit) io" where
  "verify_archive_contents name j = observe (\<lambda>E s.
     guardE (case dir_at (Archive, [name]) s of
               None \<Rightarrow> False | Some d \<Rightarrow> set (akeys d) = expected_archive_names j)
       RecalculationError ''published archive contents differ from transaction evidence'')"

text \<open>Whether a preceding tree is still (or again) at its source.\<close>

definition sources_present :: "ustr \<Rightarrow> ('m, bool) io" where
  "sources_present event_id =
     bindM (safe_entry (Products, []) event_id) (\<lambda>products.
     if products then ret True else safe_entry (Events, []) event_id)"

definition resume_stage_removal :: "(transaction, unit) io" where
  "resume_stage_removal =
     bindM get_mem (\<lambda>t.
     thenM (check (j_archive_path (t_journal t) = None) RecalculationError
              ''stage-removal intent conflicts with archive intent'')
    (bindM (sources_present (event_id_of (t_record t))) (\<lambda>present.
     thenM (check (\<not> present) RecalculationError
              ''preceding tree reappeared after stage removal started'')
    (bindM (safe_entry (record_dir t) STAGING_DIRECTORY) (\<lambda>staged.
     thenM (whenM staged (rmtree (record_dir t) STAGING_DIRECTORY))
    (thenM fsync (named_checkpoint ''preceding_disposed'')))))))"

definition accept_archive :: "ustr \<Rightarrow> (transaction, unit) io" where
  "accept_archive name =
     bindM get_mem (\<lambda>t.
     thenM (check (r_overwrite (t_record t) \<noteq> JBool True) RecalculationError
              ''overwrite transaction unexpectedly has an archive'')
    (bindM (entry_exists (record_dir t) STAGING_DIRECTORY) (\<lambda>staged.
     thenM (check (\<not> staged) RecalculationError ''published archive and private stage both exist'')
    (thenM (verify_archive_contents name (t_journal t))
           (named_checkpoint ''preceding_disposed'')))))"

definition ensure_stage :: "(transaction, unit) io" where
  "ensure_stage =
     bindM get_mem (\<lambda>t.
     bindM (safe_entry (record_dir t) STAGING_DIRECTORY) (\<lambda>staged.
     whenM (\<not> staged) (thenM (mkdir (record_dir t) STAGING_DIRECTORY) fsync)))"

definition recover_kind :: "kind \<Rightarrow> (transaction, unit) io" where
  "recover_kind k =
     bindM get_mem (\<lambda>t.
     let stage = child (record_dir t) STAGING_DIRECTORY;
         expected = preceding (t_journal t) k in
     bindM (safe_entry (kind_source k) (event_id_of (t_record t))) (\<lambda>source_exists.
     bindM (safe_entry stage (kind_name k)) (\<lambda>staged_exists.
     thenM (check (expected \<or> (\<not> source_exists \<and> \<not> staged_exists)) RecalculationError
              ''unexpected tree appeared during reconciliation'')
    (thenM (check (\<not> (expected \<and> source_exists \<and> staged_exists)) RecalculationError
              ''preceding and staged trees both exist'')
    (thenM (whenM (expected \<and> source_exists)
              (thenM (rename (kind_source k) (event_id_of (t_record t)) stage (kind_name k))
              (thenM fsync fsync)))
    (thenM (check (\<not> (expected \<and> \<not> source_exists \<and> \<not> staged_exists)) RecalculationError
              ''preceding tree is unaccounted for'')
           (named_checkpoint (kind_checkpoint k))))))))"

definition finish_staging :: "(transaction, unit) io" where
  "finish_staging =
     bindM get_mem (\<lambda>t.
     thenM ensure_stage
    (thenM (recover_kind Products_kind)
    (thenM (recover_kind Service_kind)
    (thenM (if r_overwrite (t_record t) = JBool False \<and> has_preceding (t_journal t)
            then thenM (check (j_archive_path (t_journal t) \<noteq> None) RecalculationError
                          ''archive path is missing for retained preceding trees'') archive_stage
            else remove_stage)
           (named_checkpoint ''preceding_disposed'')))))"

definition recover_staging :: "(transaction, unit) io" where
  "recover_staging =
     bindM get_mem (\<lambda>t.
     let j = t_journal t; e = event_id_of (t_record t) in
     bindM (case j_archive_path j of
              None \<Rightarrow> ret False
            | Some a \<Rightarrow>
                bindM (ask (\<lambda>E. path_parent a = path_parts (archive_dir (cfg E)))) (\<lambda>inside.
                thenM (check inside RecalculationError
                         ''transaction archive path is outside the archive directory'')
                      (safe_entry (Archive, []) (path_name a)))) (\<lambda>archive_exists.
     if j_stage_removal j then resume_stage_removal
     else if archive_exists
     then (case j_archive_path j of
             None \<Rightarrow> raise TypeError ''archive path is null'' | Some a \<Rightarrow> accept_archive (path_name a))
     else bindM (safe_entry (record_dir t) STAGING_DIRECTORY) (\<lambda>staged.
          bindM (sources_present e) (\<lambda>present.
          if \<not> staged \<and> \<not> present \<and> ''products_staged'' \<in> set (j_completed j)
             \<and> ''service_staged'' \<in> set (j_completed j)
             \<and> (r_overwrite (t_record t) = JBool True \<or> \<not> has_preceding j)
          then named_checkpoint ''preceding_disposed''
          else finish_staging))))"

definition recover_promotion :: "(transaction, unit) io" where
  "recover_promotion =
     bindM get_mem (\<lambda>t.
     if in_events t then named_checkpoint ''record_promoted''
     else bindM (safe_entry (Events, []) (event_id_of (t_record t))) (\<lambda>occupied.
          thenM (check (\<not> occupied) RecalculationError
                   ''current service destination is occupied before promotion'')
         (thenM (revalidate_status (record_dir t) (t_record t))
         (thenM (rename (Queue, []) (queue_entry_name (sequence_of (t_record t)))
                   (Events, []) (event_id_of (t_record t)))
         (thenM (modify_mem enter_events)
         (thenM fsync (thenM fsync (named_checkpoint ''record_promoted''))))))))"

definition verify_disposition_after_promotion :: "(transaction, unit) io" where
  "verify_disposition_after_promotion =
     bindM get_mem (\<lambda>t.
     bindM (entry_exists (record_dir t) STAGING_DIRECTORY) (\<lambda>staged.
     thenM (check (\<not> staged) RecalculationError ''private recalculation stage remains after promotion'')
           (case j_archive_path (t_journal t) of
              None \<Rightarrow> ret ()
            | Some a \<Rightarrow>
                bindM (safe_entry (Archive, []) (path_name a)) (\<lambda>present.
                thenM (check present RecalculationError ''transaction archive is missing after promotion'')
                      (verify_archive_contents (path_name a) (t_journal t))))))"

text \<open>The result says whether the native event tree had been published.\<close>

definition remove_private_candidate :: "(transaction, bool) io" where
  "remove_private_candidate =
     bindM get_mem (\<lambda>t.
     let p = record_dir t; completed = set (j_completed (t_journal t)) in
     bindM (safe_entry p NATIVE_CANDIDATE_DIRECTORY) (\<lambda>candidate_exists.
     bindM (safe_entry (Products, []) (event_id_of (t_record t))) (\<lambda>public_exists.
     if j_candidate_removal (t_journal t)
     then thenM (check (\<not> public_exists) RecalculationError
                   ''candidate-removal intent conflicts with a published native tree'')
         (thenM (whenM candidate_exists (rmtree p NATIVE_CANDIDATE_DIRECTORY))
         (thenM fsync (ret False)))
     else thenM (check (\<not> (candidate_exists \<and> public_exists)) RecalculationError
                   ''private and published native event trees both exist'')
         (thenM (check (\<not> (public_exists \<and> ''candidate_ready'' \<notin> completed)) RecalculationError
                   ''published native event tree has no ready checkpoint'')
         (thenM (check (\<not> (\<not> public_exists \<and> ''native_tree_published'' \<in> completed)) RecalculationError
                   ''published native event tree is missing'')
         (thenM (check (\<not> (\<not> candidate_exists \<and> \<not> public_exists \<and> ''candidate_ready'' \<in> completed))
                   RecalculationError ''ready native event-tree candidate is missing'')
         (thenM (whenM candidate_exists
                   (thenM (named_intent Candidate_removal)
                   (thenM (rmtree p NATIVE_CANDIDATE_DIRECTORY) fsync)))
                (ret public_exists))))))))"

section \<open>Failing the record\<close>

definition set_record :: "calculation_record \<Rightarrow> transaction \<Rightarrow> transaction" where
  "set_record r t = t\<lparr>t_record := r\<rparr>"

definition mark_failed :: "string \<Rightarrow> (transaction, unit) io" where
  "mark_failed message =
     bindM get_mem (\<lambda>t.
     if r_status (t_record t) = jstr ''FAILED'' then ret ()
     else thenM (check (r_status (t_record t) = jstr ''RUNNING'') RecalculationError
                   ''interrupted calculation has unexpected state'')
         (bindM (transition_current_record (event_id_of (t_record t)) FAILED
                   (failure_args (jobj [(''code'', jstr ''interrupted_recalculation''),
                                        (''message'', jstr message)]))) (\<lambda>r.
          thenM (modify_mem (set_record r))
                (revalidate_status (record_dir t) r))))"

definition remove_journal :: "path \<Rightarrow> ('m, unit) io" where
  "remove_journal p =
     bindM (catchM (thenM (unlink p TRANSACTION_FILE) (ret True))
              (\<lambda>e. if is_not_found e then ret False else reraise e)) (\<lambda>removed.
     whenM removed fsync)"

definition put_recovery_failure :: "json \<Rightarrow> transaction \<Rightarrow> transaction" where
  "put_recovery_failure f t = t\<lparr>t_journal := (t_journal t)\<lparr>j_recovery_failure := f\<rparr>\<rparr>"

definition record_recovery_failure :: "exn \<Rightarrow> (transaction, unit) io" where
  "record_recovery_failure e =
     bindM read_now (\<lambda>now.
     thenM (modify_mem (put_recovery_failure
              (jobj [(''type'', jstr (exn_name (exn_kind_of e))),
                     (''message'', jstr (exn_message e)), (''recorded_at'', JStr now)])))
           (catchM save_journal (\<lambda>_. raise RecalculationError
              ''reconciliation failed; recording failure evidence also failed'')))"

section \<open>Reconciliation\<close>

definition PUBLISHED_MESSAGE :: string where
  "PUBLISHED_MESSAGE = ''calculation was interrupted after native event-tree publication; '' @
     ''published files were preserved and native execution was not retried''"

definition UNPUBLISHED_MESSAGE :: string where
  "UNPUBLISHED_MESSAGE = ''calculation was interrupted before native event-tree publication; '' @
     ''private candidate files were removed and native execution was not started''"

definition reconcile_steps :: "(transaction, bool) io" where
  "reconcile_steps =
     bindM get_mem (\<lambda>t.
     thenM (whenM (\<not> in_events t) recover_staging)
    (thenM recover_promotion
    (thenM verify_disposition_after_promotion
    (bindM remove_private_candidate (\<lambda>published.
     thenM (mark_failed (if published then PUBLISHED_MESSAGE else UNPUBLISHED_MESSAGE))
    (bindM get_mem (\<lambda>t'.
     thenM (remove_journal (record_dir t')) (ret True))))))))"

definition reconcile_transaction :: "ustr \<Rightarrow> int \<Rightarrow> (transaction, bool) io" where
  "reconcile_transaction event_id sequence =
     bindM (liftE (validate_event_id (JStr event_id))) (\<lambda>_.
     bindM (locate_transaction event_id sequence) (\<lambda>found.
     if \<not> found then ret False
     else catchM reconcile_steps
            (\<lambda>e. thenM (record_recovery_failure e)
                       (raise RecalculationError ''could not reconcile calculation''))))"

definition STALE_FAILURE :: json where
  "STALE_FAILURE = jobj [(''code'', jstr ''interrupted_without_transaction''),
     (''message'', jstr (''calculation was found RUNNING without a transaction journal; '' @
                        ''native execution was not retried''))]"

definition recover_stale_running_calculation :: "ustr \<Rightarrow> int \<Rightarrow> (transaction, bool) io" where
  "recover_stale_running_calculation event_id sequence =
     bindM (liftE (validate_event_id (JStr event_id))) (\<lambda>_.
     thenM (check (1 \<le> sequence) ValueError ''queue sequence must be a positive integer'')
    (bindM (fail_matching_running_record_if_child_absent (queue_entry_dir sequence) event_id sequence
              TRANSACTION_FILE STALE_FAILURE) (\<lambda>queued.
     case queued of
       BLOCKING_CHILD_PRESENT \<Rightarrow> reconcile_transaction event_id sequence
     | RECOVERY_FAILED \<Rightarrow> ret True
     | NOT_RUNNING \<Rightarrow> ret False
     | _ \<Rightarrow>
         bindM (fail_matching_running_record_if_child_absent (event_service_dir event_id) event_id
                  sequence TRANSACTION_FILE STALE_FAILURE) (\<lambda>current.
         case current of
           BLOCKING_CHILD_PRESENT \<Rightarrow> reconcile_transaction event_id sequence
         | RECOVERY_FAILED \<Rightarrow> ret True
         | _ \<Rightarrow> ret False))))"

definition finalize_transaction :: "ustr \<Rightarrow> ('m, bool) io" where
  "finalize_transaction event_id =
     bindM (liftE (validate_event_id (JStr event_id))) (\<lambda>_.
     bindM (observe (\<lambda>E s.
        bindE (read_current_record (cfg E) event_id s) (\<lambda>found.
        case found of
          None \<Rightarrow> Inl (Exn RecalculationError ''current calculation record does not exist'')
        | Some r \<Rightarrow> bindE (guardE (r_status r \<in> {jstr ''SUCCESS'', jstr ''FAILED''}) RecalculationError
                             ''calculation is not terminal'') (\<lambda>_. Inr r)))) (\<lambda>r.
     let p = event_service_dir event_id in
     thenM (revalidate_status p r)
    (bindM (entry_exists p TRANSACTION_FILE) (\<lambda>present.
     if \<not> present then ret False
     else bindM (observe (\<lambda>E. load_journal (cfg E) p)) (\<lambda>j.
          thenM (liftE (validate_journal_identity j r))
         (thenM (check (j_completed j = CHECKPOINTS) RecalculationError
                   ''transaction journal is not fully completed'')
         (thenM (check (j_recovery_failure j = JNull) RecalculationError
                   ''transaction journal contains recovery failure evidence'')
         (thenM (check (\<not> j_candidate_removal j) RecalculationError
                   ''transaction journal contains recovery removal intent'')
         (thenM (remove_journal p) (ret True))))))))))"

section \<open>Startup recovery\<close>

definition validated_records :: "(transaction, calculation_record list) io" where
  "validated_records = observe (\<lambda>E s.
     let (queued, queue_errors) = scan_queue_records E s;
         (current, current_errors) = scan_current_records E s;
         records = queued @ current in
     bindE (guardE (queue_errors = [] \<and> current_errors = []) StartupRecoveryError
              ''malformed durable state prevents startup'') (\<lambda>_.
     bindE (guardE (distinct (map sequence_of records)) StartupRecoveryError
              ''duplicate durable internal sequence prevents startup'') (\<lambda>_.
     Inr records)))"

definition running_records :: "calculation_record list \<Rightarrow> calculation_record list" where
  "running_records rs = sort_key sequence_of (filter (\<lambda>r. r_status r = jstr ''RUNNING'') rs)"

fun recover_each :: "calculation_record list \<Rightarrow> (transaction, (ustr \<times> int) list) io" where
  "recover_each [] = ret []"
| "recover_each (r # rs) =
     bindM (catchM (recover_stale_running_calculation (event_id_of r) (sequence_of r))
              (\<lambda>_. raise StartupRecoveryError ''interrupted calculation could not be recovered''))
       (\<lambda>changed.
     bindM (recover_each rs) (\<lambda>recovered.
     ret (if changed then (event_id_of r, sequence_of r) # recovered else recovered)))"

definition recover_interrupted_calculations :: "(transaction, (ustr \<times> int) list) io" where
  "recover_interrupted_calculations =
     bindM validated_records (\<lambda>records.
     bindM (recover_each (running_records records)) (\<lambda>recovered.
     bindM validated_records (\<lambda>after_records.
     thenM (check (running_records after_records = []) StartupRecoveryError
              ''stale running calculations remain after recovery'')
           (ret recovered))))"

end
