(* ===== verification/Scheduler.thy ===== *)
theory Scheduler
  imports Reconcile Memory_Triples
begin

text \<open>
  \<open>queue.py\<close> and \<open>scheduler.py\<close>: discovery of the waiting calculations, admission up to the
  configured capacity, and what a worker does around the injected calculation callback. The
  scheduler object is the memory of the world. A method body that runs under the scheduler's lock
  is one computation; a worker touches the shared tables only through \<open>record_error\<close>, \<open>release\<close> and
  \<open>retain_event_without_capacity\<close> at its very end. The thread pool is a list of submitted records.
\<close>

section \<open>Queue discovery\<close>

text \<open>\<open>malformed\<close> pairs an entry name with its problem.\<close>

definition discover_queue :: "env \<Rightarrow> fsys \<Rightarrow> calculation_record list \<times> (ustr \<times> exn) list" where
  "discover_queue E s =
     (let (records, problems) = scan_queue_records E s
      in (sort_key sequence_of (filter (\<lambda>r. r_status r = jstr ''QUEUED'') records), problems))"

fun first_malformed_sequence :: "(ustr \<times> exn) list \<Rightarrow> int option" where
  "first_malformed_sequence [] = None"
| "first_malformed_sequence ((entry, e) # rest) =
     (case (parse_queue_entry_name entry, first_malformed_sequence rest) of
        (Inl e', m) \<Rightarrow> m
      | (Inr n, None) \<Rightarrow> Some n
      | (Inr n, Some m) \<Rightarrow> Some (min n m))"

section \<open>The scheduler object\<close>

record scheduler_error =
  e_sequence :: int
  e_event_id :: ustr
  e_message :: string

record scheduler =
  s_max_concurrent :: int
  worker_slots :: "(int \<times> ustr) list"
  event_reservations :: "(ustr \<times> int) list"
  s_errors :: "scheduler_error list"
  s_closed :: bool
  submitted :: "calculation_record list"

definition new_scheduler :: "settings \<Rightarrow> scheduler" where
  "new_scheduler c = \<lparr>s_max_concurrent = max_concurrent c, worker_slots = [],
     event_reservations = [], s_errors = [], s_closed = False, submitted = []\<rparr>"

definition ERROR_LIMIT :: nat where
  "ERROR_LIMIT = 100"

definition push_error :: "scheduler_error \<Rightarrow> scheduler \<Rightarrow> scheduler" where
  "push_error e m = m\<lparr>s_errors := (let es = s_errors m @ [e] in drop (length es - ERROR_LIMIT) es)\<rparr>"

definition record_error :: "calculation_record \<Rightarrow> exn \<Rightarrow> (scheduler, unit) io" where
  "record_error r e = modify_mem (push_error
     \<lparr>e_sequence = sequence_of r, e_event_id = event_id_of r,
      e_message = exn_name (exn_kind_of e) @ '': '' @ exn_message e\<rparr>)"

definition drop_slot :: "calculation_record \<Rightarrow> scheduler \<Rightarrow> scheduler" where
  "drop_slot r m = m\<lparr>worker_slots := adel (sequence_of r) (worker_slots m)\<rparr>"

definition drop_reservation :: "calculation_record \<Rightarrow> scheduler \<Rightarrow> scheduler" where
  "drop_reservation r m =
     (if aget (event_reservations m) (event_id_of r) = Some (sequence_of r)
      then m\<lparr>event_reservations := adel (event_id_of r) (event_reservations m)\<rparr> else m)"

definition release :: "calculation_record \<Rightarrow> (scheduler, unit) io" where
  "release r = modify_mem (\<lambda>m. drop_reservation r (drop_slot r m))"

definition retain_event_without_capacity :: "calculation_record \<Rightarrow> (scheduler, unit) io" where
  "retain_event_without_capacity r = modify_mem (drop_slot r)"

definition reserve :: "calculation_record \<Rightarrow> scheduler \<Rightarrow> scheduler" where
  "reserve r m = m\<lparr>worker_slots := aput (sequence_of r) (event_id_of r) (worker_slots m),
     event_reservations := aput (event_id_of r) (sequence_of r) (event_reservations m)\<rparr>"

section \<open>Terminal states\<close>

datatype location = In_queue | In_current

definition read_authoritative_record ::
  "settings \<Rightarrow> calculation_record \<Rightarrow> fsys \<Rightarrow> exn + (location \<times> calculation_record) option" where
  "read_authoritative_record c expected s =
     bindE (read_status c (sequence_of expected) s) (\<lambda>queued.
     case queued of
       Some r \<Rightarrow>
         bindE (guardE (event_id_of r = event_id_of expected) ValueError
                  ''queued calculation identity changed while reserved'') (\<lambda>_.
         Inr (Some (In_queue, r)))
     | None \<Rightarrow>
         bindE (read_current_record c (event_id_of expected) s) (\<lambda>current.
         case current of
           None \<Rightarrow> Inr None
         | Some r \<Rightarrow>
             bindE (guardE (sequence_of r = sequence_of expected) ValueError
                      ''current calculation identity changed while reserved'') (\<lambda>_.
             Inr (Some (In_current, r)))))"

definition authoritative ::
  "calculation_record \<Rightarrow> string \<Rightarrow> ('m, location \<times> calculation_record) io" where
  "authoritative r missing = observe (\<lambda>E s.
     bindE (read_authoritative_record (cfg E) r s) (\<lambda>target.
     case target of None \<Rightarrow> Inl (Exn RuntimeError missing) | Some t \<Rightarrow> Inr t))"

definition terminal_record :: "calculation_record \<Rightarrow> bool" where
  "terminal_record r \<longleftrightarrow> (case parse_state (r_status r) of Some s \<Rightarrow> is_terminal s | None \<Rightarrow> False)"

definition callback_failure :: "exn option \<Rightarrow> string \<times> string" where
  "callback_failure e =
     (case e of
        None \<Rightarrow> (''scheduler_callback_incomplete'',
                 ''calculation callback returned while the record was RUNNING'')
      | Some x \<Rightarrow> (''scheduler_callback_failed'',
                   ''calculation callback failed: '' @ exn_name (exn_kind_of x) @ '': '' @ exn_message x))"

definition ensure_terminal ::
  "calculation_record \<Rightarrow> exn option \<Rightarrow> ('m, location \<times> calculation_record) io" where
  "ensure_terminal r callback_error =
     bindM (authoritative r ''calculation record is missing after callback'') (\<lambda>(location, current).
     if terminal_record current then ret (location, current)
     else thenM (check (r_status current = jstr ''RUNNING'') RuntimeError
                   ''calculation record has unexpected status'')
         (let (code, message) = callback_failure callback_error in
          bindM (case location of
                   In_queue \<Rightarrow> transition_to_failed (sequence_of r) (lit message) code
                 | In_current \<Rightarrow> transition_current_record (event_id_of r) FAILED
                     (failure_args (jobj [(''code'', jstr code), (''message'', jstr message)])))
            (\<lambda>failed. ret (location, failed))))"

definition verify_terminal :: "calculation_record \<Rightarrow> ('m, location \<times> calculation_record) io" where
  "verify_terminal r =
     bindM (authoritative r ''calculation record is missing after reconciliation'') (\<lambda>(location, current).
     thenM (check (terminal_record current) RuntimeError
              ''reconciliation did not leave a terminal calculation record'')
           (ret (location, current)))"

definition drop_capacity_for_terminal_current :: "calculation_record \<Rightarrow> (scheduler, unit) io" where
  "drop_capacity_for_terminal_current r =
     bindM (attempt (observe (\<lambda>E. read_authoritative_record (cfg E) r))) (\<lambda>target.
     case target of
       Inr (Some (In_current, current)) \<Rightarrow>
         whenM (terminal_record current) (retain_event_without_capacity r)
     | _ \<Rightarrow> ret ())"

section \<open>Admission\<close>

definition finish_without_callback :: "calculation_record \<Rightarrow> exn \<Rightarrow> (scheduler, unit) io" where
  "finish_without_callback r e =
     bindM (attempt
        (bindM (observe (\<lambda>E. read_authoritative_record (cfg E) r)) (\<lambda>target.
         case target of
           None \<Rightarrow> record_error r e
         | Some (location, current) \<Rightarrow>
             if r_status current = jstr ''QUEUED'' then record_error r e
             else bindM (ensure_terminal r (Some e)) (\<lambda>_. ret ())))) (\<lambda>result.
     case result of
       Inl finalization_error \<Rightarrow> record_error r finalization_error
     | Inr _ \<Rightarrow> release r)"

text \<open>\<open>ThreadPoolExecutor.submit\<close>; it may refuse.\<close>

definition submit :: "calculation_record \<Rightarrow> (scheduler, unit) io" where
  "submit r = thenM (sys Inr untouched) (modify_mem (\<lambda>m. m\<lparr>submitted := submitted m @ [r]\<rparr>))"

definition beyond :: "int option \<Rightarrow> calculation_record \<Rightarrow> bool" where
  "beyond barrier r \<longleftrightarrow> (case barrier of None \<Rightarrow> False | Some b \<Rightarrow> b < sequence_of r)"

definition start_one :: "calculation_record \<Rightarrow> (scheduler, calculation_record option) io" where
  "start_one r =
     thenM (modify_mem (reserve r))
    (bindM (attempt (transition_to_running (sequence_of r))) (\<lambda>run.
     case run of
       Inl e \<Rightarrow> thenM (finish_without_callback r e) (ret None)
     | Inr running \<Rightarrow>
         bindM (attempt (submit running)) (\<lambda>result.
         case result of
           Inl e \<Rightarrow> thenM (finish_without_callback running e) (ret None)
         | Inr _ \<Rightarrow> ret (Some running))))"

fun admit ::
  "int option \<Rightarrow> ustr list \<Rightarrow> calculation_record list \<Rightarrow> (scheduler, calculation_record list) io"
where
  "admit barrier seen [] = ret []"
| "admit barrier seen (r # rs) =
     bindM get_mem (\<lambda>m.
     if s_max_concurrent m \<le> int (length (worker_slots m)) then ret []
     else if beyond barrier r then ret []
     else if event_id_of r \<in> set seen then admit barrier seen rs
     else if aget (event_reservations m) (event_id_of r) \<noteq> None
     then admit barrier (event_id_of r # seen) rs
     else bindM (attempt (observe (\<lambda>E. current_transaction_present (event_id_of r)))) (\<lambda>present.
          case present of
            Inl e \<Rightarrow> thenM (record_error r e) (admit barrier (event_id_of r # seen) rs)
          | Inr True \<Rightarrow> admit barrier (event_id_of r # seen) rs
          | Inr False \<Rightarrow>
              bindM (start_one r) (\<lambda>started.
              bindM (admit barrier (event_id_of r # seen) rs) (\<lambda>rest.
              ret (case started of None \<Rightarrow> rest | Some running \<Rightarrow> running # rest)))))"

definition tick :: "(scheduler, calculation_record list) io" where
  "tick =
     bindM get_mem (\<lambda>m.
     thenM (check (\<not> s_closed m) RuntimeError ''scheduler is shut down'')
    (bindM (observe (\<lambda>E s. Inr (discover_queue E s))) (\<lambda>(queued, malformed).
     admit (first_malformed_sequence malformed) [] queued)))"

definition shutdown :: "(scheduler, unit) io" where
  "shutdown = modify_mem (\<lambda>m. m\<lparr>s_closed := True\<rparr>)"

section \<open>A worker\<close>

text \<open>Any transaction will do: locating the journal replaces it.\<close>

definition blank_transaction :: transaction where
  "blank_transaction =
     \<lparr>t_record = \<lparr>r_schema_version = JNull, r_event_id = JNull, r_internal_sequence = JNull,
        r_status = JNull, r_overwrite = JNull, r_warnings = JNull, r_request = JNull,
        r_configuration = JNull, r_progress = JNull, r_native_outcome = JNull,
        r_service_outcome = JNull, r_failure = JNull, r_timestamps = JNull, r_shared_paths = JNull\<rparr>,
      in_events = False,
      t_journal = \<lparr>j_event_id = [], j_sequence = 0, j_overwrite = False, j_products = False,
        j_service = False, j_archive_path = None, j_completed = [], j_stage_removal = False,
        j_candidate_removal = False, j_recovery_failure = JNull\<rparr>\<rparr>"

definition settle :: "calculation_record \<Rightarrow> exn option \<Rightarrow> (scheduler, unit) io" where
  "settle r callback_error =
     bindM (attempt
        (bindM (ensure_terminal r callback_error) (\<lambda>(location, _).
         case location of
           In_queue \<Rightarrow> ret False
         | In_current \<Rightarrow>
             catchM (finalize_transaction (event_id_of r))
               (\<lambda>e. thenM (retain_event_without_capacity r) (reraise e))))) (\<lambda>result.
     case result of
       Inl e \<Rightarrow> record_error r e
     | Inr _ \<Rightarrow> release r)"

definition after_reconciliation :: "calculation_record \<Rightarrow> (scheduler, unit) io" where
  "after_reconciliation r =
     bindM (attempt (bindM (verify_terminal r) (\<lambda>(location, _).
              check (location = In_current) RuntimeError
                ''reconciled calculation is not the current record''))) (\<lambda>verified.
     case verified of
       Inl e \<Rightarrow> record_error r e
     | Inr _ \<Rightarrow>
         bindM (attempt (finalize_transaction (event_id_of r))) (\<lambda>finalized.
         case finalized of
           Inl e \<Rightarrow> thenM (record_error r e) (retain_event_without_capacity r)
         | Inr _ \<Rightarrow> release r))"

definition run_calculation ::
  "(calculation_record \<Rightarrow> (unit, unit) io) \<Rightarrow> calculation_record \<Rightarrow> (scheduler, unit) io" where
  "run_calculation callback r =
     bindM (attempt (with_memory () (callback r))) (\<lambda>result.
     case result of
       Inr _ \<Rightarrow> settle r None
     | Inl callback_error \<Rightarrow>
         bindM (attempt (with_memory blank_transaction
                  (reconcile_transaction (event_id_of r) (sequence_of r)))) (\<lambda>reconciled.
         case reconciled of
           Inl e \<Rightarrow> thenM (record_error r e) (drop_capacity_for_terminal_current r)
         | Inr True \<Rightarrow> after_reconciliation r
         | Inr False \<Rightarrow> settle r (Some callback_error)))"

end
