(* ===== verification/Scheduler_Invariants.thy ===== *)
theory Scheduler_Invariants
  imports Scheduler Status_Triples "HOL-Library.Sublist"
begin

text \<open>
  What the scheduler keeps true whatever the store, the callback and the faults do: capacity, one
  reservation per event, the slot and the reservation of a calculation pointing at each other; and
  what a tick admits.
\<close>

section \<open>Memory invariants\<close>

definition mem_inv :: "env \<Rightarrow> ('m \<Rightarrow> bool) \<Rightarrow> ('m, 'a) io \<Rightarrow> bool" where
  "mem_inv E A m \<longleftrightarrow> mtriple E (\<lambda>t s. A t) m (\<lambda>_ t s. A t) (\<lambda>_ t s. A t)"

lemma mem_invD: "mem_inv E A m \<Longrightarrow> A (mem w) \<Longrightarrow> m E w = (r, w') \<Longrightarrow> A (mem w')"
  unfolding mem_inv_def mtriple_def by (cases r) fastforce+

named_theorems mem_invs \<open>closure of memory invariants\<close>

lemma mem_inv_keeps: "keeps_mem m \<Longrightarrow> mem_inv E A m"
  unfolding mem_inv_def by (rule mtriple_lift) (auto simp: triple_def split: prod.splits outcome.splits)

lemmas mem_inv_basic [mem_invs] =
  keeps_basic [THEN mem_inv_keeps] keeps_sys [THEN mem_inv_keeps] keeps_calls [THEN mem_inv_keeps]
  keeps_with_memory [THEN mem_inv_keeps] keeps_transitions [THEN mem_inv_keeps]

lemma mem_inv_bind [mem_invs]:
  "mem_inv E A m \<Longrightarrow> (\<And>x. mem_inv E A (f x)) \<Longrightarrow> mem_inv E A (bindM m f)"
  unfolding mem_inv_def by (rule mtriple_bind)

lemma mem_inv_then [mem_invs]: "mem_inv E A m \<Longrightarrow> mem_inv E A n \<Longrightarrow> mem_inv E A (thenM m n)"
  unfolding mem_inv_def by (rule mtriple_then)

lemma mem_inv_catch [mem_invs]:
  "mem_inv E A m \<Longrightarrow> (\<And>e. mem_inv E A (h e)) \<Longrightarrow> mem_inv E A (catchM m h)"
  unfolding mem_inv_def
  by (rule mtriple_catch [where R = "\<lambda>_ t s. A t"]) (auto elim!: mtriple_weaken split: option.splits)

lemma mem_inv_attempt [mem_invs]: "mem_inv E A m \<Longrightarrow> mem_inv E A (attempt m)"
  unfolding attempt_def by (intro mem_invs)

lemma mem_inv_modify: "(\<And>t. A t \<Longrightarrow> A (f t)) \<Longrightarrow> mem_inv E A (modify_mem f)"
  unfolding mem_inv_def by (rule mtriple_modify)

lemma mem_inv_when [mem_invs]: "mem_inv E A m \<Longrightarrow> mem_inv E A (whenM b m)"
  unfolding whenM_def by (simp add: mem_inv_basic)

section \<open>The scheduler's tables\<close>

definition scheduler_ok :: "scheduler \<Rightarrow> bool" where
  "scheduler_ok m \<longleftrightarrow>
     distinct (akeys (worker_slots m)) \<and> distinct (akeys (event_reservations m))
     \<and> (\<forall>q e. aget (worker_slots m) q = Some e \<longrightarrow> aget (event_reservations m) e = Some q)
     \<and> int (length (worker_slots m)) \<le> max 0 (s_max_concurrent m)
     \<and> length (s_errors m) \<le> ERROR_LIMIT"

lemma scheduler_ok_new: "scheduler_ok (new_scheduler c)"
  by (simp add: scheduler_ok_def new_scheduler_def)

lemma scheduler_ok_push: "scheduler_ok m \<Longrightarrow> scheduler_ok (push_error e m)"
  by (simp add: scheduler_ok_def push_error_def Let_def ERROR_LIMIT_def)

lemma length_adel: "length (adel k d) \<le> length d"
  by (simp add: adel_def AList.delete_eq)

lemma length_aput: "length (aput k v d) \<le> Suc (length d)"
  by (induction d) (auto simp: aput_def)

lemma scheduler_ok_drop_slot: "scheduler_ok m \<Longrightarrow> scheduler_ok (drop_slot r m)"
  using length_adel [of "sequence_of r" "worker_slots m"]
  by (auto simp: scheduler_ok_def drop_slot_def split: if_splits)

lemma scheduler_ok_release:
  assumes "scheduler_ok m"
  shows "scheduler_ok (drop_reservation r (drop_slot r m))"
proof -
  have "aget (event_reservations m) e = Some q \<and> e \<noteq> event_id_of r"
    if "aget (worker_slots m) q = Some e" "q \<noteq> sequence_of r"
      "aget (event_reservations m) (event_id_of r) = Some (sequence_of r)" for q e
    using assms that by (auto simp: scheduler_ok_def)
  then show ?thesis
    using scheduler_ok_drop_slot [OF assms, of r]
    by (auto simp: scheduler_ok_def drop_reservation_def drop_slot_def split: if_splits)
qed

lemma scheduler_ok_reserve:
  assumes "scheduler_ok m" "int (length (worker_slots m)) < s_max_concurrent m"
    and "aget (event_reservations m) (event_id_of r) = None"
  shows "scheduler_ok (reserve r m)"
  using assms length_aput [of "sequence_of r" "event_id_of r" "worker_slots m"]
  by (auto simp: scheduler_ok_def reserve_def split: if_splits)

section \<open>Steps of the service\<close>

text \<open>
  The service's life: a tick, a worker that runs one submitted calculation to its end, shutdown, and
  anything the rest of the service does to the store meanwhile.
\<close>

definition take_submitted :: "calculation_record \<Rightarrow> scheduler \<Rightarrow> scheduler" where
  "take_submitted r m = m\<lparr>submitted := remove1 r (submitted m)\<rparr>"

inductive scheduler_step ::
  "env \<Rightarrow> (calculation_record \<Rightarrow> (unit, unit) io) \<Rightarrow> scheduler world \<Rightarrow> scheduler world \<Rightarrow> bool"
  for E callback where
  tick_step: "tick E w = (out, w') \<Longrightarrow> scheduler_step E callback w w'"
| worker_step:
    "r \<in> set (submitted (mem w)) \<Longrightarrow>
     run_calculation callback r E (w\<lparr>mem := take_submitted r (mem w)\<rparr>) = (out, w') \<Longrightarrow>
     scheduler_step E callback w w'"
| shutdown_step: "shutdown E w = (out, w') \<Longrightarrow> scheduler_step E callback w w'"
| other_step: "scheduler_step E callback w (w\<lparr>fs := s, clock := k\<rparr>)"

definition reachable ::
  "env \<Rightarrow> (calculation_record \<Rightarrow> (unit, unit) io) \<Rightarrow> scheduler world \<Rightarrow> bool" where
  "reachable E callback w \<longleftrightarrow>
     (\<exists>w0. mem w0 = new_scheduler (cfg E) \<and> (scheduler_step E callback)\<^sup>*\<^sup>* w0 w)"

section \<open>Computations that keep the scheduler\<close>

lemma keeps_authoritative [keeps]: "keeps_mem (authoritative r msg)"
  unfolding authoritative_def by (rule keeps)

lemma keeps_ensure_terminal [keeps]: "keeps_mem (ensure_terminal r e)"
  unfolding ensure_terminal_def
  by (auto intro!: keeps split: prod.splits location.splits)

lemma keeps_verify_terminal [keeps]: "keeps_mem (verify_terminal r)"
  unfolding verify_terminal_def by (auto intro!: keeps split: prod.splits)

lemma keeps_remove_journal [keeps]: "keeps_mem (remove_journal p)"
  unfolding remove_journal_def by (intro keeps)

lemma keeps_finalize [keeps]: "keeps_mem (finalize_transaction e)"
  unfolding finalize_transaction_def Let_def revalidate_status_def entry_exists_def by (intro keeps)

lemmas mem_inv_service [mem_invs] =
  keeps_authoritative [THEN mem_inv_keeps] keeps_ensure_terminal [THEN mem_inv_keeps]
  keeps_verify_terminal [THEN mem_inv_keeps] keeps_finalize [THEN mem_inv_keeps]

section \<open>Every operation keeps what every table update keeps\<close>

text \<open>
  The interface of the tables: what holds of them under every update the scheduler makes holds of
  every scheduler operation and of every step of the service.
\<close>

locale table_invariant =
  fixes A :: "scheduler \<Rightarrow> bool"
  assumes A_push: "A m \<Longrightarrow> A (push_error e m)"
    and A_drop_slot: "A m \<Longrightarrow> A (drop_slot r m)"
    and A_release: "A m \<Longrightarrow> A (drop_reservation r (drop_slot r m))"
    and A_submit: "A m \<Longrightarrow> A (m\<lparr>submitted := submitted m @ [r]\<rparr>)"
    and A_take: "A m \<Longrightarrow> A (take_submitted r m)"
    and A_close: "A m \<Longrightarrow> A (m\<lparr>s_closed := True\<rparr>)"
    and A_reserve: "A m \<Longrightarrow> int (length (worker_slots m)) < s_max_concurrent m \<Longrightarrow>
      aget (event_reservations m) (event_id_of r) = None \<Longrightarrow> A (reserve r m)"
begin

lemma inv_record_error [mem_invs]: "mem_inv E A (record_error r e)"
  unfolding record_error_def by (rule mem_inv_modify) (rule A_push)

lemma inv_release [mem_invs]: "mem_inv E A (release r)"
  unfolding release_def by (rule mem_inv_modify) (rule A_release)

lemma inv_retain [mem_invs]: "mem_inv E A (retain_event_without_capacity r)"
  unfolding retain_event_without_capacity_def by (rule mem_inv_modify) (rule A_drop_slot)

lemma inv_finish [mem_invs]: "mem_inv E A (finish_without_callback r e)"
  unfolding finish_without_callback_def
  by (auto intro!: mem_invs split: sum.splits option.splits prod.splits)

lemma inv_submit [mem_invs]: "mem_inv E A (submit r)"
  unfolding submit_def
  by (intro mem_invs mem_inv_modify) (rule A_submit)

lemma inv_settle [mem_invs]: "mem_inv E A (settle r e)"
  unfolding settle_def
  by (auto intro!: mem_invs split: sum.splits prod.splits location.splits)

lemma inv_drop_capacity [mem_invs]: "mem_inv E A (drop_capacity_for_terminal_current r)"
  unfolding drop_capacity_for_terminal_current_def
  by (auto intro!: mem_invs split: sum.splits option.splits prod.splits location.splits)

lemma inv_after_reconciliation [mem_invs]: "mem_inv E A (after_reconciliation r)"
  unfolding after_reconciliation_def
  by (auto intro!: mem_invs split: sum.splits prod.splits)

lemma inv_run [mem_invs]: "mem_inv E A (run_calculation callback r)"
  unfolding run_calculation_def
  by (auto intro!: mem_invs split: sum.splits bool.splits)

lemma inv_start:
  "mtriple E (\<lambda>t s. A t \<and> int (length (worker_slots t)) < s_max_concurrent t
        \<and> aget (event_reservations t) (event_id_of r) = None)
     (start_one r) (\<lambda>_ t s. A t) (\<lambda>_ t s. A t)"
proof -
  have "mem_inv E A (bindM (attempt (transition_to_running (sequence_of r))) (\<lambda>run.
     case run of
       Inl e \<Rightarrow> thenM (finish_without_callback r e) (ret None)
     | Inr running \<Rightarrow>
         bindM (attempt (submit running)) (\<lambda>result.
         case result of
           Inl e \<Rightarrow> thenM (finish_without_callback running e) (ret None)
         | Inr _ \<Rightarrow> ret (Some running))))"
    by (auto intro!: mem_invs split: sum.splits)
  then show ?thesis
    unfolding start_one_def mem_inv_def
    by (intro mtriple_then [where R = "\<lambda>t s. A t"] mtriple_modify)
       (auto intro: A_reserve)
qed

lemma inv_admit [mem_invs]: "mem_inv E A (admit barrier seen rs)"
proof (induction rs arbitrary: seen)
  case Nil
  then show ?case by (simp add: mem_invs)
next
  case (Cons r rs)
  have "mtriple E (\<lambda>t' s. t' = t \<and> A t)
      (bindM (attempt (observe (\<lambda>E. current_transaction_present (event_id_of r)))) (\<lambda>present.
          case present of
            Inl e \<Rightarrow> thenM (record_error r e) (admit barrier (event_id_of r # seen) rs)
          | Inr True \<Rightarrow> admit barrier (event_id_of r # seen) rs
          | Inr False \<Rightarrow>
              bindM (start_one r) (\<lambda>started.
              bindM (admit barrier (event_id_of r # seen) rs) (\<lambda>rest.
              ret (case started of None \<Rightarrow> rest | Some running \<Rightarrow> running # rest)))))
      (\<lambda>_ t s. A t) (\<lambda>_ t s. A t)"
    if t: "int (length (worker_slots t)) < s_max_concurrent t"
      "aget (event_reservations t) (event_id_of r) = None" for t
  proof (rule mtriple_bind [where R = "\<lambda>_ t' s. t' = t \<and> A t"])
    show "mtriple E (\<lambda>t' s. t' = t \<and> A t)
      (attempt (observe (\<lambda>E. current_transaction_present (event_id_of r))))
      (\<lambda>_ t' s. t' = t \<and> A t) (\<lambda>_ t s. A t)"
      using mem_inv_attempt [OF mem_inv_keeps [OF keeps_basic(7)], of E "\<lambda>t'. t' = t \<and> A t"]
      unfolding mem_inv_def by (rule mtriple_weaken) auto
    have start: "mtriple E (\<lambda>t' s. t' = t \<and> A t) (start_one r)
        (\<lambda>_ t s. A t) (\<lambda>_ t s. A t)"
      by (rule mtriple_pre [OF inv_start]) (use t in auto)
    have rest: "mem_inv E A (bindM (admit barrier (event_id_of r # seen) rs) (\<lambda>rest.
              ret (case started of None \<Rightarrow> rest | Some running \<Rightarrow> running # rest)))" for started
      by (intro mem_invs Cons.IH)
    have others: "mem_inv E A (thenM (record_error r e) (admit barrier (event_id_of r # seen) rs))"
      "mem_inv E A (admit barrier (event_id_of r # seen) rs)" for e
      by (intro mem_invs Cons.IH)+
    show "mtriple E (\<lambda>t' s. t' = t \<and> A t)
       (case present of
            Inl e \<Rightarrow> thenM (record_error r e) (admit barrier (event_id_of r # seen) rs)
          | Inr True \<Rightarrow> admit barrier (event_id_of r # seen) rs
          | Inr False \<Rightarrow>
              bindM (start_one r) (\<lambda>started.
              bindM (admit barrier (event_id_of r # seen) rs) (\<lambda>rest.
              ret (case started of None \<Rightarrow> rest | Some running \<Rightarrow> running # rest))))
       (\<lambda>_ t s. A t) (\<lambda>_ t s. A t)" for present
      using mtriple_bind [OF start rest [unfolded mem_inv_def]]
      by (auto intro: mtriple_pre [OF others(1) [unfolded mem_inv_def]]
          mtriple_pre [OF others(2) [unfolded mem_inv_def]] split: sum.splits bool.splits)
  qed
  then show ?case
    unfolding admit.simps mem_inv_def
    by (intro mtriple_with_mem) (auto intro!: mtriple_ret intro: mtriple_pre [OF Cons.IH [unfolded mem_inv_def]])
qed

lemma inv_tick [mem_invs]: "mem_inv E A tick"
  unfolding tick_def by (auto intro!: mem_invs split: prod.splits)

lemma inv_shutdown [mem_invs]: "mem_inv E A shutdown"
  unfolding shutdown_def by (rule mem_inv_modify) (rule A_close)

lemma step_keeps:
  assumes "scheduler_step E callback w w'" "A (mem w)"
  shows "A (mem w')"
  using assms(1)
proof (cases rule: scheduler_step.cases)
  case (tick_step out)
  then show ?thesis using mem_invD [OF inv_tick] assms(2) by blast
next
  case (worker_step r out)
  then show ?thesis using mem_invD [OF inv_run _ worker_step(2)] A_take assms(2) by simp
next
  case (shutdown_step out)
  then show ?thesis using mem_invD [OF inv_shutdown] assms(2) by blast
qed (use assms(2) in simp)

lemma reachable_keeps:
  assumes "reachable E callback w" "A (new_scheduler (cfg E))"
  shows "A (mem w)"
proof -
  obtain w0 where "mem w0 = new_scheduler (cfg E)" "(scheduler_step E callback)\<^sup>*\<^sup>* w0 w"
    using assms by (auto simp: reachable_def)
  from this(2,1) show ?thesis
    by (induction rule: rtranclp_induct) (auto simp: assms(2) step_keeps)
qed

end

interpretation tables: table_invariant scheduler_ok
proof
  show "scheduler_ok (push_error e m)" if "scheduler_ok m" for e m
    using that by (rule scheduler_ok_push)
  show "scheduler_ok (drop_slot r m)" if "scheduler_ok m" for r m
    using that by (rule scheduler_ok_drop_slot)
  show "scheduler_ok (drop_reservation r (drop_slot r m))" if "scheduler_ok m" for r m
    using that by (rule scheduler_ok_release)
qed (auto simp: scheduler_ok_def take_submitted_def dest: scheduler_ok_reserve [unfolded scheduler_ok_def, rotated 2])

interpretation capacity: table_invariant "\<lambda>m. s_max_concurrent m = k" for k
  by unfold_locales
     (simp_all add: push_error_def drop_slot_def drop_reservation_def take_submitted_def reserve_def)

end
