(* ===== verification/Queue_Scan.thy ===== *)
theory Queue_Scan
  imports Status_Triples "HOL-Library.Multiset"
begin

text \<open>
  The scan of the queue: what \<open>collect\<close> gathers, where a scanned record is read from, and sorting
  with one largest element.
\<close>

lemma collect_good: "set (fst (collect f xs)) = {y. \<exists>x\<in>set xs. f x = Inr y}"
  by (induction xs) (auto split: prod.splits sum.splits)

lemma collect_distinct:
  assumes "distinct xs" "\<And>x x' y y'. f x = Inr y \<Longrightarrow> f x' = Inr y' \<Longrightarrow> k y = k y' \<Longrightarrow> x = x'"
  shows "distinct (map k (fst (collect f xs)))"
  using assms(1)
proof (induction xs)
  case (Cons x xs)
  have "k y \<notin> k ` set (fst (collect f xs))" if "f x = Inr y" for y
    using that assms(2) Cons.prems by (fastforce simp: collect_good)
  with Cons show ?case by (auto split: prod.splits sum.splits)
qed simp

lemma scan_entry_reads:
  assumes "bindE (parse_queue_entry_name name) (\<lambda>q. validate_queue_entry E q name s) = Inr r"
  shows "name = queue_entry_name (sequence_of r) \<and> 1 \<le> sequence_of r
    \<and> read_status (cfg E) (sequence_of r) s = Inr (Some r)"
proof -
  obtain q where q: "parse_queue_entry_name name = Inr q" and v: "validate_queue_entry E q name s = Inr r"
    using assms by (auto simp: result_simps)
  have name: "name = queue_entry_name q" "1 \<le> q"
    using parse_queue_entry_name_Inr [OF q] by simp_all
  obtain access d where access: "open_record_directory (Queue, [name]) s = Inr access" "access = Some d"
    and load: "load_record (cfg E) (Queue, [name]) (Some q) None s = Inr r"
    using v by (auto simp: validate_queue_entry_def Let_def result_simps)
  have "sequence_of r = q" using load by (auto simp: load_record_iff)
  with name access load show ?thesis
    by (simp add: read_status_def read_record_directory_def queue_entry_dir_def)
qed

lemma collect_append:
  "collect f (xs @ ys) = (fst (collect f xs) @ fst (collect f ys), snd (collect f xs) @ snd (collect f ys))"
  by (induction xs) (auto simp: Let_def split: prod.splits sum.splits)

lemma collect_cong: "(\<And>x. x \<in> set xs \<Longrightarrow> f x = g x) \<Longrightarrow> collect f xs = collect g xs"
  by (induction xs) auto

lemma sort_key_last:
  assumes "\<And>y. y \<in> set (xs @ ys) \<Longrightarrow> f y < (f x :: 'k :: linorder)"
  shows "sort_key f (xs @ x # ys) = sort_key f (xs @ ys) @ [x]"
proof (rule properties_for_sort_key)
  show "mset (sort_key f (xs @ ys) @ [x]) = mset (xs @ x # ys)" by simp
  show "filter (\<lambda>z. f k = f z) (sort_key f (xs @ ys) @ [x]) = filter (\<lambda>z. f k = f z) (xs @ x # ys)"
    if "k \<in> set (sort_key f (xs @ ys) @ [x])" for k
  proof -
    have "filter (\<lambda>z. f k = f z) (sort_key f (xs @ ys)) = filter (\<lambda>z. f k = f z) (xs @ ys)"
      using sort_key_stable [of f "f k" "xs @ ys"] by (simp add: eq_commute)
    moreover have "filter (\<lambda>z. f k = f z) ys = []" if "f k = f x"
      using assms that by (force simp: filter_empty_conv)
    ultimately show ?thesis by auto
  qed
  show "sorted (map f (sort_key f (xs @ ys) @ [x]))"
    using assms by (auto simp: sorted_append intro: less_imp_le)
qed

end
