(* ===== verification/Scheduler_Admission.thy ===== *)
theory Scheduler_Admission
  imports Scheduler_Invariants Queue_Scan
begin

text \<open>
  Which records a tick starts: the oldest queued record of an event, before the first malformed
  queue entry, whose event is not reserved and whose current tree holds no transaction journal.
\<close>

section \<open>What a record directory says\<close>

lemma read_status_queue:
  assumes "aget (s' Queue) (queue_entry_name q) = aget (s Queue) (queue_entry_name q)"
  shows "read_status c q s' = read_status c q s"
proof -
  have "open_record_directory (queue_entry_dir q) s' = open_record_directory (queue_entry_dir q) s"
    "entry_at (queue_entry_dir q) STATUS_FILE s' = entry_at (queue_entry_dir q) STATUS_FILE s"
    using assms by (simp_all add: open_record_directory_def queue_entry_dir_def entry_at_def)
  moreover from this have "load_record c (queue_entry_dir q) es ee s' = load_record c (queue_entry_dir q) es ee s"
    for es ee by (simp add: load_record_def read_json_def open_regular_def)
  ultimately show ?thesis
    by (simp add: read_status_def read_record_directory_def cong: option.case_cong)
qed

definition queued_at :: "settings \<Rightarrow> fsys \<Rightarrow> calculation_record \<Rightarrow> bool" where
  "queued_at c s r \<longleftrightarrow>
     1 \<le> sequence_of r \<and> (\<exists>x. read_status c (sequence_of r) s = Inr (Some x) \<and> event_id_of x = event_id_of r)"

lemma queue_entry_dir_inject:
  "1 \<le> a \<Longrightarrow> 1 \<le> b \<Longrightarrow> queue_entry_dir a = queue_entry_dir b \<longleftrightarrow> a = b"
  using queue_entry_name_inject [of a b] by (auto simp: queue_entry_dir_def)

lemma load_existing_read:
  assumes "load_existing (queue_entry_dir q) (Some q) None E w = (Val x, w')"
  shows "read_status (cfg E) q (fs w) = Inr (Some x) \<and> w' = w"
  using assms
  by (auto simp: load_existing_def observe_def read_status_def read_record_directory_def result_simps
      split: sum.splits option.splits)

text \<open>Starting a record returns the record that was read, RUNNING.\<close>

lemma triple_start_identity:
  "triple E (\<lambda>s. s = s0) (transition_to_running q)
     (\<lambda>r' s. \<exists>x. read_status (cfg E) q s0 = Inr (Some x) \<and> same_identity x r'
        \<and> state_of x = Some QUEUED \<and> state_of r' = Some RUNNING) (\<lambda>_ _. True)"
proof -
  have "\<exists>x. read_status (cfg E) q (fs w) = Inr (Some x) \<and> same_identity x r'
        \<and> state_of x = Some QUEUED \<and> state_of r' = Some RUNNING"
    if run: "transition_to_running q E w = (Val r', w')" for w r' w'
  proof -
    have "transition_record_directory (queue_entry_dir q) RUNNING (Some q) None no_args E w = (Val r', w')"
      using run by (simp add: transition_to_running_def transition_status_def thenM_def bindM_def
          check_def ret_def)
    then obtain x now w1 where load: "load_existing (queue_entry_dir q) (Some q) None E w = (Val x, w1)"
      and t: "transition_record now RUNNING no_args x = Inr r'"
      by (auto simp: transition_record_directory_def thenM_def bindM_def liftE_def ret_def reraise_def
          split: prod.splits outcome.splits sum.splits)
    obtain st where "state_of x = Some st" "RUNNING \<in> set (allowed_transitions st)"
      using transition_allowed [OF t] by blast
    then have "state_of x = Some QUEUED" by (cases st) auto
    then show ?thesis
      using load_existing_read [OF load] transition_state [OF t] by blast
  qed
  then show ?thesis
    by (auto simp: triple_def split: outcome.splits prod.splits)
qed

section \<open>The rest of a start\<close>

definition start_frame :: "fsys \<Rightarrow> calculation_record \<Rightarrow> fsys \<Rightarrow> bool" where
  "start_frame s0 r s \<longleftrightarrow>
     (\<forall>q. q \<noteq> sequence_of r \<longrightarrow> 1 \<le> q \<longrightarrow> 1 \<le> sequence_of r \<longrightarrow>
        aget (s Queue) (queue_entry_name q) = aget (s0 Queue) (queue_entry_name q))
     \<and> (\<forall>e. entry_at (Events, [e]) TRANSACTION_FILE s = entry_at (Events, [e]) TRANSACTION_FILE s0)"

lemma tmp_transaction: "TRANSACTION_FILE \<noteq> STATUS_FILE" "\<not> tmp_name TRANSACTION_FILE"
  by (simp_all add: TRANSACTION_FILE_def STATUS_FILE_def tmp_name_lit lit_inject)

lemma start_frame_refl [simp]: "start_frame s r s"
  by (simp add: start_frame_def)

text \<open>Each writer a start uses keeps the frame.\<close>

lemma keeps_queue_others:
  assumes "q \<noteq> sequence_of r" "1 \<le> q" "1 \<le> sequence_of r"
  shows "triple E (\<lambda>s. aget (s Queue) (queue_entry_name q) = v)
      (transition_status (sequence_of r) target args)
      (\<lambda>_ s. aget (s Queue) (queue_entry_name q) = v) (\<lambda>_ s. aget (s Queue) (queue_entry_name q) = v)"
proof (rule triple_fixed)
  fix s0 assume v: "aget (s0 Queue) (queue_entry_name q) = v"
  have "(Queue, [queue_entry_name q]) \<noteq> queue_entry_dir (sequence_of r)"
    using assms queue_entry_dir_inject [of q "sequence_of r"] by (simp add: queue_entry_dir_def)
  then have "only_at (queue_entry_dir (sequence_of r)) s0 s \<Longrightarrow> aget (s Queue) (queue_entry_name q) = v" for s
    using v by (auto simp: only_at_def queue_entry_dir_def)
  then show "triple E (\<lambda>s. s = s0) (transition_status (sequence_of r) target args)
      (\<lambda>_ s. aget (s Queue) (queue_entry_name q) = v) (\<lambda>_ s. aget (s Queue) (queue_entry_name q) = v)"
    by - (rule triple_weaken [OF triple_transition_status_only [of E _ s0]], auto)
qed

lemma keeps_queue_current:
  "triple E (\<lambda>s. aget (s Queue) n = v) (transition_current_record e target args)
      (\<lambda>_ s. aget (s Queue) n = v) (\<lambda>_ s. aget (s Queue) n = v)"
proof (rule triple_fixed)
  fix s0 :: fsys assume v: "aget (s0 Queue) n = v"
  have "only_at (event_service_dir e) s0 s \<Longrightarrow> aget (s Queue) n = v" for s
    using v by (auto simp: only_at_def event_service_dir_def)
  then show "triple E (\<lambda>s. s = s0) (transition_current_record e target args)
      (\<lambda>_ s. aget (s Queue) n = v) (\<lambda>_ s. aget (s Queue) n = v)"
    by - (rule triple_weaken [OF triple_transition_current_only [of E _ s0]], auto)
qed

lemma triple_imp_pure:
  "(b \<Longrightarrow> triple E P m Q X) \<Longrightarrow> triple E (\<lambda>s. b \<longrightarrow> P s) m (\<lambda>x s. b \<longrightarrow> Q x s) (\<lambda>e s. b \<longrightarrow> X e s)"
  by (auto simp: triple_def split: outcome.splits prod.splits)

lemma frame_transition_status:
  "triple E (start_frame s0 r) (transition_status (sequence_of r) target args)
     (\<lambda>_. start_frame s0 r) (\<lambda>_. start_frame s0 r)"
  unfolding start_frame_def
  by (intro triple_conj triple_all triple_imp_pure triple_transition_status_entry tmp_transaction
      keeps_queue_others)

lemma frame_transition_current:
  "triple E (start_frame s0 r) (transition_current_record e target args)
     (\<lambda>_. start_frame s0 r) (\<lambda>_. start_frame s0 r)"
  unfolding start_frame_def
  by (intro triple_conj triple_all triple_imp_pure triple_transition_current_entry tmp_transaction
      keeps_queue_current)

lemma frame_ensure_terminal:
  assumes "sequence_of x = sequence_of r"
  shows "triple E (start_frame s0 r) (ensure_terminal x e) (\<lambda>_. start_frame s0 r) (\<lambda>_. start_frame s0 r)"
  unfolding ensure_terminal_def authoritative_def transition_to_failed_def assms
  by (rule triple_bind [where R = "\<lambda>_. start_frame s0 r"])
     (auto intro!: triple_observe triple_ret triple_then [where R = "start_frame s0 r"] triple_check
       triple_bind [where R = "\<lambda>_. start_frame s0 r"] frame_transition_status
       frame_transition_current split: prod.splits location.splits)

section \<open>Attempts\<close>

lemma triple_attempt:
  assumes "triple E P m (\<lambda>x. Q (Inr x)) (\<lambda>e. case e of None \<Rightarrow> X None | Some e' \<Rightarrow> Q (Inl e'))"
  shows "triple E P (attempt m) Q X"
  unfolding attempt_def
  by (rule triple_catch [where R = "\<lambda>e. Q (Inl e)"], rule triple_bind [where R = "\<lambda>x. Q (Inr x)"])
     (auto intro: triple_ret assms split: option.splits)

lemma mtriple_attempt:
  assumes "mtriple E P m (\<lambda>x. Q (Inr x)) (\<lambda>e. case e of None \<Rightarrow> X None | Some e' \<Rightarrow> Q (Inl e'))"
  shows "mtriple E P (attempt m) Q X"
  unfolding attempt_def
  by (rule mtriple_catch [where R = "\<lambda>e. Q (Inl e)"], rule mtriple_bind [where R = "\<lambda>x. Q (Inr x)"])
     (auto intro: mtriple_ret assms split: option.splits)

lemma keeps_attempt [keeps]: "keeps_mem m \<Longrightarrow> keeps_mem (attempt m)"
  unfolding attempt_def by (intro keeps)

lemma triple_modify: "(\<And>s. P s \<Longrightarrow> Q () s) \<Longrightarrow> triple E P (modify_mem f) Q X"
  by (simp add: triple_def modify_mem_def)

lemma mtriple_of_triple:
  "triple E P m Q X \<Longrightarrow> mtriple E (\<lambda>t s. P s) m (\<lambda>x t s. Q x s) (\<lambda>e t s. X e s)"
  by (simp add: triple_def mtriple_def)

lemma frame_finish:
  assumes "sequence_of x = sequence_of r"
  shows "triple E (start_frame s0 r) (finish_without_callback x e)
     (\<lambda>_. start_frame s0 r) (\<lambda>_. start_frame s0 r)"
  unfolding finish_without_callback_def record_error_def release_def
  by (rule triple_bind [where R = "\<lambda>_. start_frame s0 r"])
     (auto intro!: triple_attempt triple_modify triple_observe triple_ret
       triple_bind [where R = "\<lambda>_. start_frame s0 r"] frame_ensure_terminal assms
       triple_weaken [OF frame_ensure_terminal [OF assms]]
       split: option.splits sum.splits prod.splits)

text \<open>Only the reservation of the record's own event changes.\<close>

definition others_reserved :: "ustr \<Rightarrow> scheduler \<Rightarrow> scheduler \<Rightarrow> bool" where
  "others_reserved e m m' \<longleftrightarrow>
     (\<forall>e'. e' \<noteq> e \<longrightarrow> aget (event_reservations m') e' = aget (event_reservations m) e')"

lemma others_finish:
  assumes "event_id_of x = e"
  shows "mem_inv E (others_reserved e m) (finish_without_callback x err)"
proof -
  have basic: "mem_inv E (others_reserved e m) (record_error x err')"
    "mem_inv E (others_reserved e m) (release x)" for err'
    using assms
    by (auto simp: record_error_def release_def others_reserved_def push_error_def drop_reservation_def
        drop_slot_def intro!: mem_inv_modify)
  show ?thesis
    unfolding finish_without_callback_def
    by (auto intro!: mem_invs basic split: sum.splits option.splits prod.splits)
qed

lemma mtriple_start:
  assumes q: "queued_at (cfg E) s0 r"
  shows "mtriple E (\<lambda>t s. t = t0 \<and> s = s0) (start_one r)
     (\<lambda>started t s. (others_reserved (event_id_of r) t0 t \<and> start_frame s0 r s)
        \<and> (\<forall>x. started = Some x \<longrightarrow> sequence_of x = sequence_of r \<and> event_id_of x = event_id_of r
                 \<and> state_of x = Some RUNNING)) (\<lambda>_ _ _. True)"
proof -
  let ?A = "\<lambda>t s. others_reserved (event_id_of r) t0 t \<and> start_frame s0 r s"
  let ?same = "\<lambda>x. sequence_of x = sequence_of r \<and> event_id_of x = event_id_of r
                 \<and> state_of x = Some RUNNING"
  let ?R = "\<lambda>run t s. ?A t s \<and> (\<forall>x. run = Inr x \<longrightarrow> ?same x)"
  have finish: "mtriple E ?A (thenM (finish_without_callback x e) (ret None))
      (\<lambda>started t s. ?A t s \<and> (\<forall>x. started = Some x \<longrightarrow> ?same x)) (\<lambda>_ _ _. True)"
    if "sequence_of x = sequence_of r" "event_id_of x = event_id_of r" for x e
  proof (rule mtriple_then [where R = ?A])
    show "mtriple E ?A (finish_without_callback x e) (\<lambda>_. ?A) (\<lambda>_ _ _. True)"
      using mtriple_conj [OF others_finish [OF that(2), unfolded mem_inv_def]
          mtriple_of_triple [OF frame_finish [OF that(1)]]]
      by (rule mtriple_weaken) auto
  qed (simp add: mtriple_ret)
  obtain x0 where x0: "read_status (cfg E) (sequence_of r) s0 = Inr (Some x0)"
      "event_id_of x0 = event_id_of r"
    using q by (auto simp: queued_at_def)
  then have "sequence_of x0 = sequence_of r"
    by (auto simp: read_status_def read_record_directory_def load_record_iff result_simps
        split: option.splits)
  then have same: "same_identity x0 x \<Longrightarrow> sequence_of x = sequence_of r \<and> event_id_of x = event_id_of r"
    for x using same_identityD [of x0 x] x0(2) by simp
  have start: "mtriple E (\<lambda>t s. t = reserve r t0 \<and> s = s0)
      (attempt (transition_to_running (sequence_of r))) ?R (\<lambda>_ _ _. True)"
  proof (rule mtriple_attempt, rule mtriple_lift)
    show "keeps_mem (transition_to_running (sequence_of r))" by (rule keeps)
    have "triple E (\<lambda>s. start_frame s0 r s) (transition_to_running (sequence_of r))
        (\<lambda>_. start_frame s0 r) (\<lambda>_. start_frame s0 r)"
      unfolding transition_to_running_def by (rule frame_transition_status)
    note both = triple_conj [OF this triple_start_identity [of E s0 "sequence_of r"]]
    show "triple E (\<lambda>s. t = reserve r t0 \<and> s = s0) (transition_to_running (sequence_of r))
       (\<lambda>x. ?R (Inr x) t) (\<lambda>e. (case e of None \<Rightarrow> \<lambda>_ _. True | Some e' \<Rightarrow> ?R (Inl e')) t)" for t
      by (rule triple_pure, rule triple_weaken [OF both])
         (auto simp: others_reserved_def reserve_def x0(1) dest: same split: option.splits)
  qed
  show ?thesis
    unfolding start_one_def
  proof (rule mtriple_then [where R = "\<lambda>t s. t = reserve r t0 \<and> s = s0"])
    show "mtriple E (\<lambda>t s. t = t0 \<and> s = s0) (modify_mem (reserve r))
      (\<lambda>_ t s. t = reserve r t0 \<and> s = s0) (\<lambda>_ _ _. True)"
      by (rule mtriple_modify) simp
    have submit: "mtriple E (?R (Inr x)) (bindM (attempt (submit x)) (\<lambda>result.
         case result of
           Inl e \<Rightarrow> thenM (finish_without_callback x e) (ret None)
         | Inr _ \<Rightarrow> ret (Some x)))
       (\<lambda>started t s. ?A t s \<and> (\<forall>x. started = Some x \<longrightarrow> ?same x)) (\<lambda>_ _ _. True)" for x
    proof (rule mtriple_bind [where R = "\<lambda>_. ?R (Inr x)"])
      show "mtriple E (?R (Inr x)) (attempt (submit x)) (\<lambda>_. ?R (Inr x)) (\<lambda>_ _ _. True)"
        unfolding submit_def
        by (rule mtriple_attempt, rule mtriple_then [where R = "?R (Inr x)"], rule mtriple_sys)
           (auto simp: untouched_def others_reserved_def intro: mtriple_modify)
      show "mtriple E (?R (Inr x)) (case result of
           Inl e \<Rightarrow> thenM (finish_without_callback x e) (ret None) | Inr _ \<Rightarrow> ret (Some x))
       (\<lambda>started t s. ?A t s \<and> (\<forall>x. started = Some x \<longrightarrow> ?same x)) (\<lambda>_ _ _. True)" for result
      proof (cases result)
        case (Inl e)
        have "mtriple E (\<lambda>t s. ?same x \<and> ?A t s) (thenM (finish_without_callback x e) (ret None))
            (\<lambda>started t s. ?A t s \<and> (\<forall>x. started = Some x \<longrightarrow> ?same x)) (\<lambda>_ _ _. True)"
          by (rule mtriple_pure, rule finish) simp_all
        then have "mtriple E (?R (Inr x)) (thenM (finish_without_callback x e) (ret None))
            (\<lambda>started t s. ?A t s \<and> (\<forall>x. started = Some x \<longrightarrow> ?same x)) (\<lambda>_ _ _. True)"
          by (rule mtriple_pre) simp
        with Inl show ?thesis by simp
      next
        case (Inr u)
        then show ?thesis by (auto intro: mtriple_ret)
      qed
    qed
    show "mtriple E (\<lambda>t s. t = reserve r t0 \<and> s = s0)
      (bindM (attempt (transition_to_running (sequence_of r))) (\<lambda>run.
     case run of
       Inl e \<Rightarrow> thenM (finish_without_callback r e) (ret None)
     | Inr running \<Rightarrow>
         bindM (attempt (submit running)) (\<lambda>result.
         case result of
           Inl e \<Rightarrow> thenM (finish_without_callback running e) (ret None)
         | Inr _ \<Rightarrow> ret (Some running))))
      (\<lambda>started t s. ?A t s \<and> (\<forall>x. started = Some x \<longrightarrow> ?same x)) (\<lambda>_ _ _. True)"
      using submit mtriple_pre [OF finish [of r]]
      by (intro mtriple_bind [OF start]) (auto split: sum.splits)
  qed
qed

section \<open>Admission\<close>

text \<open>
  \<open>x\<close> is the started form of the oldest record of its event in \<open>rs\<close>, which nothing at the start of
  the tick forbade.
\<close>

definition picked ::
  "fsys \<Rightarrow> scheduler \<Rightarrow> int option \<Rightarrow> ustr list \<Rightarrow> calculation_record list \<Rightarrow> calculation_record \<Rightarrow> bool"
where
  "picked s0 t0 barrier seen rs x \<longleftrightarrow>
     (\<exists>pre r post. rs = pre @ r # post \<and> sequence_of x = sequence_of r \<and> event_id_of x = event_id_of r
        \<and> state_of x = Some RUNNING \<and> event_id_of r \<notin> set seen \<union> event_id_of ` set pre
        \<and> \<not> beyond barrier r \<and> aget (event_reservations t0) (event_id_of r) = None
        \<and> \<not> holds_journal (event_service_dir (event_id_of r)) s0)"

lemma picked_Cons:
  assumes "picked s0 t0 barrier seen' rs x" "set seen' = insert (event_id_of r) (set seen)"
  shows "picked s0 t0 barrier seen (r # rs) x"
proof -
  obtain pre q post where "rs = pre @ q # post" "sequence_of x = sequence_of q"
    "event_id_of x = event_id_of q" "state_of x = Some RUNNING"
    "event_id_of q \<notin> set seen' \<union> event_id_of ` set pre" "\<not> beyond barrier q"
    "aget (event_reservations t0) (event_id_of q) = None"
    "\<not> holds_journal (event_service_dir (event_id_of q)) s0"
    using assms(1) by (auto simp: picked_def)
  then show ?thesis
    unfolding picked_def using assms(2)
    by (intro exI [of _ "r # pre"] exI [of _ q] exI [of _ post]) auto
qed

lemma picked_here:
  assumes "sequence_of x = sequence_of r" "event_id_of x = event_id_of r" "state_of x = Some RUNNING"
    "event_id_of r \<notin> set seen" "\<not> beyond barrier r"
    "aget (event_reservations t0) (event_id_of r) = None"
    "\<not> holds_journal (event_service_dir (event_id_of r)) s0"
  shows "picked s0 t0 barrier seen (r # rs) x"
  unfolding picked_def using assms by (intro exI [of _ "[]"]) auto

lemma current_transaction_present_False:
  "current_transaction_present e s = Inr False \<Longrightarrow> \<not> holds_journal (event_service_dir e) s"
  by (auto simp: current_transaction_present_def result_simps safe_directory_entry_def entry_at_def
      event_service_dir_def holds_journal_def split: option.splits node.splits)

definition started_from ::
  "fsys \<Rightarrow> scheduler \<Rightarrow> int option \<Rightarrow> ustr list \<Rightarrow> calculation_record list \<Rightarrow> calculation_record list \<Rightarrow> bool"
where
  "started_from s0 t0 barrier seen rs started \<longleftrightarrow>
     subseq (map sequence_of started) (map sequence_of rs)
     \<and> (\<forall>x\<in>set started. picked s0 t0 barrier seen rs x)"

lemma started_Nil [simp]: "started_from s0 t0 barrier seen rs []"
  by (simp add: started_from_def)

lemma started_skip:
  assumes "started_from s0 t0 barrier seen' rs started" "set seen' = insert (event_id_of r) (set seen)"
  shows "started_from s0 t0 barrier seen (r # rs) started"
  using assms picked_Cons [OF _ assms(2)] by (auto simp: started_from_def)

lemma admit_picks:
  assumes "\<forall>r\<in>set rs. queued_at (cfg E) s1 r" "distinct (map sequence_of rs)"
    and "\<forall>e. e \<notin> set seen \<longrightarrow> aget (event_reservations t1) e = aget (event_reservations t0) e"
    and "\<forall>e. entry_at (Events, [e]) TRANSACTION_FILE s1 = entry_at (Events, [e]) TRANSACTION_FILE s0"
  shows "mtriple E (\<lambda>t s. t = t1 \<and> s = s1) (admit barrier seen rs)
     (\<lambda>started t s. started_from s0 t0 barrier seen rs started) (\<lambda>_ _ _. True)"
  using assms
proof (induction rs arbitrary: seen t1 s1)
  case Nil
  then show ?case by (simp add: mtriple_ret)
next
  case (Cons r rs)
  let ?seen = "event_id_of r # seen"
  have skip: "mtriple E (\<lambda>t s. t = t1' \<and> s = s1) (admit barrier ?seen rs)
      (\<lambda>started t s. started_from s0 t0 barrier seen (r # rs) started) (\<lambda>_ _ _. True)"
    if "\<forall>e. e \<notin> set ?seen \<longrightarrow> aget (event_reservations t1') e = aget (event_reservations t0) e" for t1'
    by (rule mtriple_post [OF Cons.IH [OF _ _ that]])
       (use Cons.prems in \<open>auto intro: started_skip\<close>)
  have same: "mtriple E (\<lambda>t s. t = t1 \<and> s = s1) (admit barrier seen rs)
      (\<lambda>started t s. started_from s0 t0 barrier seen (r # rs) started) (\<lambda>_ _ _. True)"
    if "event_id_of r \<in> set seen"
    by (rule mtriple_post [OF Cons.IH]) (use Cons.prems that in \<open>auto intro: started_skip\<close>)
  have start: "mtriple E (\<lambda>t s. t = t1 \<and> s = s1)
      (bindM (start_one r) (\<lambda>started. bindM (admit barrier ?seen rs) (\<lambda>rest.
         ret (case started of None \<Rightarrow> rest | Some running \<Rightarrow> running # rest))))
      (\<lambda>started t s. started_from s0 t0 barrier seen (r # rs) started) (\<lambda>_ _ _. True)"
    if ok: "event_id_of r \<notin> set seen" "\<not> beyond barrier r"
      "aget (event_reservations t1) (event_id_of r) = None"
      "current_transaction_present (event_id_of r) s1 = Inr False"
  proof (rule mtriple_bind [OF mtriple_start], use Cons.prems in simp, rule mtriple_fixed)
    fix started t2 s2
    assume A: "(others_reserved (event_id_of r) t1 t2 \<and> start_frame s1 r s2)
        \<and> (\<forall>x. started = Some x \<longrightarrow> sequence_of x = sequence_of r \<and> event_id_of x = event_id_of r
                 \<and> state_of x = Some RUNNING)"
    have "\<forall>q\<in>set rs. queued_at (cfg E) s2 q"
    proof
      fix q assume q: "q \<in> set rs"
      then have "sequence_of q \<noteq> sequence_of r" "queued_at (cfg E) s1 q" "queued_at (cfg E) s1 r"
        using Cons.prems by (auto simp: image_iff)
      then have "aget (s2 Queue) (queue_entry_name (sequence_of q))
          = aget (s1 Queue) (queue_entry_name (sequence_of q))"
        using A by (auto simp: start_frame_def queued_at_def)
      then have "read_status (cfg E) (sequence_of q) s2 = read_status (cfg E) (sequence_of q) s1"
        using read_status_queue by blast
      then show "queued_at (cfg E) s2 q" using \<open>queued_at (cfg E) s1 q\<close> by (simp add: queued_at_def)
    qed
    moreover have "\<not> holds_journal (event_service_dir (event_id_of r)) s0"
      using current_transaction_present_False [OF ok(4)] Cons.prems(4)
      by (simp add: holds_journal_def event_service_dir_def)
    ultimately show "mtriple E (\<lambda>t s. t = t2 \<and> s = s2) (bindM (admit barrier ?seen rs) (\<lambda>rest.
         ret (case started of None \<Rightarrow> rest | Some running \<Rightarrow> running # rest)))
      (\<lambda>started t s. started_from s0 t0 barrier seen (r # rs) started) (\<lambda>_ _ _. True)"
      using A Cons.prems ok
      by (intro mtriple_bind [OF Cons.IH] mtriple_ret)
         (auto simp: others_reserved_def start_frame_def started_from_def split: option.splits
           intro: picked_here picked_Cons)
  qed
  show ?case
    unfolding admit.simps
  proof (rule mtriple_with_mem)
    fix t
    have present: "mtriple E (\<lambda>t s. t = t1 \<and> s = s1)
        (attempt (observe (\<lambda>E. current_transaction_present (event_id_of r))))
        (\<lambda>present t s. current_transaction_present (event_id_of r) s1 = present \<and> t = t1 \<and> s = s1)
        (\<lambda>_ _ _. True)"
      by (rule mtriple_attempt, rule mtriple_observe) auto
    have record_first: "mtriple E (\<lambda>t s. t = t1 \<and> s = s1)
        (thenM (record_error r e) (admit barrier ?seen rs))
        (\<lambda>started t s. started_from s0 t0 barrier seen (r # rs) started) (\<lambda>_ _ _. True)" for e
      unfolding record_error_def
      by (rule mtriple_then [OF mtriple_modify skip])
         (use Cons.prems(3) in \<open>auto simp: push_error_def\<close>)
    have checked: "mtriple E (\<lambda>t s. t = t1 \<and> s = s1)
        (bindM (attempt (observe (\<lambda>E. current_transaction_present (event_id_of r)))) (\<lambda>present.
          case present of
            Inl e \<Rightarrow> thenM (record_error r e) (admit barrier ?seen rs)
          | Inr True \<Rightarrow> admit barrier ?seen rs
          | Inr False \<Rightarrow>
              bindM (start_one r) (\<lambda>started.
              bindM (admit barrier ?seen rs) (\<lambda>rest.
              ret (case started of None \<Rightarrow> rest | Some running \<Rightarrow> running # rest)))))
        (\<lambda>started t s. started_from s0 t0 barrier seen (r # rs) started) (\<lambda>_ _ _. True)"
      if "event_id_of r \<notin> set seen" "\<not> beyond barrier r"
        "aget (event_reservations t1) (event_id_of r) = None"
    proof (rule mtriple_bind [OF present], rule mtriple_pure)
      fix present
      assume "current_transaction_present (event_id_of r) s1 = present"
      then show "mtriple E (\<lambda>t s. t = t1 \<and> s = s1)
         (case present of
            Inl e \<Rightarrow> thenM (record_error r e) (admit barrier ?seen rs)
          | Inr True \<Rightarrow> admit barrier ?seen rs
          | Inr False \<Rightarrow>
              bindM (start_one r) (\<lambda>started.
              bindM (admit barrier ?seen rs) (\<lambda>rest.
              ret (case started of None \<Rightarrow> rest | Some running \<Rightarrow> running # rest))))
        (\<lambda>started t s. started_from s0 t0 barrier seen (r # rs) started) (\<lambda>_ _ _. True)"
        using start [OF that] skip [of t1] record_first Cons.prems(3)
        by (auto split: sum.splits bool.splits)
    qed
    show "mtriple E (\<lambda>t' s. t' = t \<and> t = t1 \<and> s = s1)
      (if s_max_concurrent t \<le> int (length (worker_slots t)) then ret []
     else if beyond barrier r then ret []
     else if event_id_of r \<in> set seen then admit barrier seen rs
     else if aget (event_reservations t) (event_id_of r) \<noteq> None
     then admit barrier ?seen rs
     else bindM (attempt (observe (\<lambda>E. current_transaction_present (event_id_of r)))) (\<lambda>present.
          case present of
            Inl e \<Rightarrow> thenM (record_error r e) (admit barrier ?seen rs)
          | Inr True \<Rightarrow> admit barrier ?seen rs
          | Inr False \<Rightarrow>
              bindM (start_one r) (\<lambda>started.
              bindM (admit barrier ?seen rs) (\<lambda>rest.
              ret (case started of None \<Rightarrow> rest | Some running \<Rightarrow> running # rest)))))
      (\<lambda>started t s. started_from s0 t0 barrier seen (r # rs) started) (\<lambda>_ _ _. True)"
    proof (cases "t = t1")
      case True
      have "mtriple E (\<lambda>t' s. t' = t \<and> t = t1 \<and> s = s1) m
          (\<lambda>started t s. started_from s0 t0 barrier seen (r # rs) started) (\<lambda>_ _ _. True)"
        if "mtriple E (\<lambda>t s. t = t1 \<and> s = s1) m
          (\<lambda>started t s. started_from s0 t0 barrier seen (r # rs) started) (\<lambda>_ _ _. True)" for m
        using that by (rule mtriple_pre) (use True in auto)
      moreover have "mtriple E (\<lambda>t s. t = t1 \<and> s = s1) (ret [])
          (\<lambda>started t s. started_from s0 t0 barrier seen (r # rs) started) (\<lambda>_ _ _. True)"
        by (simp add: mtriple_ret)
      ultimately show ?thesis
        using same skip [of t1] checked Cons.prems(3) True by auto
    qed (simp add: mtriple_def)
  qed
qed

section \<open>Discovery\<close>

lemma scan_queue_sound:
  shows "\<forall>r\<in>set (fst (scan_queue_records E s)). queued_at (cfg E) s r
      \<and> read_status (cfg E) (sequence_of r) s = Inr (Some r)"
    and "distinct (map sequence_of (fst (scan_queue_records E s)))"
proof -
  let ?f = "\<lambda>name. bindE (parse_queue_entry_name name) (\<lambda>q. validate_queue_entry E q name s)"
  let ?names = "filter (\<lambda>n. \<not> hidden n) (listing (s Queue))"
  have scan: "fst (scan_queue_records E s) = sort_key sequence_of (fst (collect ?f ?names))"
    by (simp add: scan_queue_records_def split: prod.splits)
  have "queued_at (cfg E) s r \<and> read_status (cfg E) (sequence_of r) s = Inr (Some r)"
    if "r \<in> set (fst (collect ?f ?names))" for r
  proof -
    have "\<exists>name\<in>set ?names. ?f name = Inr r"
      using that unfolding collect_good by (rule CollectD)
    then obtain name where "?f name = Inr r" by (rule bexE)
    from scan_entry_reads [OF this] show ?thesis by (simp add: queued_at_def)
  qed
  then show "\<forall>r\<in>set (fst (scan_queue_records E s)). queued_at (cfg E) s r
      \<and> read_status (cfg E) (sequence_of r) s = Inr (Some r)"
    unfolding scan set_sort by blast
  have "distinct (map sequence_of (fst (collect ?f ?names)))"
  proof (rule collect_distinct)
    show "distinct ?names" by simp
    show "x = x'" if "?f x = Inr y" "?f x' = Inr y'" "sequence_of y = sequence_of y'" for x x' y y'
      using conjunct1 [OF scan_entry_reads [OF that(1)]] conjunct1 [OF scan_entry_reads [OF that(2)]]
      by (simp only: that(3))
  qed
  then show "distinct (map sequence_of (fst (scan_queue_records E s)))"
    unfolding scan by (simp add: distinct_map)
qed

lemma discover_sound:
  assumes "discover_queue E s = (queued, malformed)"
  shows "\<forall>r\<in>set queued. queued_at (cfg E) s r" and "distinct (map sequence_of queued)"
    and "sorted (map sequence_of queued)" and "\<forall>r\<in>set queued. state_of r = Some QUEUED"
proof -
  let ?records = "fst (scan_queue_records E s)"
  have queued: "queued = sort_key sequence_of (filter (\<lambda>r. r_status r = jstr ''QUEUED'') ?records)"
    using assms(1) by (simp add: discover_queue_def split: prod.splits)
  show "\<forall>r\<in>set queued. queued_at (cfg E) s r"
    using scan_queue_sound(1) [of E s] by (simp add: queued)
  show "distinct (map sequence_of queued)"
    using scan_queue_sound(2) [of E s] by (simp add: queued distinct_map inj_on_def)
  show "sorted (map sequence_of queued)" by (simp add: queued)
  show "\<forall>r\<in>set queued. state_of r = Some QUEUED"
    by (auto simp: queued state_of_def parse_state_Some)
qed

lemma tick_picks:
  assumes "tick E w = (Val started, w')"
    and "discover_queue E (fs w) = (queued, malformed)"
  shows "\<not> s_closed (mem w)
    \<and> started_from (fs w) (mem w) (first_malformed_sequence malformed) [] queued started"
proof -
  have "mtriple E (\<lambda>t s. t = mem w \<and> s = fs w) tick
      (\<lambda>started t s. \<not> s_closed (mem w)
        \<and> started_from (fs w) (mem w) (first_malformed_sequence malformed) [] queued started)
      (\<lambda>_ _ _. True)"
    unfolding tick_def
  proof (rule mtriple_with_mem, rule mtriple_then
      [where R = "\<lambda>t s. \<not> s_closed (mem w) \<and> t = mem w \<and> s = fs w"], rule mtriple_check)
    fix t
    show "mtriple E (\<lambda>t s. \<not> s_closed (mem w) \<and> t = mem w \<and> s = fs w)
     (bindM (observe (\<lambda>E s. Inr (discover_queue E s)))
       (\<lambda>(queued, malformed). admit (first_malformed_sequence malformed) [] queued))
     (\<lambda>started t s. \<not> s_closed (mem w)
        \<and> started_from (fs w) (mem w) (first_malformed_sequence malformed) [] queued started)
     (\<lambda>_ _ _. True)"
    proof (rule mtriple_pure, rule mtriple_bind [where R = "\<lambda>x t s. x = (queued, malformed) \<and> t = mem w \<and> s = fs w"])
      show "mtriple E (\<lambda>t s. t = mem w \<and> s = fs w) (observe (\<lambda>E s. Inr (discover_queue E s)))
          (\<lambda>x t s. x = (queued, malformed) \<and> t = mem w \<and> s = fs w) (\<lambda>_ _ _. True)"
        by (rule mtriple_observe) (use assms(2) in auto)
      show "mtriple E (\<lambda>t s. x = (queued, malformed) \<and> t = mem w \<and> s = fs w)
          (case x of (queued, malformed) \<Rightarrow> admit (first_malformed_sequence malformed) [] queued)
          (\<lambda>started t s. \<not> s_closed (mem w)
            \<and> started_from (fs w) (mem w) (first_malformed_sequence malformed) [] queued started)
          (\<lambda>_ _ _. True)" if "\<not> s_closed (mem w)" for x
        using that
        by (intro mtriple_pure) (auto intro!: mtriple_post [OF admit_picks]
            simp: discover_sound [OF assms(2)])
    qed
  qed auto
  from mtripleD(1) [OF this _ assms(1)] show ?thesis by simp
qed

end
