(* ===== verification/Scheduler_Properties.thy ===== *)
theory Scheduler_Properties
  imports Scheduler_Admission Samples
begin

text \<open>
  The scheduler's properties: capacity and exclusion in every reachable state, what a tick admits,
  and the consequence of a journal left beside a finished record.
\<close>

lemma running_records_Nil: "running_records rs = [] \<longleftrightarrow> (\<forall>r\<in>set rs. r_status r \<noteq> jstr ''RUNNING'')"
proof -
  have "running_records rs = [] \<longleftrightarrow> set (running_records rs) = {}" by simp
  then show ?thesis by (auto simp: running_records_def)
qed

lemma validated_keeps: "validated_records E w = (out, w') \<Longrightarrow> w' = w"
  by (auto simp: validated_records_def observe_def split: sum.splits)

lemma recovery_without_running:
  assumes "validated_records E w = (Val rs, w0)" "\<forall>r\<in>set rs. r_status r \<noteq> jstr ''RUNNING''"
  shows "recover_interrupted_calculations E w = (Val [], w)"
proof -
  have "running_records rs = []" using assms(2) by (simp add: running_records_Nil)
  with assms(1) validated_keeps [OF assms(1)] show ?thesis
    by (simp add: recover_interrupted_calculations_def bindM_def thenM_def check_def ret_def)
qed

text \<open>A tick leaves every journal where it is.\<close>

lemma finish_keeps_journal:
  "triple E (\<lambda>s. entry_at (Events, [e]) TRANSACTION_FILE s = v) (finish_without_callback x err)
     (\<lambda>_ s. entry_at (Events, [e]) TRANSACTION_FILE s = v)
     (\<lambda>_ s. entry_at (Events, [e]) TRANSACTION_FILE s = v)"
    (is "triple E ?P _ _ _")
proof -
  have "triple E (\<lambda>s. s = s0) (finish_without_callback x err) (\<lambda>_. ?P) (\<lambda>_. ?P)" if "?P s0" for s0
    by (rule triple_weaken [OF frame_finish [OF refl, of E s0]]) (use that in \<open>auto simp: start_frame_def\<close>)
  then show ?thesis by (rule triple_fixed)
qed

lemma start_keeps_journal:
  "triple E (\<lambda>s. entry_at (Events, [e]) TRANSACTION_FILE s = v) (start_one r)
     (\<lambda>_ s. entry_at (Events, [e]) TRANSACTION_FILE s = v)
     (\<lambda>_ s. entry_at (Events, [e]) TRANSACTION_FILE s = v)"
    (is "triple E ?P _ _ _")
  unfolding start_one_def submit_def transition_to_running_def
  by (rule triple_then [where R = ?P], rule triple_modify, assumption,
      rule triple_bind [where R = "\<lambda>_. ?P"], rule triple_attempt, rule triple_weaken
        [OF triple_transition_status_entry [OF tmp_transaction]])
     (auto intro!: triple_then [where R = ?P] finish_keeps_journal triple_ret triple_sys triple_attempt
        triple_modify triple_bind [where R = "\<lambda>_. ?P"] simp: untouched_def split: sum.splits option.splits)

lemma admit_keeps_journal:
  "triple E (\<lambda>s. entry_at (Events, [e]) TRANSACTION_FILE s = v) (admit barrier seen rs)
     (\<lambda>_ s. entry_at (Events, [e]) TRANSACTION_FILE s = v)
     (\<lambda>_ s. entry_at (Events, [e]) TRANSACTION_FILE s = v)"
    (is "triple E ?P _ _ _")
proof (induction rs arbitrary: seen)
  case Nil
  then show ?case by (simp add: triple_ret)
next
  case (Cons r rs)
  have get: "triple E ?P get_mem (\<lambda>_. ?P) (\<lambda>_. ?P)"
    by (simp add: triple_def get_mem_def)
  show ?case
    unfolding admit.simps record_error_def
    by (rule triple_bind [OF get])
       (auto intro!: triple_ret Cons.IH triple_bind [where R = "\<lambda>_. ?P"] triple_attempt triple_observe
          triple_then [where R = ?P] triple_modify start_keeps_journal
        split: sum.splits bool.splits option.splits)
qed

lemma tick_keeps_journal:
  "triple E (\<lambda>s. entry_at (Events, [e]) TRANSACTION_FILE s = v) tick
     (\<lambda>_ s. entry_at (Events, [e]) TRANSACTION_FILE s = v)
     (\<lambda>_ s. entry_at (Events, [e]) TRANSACTION_FILE s = v)"
    (is "triple E ?P _ _ _")
proof -
  have get: "triple E ?P get_mem (\<lambda>_. ?P) (\<lambda>_. ?P)"
    by (simp add: triple_def get_mem_def)
  show ?thesis
    unfolding tick_def
    by (rule triple_bind [OF get])
       (auto intro!: triple_then [where R = ?P] triple_check triple_bind [where R = "\<lambda>_. ?P"]
          triple_observe admit_keeps_journal split: prod.splits)
qed

section \<open>Properties\<close>



text \<open>
  C10: a tick starts only queued records that are the oldest of their event, in sequence order,
  none behind the first malformed queue entry, none whose event is reserved, and none whose event
  still has a transaction journal in its current tree; each comes back \<open>RUNNING\<close>.
\<close>

theorem tick_admits_oldest_eligible:
  assumes "tick E w = (Val started, w')"
    and "discover_queue E (fs w) = (queued, malformed)"
  shows "\<not> s_closed (mem w)
    \<and> subseq (map sequence_of started) (map sequence_of queued) \<and> sorted (map sequence_of queued)
    \<and> (\<forall>x\<in>set started. state_of x = Some RUNNING
        \<and> (\<exists>pre r post. queued = pre @ r # post \<and> state_of r = Some QUEUED
             \<and> sequence_of x = sequence_of r \<and> event_id_of x = event_id_of r
             \<and> event_id_of r \<notin> event_id_of ` set pre
             \<and> \<not> beyond (first_malformed_sequence malformed) r
             \<and> aget (event_reservations (mem w)) (event_id_of r) = None
             \<and> \<not> holds_journal (event_service_dir (event_id_of r)) (fs w)))"
  using tick_picks [OF assms] discover_sound [OF assms(2)]
  by (fastforce simp: started_from_def picked_def)

definition sample_world :: "bool \<Rightarrow> scheduler world" where
  "sample_world ow = \<lparr>fs = sample_store (sample_queued ow), clock = 0, mem = new_scheduler sample_cfg\<rparr>"

lemma sample_transition:
  "\<exists>x w'. transition_to_running 7 sample_env \<lparr>fs = sample_store (sample_queued ow), clock = k, mem = m\<rparr>
     = (Val x, w') \<and> mem w' = m \<and> sequence_of x = 7 \<and> event_id_of x = sample_event"
proof -
  let ?w = "\<lparr>fs = sample_store (sample_queued ow), clock = k, mem = m\<rparr>"
  have "triple sample_env (\<lambda>s. s = sample_store (sample_queued ow))
      (transition_record_directory (Queue, [queue_entry_name 7]) RUNNING (Some 7) None no_args)
      (\<lambda>x s. same_identity (sample_queued ow) x) (\<lambda>_ _. False)"
    using start_transition [OF sample_queued(1,2)]
    by (intro triple_weaken [OF triple_transition [OF sample_store_queue(1) sample_entry_status(1),
          where R = "\<lambda>_. True"]])
       (auto simp: sample_queued sample_clock sample_quiet)
  then have "triple sample_env (\<lambda>s. s = sample_store (sample_queued ow)) (transition_to_running 7)
      (\<lambda>x s. same_identity (sample_queued ow) x) (\<lambda>_ _. False)"
    unfolding transition_to_running_def transition_status_def queue_entry_dir_def
    by (intro triple_then [where R = "\<lambda>s. s = sample_store (sample_queued ow)"] triple_check) simp_all
  from triple_total [OF this, of ?w]
  obtain x w' where x: "transition_to_running 7 sample_env ?w = (Val x, w')" "same_identity (sample_queued ow) x"
    by auto
  moreover have "mem w' = m"
    using keeps_memD [OF keeps_transitions(4) x(1)] by simp
  ultimately show ?thesis
    using same_identityD [OF x(2)] by (auto simp: sample_queued)
qed

lemma sample_tick:
  "\<exists>x w'. tick sample_env (sample_world ow) = (Val [x], w') \<and> sequence_of x = 7"
proof -
  let ?m = "new_scheduler sample_cfg" and ?r = "sample_queued ow"
  obtain x w' where x: "transition_to_running 7 sample_env
      \<lparr>fs = sample_store ?r, clock = 0, mem = reserve ?r ?m\<rparr> = (Val x, w')"
      "mem w' = reserve ?r ?m" "sequence_of x = 7"
    using sample_transition [of ow 0 "reserve ?r ?m"] by metis
  have queued: "discover_queue sample_env (sample_store ?r) = ([?r], [])"
    using sample_queued(2) [of ow] by (simp add: discover_queue_def sample_scan state_of_def parse_state_Some)
  have "current_transaction_present sample_event (sample_store ?r) = Inr False"
    by (simp add: current_transaction_present_def sample_event_valid safe_directory_entry_def
        entry_at_def sample_store_def)
  moreover have "submit x sample_env w' = (Val (), w'\<lparr>clock := Suc (clock w'),
      mem := (mem w')\<lparr>submitted := submitted (mem w') @ [x]\<rparr>\<rparr>)"
    by (simp add: submit_def thenM_def bindM_def sys_def modify_mem_def Let_def)
  ultimately show ?thesis
    using x queued
    by (simp add: tick_def sample_world_def thenM_def bindM_def get_mem_def check_def ret_def observe_def
        new_scheduler_def beyond_def attempt_def catchM_def start_one_def modify_mem_def sample_queued
        sample_cfg_def)
qed

theorem tick_admits_oldest_eligible_witness:
  "\<exists>x w'. tick sample_env (sample_world True) = (Val [x], w') \<and> state_of x = Some RUNNING
     \<and> sequence_of x = 7"
proof -
  obtain x w' where x: "tick sample_env (sample_world True) = (Val [x], w')" "sequence_of x = 7"
    using sample_tick by blast
  moreover obtain queued malformed where "discover_queue sample_env (fs (sample_world True)) = (queued, malformed)"
    by fastforce
  ultimately show ?thesis
    using tick_admits_oldest_eligible [of sample_env "sample_world True" "[x]" w' queued malformed] by auto
qed


definition sample_failed :: calculation_record where
  "sample_failed = fail_stale_record (now_iso sample_time) STALE_FAILURE (sample_running True)"

lemma sample_failed:
  "valid_record sample_cfg sample_failed" "state_of sample_failed = Some FAILED"
  "event_id_of sample_failed = sample_event" "sequence_of sample_failed = 7"
proof -
  have "failure_ok STALE_FAILURE" by (simp add: failure_ok_def STALE_FAILURE_def)
  note f = fail_stale_valid [OF sample_running(2,3) this sample_now, of True, folded sample_failed_def]
  then show "valid_record sample_cfg sample_failed" "state_of sample_failed = Some FAILED"
    by simp_all
  show "event_id_of sample_failed = sample_event" "sequence_of sample_failed = 7"
    using f same_identityD [of "sample_running True" sample_failed] by (simp_all add: sample_running)
qed

definition sample_finished_store :: fsys where
  "sample_finished_store = (\<lambda>_. [])(Events :=
     [(sample_event, Dir ((TRANSACTION_FILE, File (Bytes [])) # sample_entry sample_failed))])"

lemma sample_validated:
  "validated_records sample_env \<lparr>fs = sample_finished_store, clock = 0, mem = t\<rparr>
     = (Val [sample_failed], \<lparr>fs = sample_finished_store, clock = 0, mem = t\<rparr>)"
proof -
  have at: "dir_at (Events, [sample_event]) sample_finished_store
      = Some ((TRANSACTION_FILE, File (Bytes [])) # sample_entry sample_failed)"
    "entry_at (Events, [sample_event]) n sample_finished_store
      = aget ((TRANSACTION_FILE, File (Bytes [])) # sample_entry sample_failed) n" for n
    by (simp_all add: sample_finished_store_def entry_at_def)
  have ne: "STATUS_FILE \<noteq> TRANSACTION_FILE" "lit ''request-manifest.json'' \<noteq> TRANSACTION_FILE"
    by (simp_all add: STATUS_FILE_def TRANSACTION_FILE_def lit_inject)
  have "load_record sample_cfg (Events, [sample_event]) None (Some sample_event) sample_finished_store
      = Inr sample_failed"
    by (rule load_stored) (use ne in \<open>simp_all add: at sample_failed\<close>)
  moreover have "load_request_manifest_identity ValueError (Events, [sample_event]) sample_failed
      sample_finished_store = Inr sample_manifest"
    using valid_record_identity [OF sample_failed(1)] ne
    by (intro sample_manifest_identity) (simp_all add: sample_failed at)
  ultimately have "scan_current_entry sample_env sample_finished_store sample_event = Inr sample_failed"
    by (simp add: scan_current_entry_def sample_event_valid open_record_dir [OF at(1)])
  then have "scan_current_records sample_env sample_finished_store = ([sample_failed], [])"
    unfolding scan_current_records_def by (simp add: sample_finished_store_def)
  moreover have "scan_queue_records sample_env sample_finished_store = ([], [])"
    by (simp add: scan_queue_records_def sample_finished_store_def)
  ultimately show ?thesis by (simp add: validated_records_def observe_def)
qed


end
