(* ===== verification/Transaction_State.thy ===== *)
theory Transaction_State
  imports Reconcile Status_Triples
begin

text \<open>
  The states a durable replacement goes through. A \<open>plan\<close> is what one transaction is about: the
  event, the sequence, the preceding trees and where they are to be kept. A \<open>view\<close> is what the store
  shows of it: the stage and the native candidate inside the record directory, the entries of the
  event under the current records and the products, and the archive. \<open>phase\<close> relates a view to the
  progress a journal records; \<open>displays\<close> says that a store has a view, a stored record and a stored
  journal, and equals a given store everywhere else.
\<close>

section \<open>Plans\<close>

record plan =
  p_event :: ustr
  p_sequence :: int
  p_overwrite :: bool
  p_products :: "dirc option"
  p_service :: "dirc option"
  p_archive :: "ustr option"

definition had_preceding :: "plan \<Rightarrow> bool" where
  "had_preceding pl \<longleftrightarrow> p_products pl \<noteq> None \<or> p_service pl \<noteq> None"

definition plan_ok :: "settings \<Rightarrow> plan \<Rightarrow> bool" where
  "plan_ok c pl \<longleftrightarrow>
     valid_event_id (p_event pl) \<and> 1 \<le> p_sequence pl
     \<and> (p_archive pl \<noteq> None \<longleftrightarrow> \<not> p_overwrite pl \<and> had_preceding pl)
     \<and> (\<forall>a. p_archive pl = Some a \<longrightarrow>
          (\<exists>t. valid_datetime t \<and> a = archive_path_for c (p_event pl) t))
     \<and> (\<forall>d. p_service pl = Some d \<longrightarrow> aget d TRANSACTION_FILE = None)"

definition entry_name :: "plan \<Rightarrow> ustr" where
  "entry_name pl = queue_entry_name (p_sequence pl)"

definition record_path :: "plan \<Rightarrow> bool \<Rightarrow> path" where
  "record_path pl current = (if current then (Events, [p_event pl]) else (Queue, [entry_name pl]))"

text \<open>The journals and records of a plan.\<close>

definition steps :: "journal \<Rightarrow> nat" where
  "steps j = length (j_completed j)"

definition plan_journal :: "plan \<Rightarrow> journal \<Rightarrow> bool" where
  "plan_journal pl j \<longleftrightarrow>
     j_event_id j = p_event pl \<and> j_sequence j = p_sequence pl \<and> j_overwrite j = p_overwrite pl
     \<and> j_products j = (p_products pl \<noteq> None) \<and> j_service j = (p_service pl \<noteq> None)
     \<and> j_archive_path j = p_archive pl \<and> j_completed j = take (steps j) CHECKPOINTS
     \<and> valid_recovery_failure (j_recovery_failure j)"

definition plan_record :: "settings \<Rightarrow> plan \<Rightarrow> bool \<Rightarrow> calculation_record \<Rightarrow> bool" where
  "plan_record c pl current r \<longleftrightarrow>
     valid_record c r \<and> event_id_of r = p_event pl \<and> sequence_of r = p_sequence pl
     \<and> r_overwrite r = JBool (p_overwrite pl)
     \<and> (state_of r = Some RUNNING \<or> current \<and> state_of r = Some FAILED)"

section \<open>Views\<close>

record view =
  w_stage :: "node option"
  w_candidate :: "node option"
  w_service :: "node option"
  w_products :: "node option"
  w_archive :: "node option"

definition absent_or_dir :: "node option \<Rightarrow> bool" where
  "absent_or_dir v \<longleftrightarrow> v = None \<or> (\<exists>d. v = Some (Dir d))"

text \<open>A preceding tree is in exactly one of two places.\<close>

definition one_of :: "dirc option \<Rightarrow> node option \<Rightarrow> node option \<Rightarrow> bool" where
  "one_of tree source staged \<longleftrightarrow>
     source = map_option Dir tree \<and> staged = None \<or> source = None \<and> staged = map_option Dir tree"

definition retained :: "plan \<Rightarrow> dirc \<Rightarrow> bool" where
  "retained pl d \<longleftrightarrow>
     aget d (lit ''products'') = map_option Dir (p_products pl)
     \<and> aget d (lit ''service'') = map_option Dir (p_service pl)
     \<and> set (akeys d) \<subseteq> {lit ''products'', lit ''service''}"

definition archived :: "plan \<Rightarrow> view \<Rightarrow> bool" where
  "archived pl w \<longleftrightarrow> (\<exists>d. w_archive w = Some (Dir d) \<and> retained pl d)"

definition staging :: "plan \<Rightarrow> view \<Rightarrow> bool" where
  "staging pl w \<longleftrightarrow>
     (case w_stage w of
        None \<Rightarrow> w_products w = map_option Dir (p_products pl) \<and> w_service w = map_option Dir (p_service pl)
      | Some (Dir d) \<Rightarrow>
          one_of (p_products pl) (w_products w) (aget d (lit ''products''))
          \<and> one_of (p_service pl) (w_service w) (aget d (lit ''service''))
          \<and> set (akeys d) \<subseteq> {lit ''products'', lit ''service''}
      | _ \<Rightarrow> False)"

definition disposed :: "plan \<Rightarrow> view \<Rightarrow> bool" where
  "disposed pl w \<longleftrightarrow>
     w_stage w = None \<and> w_products w = None \<and> w_service w = None
     \<and> (p_archive pl \<noteq> None \<longrightarrow> archived pl w)"

text \<open>Before promotion the record is in the queue, after it among the current records.\<close>

definition queue_phase :: "plan \<Rightarrow> journal \<Rightarrow> view \<Rightarrow> bool" where
  "queue_phase pl j w \<longleftrightarrow>
     w_candidate w = None \<and> \<not> j_candidate_removal j
     \<and> (\<not> j_stage_removal j \<and> steps j \<le> 2 \<and> w_archive w = None \<and> staging pl w
        \<or> p_archive pl \<noteq> None \<and> \<not> j_stage_removal j \<and> steps j = 2 \<and> disposed pl w
        \<or> p_archive pl = None \<and> j_stage_removal j \<and> steps j = 2 \<and> w_products w = None
            \<and> w_service w = None \<and> absent_or_dir (w_stage w)
        \<or> (p_archive pl = None \<or> \<not> j_stage_removal j) \<and> steps j = 3 \<and> disposed pl w)"

definition current_phase :: "plan \<Rightarrow> journal \<Rightarrow> view \<Rightarrow> bool" where
  "current_phase pl j w \<longleftrightarrow>
     w_stage w = None \<and> w_service w = None \<and> (p_archive pl \<noteq> None \<longrightarrow> archived pl w)
     \<and> (if j_candidate_removal j
        then w_products w = None \<and> absent_or_dir (w_candidate w) \<and> steps j \<in> {4, 5}
        else case w_products w of
               None \<Rightarrow> w_candidate w = None \<and> steps j \<in> {3, 4}
                       \<or> (\<exists>d. w_candidate w = Some (Dir d)) \<and> steps j \<in> {4, 5}
             | Some (Dir d) \<Rightarrow> w_candidate w = None \<and> steps j \<in> {5, 6}
             | _ \<Rightarrow> False)"

definition phase :: "plan \<Rightarrow> bool \<Rightarrow> journal \<Rightarrow> view \<Rightarrow> bool" where
  "phase pl current j w = (if current then current_phase pl j w else queue_phase pl j w)"

definition good :: "settings \<Rightarrow> plan \<Rightarrow> bool \<Rightarrow> calculation_record \<Rightarrow> journal \<Rightarrow> view \<Rightarrow> bool" where
  "good c pl current r j w \<longleftrightarrow>
     plan_record c pl current r \<and> plan_journal pl j \<and> phase pl current j w"

section \<open>Stores\<close>

definition archive_entry :: "plan \<Rightarrow> fsys \<Rightarrow> node option" where
  "archive_entry pl s =
     (case p_archive pl of None \<Rightarrow> None | Some a \<Rightarrow> aget (s Archive) (path_name a))"

definition looks :: "plan \<Rightarrow> bool \<Rightarrow> dirc \<Rightarrow> view \<Rightarrow> fsys \<Rightarrow> bool" where
  "looks pl current d w s \<longleftrightarrow>
     dir_at (record_path pl current) s = Some d
     \<and> (if current then aget (s Queue) (entry_name pl) = None \<and> w_service w = None
        else aget (s Events) (p_event pl) = w_service w)
     \<and> aget d STAGING_DIRECTORY = w_stage w \<and> aget d NATIVE_CANDIDATE_DIRECTORY = w_candidate w
     \<and> aget (s Products) (p_event pl) = w_products w \<and> archive_entry pl s = w_archive w"

definition touched :: "plan \<Rightarrow> (root \<times> ustr) set" where
  "touched pl =
     {(Queue, entry_name pl), (Events, p_event pl), (Products, p_event pl)}
     \<union> (case p_archive pl of None \<Rightarrow> {} | Some a \<Rightarrow> {(Archive, path_name a)})"

definition elsewhere :: "plan \<Rightarrow> fsys \<Rightarrow> fsys \<Rightarrow> bool" where
  "elsewhere pl s0 s \<longleftrightarrow> (\<forall>r n. (r, n) \<notin> touched pl \<longrightarrow> aget (s r) n = aget (s0 r) n)"

definition displays ::
  "plan \<Rightarrow> fsys \<Rightarrow> bool \<Rightarrow> calculation_record \<Rightarrow> journal \<Rightarrow> view \<Rightarrow> fsys \<Rightarrow> bool" where
  "displays pl s0 current r j w s \<longleftrightarrow>
     elsewhere pl s0 s
     \<and> (\<exists>d. looks pl current d w s
          \<and> aget d STATUS_FILE = Some (File (Json (record_to_dict r)))
          \<and> aget d TRANSACTION_FILE = Some (File (Json (journal_to_json j))))"

text \<open>Some transaction of the plan is in progress.\<close>

definition in_progress :: "settings \<Rightarrow> plan \<Rightarrow> fsys \<Rightarrow> fsys \<Rightarrow> bool" where
  "in_progress c pl s0 s \<longleftrightarrow>
     (\<exists>current r j w. good c pl current r j w \<and> displays pl s0 current r j w s)"

text \<open>
  The interrupted transaction has been failed: the record is current and \<open>FAILED\<close>, no private
  directory and no journal is left, and retained trees are in the archive.
\<close>

definition settled :: "settings \<Rightarrow> plan \<Rightarrow> fsys \<Rightarrow> fsys \<Rightarrow> bool" where
  "settled c pl s0 s \<longleftrightarrow>
     elsewhere pl s0 s
     \<and> (\<exists>d w r. looks pl True d w s \<and> plan_record c pl True r \<and> state_of r = Some FAILED
          \<and> aget d STATUS_FILE = Some (File (Json (record_to_dict r)))
          \<and> aget d TRANSACTION_FILE = None \<and> w_stage w = None \<and> w_candidate w = None
          \<and> absent_or_dir (w_products w) \<and> (p_archive pl \<noteq> None \<longrightarrow> archived pl w))"

text \<open>The store and an open transaction, when an operation has just failed.\<close>

definition lags :: "settings \<Rightarrow> plan \<Rightarrow> fsys \<Rightarrow> transaction \<Rightarrow> fsys \<Rightarrow> bool" where
  "lags c pl s0 t s \<longleftrightarrow>
     (\<exists>r j w. good c pl (in_events t) r j w \<and> good c pl (in_events t) r (t_journal t) w
        \<and> displays pl s0 (in_events t) r j w s)
     \<and> event_id_of (t_record t) = p_event pl \<and> sequence_of (t_record t) = p_sequence pl"

section \<open>Names\<close>

lemma reserved_names [simp]:
  "STATUS_FILE \<noteq> TRANSACTION_FILE" "TRANSACTION_FILE \<noteq> STATUS_FILE"
  "STATUS_FILE \<noteq> STAGING_DIRECTORY" "STAGING_DIRECTORY \<noteq> STATUS_FILE"
  "STATUS_FILE \<noteq> NATIVE_CANDIDATE_DIRECTORY" "NATIVE_CANDIDATE_DIRECTORY \<noteq> STATUS_FILE"
  "TRANSACTION_FILE \<noteq> STAGING_DIRECTORY" "STAGING_DIRECTORY \<noteq> TRANSACTION_FILE"
  "TRANSACTION_FILE \<noteq> NATIVE_CANDIDATE_DIRECTORY" "NATIVE_CANDIDATE_DIRECTORY \<noteq> TRANSACTION_FILE"
  "STAGING_DIRECTORY \<noteq> NATIVE_CANDIDATE_DIRECTORY" "NATIVE_CANDIDATE_DIRECTORY \<noteq> STAGING_DIRECTORY"
  by (simp_all add: STATUS_FILE_def TRANSACTION_FILE_def STAGING_DIRECTORY_def
      NATIVE_CANDIDATE_DIRECTORY_def lit_inject)

lemma not_temporary [simp]:
  "\<not> tmp_name STATUS_FILE" "\<not> tmp_name TRANSACTION_FILE" "\<not> tmp_name STAGING_DIRECTORY"
  "\<not> tmp_name NATIVE_CANDIDATE_DIRECTORY"
  by (simp_all add: STATUS_FILE_def TRANSACTION_FILE_def STAGING_DIRECTORY_def
      NATIVE_CANDIDATE_DIRECTORY_def tmp_name_lit)

lemma tmp_journal: "tmp_name (lit ''.transaction-'' @ u @ lit ''.tmp'')"
  by (simp add: tmp_name_def starts_with_append)

section \<open>The record directory\<close>

text \<open>A change inside the record directory, and the view after it.\<close>

lemma looks_put_dir:
  assumes "looks pl current d w s"
  shows "looks pl current d' (w\<lparr>w_stage := aget d' STAGING_DIRECTORY,
      w_candidate := aget d' NATIVE_CANDIDATE_DIRECTORY\<rparr>) (put_dir (record_path pl current) d' s)"
  using assms
  by (cases current)
     (auto simp: looks_def record_path_def put_dir_def archive_entry_def split: option.splits node.splits)

lemma elsewhere_put_dir:
  assumes "elsewhere pl s0 s"
  shows "elsewhere pl s0 (put_dir (record_path pl current) d' s)"
  using assms
  by (auto simp: elsewhere_def touched_def record_path_def put_dir_def split: option.splits node.splits)

lemma displays_put_dir:
  assumes "elsewhere pl s0 s" "looks pl current d w s"
    and "aget d' STATUS_FILE = Some (File (Json (record_to_dict r)))"
    and "aget d' TRANSACTION_FILE = Some (File (Json (journal_to_json j)))"
    and "w' = w\<lparr>w_stage := aget d' STAGING_DIRECTORY, w_candidate := aget d' NATIVE_CANDIDATE_DIRECTORY\<rparr>"
  shows "displays pl s0 current r j w' (put_dir (record_path pl current) d' s)"
  unfolding displays_def using assms elsewhere_put_dir looks_put_dir [OF assms(2), of d'] by blast

lemma displays_agree:
  assumes "elsewhere pl s0 s" "looks pl current d w s" "agree d1 d'"
    and "aget d1 STATUS_FILE = Some (File (Json (record_to_dict r)))"
    and "aget d1 TRANSACTION_FILE = Some (File (Json (journal_to_json j)))"
    and "aget d1 STAGING_DIRECTORY = aget d STAGING_DIRECTORY"
    and "aget d1 NATIVE_CANDIDATE_DIRECTORY = aget d NATIVE_CANDIDATE_DIRECTORY"
  shows "displays pl s0 current r j w (put_dir (record_path pl current) d' s)"
  using assms
  by (intro displays_put_dir [OF assms(1,2)]) (auto simp: agree_def looks_def)

lemma record_path_cases: "\<exists>k n. record_path pl current = (k, [n])"
  by (simp add: record_path_def)

lemma displaysE:
  assumes "displays pl s0 current r j w s"
  obtains d where "elsewhere pl s0 s" "looks pl current d w s"
    "dir_at (record_path pl current) s = Some d"
    "aget d STATUS_FILE = Some (File (Json (record_to_dict r)))"
    "aget d TRANSACTION_FILE = Some (File (Json (journal_to_json j)))"
  using assms by (auto simp: displays_def looks_def)

end
