(* ===== verification/Transaction_Steps.thy ===== *)
theory Transaction_Steps
  imports Transaction_State
begin

text \<open>
  The effect of every system call of a transaction on its view, for any fault: what the call leaves
  when it succeeds, and that a failed or interrupted call leaves the view it started from (or, for a
  recursive removal, part of the removed directory).
\<close>

section \<open>The journal\<close>

lemma write_journal_displays:
  "triple E (displays pl s0 cur r j0 w) (write_journal (record_path pl cur) j)
     (\<lambda>_. displays pl s0 cur r j w)
     (\<lambda>_ s. \<not> quiet E \<and> (displays pl s0 cur r j0 w s \<or> displays pl s0 cur r j w s))"
proof (rule triple_fixed)
  fix s1 assume "displays pl s0 cur r j0 w s1"
  then obtain d where d: "elsewhere pl s0 s1" "looks pl cur d w s1"
      "dir_at (record_path pl cur) s1 = Some d"
      "aget d STATUS_FILE = Some (File (Json (record_to_dict r)))"
      "aget d TRANSACTION_FILE = Some (File (Json (journal_to_json j0)))"
    by (rule displaysE)
  let ?new = "aput TRANSACTION_FILE (File (Json (journal_to_json j))) d"
  have new: "displays pl s0 cur r j w s" if "dir_in (record_path pl cur) s1 (agree ?new) s" for s
    using that by (elim dir_inE) (auto intro!: displays_agree [OF d(1,2), of ?new] simp: d)
  have old: "displays pl s0 cur r j0 w s" if "dir_in (record_path pl cur) s1 (agree d) s" for s
    using that by (elim dir_inE) (auto intro!: displays_agree [OF d(1,2), of d] simp: d)
  have either: "displays pl s0 cur r j0 w s \<or> displays pl s0 cur r j w s"
    if "dir_in (record_path pl cur) s1 (\<lambda>d'. agree d d' \<or> agree ?new d') s" for s
    using that old new by (auto simp: dir_in_def)
  show "triple E (\<lambda>s. s = s1) (write_journal (record_path pl cur) j)
     (\<lambda>_. displays pl s0 cur r j w)
     (\<lambda>_ s. \<not> quiet E \<and> (displays pl s0 cur r j0 w s \<or> displays pl s0 cur r j w s))"
    unfolding write_journal_def
    by (rule triple_weaken [OF triple_publish [OF d(3) not_temporary(2) tmp_journal]])
       (use d(5) new either in auto)
qed

text \<open>The record directory the open transaction names.\<close>

definition tracks :: "plan \<Rightarrow> transaction \<Rightarrow> bool" where
  "tracks pl t \<longleftrightarrow> event_id_of (t_record t) = p_event pl \<and> sequence_of (t_record t) = p_sequence pl"

lemma record_dir_path: "tracks pl t \<Longrightarrow> record_dir t = record_path pl (in_events t)"
  by (simp add: record_dir_def record_path_def event_service_dir_def queue_entry_dir_def tracks_def
      entry_name_def)

lemma tracks_simps [simp]:
  "tracks pl (t\<lparr>t_journal := j\<rparr>) = tracks pl t" "tracks pl (t\<lparr>in_events := b\<rparr>) = tracks pl t"
  by (simp_all add: tracks_def)

lemma lags_iff:
  "lags c pl s0 t s \<longleftrightarrow>
     (\<exists>r j w. good c pl (in_events t) r j w \<and> good c pl (in_events t) r (t_journal t) w
        \<and> displays pl s0 (in_events t) r j w s) \<and> tracks pl t"
  by (simp add: lags_def tracks_def)

text \<open>Saving the open journal over whatever is stored.\<close>

lemma save_journal_from:
  assumes t1: "tracks pl t1" "in_events t1 = cur"
    and w: "triple E P (write_journal (record_path pl cur) (t_journal t1) :: (transaction, unit) io) (\<lambda>_. Q) (\<lambda>_. X)"
  shows "mtriple E (\<lambda>t s. t = t1 \<and> P s) save_journal (\<lambda>_ t s. t = t1 \<and> Q s) (\<lambda>_ t s. t = t1 \<and> X s)"
proof -
  have call: "mtriple E (\<lambda>t s. t = t1 \<and> P s) (write_journal (record_path pl cur) (t_journal t1))
      (\<lambda>_ t s. t = t1 \<and> Q s) (\<lambda>_ t s. t = t1 \<and> X s)"
  proof (rule mtriple_lift)
    show "keeps_mem (write_journal (record_path pl cur) (t_journal t1) :: (transaction, unit) io)"
      by (simp add: write_journal_def keeps)
    show "triple E (\<lambda>s. t = t1 \<and> P s) (write_journal (record_path pl cur) (t_journal t1) :: (transaction, unit) io)
        (\<lambda>_ s. t = t1 \<and> Q s) (\<lambda>_ s. t = t1 \<and> X s)" for t
      by (rule triple_pure, rule triple_weaken [OF w]) auto
  qed
  show ?thesis
    unfolding save_journal_def
  proof (rule mtriple_with_mem)
    fix t
    show "mtriple E (\<lambda>t' s. t' = t \<and> t = t1 \<and> P s) (write_journal (record_dir t) (t_journal t))
        (\<lambda>_ t s. t = t1 \<and> Q s) (\<lambda>_ t s. t = t1 \<and> X s)"
    proof (cases "t = t1")
      case True
      then show ?thesis using call record_dir_path [OF t1(1)] t1(2) by simp
    qed (simp add: mtriple_def)
  qed
qed

lemma save_journal_displays:
  assumes "tracks pl t1" "in_events t1 = cur"
  shows "mtriple E (\<lambda>t s. t = t1 \<and> displays pl s0 cur r j0 w s) save_journal
     (\<lambda>_ t s. t = t1 \<and> displays pl s0 cur r (t_journal t1) w s)
     (\<lambda>_ t s. \<not> quiet E \<and> t = t1
        \<and> (displays pl s0 cur r j0 w s \<or> displays pl s0 cur r (t_journal t1) w s))"
  by (rule mtriple_weaken [OF save_journal_from [OF assms write_journal_displays]]) auto

section \<open>Checkpoints and intents\<close>

definition at_step :: "nat \<Rightarrow> journal \<Rightarrow> journal" where
  "at_step k j = j\<lparr>j_completed := take k CHECKPOINTS\<rparr>"

lemma steps_at_step: "k \<le> 6 \<Longrightarrow> steps (at_step k j) = k"
  by (simp add: steps_def at_step_def CHECKPOINTS_def)

lemma at_step_simps [simp]:
  "j_stage_removal (at_step k j) = j_stage_removal j"
  "j_candidate_removal (at_step k j) = j_candidate_removal j"
  "j_recovery_failure (at_step k j) = j_recovery_failure j" "j_archive_path (at_step k j) = j_archive_path j"
  "j_event_id (at_step k j) = j_event_id j" "j_sequence (at_step k j) = j_sequence j"
  "j_overwrite (at_step k j) = j_overwrite j" "j_products (at_step k j) = j_products j"
  "j_service (at_step k j) = j_service j" "at_step k (at_step k' j) = at_step k j"
  "j_completed (at_step k j) = take k CHECKPOINTS"
  by (simp_all add: at_step_def)

lemma plan_journal_at_step: "plan_journal pl j \<Longrightarrow> k \<le> 6 \<Longrightarrow> plan_journal pl (at_step k j)"
  by (simp add: plan_journal_def steps_at_step)

lemma CHECKPOINTS_length: "length CHECKPOINTS = 6" and CHECKPOINTS_distinct: "distinct CHECKPOINTS"
  by (simp_all add: CHECKPOINTS_def)

lemma checkpoint_done_iff:
  assumes "k < 6" "n \<le> 6"
  shows "CHECKPOINTS ! k \<in> set (take n CHECKPOINTS) \<longleftrightarrow> k < n"
  using assms CHECKPOINTS_distinct
  by (auto simp: in_set_conv_nth CHECKPOINTS_length nth_eq_iff_index_eq)

lemma plan_journal_steps: "plan_journal pl j \<Longrightarrow> at_step (steps j) j = j \<and> steps j \<le> 6"
proof -
  assume "plan_journal pl j"
  then have "j_completed j = take (steps j) CHECKPOINTS" by (simp add: plan_journal_def)
  moreover from this have "steps j \<le> 6"
    unfolding steps_def by (metis CHECKPOINTS_length length_take min.cobounded1)
  ultimately show ?thesis by (simp add: at_step_def)
qed

text \<open>
  Recording checkpoint \<open>k\<close> when all before it are recorded. The view must be one of the phase after the
  checkpoint as well, since the journal may or may not reach the store.
\<close>

lemma checkpoint_displays:
  assumes t0: "tracks pl t0" "in_events t0 = cur" "t_journal t0 = j"
    and k: "k \<le> steps j" "k < 6" and n: "n = max (Suc k) (steps j)"
    and good: "good c pl cur r j w" "good c pl cur r (at_step n j) w"
  shows "mtriple E (\<lambda>t s. t = t0 \<and> displays pl s0 cur r j w s) (named_checkpoint (CHECKPOINTS ! k))
     (\<lambda>_ t s. t = t0\<lparr>t_journal := at_step n j\<rparr> \<and> displays pl s0 cur r (at_step n j) w s)
     (\<lambda>_ t s. \<not> quiet E \<and> lags c pl s0 t s)"
proof -
  have j: "at_step (steps j) j = j" "steps j \<le> 6"
    using good(1) plan_journal_steps by (auto simp: good_def)
  have completed: "j_completed j = take (steps j) CHECKPOINTS"
    using good(1) by (simp add: good_def plan_journal_def)
  have member: "CHECKPOINTS ! k \<in> set CHECKPOINTS"
    using k(2) by (simp add: CHECKPOINTS_length)
  let ?t1 = "set_completed (\<lambda>cs. cs @ [CHECKPOINTS ! k]) t0"
  have "mtriple E (\<lambda>t s. t = t0 \<and> displays pl s0 cur r j w s)
     (if CHECKPOINTS ! k \<in> set (j_completed (t_journal t0)) then ret ()
      else thenM (modify_mem (set_completed (\<lambda>cs. cs @ [CHECKPOINTS ! k])))
            (catchM save_journal (\<lambda>e. thenM (modify_mem (set_completed butlast)) (reraise e))))
     (\<lambda>_ t s. t = t0\<lparr>t_journal := at_step n j\<rparr> \<and> displays pl s0 cur r (at_step n j) w s)
     (\<lambda>_ t s. \<not> quiet E \<and> lags c pl s0 t s)"
  proof (cases "k < steps j")
    case True
    then have same: "at_step n j = j" using n j by simp
    have "t0\<lparr>t_journal := j\<rparr> = t0" using t0(3) by (cases t0) simp
    with same True j(2) k completed show ?thesis
      by (auto simp: t0(3) checkpoint_done_iff intro!: mtriple_ret)
  next
    case False
    then have n: "n = Suc k" "steps j = k" using k n by auto
    have t1: "?t1 = t0\<lparr>t_journal := at_step n j\<rparr>" "tracks pl ?t1" "in_events ?t1 = cur"
      using completed n k t0
      by (auto simp: set_completed_def at_step_def take_Suc_conv_app_nth CHECKPOINTS_length)
    have undo: "set_completed butlast ?t1 = t0"
      by (simp add: set_completed_def)
    have journal1: "t_journal ?t1 = at_step n j" using t1(1) by simp
    have pop: "mtriple E (\<lambda>t s. \<not> quiet E \<and> t = ?t1
          \<and> (displays pl s0 cur r j w s \<or> displays pl s0 cur r (at_step n j) w s))
        (thenM (modify_mem (set_completed butlast)) (reraise e))
        (\<lambda>_ t s. t = t0\<lparr>t_journal := at_step n j\<rparr> \<and> displays pl s0 cur r (at_step n j) w s)
        (\<lambda>_ t s. \<not> quiet E \<and> lags c pl s0 t s)" for e
      by (rule mtriple_then [where R = "\<lambda>t s. \<not> quiet E \<and> t = t0
            \<and> (displays pl s0 cur r j w s \<or> displays pl s0 cur r (at_step n j) w s)"])
         (use good t0 undo in \<open>auto simp: lags_iff intro!: mtriple_modify mtriple_reraise\<close>)
    have save: "mtriple E (\<lambda>t s. t = ?t1 \<and> displays pl s0 cur r j w s)
        (catchM save_journal (\<lambda>e. thenM (modify_mem (set_completed butlast)) (reraise e)))
        (\<lambda>_ t s. t = t0\<lparr>t_journal := at_step n j\<rparr> \<and> displays pl s0 cur r (at_step n j) w s)
        (\<lambda>_ t s. \<not> quiet E \<and> lags c pl s0 t s)"
    proof (rule mtriple_catch [OF _ pop])
      show "mtriple E (\<lambda>t s. t = ?t1 \<and> displays pl s0 cur r j w s) save_journal
          (\<lambda>_ t s. t = t0\<lparr>t_journal := at_step n j\<rparr> \<and> displays pl s0 cur r (at_step n j) w s)
          (\<lambda>e. case e of None \<Rightarrow> \<lambda>t s. \<not> quiet E \<and> lags c pl s0 t s
             | Some e' \<Rightarrow> \<lambda>t s. \<not> quiet E \<and> t = ?t1
                \<and> (displays pl s0 cur r j w s \<or> displays pl s0 cur r (at_step n j) w s))"
        using save_journal_displays [OF t1(2,3), of E s0 r j w] good t1
        by (elim mtriple_weaken) (auto simp: lags_iff journal1 split: option.splits)
    qed
    have "mtriple E (\<lambda>t s. t = t0 \<and> displays pl s0 cur r j w s)
        (thenM (modify_mem (set_completed (\<lambda>cs. cs @ [CHECKPOINTS ! k])))
            (catchM save_journal (\<lambda>e. thenM (modify_mem (set_completed butlast)) (reraise e))))
        (\<lambda>_ t s. t = t0\<lparr>t_journal := at_step n j\<rparr> \<and> displays pl s0 cur r (at_step n j) w s)
        (\<lambda>_ t s. \<not> quiet E \<and> lags c pl s0 t s)"
      by (rule mtriple_then [OF mtriple_modify save]) simp
    moreover have "CHECKPOINTS ! k \<notin> set (j_completed (t_journal t0))"
      using False j(2) k(2) completed t0(3) by (simp add: checkpoint_done_iff)
    ultimately show ?thesis by simp
  qed
  then show ?thesis
    unfolding named_checkpoint_def
    by (intro mtriple_then [where R = "\<lambda>t s. t = t0 \<and> displays pl s0 cur r j w s"]
        mtriple_check mtriple_with_mem)
       (use member in \<open>auto simp: mtriple_def\<close>)
qed

lemma intent_displays:
  assumes t0: "tracks pl t0" "in_events t0 = cur" "t_journal t0 = j"
    and i: "\<not> intent_set i j" "t1 = put_intent i True t0"
    and good: "good c pl cur r j w" "good c pl cur r (t_journal t1) w"
  shows "mtriple E (\<lambda>t s. t = t0 \<and> displays pl s0 cur r j w s) (named_intent i)
     (\<lambda>_ t s. t = t1 \<and> displays pl s0 cur r (t_journal t1) w s)
     (\<lambda>_ t s. \<not> quiet E \<and> lags c pl s0 t s)"
proof -
  have t1: "tracks pl t1" "in_events t1 = cur"
    using t0 i(2) by (cases i; simp add: tracks_def)+
  have undo: "put_intent i False t1 = t0"
    using t0(3) i by (cases i) auto
  have pop: "mtriple E (\<lambda>t s. \<not> quiet E \<and> t = t1
        \<and> (displays pl s0 cur r j w s \<or> displays pl s0 cur r (t_journal t1) w s))
      (thenM (modify_mem (put_intent i False)) (reraise e))
      (\<lambda>_ t s. t = t1 \<and> displays pl s0 cur r (t_journal t1) w s)
      (\<lambda>_ t s. \<not> quiet E \<and> lags c pl s0 t s)" for e
    by (rule mtriple_then [where R = "\<lambda>t s. \<not> quiet E \<and> t = t0
          \<and> (displays pl s0 cur r j w s \<or> displays pl s0 cur r (t_journal t1) w s)"])
       (use good t0 undo in \<open>auto simp: lags_iff intro!: mtriple_modify mtriple_reraise\<close>)
  have save: "mtriple E (\<lambda>t s. t = t1 \<and> displays pl s0 cur r j w s)
      (catchM save_journal (\<lambda>e. thenM (modify_mem (put_intent i False)) (reraise e)))
      (\<lambda>_ t s. t = t1 \<and> displays pl s0 cur r (t_journal t1) w s)
      (\<lambda>_ t s. \<not> quiet E \<and> lags c pl s0 t s)"
  proof (rule mtriple_catch [OF _ pop])
    show "mtriple E (\<lambda>t s. t = t1 \<and> displays pl s0 cur r j w s) save_journal
        (\<lambda>_ t s. t = t1 \<and> displays pl s0 cur r (t_journal t1) w s)
        (\<lambda>e. case e of None \<Rightarrow> \<lambda>t s. \<not> quiet E \<and> lags c pl s0 t s
           | Some e' \<Rightarrow> \<lambda>t s. \<not> quiet E \<and> t = t1
              \<and> (displays pl s0 cur r j w s \<or> displays pl s0 cur r (t_journal t1) w s))"
      using save_journal_displays [OF t1, of E s0 r j w] good t1
      by (elim mtriple_weaken) (auto simp: lags_iff split: option.splits)
  qed
  have set_it: "mtriple E (\<lambda>t s. t = t0 \<and> displays pl s0 cur r j w s)
      (thenM (modify_mem (put_intent i True))
         (catchM save_journal (\<lambda>e. thenM (modify_mem (put_intent i False)) (reraise e))))
      (\<lambda>_ t s. t = t1 \<and> displays pl s0 cur r (t_journal t1) w s)
      (\<lambda>_ t s. \<not> quiet E \<and> lags c pl s0 t s)"
    by (rule mtriple_then [OF mtriple_modify save]) (simp add: i)
  show ?thesis
    unfolding named_intent_def
  proof (rule mtriple_with_mem)
    fix t
    show "mtriple E (\<lambda>t' s. t' = t \<and> t = t0 \<and> displays pl s0 cur r j w s)
      (if intent_set i (t_journal t) then ret ()
       else thenM (modify_mem (put_intent i True))
            (catchM save_journal (\<lambda>e. thenM (modify_mem (put_intent i False)) (reraise e))))
      (\<lambda>_ t s. t = t1 \<and> displays pl s0 cur r (t_journal t1) w s)
      (\<lambda>_ t s. \<not> quiet E \<and> lags c pl s0 t s)"
      using set_it i(1) t0(3) by (cases "t = t0") (auto simp: mtriple_def)
  qed
qed

section \<open>Calls inside the record directory\<close>

lemma put_dir_self: "dir_at p s = Some d \<Longrightarrow> put_dir p d s = s"
  by (metis put_dir_change update_at_id)

lemma put_dir_apply: "dir_at p s = Some d \<Longrightarrow> update_at p f s = put_dir p (f d) s"
  by (rule put_dir_change)

lemma sys_in_record:
  assumes op: "\<And>s d. dir_at (record_path pl cur) s = Some d \<Longrightarrow> aget d STAGING_DIRECTORY = w_stage w \<Longrightarrow>
      aget d NATIVE_CANDIDATE_DIRECTORY = w_candidate w \<Longrightarrow>
      op s = Inr (put_dir (record_path pl cur) (f d) s)"
    and part: "\<And>s d n. dir_at (record_path pl cur) s = Some d \<Longrightarrow> aget d STAGING_DIRECTORY = w_stage w \<Longrightarrow>
      aget d NATIVE_CANDIDATE_DIRECTORY = w_candidate w \<Longrightarrow>
      part n s = put_dir (record_path pl cur) (g n d) s"
    and f: "\<And>d n. n \<noteq> name \<Longrightarrow> aget (f d) n = aget d n"
      "\<And>d k n. n \<noteq> name \<Longrightarrow> aget (g k d) n = aget d n"
      "name = STAGING_DIRECTORY \<or> name = NATIVE_CANDIDATE_DIRECTORY"
    and wn: "\<And>d. aget d STAGING_DIRECTORY = w_stage w \<Longrightarrow> aget d NATIVE_CANDIDATE_DIRECTORY = w_candidate w \<Longrightarrow>
      w\<lparr>w_stage := aget (f d) STAGING_DIRECTORY, w_candidate := aget (f d) NATIVE_CANDIDATE_DIRECTORY\<rparr> = wn"
    and B: "\<And>d k. aget d STAGING_DIRECTORY = w_stage w \<Longrightarrow> aget d NATIVE_CANDIDATE_DIRECTORY = w_candidate w \<Longrightarrow>
      B (w\<lparr>w_stage := aget (g k d) STAGING_DIRECTORY, w_candidate := aget (g k d) NATIVE_CANDIDATE_DIRECTORY\<rparr>)"
  shows "triple E (displays pl s0 cur r j w) (sys op part) (\<lambda>_. displays pl s0 cur r j wn)
     (\<lambda>_ s. \<not> quiet E \<and> (\<exists>w'. B w' \<and> displays pl s0 cur r j w' s))"
proof (rule triple_sys_ok)
  fix s assume "displays pl s0 cur r j w s"
  then obtain d where d: "elsewhere pl s0 s" "looks pl cur d w s"
      "dir_at (record_path pl cur) s = Some d"
      "aget d STATUS_FILE = Some (File (Json (record_to_dict r)))"
      "aget d TRANSACTION_FILE = Some (File (Json (journal_to_json j)))"
    by (rule displaysE)
  have views: "aget d STAGING_DIRECTORY = w_stage w" "aget d NATIVE_CANDIDATE_DIRECTORY = w_candidate w"
    using d(2) by (simp_all add: looks_def)
  have names: "STATUS_FILE \<noteq> name" "TRANSACTION_FILE \<noteq> name" using f(3) by auto
  show "\<exists>s'. op s = Inr s' \<and> displays pl s0 cur r j wn s'"
    using op [OF d(3) views] names d wn [OF views]
    by (auto intro!: displays_put_dir simp: f)
  show "(\<not> quiet E \<and> (\<exists>w'. B w' \<and> displays pl s0 cur r j w' (part n s)))
      \<and> \<not> quiet E \<and> (\<exists>w'. B w' \<and> displays pl s0 cur r j w' (part n s))" if "\<not> quiet E" for n
    using that part [OF d(3) views] names d B [OF views, of n]
    by (auto intro!: displays_put_dir exI simp: f)
qed

text \<open>A call without a partial effect leaves the view it found.\<close>

lemma sys_in_record_untouched:
  assumes op: "\<And>s d. dir_at (record_path pl cur) s = Some d \<Longrightarrow> aget d STAGING_DIRECTORY = w_stage w \<Longrightarrow>
      aget d NATIVE_CANDIDATE_DIRECTORY = w_candidate w \<Longrightarrow>
      op s = Inr (put_dir (record_path pl cur) (f d) s)"
    and f: "\<And>d n. n \<noteq> name \<Longrightarrow> aget (f d) n = aget d n"
      "name = STAGING_DIRECTORY \<or> name = NATIVE_CANDIDATE_DIRECTORY"
    and wn: "\<And>d. aget d STAGING_DIRECTORY = w_stage w \<Longrightarrow> aget d NATIVE_CANDIDATE_DIRECTORY = w_candidate w \<Longrightarrow>
      w\<lparr>w_stage := aget (f d) STAGING_DIRECTORY, w_candidate := aget (f d) NATIVE_CANDIDATE_DIRECTORY\<rparr> = wn"
  shows "triple E (displays pl s0 cur r j w) (sys op untouched) (\<lambda>_. displays pl s0 cur r j wn)
     (\<lambda>_ s. \<not> quiet E \<and> displays pl s0 cur r j w s)"
  by (rule triple_weaken [OF sys_in_record [where g = "\<lambda>_ d. d" and B = "\<lambda>w'. w' = w", OF op]])
     (use f wn in \<open>auto simp: untouched_def put_dir_self\<close>)

lemma mkdir_stage:
  assumes "w_stage w = None"
  shows "triple E (displays pl s0 cur r j w) (mkdir (record_path pl cur) STAGING_DIRECTORY)
     (\<lambda>_. displays pl s0 cur r j (w\<lparr>w_stage := Some (Dir [])\<rparr>))
     (\<lambda>_ s. \<not> quiet E \<and> displays pl s0 cur r j w s)"
  unfolding mkdir_def
  by (rule sys_in_record_untouched
      [where f = "aput STAGING_DIRECTORY (Dir [])" and name = STAGING_DIRECTORY])
     (auto simp: mkdir_effect_def put_dir_apply assms)

lemma mkdir_candidate:
  assumes "w_candidate w = None"
  shows "triple E (displays pl s0 cur r j w) (mkdir (record_path pl cur) NATIVE_CANDIDATE_DIRECTORY)
     (\<lambda>_. displays pl s0 cur r j (w\<lparr>w_candidate := Some (Dir [])\<rparr>))
     (\<lambda>_ s. \<not> quiet E \<and> displays pl s0 cur r j w s)"
  unfolding mkdir_def
  by (rule sys_in_record_untouched
      [where f = "aput NATIVE_CANDIDATE_DIRECTORY (Dir [])" and name = NATIVE_CANDIDATE_DIRECTORY])
     (auto simp: mkdir_effect_def put_dir_apply assms)

lemma rmtree_stage:
  assumes "w_stage w = Some (Dir d0)"
  shows "triple E (displays pl s0 cur r j w) (rmtree (record_path pl cur) STAGING_DIRECTORY)
     (\<lambda>_. displays pl s0 cur r j (w\<lparr>w_stage := None\<rparr>))
     (\<lambda>_ s. \<not> quiet E \<and> (\<exists>d'. displays pl s0 cur r j (w\<lparr>w_stage := Some (Dir d')\<rparr>) s))"
  unfolding rmtree_def
  by (rule triple_weaken [OF sys_in_record [where f = "adel STAGING_DIRECTORY" and name = STAGING_DIRECTORY
      and g = "\<lambda>k d. aput STAGING_DIRECTORY (Dir (drop k d0)) d" and w = w and wn = "w\<lparr>w_stage := None\<rparr>"
      and B = "\<lambda>w'. \<exists>d'. w' = w\<lparr>w_stage := Some (Dir d')\<rparr>"]])
     (auto simp: rmtree_effect_def rmtree_part_def entry_at_def put_dir_apply assms)

lemma rmtree_candidate:
  assumes "w_candidate w = Some (Dir d0)"
  shows "triple E (displays pl s0 cur r j w) (rmtree (record_path pl cur) NATIVE_CANDIDATE_DIRECTORY)
     (\<lambda>_. displays pl s0 cur r j (w\<lparr>w_candidate := None\<rparr>))
     (\<lambda>_ s. \<not> quiet E \<and> (\<exists>d'. displays pl s0 cur r j (w\<lparr>w_candidate := Some (Dir d')\<rparr>) s))"
  unfolding rmtree_def
  by (rule triple_weaken [OF sys_in_record [where f = "adel NATIVE_CANDIDATE_DIRECTORY"
      and name = NATIVE_CANDIDATE_DIRECTORY
      and g = "\<lambda>k d. aput NATIVE_CANDIDATE_DIRECTORY (Dir (drop k d0)) d" and w = w
      and wn = "w\<lparr>w_candidate := None\<rparr>"
      and B = "\<lambda>w'. \<exists>d'. w' = w\<lparr>w_candidate := Some (Dir d')\<rparr>"]])
     (auto simp: rmtree_effect_def rmtree_part_def entry_at_def put_dir_apply assms)

section \<open>Moves\<close>

lemma looks_queueD:
  assumes "looks pl False d w s"
  shows "aget (s Queue) (entry_name pl) = Some (Dir d)" "aget (s Events) (p_event pl) = w_service w"
    "aget (s Products) (p_event pl) = w_products w" "archive_entry pl s = w_archive w"
    "aget d STAGING_DIRECTORY = w_stage w" "aget d NATIVE_CANDIDATE_DIRECTORY = w_candidate w"
  using assms by (auto simp: looks_def record_path_def split: option.splits node.splits)

lemma looks_currentD:
  assumes "looks pl True d w s"
  shows "aget (s Events) (p_event pl) = Some (Dir d)" "aget (s Queue) (entry_name pl) = None"
    "w_service w = None" "aget (s Products) (p_event pl) = w_products w" "archive_entry pl s = w_archive w"
    "aget d STAGING_DIRECTORY = w_stage w" "aget d NATIVE_CANDIDATE_DIRECTORY = w_candidate w"
  using assms by (auto simp: looks_def record_path_def split: option.splits node.splits)

lemma looks_queue_all:
  "looks pl False d w s \<Longrightarrow> aget (s Queue) (entry_name pl) = Some (Dir d)
    \<and> aget (s Events) (p_event pl) = w_service w \<and> aget (s Products) (p_event pl) = w_products w
    \<and> archive_entry pl s = w_archive w \<and> aget d STAGING_DIRECTORY = w_stage w
    \<and> aget d NATIVE_CANDIDATE_DIRECTORY = w_candidate w"
  by (auto simp: looks_queueD)

text \<open>A call that cannot fail, from a store with a view to a store with another.\<close>

lemma sys_displays:
  assumes "\<And>s d. elsewhere pl s0 s \<Longrightarrow> looks pl cur d w s \<Longrightarrow>
      aget d STATUS_FILE = Some (File (Json (record_to_dict r))) \<Longrightarrow>
      aget d TRANSACTION_FILE = Some (File (Json (journal_to_json j))) \<Longrightarrow>
      \<exists>s'. op s = Inr s' \<and> displays pl s0 cur' r j w' s'"
  shows "triple E (displays pl s0 cur r j w) (sys op untouched) (\<lambda>_. displays pl s0 cur' r j w')
     (\<lambda>_ s. \<not> quiet E \<and> displays pl s0 cur r j w s)"
  by (rule triple_sys_ok) (auto simp: untouched_def intro: assms elim!: displaysE)

fun w_source :: "kind \<Rightarrow> view \<Rightarrow> node option" where
  "w_source Products_kind w = w_products w"
| "w_source Service_kind w = w_service w"

fun clear_source :: "kind \<Rightarrow> view \<Rightarrow> view" where
  "clear_source Products_kind w = w\<lparr>w_products := None\<rparr>"
| "clear_source Service_kind w = w\<lparr>w_service := None\<rparr>"

lemma stage_move:
  assumes "w_source k w = Some (Dir t)" "w_stage w = Some (Dir d0)" "aget d0 (kind_name k) = None"
  shows "triple E (displays pl s0 False r j w)
     (rename (kind_source k) (p_event pl) (child (record_path pl False) STAGING_DIRECTORY) (kind_name k))
     (\<lambda>_. displays pl s0 False r j
        ((clear_source k w)\<lparr>w_stage := Some (Dir (aput (kind_name k) (Dir t) d0))\<rparr>))
     (\<lambda>_ s. \<not> quiet E \<and> displays pl s0 False r j w s)"
  unfolding rename_def
proof (rule sys_displays)
  fix s d
  assume e: "elsewhere pl s0 s" and l: "looks pl False d w s"
    and f: "aget d STATUS_FILE = Some (File (Json (record_to_dict r)))"
      "aget d TRANSACTION_FILE = Some (File (Json (journal_to_json j)))"
  note v = looks_queueD [OF l]
  let ?d' = "aput STAGING_DIRECTORY (Dir (aput (kind_name k) (Dir t) d0)) d"
  let ?root = "fst (kind_source k)"
  let ?s' = "(s(?root := adel (p_event pl) (s ?root)))(Queue := aput (entry_name pl) (Dir ?d') (s Queue))"
  have "rename_effect (kind_source k) (p_event pl) (child (record_path pl False) STAGING_DIRECTORY)
      (kind_name k) s = Inr ?s'"
    using assms v
    by (cases k)
       (simp_all add: rename_effect_def entry_at_def child_def record_path_def dir_at_def update_at_def
         fun_upd_twist)
  moreover have "displays pl s0 False r j
      ((clear_source k w)\<lparr>w_stage := Some (Dir (aput (kind_name k) (Dir t) d0))\<rparr>) ?s'"
    unfolding displays_def
  proof (intro conjI exI [of _ ?d'])
    show "elsewhere pl s0 ?s'"
      using e by (cases k) (auto simp: elsewhere_def touched_def)
    show "looks pl False ?d' ((clear_source k w)\<lparr>w_stage := Some (Dir (aput (kind_name k) (Dir t) d0))\<rparr>) ?s'"
      using v by (cases k) (auto simp: looks_def record_path_def archive_entry_def split: option.splits)
  qed (simp_all add: f)
  ultimately show "\<exists>s'. rename_effect (kind_source k) (p_event pl)
      (child (record_path pl False) STAGING_DIRECTORY) (kind_name k) s = Inr s'
      \<and> displays pl s0 False r j
         ((clear_source k w)\<lparr>w_stage := Some (Dir (aput (kind_name k) (Dir t) d0))\<rparr>) s'"
    by blast
qed

lemma archive_move:
  assumes "w_stage w = Some (Dir d0)" "w_archive w = None" "p_archive pl = Some a"
  shows "triple E (displays pl s0 False r j w)
     (rename (record_path pl False) STAGING_DIRECTORY (Archive, []) (path_name a))
     (\<lambda>_. displays pl s0 False r j (w\<lparr>w_stage := None, w_archive := Some (Dir d0)\<rparr>))
     (\<lambda>_ s. \<not> quiet E \<and> displays pl s0 False r j w s)"
  unfolding rename_def
proof (rule sys_displays)
  fix s d
  assume e: "elsewhere pl s0 s" and l: "looks pl False d w s"
    and f: "aget d STATUS_FILE = Some (File (Json (record_to_dict r)))"
      "aget d TRANSACTION_FILE = Some (File (Json (journal_to_json j)))"
  note v = looks_queueD [OF l]
  let ?d' = "adel STAGING_DIRECTORY d"
  let ?s' = "s(Queue := aput (entry_name pl) (Dir ?d') (s Queue),
    Archive := aput (path_name a) (Dir d0) (s Archive))"
  have "aget (s Archive) (path_name a) = None"
    using v(4) assms by (simp add: archive_entry_def)
  then have "rename_effect (record_path pl False) STAGING_DIRECTORY (Archive, []) (path_name a) s = Inr ?s'"
    using assms v by (simp add: rename_effect_def entry_at_def record_path_def)
  moreover have "displays pl s0 False r j (w\<lparr>w_stage := None, w_archive := Some (Dir d0)\<rparr>) ?s'"
    unfolding displays_def
    using e v assms f
    by (intro conjI exI [of _ ?d'])
       (auto simp: elsewhere_def touched_def looks_def record_path_def archive_entry_def)
  ultimately show "\<exists>s'. rename_effect (record_path pl False) STAGING_DIRECTORY (Archive, []) (path_name a) s
      = Inr s' \<and> displays pl s0 False r j (w\<lparr>w_stage := None, w_archive := Some (Dir d0)\<rparr>) s'"
    by blast
qed

lemma promote_move:
  assumes "w_service w = None"
  shows "triple E (displays pl s0 False r j w)
     (rename (Queue, []) (entry_name pl) (Events, []) (p_event pl))
     (\<lambda>_. displays pl s0 True r j w) (\<lambda>_ s. \<not> quiet E \<and> displays pl s0 False r j w s)"
  unfolding rename_def
proof (rule sys_displays)
  fix s d
  assume e: "elsewhere pl s0 s" and l: "looks pl False d w s"
    and f: "aget d STATUS_FILE = Some (File (Json (record_to_dict r)))"
      "aget d TRANSACTION_FILE = Some (File (Json (journal_to_json j)))"
  note v = looks_queueD [OF l]
  let ?s' = "s(Queue := adel (entry_name pl) (s Queue), Events := aput (p_event pl) (Dir d) (s Events))"
  have "rename_effect (Queue, []) (entry_name pl) (Events, []) (p_event pl) s = Inr ?s'"
    using assms v by (simp add: rename_effect_def entry_at_def)
  moreover have "displays pl s0 True r j w ?s'"
    unfolding displays_def
    using e v assms f
    by (intro conjI exI [of _ d])
       (auto simp: elsewhere_def touched_def looks_def record_path_def archive_entry_def split: option.splits)
  ultimately show "\<exists>s'. rename_effect (Queue, []) (entry_name pl) (Events, []) (p_event pl) s = Inr s'
      \<and> displays pl s0 True r j w s'"
    by blast
qed

lemma publish_move:
  assumes "w_candidate w = Some (Dir d0)" "w_products w = None"
  shows "triple E (displays pl s0 True r j w)
     (rename (record_path pl True) NATIVE_CANDIDATE_DIRECTORY (Products, []) (p_event pl))
     (\<lambda>_. displays pl s0 True r j (w\<lparr>w_candidate := None, w_products := Some (Dir d0)\<rparr>))
     (\<lambda>_ s. \<not> quiet E \<and> displays pl s0 True r j w s)"
  unfolding rename_def
proof (rule sys_displays)
  fix s d
  assume e: "elsewhere pl s0 s" and l: "looks pl True d w s"
    and f: "aget d STATUS_FILE = Some (File (Json (record_to_dict r)))"
      "aget d TRANSACTION_FILE = Some (File (Json (journal_to_json j)))"
  note v = looks_currentD [OF l]
  let ?d' = "adel NATIVE_CANDIDATE_DIRECTORY d"
  let ?s' = "s(Events := aput (p_event pl) (Dir ?d') (s Events),
    Products := aput (p_event pl) (Dir d0) (s Products))"
  have "rename_effect (record_path pl True) NATIVE_CANDIDATE_DIRECTORY (Products, []) (p_event pl) s = Inr ?s'"
    using assms v by (simp add: rename_effect_def entry_at_def record_path_def)
  moreover have "displays pl s0 True r j (w\<lparr>w_candidate := None, w_products := Some (Dir d0)\<rparr>) ?s'"
    unfolding displays_def
    using e v assms f
    by (intro conjI exI [of _ ?d'])
       (auto simp: elsewhere_def touched_def looks_def record_path_def archive_entry_def split: option.splits)
  ultimately show "\<exists>s'. rename_effect (record_path pl True) NATIVE_CANDIDATE_DIRECTORY (Products, [])
      (p_event pl) s = Inr s'
      \<and> displays pl s0 True r j (w\<lparr>w_candidate := None, w_products := Some (Dir d0)\<rparr>) s'"
    by blast
qed

section \<open>Inside the native candidate\<close>

definition with_candidate ::
  "plan \<Rightarrow> fsys \<Rightarrow> bool \<Rightarrow> calculation_record \<Rightarrow> journal \<Rightarrow> view \<Rightarrow> fsys \<Rightarrow> bool" where
  "with_candidate pl s0 cur r j w s \<longleftrightarrow>
     (\<exists>d. displays pl s0 cur r j (w\<lparr>w_candidate := Some (Dir d)\<rparr>) s)"

lemma candidate_update:
  assumes "with_candidate pl s0 cur r j w s" "record_path pl cur = (k, [n])"
  shows "with_candidate pl s0 cur r j w (update_at (k, n # NATIVE_CANDIDATE_DIRECTORY # rest) f s)"
proof -
  obtain c where "displays pl s0 cur r j (w\<lparr>w_candidate := Some (Dir c)\<rparr>) s"
    using assms(1) by (auto simp: with_candidate_def)
  then obtain d where d: "elsewhere pl s0 s" "looks pl cur d (w\<lparr>w_candidate := Some (Dir c)\<rparr>) s"
      "dir_at (record_path pl cur) s = Some d"
      "aget d STATUS_FILE = Some (File (Json (record_to_dict r)))"
      "aget d TRANSACTION_FILE = Some (File (Json (journal_to_json j)))"
    by (rule displaysE)
  let ?d' = "aput NATIVE_CANDIDATE_DIRECTORY (Dir (change_at f rest c)) d"
  have cand: "aget d NATIVE_CANDIDATE_DIRECTORY = Some (Dir c)" "aget d STAGING_DIRECTORY = w_stage w"
    using d(2) by (simp_all add: looks_def)
  then have "update_at (k, n # NATIVE_CANDIDATE_DIRECTORY # rest) f s = put_dir (record_path pl cur) ?d' s"
    using d(3) assms(2) by (auto simp: update_at_def put_dir_def split: option.splits node.splits)
  moreover have "displays pl s0 cur r j (w\<lparr>w_candidate := Some (Dir (change_at f rest c))\<rparr>)
      (put_dir (record_path pl cur) ?d' s)"
    by (rule displays_put_dir [OF d(1,2)]) (simp_all add: d cand)
  ultimately show ?thesis unfolding with_candidate_def by auto
qed

lemma candidate_sys:
  assumes "record_path pl cur = (k, [n])"
    and "\<And>s s'. op s = Inr s' \<Longrightarrow> \<exists>rest f. s' = update_at (k, n # NATIVE_CANDIDATE_DIRECTORY # rest) f s"
  shows "triple E (with_candidate pl s0 cur r j w) (sys op untouched)
     (\<lambda>_. with_candidate pl s0 cur r j w) (\<lambda>_. with_candidate pl s0 cur r j w)"
  by (rule triple_sys)
     (auto simp: untouched_def intro: candidate_update [OF _ assms(1)] dest!: assms(2))

lemma candidate_calls:
  assumes "record_path pl cur = (k, [n])"
  shows "triple E (with_candidate pl s0 cur r j w) (mkdir (k, n # NATIVE_CANDIDATE_DIRECTORY # rest) m)
      (\<lambda>_. with_candidate pl s0 cur r j w) (\<lambda>_. with_candidate pl s0 cur r j w)"
    and "triple E (with_candidate pl s0 cur r j w) (create_file (k, n # NATIVE_CANDIDATE_DIRECTORY # rest) m)
      (\<lambda>_. with_candidate pl s0 cur r j w) (\<lambda>_. with_candidate pl s0 cur r j w)"
    and "triple E (with_candidate pl s0 cur r j w) (write_file (k, n # NATIVE_CANDIDATE_DIRECTORY # rest) m c)
      (\<lambda>_. with_candidate pl s0 cur r j w) (\<lambda>_. with_candidate pl s0 cur r j w)"
  unfolding mkdir_def create_file_def write_file_def
  by (rule candidate_sys [OF assms],
      force simp: mkdir_effect_def create_effect_def write_effect_def split: option.splits if_splits)+

lemma copy_displays:
  assumes "record_path pl cur = (k, [n])"
  shows "triple E (with_candidate pl s0 cur r j w)
     (copy_request_file request (k, n # NATIVE_CANDIDATE_DIRECTORY # rest) item)
     (\<lambda>_. with_candidate pl s0 cur r j w) (\<lambda>_. with_candidate pl s0 cur r j w)"
  unfolding copy_request_file_def
  by (cases item)
     (auto intro!: triple_bind [where R = "\<lambda>_. with_candidate pl s0 cur r j w"]
        triple_then [where R = "with_candidate pl s0 cur r j w"] triple_observe triple_ask triple_check
        triple_fsync candidate_calls [OF assms])

section \<open>The stored record\<close>

lemma revalidate_displays:
  "triple E (displays pl s0 cur r j w) (revalidate_status (record_path pl cur) r)
     (\<lambda>_. displays pl s0 cur r j w) (\<lambda>_ _. False)"
  unfolding revalidate_status_def
  by (rule triple_observe)
     (auto elim!: displaysE simp: read_json_def open_regular_def entry_at_def)

lemma displays_stored:
  assumes "displays pl s0 True r j w s1" "dir_at (Events, [p_event pl]) s1 = Some d"
  shows "dir_in (Events, [p_event pl]) s1 (agree (stored r' d)) s \<Longrightarrow> displays pl s0 True r' j w s"
    and "dir_in (Events, [p_event pl]) s1 (agree d) s \<Longrightarrow> displays pl s0 True r j w s"
proof -
  have path: "record_path pl True = (Events, [p_event pl])" by (simp add: record_path_def)
  obtain d1 where d1: "elsewhere pl s0 s1" "looks pl True d1 w s1"
      "dir_at (record_path pl True) s1 = Some d1"
      "aget d1 STATUS_FILE = Some (File (Json (record_to_dict r)))"
      "aget d1 TRANSACTION_FILE = Some (File (Json (journal_to_json j)))"
    using assms(1) by (rule displaysE)
  with assms(2) path have d: "d1 = d" by simp
  show "displays pl s0 True r' j w s" if "dir_in (Events, [p_event pl]) s1 (agree (stored r' d)) s"
    using that d1 d path
    by (elim dir_inE) (auto intro!: displays_agree [OF d1(1,2), of "stored r' d", unfolded path] simp: stored_def)
  show "displays pl s0 True r j w s" if "dir_in (Events, [p_event pl]) s1 (agree d) s"
    using that d1 d path
    by (elim dir_inE) (auto intro!: displays_agree [OF d1(1,2), of d, unfolded path])
qed

lemma fail_displays:
  assumes rec: "plan_record (cfg E) pl True r" "state_of r = Some RUNNING" and clk: "clock_valid E"
    and f: "failure_ok f"
  shows "triple E (displays pl s0 True r j w) (transition_current_record (p_event pl) FAILED (failure_args f))
     (\<lambda>r' s. plan_record (cfg E) pl True r' \<and> state_of r' = Some FAILED \<and> displays pl s0 True r' j w s)
     (\<lambda>_ s. \<not> quiet E \<and> (\<exists>r'. plan_record (cfg E) pl True r' \<and> displays pl s0 True r' j w s))"
    (is "triple E _ _ ?Q ?X")
proof (rule triple_fixed)
  fix s1 assume D: "displays pl s0 True r j w s1"
  then obtain d where d: "dir_at (Events, [p_event pl]) s1 = Some d"
      "aget d STATUS_FILE = Some (File (Json (record_to_dict r)))"
    by (elim displaysE) (simp add: record_path_def)
  have valid: "valid_record (cfg E) r" and event: "event_id_of r = p_event pl"
    using rec by (simp_all add: plan_record_def)
  then have ok: "valid_event_id (p_event pl)" using valid_record_identity(2) by metis
  have same: "plan_record (cfg E) pl True r'"
    if "valid_record (cfg E) r'" "state_of r' = Some FAILED" "same_identity r r'" for r'
    using that same_identityD [OF that(3)] rec by (simp add: plan_record_def same_identity_def)
  have step: "\<exists>r'. transition_record now FAILED (failure_args f) r = Inr r' \<and> valid_record (cfg E) r' \<and> True"
    if "valid_ts (JStr now)" for now
    using fail_transition [OF valid rec(2), of "failure_args f" f service_failed now] f that
      valid_recordD(6) [OF valid rec(2)]
    by (auto simp: failure_args_def no_args_def service_failed_def)
  have "triple E (\<lambda>s. s = s1)
      (transition_record_directory (Events, [p_event pl]) FAILED None (Some (p_event pl)) (failure_args f)) ?Q ?X"
    by (rule triple_weaken [OF triple_transition [OF d valid _ _ clk step]])
       (auto simp: event dir_in_def dest: same displays_stored [OF D d(1)]
         intro: exI [of _ r] rec(1) dest: displays_stored(1) [OF D d(1), OF dir_inI]
           displays_stored(2) [OF D d(1), OF dir_inI])
  then show "triple E (\<lambda>s. s = s1) (transition_current_record (p_event pl) FAILED (failure_args f)) ?Q ?X"
    unfolding transition_current_record_def event_service_dir_def
    by (intro triple_then [where R = "\<lambda>s. s = s1"] triple_check triple_bind [where R = "\<lambda>_ s. s = s1"]
        triple_liftE) (simp_all add: ok)
qed

section \<open>Removing the journal\<close>

definition can_settle :: "settings \<Rightarrow> plan \<Rightarrow> calculation_record \<Rightarrow> view \<Rightarrow> bool" where
  "can_settle c pl r w \<longleftrightarrow>
     plan_record c pl True r \<and> state_of r = Some FAILED \<and> w_stage w = None \<and> w_candidate w = None
     \<and> absent_or_dir (w_products w) \<and> (p_archive pl \<noteq> None \<longrightarrow> archived pl w)"

text \<open>The store when only the journal is gone.\<close>

definition unlinked :: "plan \<Rightarrow> fsys \<Rightarrow> calculation_record \<Rightarrow> view \<Rightarrow> fsys \<Rightarrow> bool" where
  "unlinked pl s0 r w s \<longleftrightarrow>
     elsewhere pl s0 s
     \<and> (\<exists>d. looks pl True d w s \<and> aget d STATUS_FILE = Some (File (Json (record_to_dict r)))
          \<and> aget d TRANSACTION_FILE = None)"

lemma unlinked_settled: "can_settle c pl r w \<Longrightarrow> unlinked pl s0 r w s \<Longrightarrow> settled c pl s0 s"
  unfolding can_settle_def unlinked_def settled_def by blast

lemma unlinked_put_dir:
  assumes "elsewhere pl s0 s" "looks pl True d w s" "agree d d'"
    and "aget d STATUS_FILE = Some (File (Json (record_to_dict r)))" "aget d TRANSACTION_FILE = None"
  shows "unlinked pl s0 r w (put_dir (record_path pl True) d' s)"
proof -
  have same: "aget d' n = aget d n" if "\<not> tmp_name n" for n using assms(3) that by (simp add: agree_def)
  have "w\<lparr>w_stage := aget d' STAGING_DIRECTORY, w_candidate := aget d' NATIVE_CANDIDATE_DIRECTORY\<rparr> = w"
    using assms(2) by (simp add: same looks_def)
  then have "looks pl True d' w (put_dir (record_path pl True) d' s)"
    using looks_put_dir [OF assms(2), of d'] by simp
  then show ?thesis
    unfolding unlinked_def using elsewhere_put_dir [OF assms(1)] assms(4,5) by (auto simp: same)
qed

lemma unlink_journal:
  "triple E (displays pl s0 True r j w) (unlink (record_path pl True) TRANSACTION_FILE)
     (\<lambda>_. unlinked pl s0 r w)
     (\<lambda>e s. \<not> quiet E \<and> (e = Some injected \<or> e = None) \<and> displays pl s0 True r j w s)"
  unfolding unlink_def
proof (rule triple_sys_ok)
  fix s assume "displays pl s0 True r j w s"
  then obtain d where d: "elsewhere pl s0 s" "looks pl True d w s"
      "dir_at (record_path pl True) s = Some d"
      "aget d STATUS_FILE = Some (File (Json (record_to_dict r)))"
      "aget d TRANSACTION_FILE = Some (File (Json (journal_to_json j)))"
    by (rule displaysE)
  let ?d' = "adel TRANSACTION_FILE d"
  have view: "w\<lparr>w_stage := aget ?d' STAGING_DIRECTORY, w_candidate := aget ?d' NATIVE_CANDIDATE_DIRECTORY\<rparr> = w"
    using d(2) by (simp add: looks_def)
  have "unlink_effect (record_path pl True) TRANSACTION_FILE s = Inr (put_dir (record_path pl True) ?d' s)"
    using d(3,5) by (simp add: unlink_effect_def entry_at_def put_dir_apply)
  moreover have "unlinked pl s0 r w (put_dir (record_path pl True) ?d' s)"
    unfolding unlinked_def
    using elsewhere_put_dir [OF d(1)] looks_put_dir [OF d(2), of ?d', unfolded view] d(4) by auto
  ultimately show "\<exists>s'. unlink_effect (record_path pl True) TRANSACTION_FILE s = Inr s' \<and> unlinked pl s0 r w s'"
    by blast
qed (simp add: untouched_def)

text \<open>Writing a journal again after it was removed.\<close>

lemma write_journal_unlinked:
  "triple E (unlinked pl s0 r w) (write_journal (record_path pl True) j)
     (\<lambda>_. displays pl s0 True r j w)
     (\<lambda>_ s. \<not> quiet E \<and> (unlinked pl s0 r w s \<or> displays pl s0 True r j w s))"
proof (rule triple_fixed)
  fix s1 assume "unlinked pl s0 r w s1"
  then obtain d where d: "elsewhere pl s0 s1" "looks pl True d w s1"
      "aget d STATUS_FILE = Some (File (Json (record_to_dict r)))" "aget d TRANSACTION_FILE = None"
    unfolding unlinked_def by blast
  then have at: "dir_at (record_path pl True) s1 = Some d" by (simp add: looks_def)
  let ?new = "aput TRANSACTION_FILE (File (Json (journal_to_json j))) d"
  have new: "displays pl s0 True r j w s" if "dir_in (record_path pl True) s1 (agree ?new) s" for s
    using that by (elim dir_inE) (auto intro!: displays_agree [OF d(1,2), of ?new] simp: d)
  have old: "unlinked pl s0 r w s" if "dir_in (record_path pl True) s1 (agree d) s" for s
    using that by (elim dir_inE) (auto intro!: unlinked_put_dir [OF d(1,2) _ d(3,4)])
  have either: "unlinked pl s0 r w s \<or> displays pl s0 True r j w s"
    if "dir_in (record_path pl True) s1 (\<lambda>d'. agree d d' \<or> agree ?new d') s" for s
    using that old new by (auto simp: dir_in_def)
  show "triple E (\<lambda>s. s = s1) (write_journal (record_path pl True) j)
     (\<lambda>_. displays pl s0 True r j w)
     (\<lambda>_ s. \<not> quiet E \<and> (unlinked pl s0 r w s \<or> displays pl s0 True r j w s))"
    unfolding write_journal_def
    by (rule triple_weaken [OF triple_publish [OF at not_temporary(2) tmp_journal]])
       (use d(4) new either in auto)
qed

end
