(* ===== verification/Recovery.thy ===== *)
theory Recovery
  imports Transaction_Steps
begin

text \<open>
  Reconciliation, executed symbolically: from every state of a transaction in progress, for every
  fault, each step of \<open>reconcile_transaction\<close> either leaves a state of the same transaction or is the
  last one; none of its checks can fail.
\<close>

section \<open>Symbolic execution\<close>

lemma mtriple_read:
  assumes "\<And>t s. P t s \<Longrightarrow> f E s = Inr v" "mtriple E P (g v) Q X"
  shows "mtriple E P (bindM (observe f) g) Q X"
proof (rule mtriple_bind [where R = "\<lambda>x t s. x = v \<and> P t s"])
  show "mtriple E P (observe f) (\<lambda>x t s. x = v \<and> P t s) X"
    by (rule mtriple_observe) (use assms(1) in auto)
  show "mtriple E (\<lambda>t s. x = v \<and> P t s) (g x) Q X" for x
    by (rule mtriple_pure) (use assms(2) in simp)
qed

lemma mtriple_recall:
  assumes "\<And>t s. P t s \<Longrightarrow> t = t0" "mtriple E P (g t0) Q X"
  shows "mtriple E P (bindM get_mem g) Q X"
proof (rule mtriple_bind [where R = "\<lambda>x t s. x = t0 \<and> P t s"])
  show "mtriple E P get_mem (\<lambda>x t s. x = t0 \<and> P t s) X"
    by (rule mtriple_get) (use assms(1) in auto)
  show "mtriple E (\<lambda>t s. x = t0 \<and> P t s) (g x) Q X" for x
    by (rule mtriple_pure) (use assms(2) in simp)
qed

lemma mtriple_checked:
  "ok \<Longrightarrow> mtriple E P n Q X \<Longrightarrow> mtriple E P (thenM (check ok k msg) n) Q X"
  by (rule mtriple_then [where R = P]) (auto intro: mtriple_check)

lemma mtriple_lifted:
  "ok \<Longrightarrow> mtriple E P n Q X \<Longrightarrow> r = Inr () \<Longrightarrow> mtriple E P (thenM (liftE r) n) Q X"
  by (rule mtriple_then [where R = P]) (auto intro: mtriple_liftE)

lemma mtriple_ex:
  fixes m :: "('m, 'a) io"
  assumes "\<And>a. mtriple E (P a) m Q X"
  shows "mtriple E (\<lambda>t s. \<exists>a. P a t s) m Q X"
  by (rule mtripleI) (use assms in \<open>blast dest: mtripleD\<close>)+

section \<open>An open transaction\<close>

definition tx :: "calculation_record \<Rightarrow> bool \<Rightarrow> journal \<Rightarrow> transaction" where
  "tx r cur j = \<lparr>t_record = r, in_events = cur, t_journal = j\<rparr>"

lemma tx_simps [simp]:
  "t_record (tx r cur j) = r" "in_events (tx r cur j) = cur" "t_journal (tx r cur j) = j"
  "(tx r cur j)\<lparr>t_journal := j'\<rparr> = tx r cur j'" "enter_events (tx r cur j) = tx r True j"
  "set_record r' (tx r cur j) = tx r' cur j"
  by (simp_all add: tx_def enter_events_def set_record_def)

definition opened ::
  "plan \<Rightarrow> fsys \<Rightarrow> calculation_record \<Rightarrow> bool \<Rightarrow> journal \<Rightarrow> view \<Rightarrow> transaction \<Rightarrow> fsys \<Rightarrow> bool" where
  "opened pl s0 r cur j w t s \<longleftrightarrow> t = tx r cur j \<and> displays pl s0 cur r j w s"

lemma openedD: "opened pl s0 r cur j w t s \<Longrightarrow> displays pl s0 cur r j w s"
  and opened_mem: "opened pl s0 r cur j w t s \<Longrightarrow> t = tx r cur j"
  by (simp_all add: opened_def)

definition failing :: "env \<Rightarrow> plan \<Rightarrow> fsys \<Rightarrow> exn option \<Rightarrow> transaction \<Rightarrow> fsys \<Rightarrow> bool" where
  "failing E pl s0 e t s \<longleftrightarrow> \<not> quiet E \<and> lags (cfg E) pl s0 t s"

lemma good_tracks: "good c pl cur r j w \<Longrightarrow> tracks pl (tx r cur j')"
  by (simp add: good_def plan_record_def tracks_def)

lemma good_record:
  assumes "good c pl cur r j w"
  shows "event_id_of r = p_event pl" "sequence_of r = p_sequence pl"
    "r_overwrite r = JBool (p_overwrite pl)" "valid_record c r"
    "record_dir (tx r cur j') = record_path pl cur"
  using assms record_dir_path [OF good_tracks [OF assms]] by (simp_all add: good_def plan_record_def)

lemma good_journal:
  assumes "good c pl cur r j w"
  shows "j_event_id j = p_event pl" "j_sequence j = p_sequence pl" "j_overwrite j = p_overwrite pl"
    "j_products j = (p_products pl \<noteq> None)" "j_service j = (p_service pl \<noteq> None)"
    "j_archive_path j = p_archive pl" "j_completed j = take (steps j) CHECKPOINTS" "steps j \<le> 6"
  using assms plan_journal_steps [of pl j] by (auto simp: good_def plan_journal_def)

lemma opened_lags: "good c pl cur r j w \<Longrightarrow> opened pl s0 r cur j w t s \<Longrightarrow> lags c pl s0 t s"
  by (auto simp: opened_def lags_iff good_tracks)

lemma step_fsync:
  assumes "good (cfg E) pl cur r j w"
  shows "mtriple E (opened pl s0 r cur j w) fsync (\<lambda>_. opened pl s0 r cur j w) (failing E pl s0)"
  by (rule mtriple_fsync) (auto simp: failing_def opened_lags [OF assms])

lemma step_call:
  assumes "triple E (displays pl s0 cur r j w) m (\<lambda>_. displays pl s0 cur r j w')
      (\<lambda>_ s. \<not> quiet E \<and> displays pl s0 cur r j w s)"
    and "keeps_mem m" "good (cfg E) pl cur r j w"
  shows "mtriple E (opened pl s0 r cur j w) m (\<lambda>_. opened pl s0 r cur j w') (failing E pl s0)"
proof (rule mtriple_lift [OF assms(2)])
  fix t
  show "triple E (opened pl s0 r cur j w t) m (\<lambda>x. opened pl s0 r cur j w' t) (\<lambda>e. failing E pl s0 e t)"
    unfolding opened_def
    by (rule triple_pure, rule triple_weaken [OF assms(1)])
       (auto simp: failing_def opened_def intro: opened_lags [OF assms(3), unfolded opened_def])
qed

lemma step_checkpoint:
  assumes "good (cfg E) pl cur r j w" "good (cfg E) pl cur r (at_step n j) w"
    and "k \<le> steps j" "k < 6" "n = max (Suc k) (steps j)" "cp = CHECKPOINTS ! k"
  shows "mtriple E (opened pl s0 r cur j w) (named_checkpoint cp)
     (\<lambda>_. opened pl s0 r cur (at_step n j) w) (failing E pl s0)"
  unfolding assms(6)
  by (rule mtriple_weaken [OF checkpoint_displays [OF good_tracks [OF assms(1)] tx_simps(2,3) assms(3,4,5,1,2)]])
     (auto simp: opened_def failing_def)

text \<open>The six checkpoints by name.\<close>

lemma checkpoint_nth:
  "''products_staged'' = CHECKPOINTS ! 0" "''service_staged'' = CHECKPOINTS ! 1"
  "''preceding_disposed'' = CHECKPOINTS ! 2" "''record_promoted'' = CHECKPOINTS ! 3"
  "''candidate_ready'' = CHECKPOINTS ! 4" "''native_tree_published'' = CHECKPOINTS ! 5"
  by (simp_all add: CHECKPOINTS_def)

lemma step_intent:
  assumes "good (cfg E) pl cur r j w" "\<not> intent_set i j" "good (cfg E) pl cur r j1 w"
    and "put_intent i True (tx r cur j) = tx r cur j1"
  shows "mtriple E (opened pl s0 r cur j w) (named_intent i)
     (\<lambda>_. opened pl s0 r cur j1 w) (failing E pl s0)"
proof -
  have "good (cfg E) pl cur r (t_journal (tx r cur j1)) w" using assms(3) by simp
  from intent_displays [OF good_tracks [OF assms(1)] tx_simps(2,3) assms(2) assms(4) [symmetric] assms(1) this]
  show ?thesis
    by (rule mtriple_weaken) (auto simp: opened_def failing_def)
qed

section \<open>Views while staging\<close>

fun tree_of :: "plan \<Rightarrow> kind \<Rightarrow> dirc option" where
  "tree_of pl Products_kind = p_products pl"
| "tree_of pl Service_kind = p_service pl"

definition moved :: "kind \<Rightarrow> view \<Rightarrow> view" where
  "moved k w =
     (case (w_source k w, w_stage w) of
        (Some (Dir t), Some (Dir d)) \<Rightarrow> (clear_source k w)\<lparr>w_stage := Some (Dir (aput (kind_name k) (Dir t) d))\<rparr>
      | _ \<Rightarrow> w)"

definition staged :: "plan \<Rightarrow> view \<Rightarrow> dirc \<Rightarrow> bool" where
  "staged pl w d \<longleftrightarrow> w_stage w = Some (Dir d) \<and> staging pl w"

lemma kind_names_differ [simp]:
  "lit ''products'' \<noteq> lit ''service''" "lit ''service'' \<noteq> lit ''products''"
  by (simp_all add: lit_inject)

lemma stagedD:
  assumes "staged pl w d"
  shows "one_of (tree_of pl k) (w_source k w) (aget d (kind_name k))"
    "set (akeys d) \<subseteq> {lit ''products'', lit ''service''}" "w_stage w = Some (Dir d)"
  using assms by (cases k; simp add: staged_def staging_def)+

lemma one_of_cases:
  assumes "one_of tree source there"
  shows "absent_or_dir source \<and> absent_or_dir there
    \<and> (source \<noteq> None \<or> there \<noteq> None \<longleftrightarrow> tree \<noteq> None) \<and> (source = None \<or> there = None)
    \<and> (source = None \<longrightarrow> there = map_option Dir tree)"
  using assms by (cases tree) (auto simp: one_of_def absent_or_dir_def)

lemma clear_source_simps [simp]:
  "w_archive (clear_source k w) = w_archive w" "w_candidate (clear_source k w) = w_candidate w"
  by (cases k; simp)+

lemma staged_moved:
  assumes "staged pl w d"
  shows "\<exists>d'. staged pl (moved k w) d'" and "w_source k (moved k w) = None"
    and "w_source k' w = None \<Longrightarrow> w_source k' (moved k w) = None"
    and "w_archive (moved k w) = w_archive w" "w_candidate (moved k w) = w_candidate w"
proof -
  note o = one_of_cases [OF stagedD(1) [OF assms, of k]]
  consider "w_source k w = None" | t where "w_source k w = Some (Dir t)"
    using o by (auto simp: absent_or_dir_def)
  note cases = this
  show "\<exists>d'. staged pl (moved k w) d'"
    using cases
  proof cases
    case 1
    with assms show ?thesis by (auto simp: moved_def)
  next
    case (2 t)
    then have "aget d (kind_name k) = None" "tree_of pl k = Some t"
      using o stagedD(1) [OF assms, of k] by (auto simp: one_of_def)
    then have "staged pl (moved k w) (aput (kind_name k) (Dir t) d)"
      using assms 2 stagedD(3) [OF assms]
      by (cases k) (auto simp: moved_def staged_def staging_def one_of_def)
    then show ?thesis ..
  qed
  show "w_source k (moved k w) = None"
    using cases stagedD(3) [OF assms] by cases (cases k; simp add: moved_def)+
  show "w_source k' w = None \<Longrightarrow> w_source k' (moved k w) = None"
    using cases stagedD(3) [OF assms] by cases (cases k; cases k'; simp add: moved_def)+
  show "w_archive (moved k w) = w_archive w" "w_candidate (moved k w) = w_candidate w"
    by (simp_all add: moved_def split: option.splits node.splits)
qed

lemma staged_all:
  assumes "staged pl w d" "w_products w = None" "w_service w = None"
  shows "retained pl d"
  using assms one_of_cases [OF stagedD(1) [OF assms(1), of Products_kind]]
    one_of_cases [OF stagedD(1) [OF assms(1), of Service_kind]] stagedD(2) [OF assms(1)]
  by (simp add: retained_def)

lemma staging_absent_stage:
  "staging pl w \<Longrightarrow> w_stage w = None \<Longrightarrow> staged pl (w\<lparr>w_stage := Some (Dir [])\<rparr>) []"
  by (auto simp: staged_def staging_def one_of_def)

lemma staging_cases: "staging pl w \<Longrightarrow> w_stage w = None \<or> (\<exists>d. staged pl w d)"
  by (auto simp: staging_def staged_def split: option.splits node.splits)

text \<open>What is good while staging.\<close>

lemma good_staging:
  assumes "good c pl False r j w" "staging pl w'" "\<not> j_stage_removal j" "n \<le> 2"
    and "w_archive w' = None" "w_candidate w' = None"
  shows "good c pl False r (at_step n j) w'"
  using assms
  by (auto simp: good_def phase_def queue_phase_def plan_journal_at_step steps_at_step)

lemma staging_good_same:
  assumes "good c pl False r j w" "staging pl w'" "\<not> j_stage_removal j" "steps j \<le> 2"
    and "w_archive w' = None" "w_candidate w' = None"
  shows "good c pl False r j w'"
proof -
  have "at_step (steps j) j = j" using assms(1) plan_journal_steps by (auto simp: good_def)
  with good_staging [OF assms] show ?thesis by simp
qed

section \<open>Reads\<close>

lemma read_source:
  assumes "displays pl s0 False r j w s" "absent_or_dir (w_source k w)"
  shows "safe_directory_entry (kind_source k) (p_event pl) s = Inr (w_source k w \<noteq> None)"
  using assms
  by (cases k)
     (auto elim!: displaysE dest!: looks_queue_all simp: safe_directory_entry_def entry_at_def absent_or_dir_def)

lemma read_private:
  assumes "displays pl s0 cur r j w s"
  shows "absent_or_dir (w_stage w) \<Longrightarrow>
      safe_directory_entry (record_path pl cur) STAGING_DIRECTORY s = Inr (w_stage w \<noteq> None)"
    and "absent_or_dir (w_candidate w) \<Longrightarrow>
      safe_directory_entry (record_path pl cur) NATIVE_CANDIDATE_DIRECTORY s = Inr (w_candidate w \<noteq> None)"
    and "entry_at (record_path pl cur) STAGING_DIRECTORY s = w_stage w"
  using assms
  by (auto elim!: displaysE simp: safe_directory_entry_def entry_at_def absent_or_dir_def looks_def)

lemma read_staged:
  assumes "displays pl s0 False r j w s" "w_stage w = Some (Dir d)" "absent_or_dir (aget d m)"
  shows "safe_directory_entry (child (record_path pl False) STAGING_DIRECTORY) m s = Inr (aget d m \<noteq> None)"
  using assms
  by (auto elim!: displaysE dest!: looks_queue_all
      simp: safe_directory_entry_def entry_at_def absent_or_dir_def child_def record_path_def dir_at_def
      split: option.splits)

section \<open>Finishing the disposition\<close>

fun kind_step :: "kind \<Rightarrow> nat" where
  "kind_step Products_kind = 0" | "kind_step Service_kind = 1"

lemma kind_checkpoint_nth: "kind_checkpoint k = CHECKPOINTS ! kind_step k" and kind_step_less: "kind_step k < 2"
  by (cases k; simp add: checkpoint_nth)+

lemma preceding_tree: "good c pl cur r j w \<Longrightarrow> preceding j k \<longleftrightarrow> tree_of pl k \<noteq> None"
  by (cases k) (simp_all add: good_journal)

lemma step_rename_source:
  assumes g: "good (cfg E) pl False r j w" and st: "staged pl w d" and src: "w_source k w = Some (Dir t)"
  shows "mtriple E (opened pl s0 r False j w)
     (rename (kind_source k) (p_event pl) (child (record_path pl False) STAGING_DIRECTORY) (kind_name k))
     (\<lambda>_. opened pl s0 r False j (moved k w)) (failing E pl s0)"
proof -
  have "aget d (kind_name k) = None"
    using one_of_cases [OF stagedD(1) [OF st, of k]] src by auto
  moreover have "moved k w = (clear_source k w)\<lparr>w_stage := Some (Dir (aput (kind_name k) (Dir t) d))\<rparr>"
    using src stagedD(3) [OF st] by (simp add: moved_def)
  ultimately show ?thesis
    using stage_move [OF src stagedD(3) [OF st]] by (intro step_call [OF _ _ g] keeps) simp
qed

lemma step_recover_kind:
  assumes g: "good (cfg E) pl False r j w" and st: "staged pl w d"
    and j: "\<not> j_stage_removal j" "steps j \<le> 2" "kind_step k \<le> steps j" "n = max (Suc (kind_step k)) (steps j)"
    and w: "w_archive w = None" "w_candidate w = None"
  shows "mtriple E (opened pl s0 r False j w) (recover_kind k)
     (\<lambda>_. opened pl s0 r False (at_step n j) (moved k w)) (failing E pl s0)"
proof -
  note o = one_of_cases [OF stagedD(1) [OF st, of k]]
  note m = staged_moved [OF st, where k = k]
  have n: "n \<le> 2" using j kind_step_less [of k] by simp
  obtain d' where "staged pl (moved k w) d'" using m(1) by blast
  then have sm: "staging pl (moved k w)" by (simp add: staged_def)
  have g1: "good (cfg E) pl False r j (moved k w)"
    by (rule staging_good_same [OF g sm j(1,2)]) (use m w in simp_all)
  have g2: "good (cfg E) pl False r (at_step n j) (moved k w)"
    by (rule good_staging [OF g sm j(1) n]) (use m w in simp_all)
  have checkpoint: "mtriple E (opened pl s0 r False j (moved k w)) (named_checkpoint (kind_checkpoint k))
      (\<lambda>_. opened pl s0 r False (at_step n j) (moved k w)) (failing E pl s0)"
    by (rule step_checkpoint [OF g1 g2 j(3) _ j(4) kind_checkpoint_nth]) (use kind_step_less [of k] in simp)
  have move: "mtriple E (opened pl s0 r False j w)
      (whenM (preceding j k \<and> w_source k w \<noteq> None)
         (thenM (rename (kind_source k) (p_event pl) (child (record_path pl False) STAGING_DIRECTORY) (kind_name k))
         (thenM fsync fsync)))
      (\<lambda>_. opened pl s0 r False j (moved k w)) (failing E pl s0)"
  proof (cases "w_source k w")
    case None
    then have "moved k w = w" by (simp add: moved_def)
    with None show ?thesis by (simp add: whenM_def mtriple_ret)
  next
    case (Some v)
    then obtain t where t: "w_source k w = Some (Dir t)" using o by (auto simp: absent_or_dir_def)
    then have "preceding j k" using o preceding_tree [OF g, of k] by auto
    then show ?thesis
      using t
      by (auto simp: whenM_def intro!: mtriple_then [OF step_rename_source [OF g st t]]
          mtriple_then [OF step_fsync [OF g1]] step_fsync [OF g1])
  qed
  have read1: "safe_directory_entry (kind_source k) (p_event pl) s = Inr (w_source k w \<noteq> None)"
    if "opened pl s0 r False j w t s" for t s
    by (rule read_source) (use that o in \<open>auto simp: opened_def\<close>)
  have read2: "safe_directory_entry (child (record_path pl False) STAGING_DIRECTORY) (kind_name k) s
      = Inr (aget d (kind_name k) \<noteq> None)" if "opened pl s0 r False j w t s" for t s
    by (rule read_staged [OF _ stagedD(3) [OF st]]) (use that o in \<open>auto simp: opened_def\<close>)
  show ?thesis
    unfolding recover_kind_def safe_entry_def
  proof (rule mtriple_recall [where ?t0.0 = "tx r False j"])
    show "opened pl s0 r False j w t s \<Longrightarrow> t = tx r False j" for t s by (simp add: opened_def)
    show "mtriple E (opened pl s0 r False j w)
     (let stage = child (record_dir (tx r False j)) STAGING_DIRECTORY; expected = preceding (t_journal (tx r False j)) k in
      bindM (observe (\<lambda>E. safe_directory_entry (kind_source k) (event_id_of (t_record (tx r False j))))) (\<lambda>source_exists.
      bindM (observe (\<lambda>E. safe_directory_entry stage (kind_name k))) (\<lambda>staged_exists.
      thenM (check (expected \<or> (\<not> source_exists \<and> \<not> staged_exists)) RecalculationError
              ''unexpected tree appeared during reconciliation'')
     (thenM (check (\<not> (expected \<and> source_exists \<and> staged_exists)) RecalculationError
              ''preceding and staged trees both exist'')
     (thenM (whenM (expected \<and> source_exists)
              (thenM (rename (kind_source k) (event_id_of (t_record (tx r False j))) stage (kind_name k))
              (thenM fsync fsync)))
     (thenM (check (\<not> (expected \<and> \<not> source_exists \<and> \<not> staged_exists)) RecalculationError
              ''preceding tree is unaccounted for'')
           (named_checkpoint (kind_checkpoint k))))))))
     (\<lambda>_. opened pl s0 r False (at_step n j) (moved k w)) (failing E pl s0)"
      unfolding Let_def tx_simps good_record [OF g]
      by (rule mtriple_read, erule read1, rule mtriple_read, erule read2,
          intro mtriple_checked mtriple_then [OF move] checkpoint)
         (use o preceding_tree [OF g, of k] in auto)
  qed
qed

definition ready ::
  "settings \<Rightarrow> plan \<Rightarrow> fsys \<Rightarrow> calculation_record \<Rightarrow> transaction \<Rightarrow> fsys \<Rightarrow> bool" where
  "ready c pl s0 r t s \<longleftrightarrow>
     (\<exists>j w. opened pl s0 r False j w t s \<and> good c pl False r j w \<and> steps j = 3)"

lemma readyI:
  "opened pl s0 r False j w t s \<Longrightarrow> good c pl False r j w \<Longrightarrow> steps j = 3 \<Longrightarrow> ready c pl s0 r t s"
  unfolding ready_def by blast

lemma plan_archive_iff:
  "plan_ok c pl \<Longrightarrow> good c' pl cur r j w \<Longrightarrow>
    p_archive pl \<noteq> None \<longleftrightarrow> r_overwrite r = JBool False \<and> has_preceding j"
  by (auto simp: plan_ok_def good_record good_journal has_preceding_def had_preceding_def)

definition ensured :: "view \<Rightarrow> view" where
  "ensured w = (if w_stage w = None then w\<lparr>w_stage := Some (Dir [])\<rparr> else w)"

lemma staged_ensured: "staging pl w \<Longrightarrow> \<exists>d. staged pl (ensured w) d"
  using staging_cases [of pl w] staging_absent_stage [of pl w]
  by (auto simp: ensured_def staged_def)

lemma ensured_simps [simp]:
  "w_archive (ensured w) = w_archive w" "w_candidate (ensured w) = w_candidate w"
  by (simp_all add: ensured_def)

lemma staging_dir: "staging pl w \<Longrightarrow> absent_or_dir (w_stage w)"
  by (auto simp: staging_def absent_or_dir_def split: option.splits node.splits)

lemma step_ensure_stage:
  assumes g: "good (cfg E) pl False r j w" and st: "staging pl w"
    and j: "\<not> j_stage_removal j" "steps j \<le> 2" and w: "w_archive w = None" "w_candidate w = None"
  shows "mtriple E (opened pl s0 r False j w) ensure_stage (\<lambda>_. opened pl s0 r False j (ensured w)) (failing E pl s0)"
proof -
  obtain d where "staged pl (ensured w) d" using staged_ensured [OF st] ..
  then have g1: "good (cfg E) pl False r j (ensured w)"
    by (intro staging_good_same [OF g _ j]) (use w in \<open>auto simp: staged_def\<close>)
  have make: "mtriple E (opened pl s0 r False j w)
      (whenM (\<not> w_stage w \<noteq> None) (thenM (mkdir (record_path pl False) STAGING_DIRECTORY) fsync))
      (\<lambda>_. opened pl s0 r False j (ensured w)) (failing E pl s0)"
  proof (cases "w_stage w")
    case None
    then have e: "ensured w = w\<lparr>w_stage := Some (Dir [])\<rparr>" by (simp add: ensured_def)
    have "mtriple E (opened pl s0 r False j w) (thenM (mkdir (record_path pl False) STAGING_DIRECTORY) fsync)
        (\<lambda>_. opened pl s0 r False j (ensured w)) (failing E pl s0)"
      by (rule mtriple_then [OF _ step_fsync [OF g1]])
         (unfold e, rule step_call [OF mkdir_stage [OF None] keeps_calls(1) g])
    with None show ?thesis by (simp add: whenM_def)
  qed (simp add: whenM_def mtriple_ret ensured_def)
  have read: "safe_directory_entry (record_path pl False) STAGING_DIRECTORY s = Inr (w_stage w \<noteq> None)"
    if "opened pl s0 r False j w t s" for t s
    by (rule read_private(1) [OF openedD [OF that] staging_dir [OF st]])
  have "mtriple E (opened pl s0 r False j w)
      (bindM (observe (\<lambda>E. safe_directory_entry (record_path pl False) STAGING_DIRECTORY)) (\<lambda>staged.
         whenM (\<not> staged) (thenM (mkdir (record_path pl False) STAGING_DIRECTORY) fsync)))
      (\<lambda>_. opened pl s0 r False j (ensured w)) (failing E pl s0)"
    by (rule mtriple_read, erule read, rule make)
  then show ?thesis
    unfolding ensure_stage_def safe_entry_def
    by (intro mtriple_recall [where ?t0.0 = "tx r False j"]) (simp_all add: opened_def good_record [OF g])
qed

lemma step_archive_stage:
  assumes g: "good (cfg E) pl False r j w" and st: "staged pl w d"
    and j: "\<not> j_stage_removal j" "steps j = 2"
    and w: "w_archive w = None" "w_products w = None" "w_service w = None" and a: "p_archive pl = Some a"
  shows "mtriple E (opened pl s0 r False j w) (thenM archive_stage (named_checkpoint ''preceding_disposed''))
     (\<lambda>_. ready (cfg E) pl s0 r) (failing E pl s0)"
proof -
  let ?w = "w\<lparr>w_stage := None, w_archive := Some (Dir d)\<rparr>"
  have cand: "w_candidate w = None" "\<not> j_candidate_removal j"
    using g by (auto simp: good_def phase_def queue_phase_def)
  have disposed: "disposed pl ?w"
    using staged_all [OF st w(2,3)] w a by (simp add: disposed_def archived_def)
  have g1: "good (cfg E) pl False r j ?w"
    using g disposed j a cand by (simp add: good_def phase_def queue_phase_def)
  have g2: "good (cfg E) pl False r (at_step 3 j) ?w"
    using g disposed j a cand
    by (simp add: good_def phase_def queue_phase_def plan_journal_at_step steps_at_step)
  have move: "mtriple E (opened pl s0 r False j w)
      (rename (record_path pl False) STAGING_DIRECTORY (Archive, []) (path_name a))
      (\<lambda>_. opened pl s0 r False j ?w) (failing E pl s0)"
    by (intro step_call [OF _ _ g] keeps archive_move stagedD(3) [OF st] w a)
  have "mtriple E (opened pl s0 r False j w) archive_stage (\<lambda>_. opened pl s0 r False j ?w) (failing E pl s0)"
    unfolding archive_stage_def
    by (rule mtriple_recall [where ?t0.0 = "tx r False j"])
       (auto simp: opened_def good_record [OF g] good_journal [OF g] a
         intro!: mtriple_then [OF move] mtriple_then [OF step_fsync [OF g1]] step_fsync [OF g1])
  moreover have "mtriple E (opened pl s0 r False j ?w) (named_checkpoint ''preceding_disposed'')
      (\<lambda>_. ready (cfg E) pl s0 r) (failing E pl s0)"
    by (rule mtriple_post [OF step_checkpoint [OF g1 g2 _ _ _ checkpoint_nth(3)]])
       (use j g2 in \<open>auto simp: steps_at_step intro: readyI\<close>)
  ultimately show ?thesis by (rule mtriple_then)
qed

text \<open>A stage whose removal has been announced.\<close>

definition removing :: "plan \<Rightarrow> journal \<Rightarrow> view \<Rightarrow> bool" where
  "removing pl j w \<longleftrightarrow>
     p_archive pl = None \<and> j_stage_removal j \<and> steps j = 2 \<and> w_products w = None \<and> w_service w = None
     \<and> w_candidate w = None \<and> \<not> j_candidate_removal j"

lemma removing_good:
  assumes "good c pl False r j w" "removing pl j w" "absent_or_dir st"
  shows "good c pl False r j (w\<lparr>w_stage := st\<rparr>)"
  using assms by (simp add: good_def phase_def queue_phase_def removing_def)

lemma removing_done:
  assumes "good c pl False r j w" "removing pl j w" "w_stage w = None"
  shows "good c pl False r (at_step 3 j) w"
  using assms
  by (simp add: good_def phase_def queue_phase_def removing_def disposed_def plan_journal_at_step steps_at_step)

lemma step_rmtree_stage:
  assumes g: "good (cfg E) pl False r j w" and rm: "removing pl j w" and d: "w_stage w = Some (Dir d)"
  shows "mtriple E (opened pl s0 r False j w) (rmtree (record_path pl False) STAGING_DIRECTORY)
     (\<lambda>_. opened pl s0 r False j (w\<lparr>w_stage := None\<rparr>)) (failing E pl s0)"
proof (rule mtriple_lift, rule keeps)
  fix t
  have "failing E pl s0 e t s" if "\<not> quiet E" "t = tx r False j"
    "displays pl s0 False r j (w\<lparr>w_stage := Some (Dir d')\<rparr>) s" for d' e s
    using that removing_good [OF g rm, of "Some (Dir d')"]
    by (auto simp: failing_def absent_or_dir_def opened_def intro!: opened_lags)
  then show "triple E (opened pl s0 r False j w t) (rmtree (record_path pl False) STAGING_DIRECTORY)
      (\<lambda>_. opened pl s0 r False j (w\<lparr>w_stage := None\<rparr>) t) (\<lambda>e. failing E pl s0 e t)"
    unfolding opened_def
    by (intro triple_pure triple_weaken [OF rmtree_stage [OF d]]) auto
qed

lemma step_removal_done:
  assumes g: "good (cfg E) pl False r j w" and rm: "removing pl j w" and d: "w_stage w = None"
  shows "mtriple E (opened pl s0 r False j w) (thenM fsync (named_checkpoint ''preceding_disposed''))
     (\<lambda>_. ready (cfg E) pl s0 r) (failing E pl s0)"
proof -
  have j: "steps j = 2" using rm by (simp add: removing_def)
  note g3 = removing_done [OF g rm d]
  have "mtriple E (opened pl s0 r False j w) (named_checkpoint ''preceding_disposed'')
      (\<lambda>_. ready (cfg E) pl s0 r) (failing E pl s0)"
    by (rule mtriple_post [OF step_checkpoint [OF g g3 _ _ _ checkpoint_nth(3)]])
       (use j g3 in \<open>auto simp: steps_at_step intro: readyI\<close>)
  with step_fsync [OF g] show ?thesis by (rule mtriple_then)
qed

lemma step_remove_stage:
  assumes g: "good (cfg E) pl False r j w" and st: "staged pl w d"
    and j: "\<not> j_stage_removal j" "steps j = 2"
    and w: "w_products w = None" "w_service w = None" and a: "p_archive pl = None"
  shows "mtriple E (opened pl s0 r False j w) (thenM remove_stage (named_checkpoint ''preceding_disposed''))
     (\<lambda>_. ready (cfg E) pl s0 r) (failing E pl s0)"
proof -
  let ?j = "j\<lparr>j_stage_removal := True\<rparr>" and ?w = "w\<lparr>w_stage := None\<rparr>"
  have cand: "w_candidate w = None" "\<not> j_candidate_removal j"
    using g by (auto simp: good_def phase_def queue_phase_def)
  have steps: "steps ?j = 2" using j by (simp add: steps_def)
  have rm: "removing pl ?j w" "removing pl ?j ?w"
    using j w a cand steps by (simp_all add: removing_def)
  have g1: "good (cfg E) pl False r ?j w"
    using g j w a cand steps stagedD(3) [OF st]
    by (auto simp: good_def phase_def queue_phase_def plan_journal_def absent_or_dir_def steps_def)
  have g2: "good (cfg E) pl False r ?j ?w"
    by (rule removing_good [OF g1 rm(1)]) (simp add: absent_or_dir_def)
  have intent: "mtriple E (opened pl s0 r False j w) (named_intent Stage_removal)
      (\<lambda>_. opened pl s0 r False ?j w) (failing E pl s0)"
    by (rule step_intent [OF g _ g1]) (use j in \<open>simp_all add: tx_def\<close>)
  have "mtriple E (opened pl s0 r False j w)
      (thenM (named_intent Stage_removal) (thenM (rmtree (record_path pl False) STAGING_DIRECTORY) fsync))
      (\<lambda>_. opened pl s0 r False ?j ?w) (failing E pl s0)"
    by (rule mtriple_then [OF intent mtriple_then [OF step_rmtree_stage [OF g1 rm(1) stagedD(3) [OF st]]
          step_fsync [OF g2]]])
  then have "mtriple E (opened pl s0 r False j w) remove_stage (\<lambda>_. opened pl s0 r False ?j ?w) (failing E pl s0)"
    unfolding remove_stage_def
    by (intro mtriple_recall [where ?t0.0 = "tx r False j"]) (simp_all add: opened_mem good_record [OF g])
  moreover have "mtriple E (opened pl s0 r False ?j ?w) (named_checkpoint ''preceding_disposed'')
      (\<lambda>_. ready (cfg E) pl s0 r) (failing E pl s0)"
  proof -
    note g3 = removing_done [OF g2 rm(2)]
    show ?thesis
      by (rule mtriple_post [OF step_checkpoint [OF g2 g3 _ _ _ checkpoint_nth(3)]])
         (use steps g3 in \<open>auto simp: steps_at_step intro: readyI\<close>)
  qed
  ultimately show ?thesis by (rule mtriple_then)
qed

lemma step_finish_staging:
  assumes ok: "plan_ok (cfg E) pl" and g: "good (cfg E) pl False r j w" and st: "staging pl w"
    and j: "\<not> j_stage_removal j" "steps j \<le> 2" and w: "w_archive w = None" "w_candidate w = None"
  shows "mtriple E (opened pl s0 r False j w) finish_staging (\<lambda>_. ready (cfg E) pl s0 r) (failing E pl s0)"
proof -
  let ?j1 = "at_step (max 1 (steps j)) j" and ?j2 = "at_step 2 j"
  let ?w1 = "ensured w"
  let ?w2 = "moved Products_kind ?w1"
  let ?w3 = "moved Service_kind ?w2"
  obtain d1 where d1: "staged pl ?w1 d1" using staged_ensured [OF st] ..
  note m2 = staged_moved [OF d1, where k = Products_kind]
  obtain d2 where d2: "staged pl ?w2 d2" using m2(1) ..
  note m3 = staged_moved [OF d2, where k = Service_kind]
  obtain d3 where d3: "staged pl ?w3 d3" using m3(1) ..
  have sources: "w_products ?w3 = None" "w_service ?w3 = None"
    using m3(2) m3(3) [where k' = Products_kind] m2(2) by simp_all
  have g1: "good (cfg E) pl False r j ?w1"
    by (rule staging_good_same [OF g _ j]) (use d1 w in \<open>simp_all add: staged_def\<close>)
  have g2: "good (cfg E) pl False r ?j1 ?w2"
    by (rule good_staging [OF g _ j(1)]) (use d2 w j(2) m2(4,5) in \<open>simp_all add: staged_def\<close>)
  have g3: "good (cfg E) pl False r ?j2 ?w3"
    by (rule good_staging [OF g _ j(1)]) (use d3 w m2(4,5) m3(4,5) in \<open>simp_all add: staged_def\<close>)
  have s1: "steps ?j1 = max 1 (steps j)" "steps ?j2 = 2" using j(2) by (simp_all add: steps_at_step)
  have k1: "mtriple E (opened pl s0 r False j ?w1) (recover_kind Products_kind)
      (\<lambda>_. opened pl s0 r False ?j1 ?w2) (failing E pl s0)"
    by (rule step_recover_kind [OF g1 d1 j]) (use w in simp_all)
  have k2: "mtriple E (opened pl s0 r False ?j1 ?w2) (recover_kind Service_kind)
      (\<lambda>_. opened pl s0 r False ?j2 ?w3) (failing E pl s0)"
    using step_recover_kind [OF g2 d2, of Service_kind 2] j s1 w m2(4,5) by simp
  have last: "mtriple E (opened pl s0 r False ?j2 ?w3)
      (thenM (if r_overwrite r = JBool False \<and> has_preceding j
            then thenM (check (p_archive pl \<noteq> None) RecalculationError
                          ''archive path is missing for retained preceding trees'') archive_stage
            else remove_stage)
           (named_checkpoint ''preceding_disposed''))
      (\<lambda>_. ready (cfg E) pl s0 r) (failing E pl s0)"
  proof (cases "p_archive pl")
    case None
    then show ?thesis
      using plan_archive_iff [OF ok g] step_remove_stage [OF g3 d3 _ s1(2) sources None, of s0] j(1)
      by auto
  next
    case (Some a)
    have chk: "thenM (check True k msg) m = m" for k msg and m :: "(transaction, unit) io"
      by (simp add: thenM_def bindM_def check_def ret_def)
    show ?thesis
      using plan_archive_iff [OF ok g] Some j(1) w m2(4) m3(4)
        step_archive_stage [OF g3 d3 _ s1(2) _ sources Some, of s0]
      by (simp add: chk)
  qed
  have j0: "has_preceding j \<longleftrightarrow> has_preceding j" ..
  show ?thesis
    unfolding finish_staging_def
    by (rule mtriple_recall [where ?t0.0 = "tx r False j"], simp add: opened_mem)
       (use last in \<open>auto simp: good_journal [OF g]
          intro!: mtriple_then [OF step_ensure_stage [OF g st j w]] mtriple_then [OF k1] mtriple_then [OF k2]\<close>)
qed

section \<open>Recovering the disposition\<close>

lemma retained_names:
  assumes "retained pl d" "good c pl cur r j w"
  shows "set (akeys d) = expected_archive_names j"
proof (rule set_eqI)
  fix x
  have there: "lit ''products'' \<in> set (akeys d) \<longleftrightarrow> p_products pl \<noteq> None"
    "lit ''service'' \<in> set (akeys d) \<longleftrightarrow> p_service pl \<noteq> None"
    using assms(1) by (simp_all add: in_akeys retained_def)
  have only: "x \<in> set (akeys d) \<Longrightarrow> x = lit ''products'' \<or> x = lit ''service''"
    using assms(1) by (auto simp: retained_def)
  have "x \<in> expected_archive_names j \<longleftrightarrow>
      x = lit ''products'' \<and> p_products pl \<noteq> None \<or> x = lit ''service'' \<and> p_service pl \<noteq> None"
    unfolding expected_archive_names_def using good_journal(4,5) [OF assms(2)]
    by (cases "p_products pl"; cases "p_service pl"; simp)
  then show "x \<in> set (akeys d) \<longleftrightarrow> x \<in> expected_archive_names j"
    using there only by metis
qed

lemma archive_path_ok:
  assumes "plan_ok c pl" "p_archive pl = Some a"
  shows "path_parent a = path_parts (archive_dir c)"
proof -
  obtain t where "a = archive_path_for c (p_event pl) t" using assms by (auto simp: plan_ok_def)
  then show ?thesis using assms(1) archive_path_for_parts(2) by (simp add: plan_ok_def)
qed

lemma read_archive:
  assumes "displays pl s0 cur r j w s" "p_archive pl = Some a"
  shows "entry_at (Archive, []) (path_name a) s = w_archive w"
  using assms by (auto elim!: displaysE simp: looks_def archive_entry_def entry_at_def)

lemma step_verify_archive:
  assumes g: "good (cfg E) pl cur r j w" and a: "p_archive pl = Some a" and ar: "archived pl w"
    and k: "mtriple E (opened pl s0 r cur j w) m Q X"
  shows "mtriple E (opened pl s0 r cur j w) (thenM (verify_archive_contents (path_name a) j) m) Q X"
proof (rule mtriple_then [OF _ k])
  obtain d where d: "w_archive w = Some (Dir d)" "retained pl d" using ar by (auto simp: archived_def)
  have "dir_at (Archive, [path_name a]) s = Some d" if "opened pl s0 r cur j w t s" for t s
    using read_archive [OF openedD [OF that] a] d(1) by (simp add: entry_at_def)
  then show "mtriple E (opened pl s0 r cur j w) (verify_archive_contents (path_name a) j)
      (\<lambda>_. opened pl s0 r cur j w) X"
    unfolding verify_archive_contents_def
    by (intro mtriple_observe) (simp_all add: retained_names [OF d(2) g])
qed

lemma step_read:
  assumes "\<And>s. displays pl s0 cur r j w s \<Longrightarrow> f E s = Inr v" "mtriple E (opened pl s0 r cur j w) (g v) Q X"
  shows "mtriple E (opened pl s0 r cur j w) (bindM (observe f) g) Q X"
  by (rule mtriple_read) (use assms in \<open>auto dest: openedD\<close>)

lemma step_sources_present:
  assumes "absent_or_dir (w_products w)" "absent_or_dir (w_service w)"
    and k: "mtriple E (opened pl s0 r False j w) (g (w_products w \<noteq> None \<or> w_service w \<noteq> None)) Q X"
  shows "mtriple E (opened pl s0 r False j w) (bindM (sources_present (p_event pl)) g) Q X"
proof (rule mtriple_bind [where R = "\<lambda>x t s. x = (w_products w \<noteq> None \<or> w_service w \<noteq> None)
      \<and> opened pl s0 r False j w t s"])
  show "mtriple E (opened pl s0 r False j w) (sources_present (p_event pl))
     (\<lambda>x t s. x = (w_products w \<noteq> None \<or> w_service w \<noteq> None) \<and> opened pl s0 r False j w t s) X"
    unfolding sources_present_def safe_entry_def
  proof (rule step_read)
    show "displays pl s0 False r j w s \<Longrightarrow>
        safe_directory_entry (Products, []) (p_event pl) s = Inr (w_products w \<noteq> None)" for s
      using read_source [of pl s0 r j w s Products_kind] assms(1) by simp
    show "mtriple E (opened pl s0 r False j w)
        (if w_products w \<noteq> None then ret True else observe (\<lambda>E. safe_directory_entry (Events, []) (p_event pl)))
        (\<lambda>x t s. x = (w_products w \<noteq> None \<or> w_service w \<noteq> None) \<and> opened pl s0 r False j w t s) X"
    proof (cases "w_products w")
      case None
      have "safe_directory_entry (Events, []) (p_event pl) s = Inr (w_service w \<noteq> None)"
        if "opened pl s0 r False j w t s" for t s
        using read_source [OF openedD [OF that], of Service_kind] assms(2) by simp
      then have "mtriple E (opened pl s0 r False j w) (observe (\<lambda>E. safe_directory_entry (Events, []) (p_event pl)))
          (\<lambda>x t s. x = (w_service w \<noteq> None) \<and> opened pl s0 r False j w t s) X"
        by (intro mtriple_observe) auto
      with None show ?thesis by simp
    qed (auto intro: mtriple_ret)
  qed
  show "mtriple E (\<lambda>t s. x = (w_products w \<noteq> None \<or> w_service w \<noteq> None) \<and> opened pl s0 r False j w t s)
      (g x) Q X" for x
    by (rule mtriple_pure) (use k in simp)
qed

lemma step_resume_removal:
  assumes g: "good (cfg E) pl False r j w" and sr: "j_stage_removal j"
  shows "mtriple E (opened pl s0 r False j w) resume_stage_removal (\<lambda>_. ready (cfg E) pl s0 r) (failing E pl s0)"
proof -
  have facts: "p_archive pl = None" "w_products w = None" "w_service w = None" "absent_or_dir (w_stage w)"
    and cases: "removing pl j w \<or> steps j = 3 \<and> w_stage w = None"
    using g sr by (auto simp: good_def phase_def queue_phase_def removing_def disposed_def absent_or_dir_def)
  have cleared: "mtriple E (opened pl s0 r False j w)
      (thenM (whenM (w_stage w \<noteq> None) (rmtree (record_path pl False) STAGING_DIRECTORY))
      (thenM fsync (named_checkpoint ''preceding_disposed'')))
      (\<lambda>_. ready (cfg E) pl s0 r) (failing E pl s0)"
    using cases
  proof
    assume rm: "removing pl j w"
    let ?w = "w\<lparr>w_stage := None\<rparr>"
    have g1: "good (cfg E) pl False r j ?w"
      by (rule removing_good [OF g rm]) (simp add: absent_or_dir_def)
    have rm1: "removing pl j ?w" using rm by (simp add: removing_def)
    have "mtriple E (opened pl s0 r False j w)
        (whenM (w_stage w \<noteq> None) (rmtree (record_path pl False) STAGING_DIRECTORY))
        (\<lambda>_. opened pl s0 r False j ?w) (failing E pl s0)"
    proof (cases "w_stage w")
      case None
      then have "?w = w" by (cases w) simp
      then show ?thesis unfolding \<open>?w = w\<close> using None by (simp add: whenM_def mtriple_ret)
    next
      case (Some v)
      with facts(4) obtain d where d: "w_stage w = Some (Dir d)" by (auto simp: absent_or_dir_def)
      with step_rmtree_stage [OF g rm d] show ?thesis by (simp add: whenM_def)
    qed
    then show ?thesis by (rule mtriple_then) (rule step_removal_done [OF g1 rm1], simp)
  next
    assume three: "steps j = 3 \<and> w_stage w = None"
    have "at_step (steps j) j = j" using g plan_journal_steps by (auto simp: good_def)
    with three have same: "at_step 3 j = j" by simp
    have "mtriple E (opened pl s0 r False j w) (named_checkpoint ''preceding_disposed'')
        (\<lambda>_. ready (cfg E) pl s0 r) (failing E pl s0)"
      by (rule mtriple_post [OF step_checkpoint [OF g _ _ _ _ checkpoint_nth(3), of 3]])
         (use three g same in \<open>auto intro: readyI\<close>)
    with step_fsync [OF g] have "mtriple E (opened pl s0 r False j w)
        (thenM fsync (named_checkpoint ''preceding_disposed'')) (\<lambda>_. ready (cfg E) pl s0 r) (failing E pl s0)"
      by (rule mtriple_then)
    with three show ?thesis
      by (simp add: whenM_def) (rule mtriple_then [OF mtriple_ret], assumption+)
  qed
  show ?thesis
    unfolding resume_stage_removal_def
    by (rule mtriple_recall [where ?t0.0 = "tx r False j"], erule opened_mem,
        unfold tx_simps good_record [OF g] safe_entry_def,
        rule mtriple_checked, simp add: good_journal [OF g] facts,
        rule step_sources_present, simp add: facts absent_or_dir_def, simp add: facts absent_or_dir_def,
        rule mtriple_checked, simp add: facts,
        rule step_read, erule read_private(1) [OF _ facts(4)], rule cleared)
qed

lemma step_accept_archive:
  assumes ok: "plan_ok (cfg E) pl" and g: "good (cfg E) pl False r j w" and sr: "\<not> j_stage_removal j"
    and a: "p_archive pl = Some a" and w: "disposed pl w" and j: "steps j = 2 \<or> steps j = 3"
  shows "mtriple E (opened pl s0 r False j w) (accept_archive (path_name a))
     (\<lambda>_. ready (cfg E) pl s0 r) (failing E pl s0)"
proof -
  have facts: "w_stage w = None" "archived pl w" using w a by (simp_all add: disposed_def)
  have g3: "good (cfg E) pl False r (at_step 3 j) w"
    using g w sr a by (auto simp: good_def phase_def queue_phase_def plan_journal_at_step steps_at_step)
  have "\<not> p_overwrite pl" using ok a by (simp add: plan_ok_def)
  then have ow: "r_overwrite r \<noteq> JBool True" by (simp add: good_record [OF g])
  have "mtriple E (opened pl s0 r False j w) (named_checkpoint ''preceding_disposed'')
      (\<lambda>_. ready (cfg E) pl s0 r) (failing E pl s0)"
    by (rule mtriple_post [OF step_checkpoint [OF g g3 _ _ _ checkpoint_nth(3)]])
       (use j g3 in \<open>auto simp: steps_at_step intro: readyI\<close>)
  note rest = step_verify_archive [OF g a facts(2) this]
  show ?thesis
    unfolding accept_archive_def entry_exists_def
    by (rule mtriple_recall [where ?t0.0 = "tx r False j"], erule opened_mem,
        unfold tx_simps good_record(5) [OF g],
        rule mtriple_checked [OF ow],
        rule step_read [where v = False], simp add: read_private(3) facts,
        rule mtriple_checked, simp, rule rest)
qed

lemma step_archive_exists:
  assumes ok: "plan_ok (cfg E) pl" and g: "good (cfg E) pl False r j w" and ar: "p_archive pl \<noteq> None \<Longrightarrow> absent_or_dir (w_archive w)"
    and k: "mtriple E (opened pl s0 r False j w) (h (p_archive pl \<noteq> None \<and> w_archive w \<noteq> None)) Q X"
  shows "mtriple E (opened pl s0 r False j w)
     (bindM (case j_archive_path j of
              None \<Rightarrow> ret False
            | Some a \<Rightarrow>
                bindM (ask (\<lambda>E. path_parent a = path_parts (archive_dir (cfg E)))) (\<lambda>inside.
                thenM (check inside RecalculationError
                         ''transaction archive path is outside the archive directory'')
                      (safe_entry (Archive, []) (path_name a)))) h) Q X"
proof (rule mtriple_bind [where R = "\<lambda>x t s. x = (p_archive pl \<noteq> None \<and> w_archive w \<noteq> None)
      \<and> opened pl s0 r False j w t s"])
  show "mtriple E (\<lambda>t s. x = (p_archive pl \<noteq> None \<and> w_archive w \<noteq> None) \<and> opened pl s0 r False j w t s)
      (h x) Q X" for x
    by (rule mtriple_pure) (use k in simp)
  show "mtriple E (opened pl s0 r False j w)
      (case j_archive_path j of
              None \<Rightarrow> ret False
            | Some a \<Rightarrow>
                bindM (ask (\<lambda>E. path_parent a = path_parts (archive_dir (cfg E)))) (\<lambda>inside.
                thenM (check inside RecalculationError
                         ''transaction archive path is outside the archive directory'')
                      (safe_entry (Archive, []) (path_name a))))
      (\<lambda>x t s. x = (p_archive pl \<noteq> None \<and> w_archive w \<noteq> None) \<and> opened pl s0 r False j w t s) X"
  proof (cases "p_archive pl")
    case None
    then show ?thesis by (simp add: good_journal [OF g] mtriple_ret)
  next
    case (Some a)
    have read: "safe_directory_entry (Archive, []) (path_name a) s = Inr (w_archive w \<noteq> None)"
      if "opened pl s0 r False j w t s" for t s
      using read_archive [OF openedD [OF that] Some] ar Some
      by (auto simp: safe_directory_entry_def absent_or_dir_def)
    have "mtriple E (opened pl s0 r False j w)
        (thenM (check (path_parent a = path_parts (archive_dir (cfg E))) RecalculationError
                  ''transaction archive path is outside the archive directory'')
               (safe_entry (Archive, []) (path_name a)))
        (\<lambda>x t s. x = (p_archive pl \<noteq> None \<and> w_archive w \<noteq> None) \<and> opened pl s0 r False j w t s) X"
      unfolding safe_entry_def
      by (rule mtriple_checked [OF archive_path_ok [OF ok Some]], rule mtriple_observe)
         (use read Some in auto)
    moreover have "bindM (ask f) h E w = h (f E) E w" for f and h :: "bool \<Rightarrow> (transaction, bool) io" and w
      by (simp add: bindM_def ask_def)
    ultimately show ?thesis
      by (simp add: good_journal [OF g] Some mtriple_def)
  qed
qed

lemma queue_cases:
  assumes "good c pl False r j w"
  obtains (Staging) "\<not> j_stage_removal j" "steps j \<le> 2" "w_archive w = None" "w_candidate w = None" "staging pl w"
  | (Archived) a where "p_archive pl = Some a" "\<not> j_stage_removal j" "steps j = 2 \<or> steps j = 3" "disposed pl w"
  | (Removing) "j_stage_removal j" "p_archive pl = None"
  | (Removed) "p_archive pl = None" "\<not> j_stage_removal j" "steps j = 3" "disposed pl w"
  using assms by (cases "p_archive pl") (auto simp: good_def phase_def queue_phase_def)

lemma completed_steps:
  assumes "good c pl cur r j w" "k < 6"
  shows "CHECKPOINTS ! k \<in> set (j_completed j) \<longleftrightarrow> k < steps j"
  using good_journal(7,8) [OF assms(1)] checkpoint_done_iff [OF assms(2), of "steps j"] by simp

lemma step_dispose_again:
  assumes g: "good (cfg E) pl False r j w" and a: "p_archive pl = None" and j: "steps j = 2 \<or> steps j = 3"
    and sr: "\<not> j_stage_removal j" and d: "disposed pl w"
  shows "mtriple E (opened pl s0 r False j w) (named_checkpoint ''preceding_disposed'')
     (\<lambda>_. ready (cfg E) pl s0 r) (failing E pl s0)"
proof -
  have g3: "good (cfg E) pl False r (at_step 3 j) w"
    using g sr a d by (auto simp: good_def phase_def queue_phase_def plan_journal_at_step steps_at_step)
  show ?thesis
    by (rule mtriple_post [OF step_checkpoint [OF g g3 _ _ _ checkpoint_nth(3)]])
       (use j g3 in \<open>auto simp: steps_at_step intro: readyI\<close>)
qed

lemma step_recover_staging:
  assumes ok: "plan_ok (cfg E) pl" and g: "good (cfg E) pl False r j w"
  shows "mtriple E (opened pl s0 r False j w) recover_staging (\<lambda>_. ready (cfg E) pl s0 r) (failing E pl s0)"
proof -
  have names: "''products_staged'' \<in> set (j_completed j) \<longleftrightarrow> 0 < steps j"
    "''service_staged'' \<in> set (j_completed j) \<longleftrightarrow> 1 < steps j"
    unfolding checkpoint_nth by (rule completed_steps [OF g]; simp)+
  have ow: "r_overwrite r = JBool True \<or> \<not> has_preceding j \<longleftrightarrow> p_archive pl = None"
    using plan_archive_iff [OF ok g] by (auto simp: good_record [OF g])
  have shape: "absent_or_dir (w_archive w)" if "p_archive pl \<noteq> None"
    using g by (cases rule: queue_cases) (use that in \<open>auto simp: absent_or_dir_def disposed_def archived_def\<close>)
  define rest where "rest =
    bindM (safe_entry (record_path pl False) STAGING_DIRECTORY) (\<lambda>staged.
    bindM (sources_present (p_event pl)) (\<lambda>present.
    if \<not> staged \<and> \<not> present \<and> ''products_staged'' \<in> set (j_completed j)
       \<and> ''service_staged'' \<in> set (j_completed j) \<and> (r_overwrite r = JBool True \<or> \<not> has_preceding j)
    then named_checkpoint ''preceding_disposed'' else finish_staging))"
  have rest: "mtriple E (opened pl s0 r False j w) rest (\<lambda>_. ready (cfg E) pl s0 r) (failing E pl s0)"
    if st: "absent_or_dir (w_stage w)" "absent_or_dir (w_products w)" "absent_or_dir (w_service w)"
      and direct: "w_stage w = None \<Longrightarrow> w_products w = None \<Longrightarrow> w_service w = None \<Longrightarrow> 2 \<le> steps j \<Longrightarrow>
        p_archive pl = None \<Longrightarrow> mtriple E (opened pl s0 r False j w) (named_checkpoint ''preceding_disposed'')
          (\<lambda>_. ready (cfg E) pl s0 r) (failing E pl s0)"
      and finish: "\<not> (w_stage w = None \<and> w_products w = None \<and> w_service w = None \<and> 2 \<le> steps j
          \<and> p_archive pl = None) \<Longrightarrow> mtriple E (opened pl s0 r False j w) finish_staging
          (\<lambda>_. ready (cfg E) pl s0 r) (failing E pl s0)"
    unfolding rest_def safe_entry_def ow names
    by (rule step_read, erule read_private(1) [OF _ st(1)], rule step_sources_present [OF st(2,3)], rule mtriple_if)
       (use direct finish in auto)
  define body where "body = (if j_stage_removal j then resume_stage_removal
     else if p_archive pl \<noteq> None \<and> w_archive w \<noteq> None
     then (case p_archive pl of
             None \<Rightarrow> raise TypeError ''archive path is null'' | Some a \<Rightarrow> accept_archive (path_name a))
     else rest)"
  have body: "mtriple E (opened pl s0 r False j w) body (\<lambda>_. ready (cfg E) pl s0 r) (failing E pl s0)"
    using g
  proof (cases rule: queue_cases)
    case Staging
    have dirs: "absent_or_dir (w_stage w)" "absent_or_dir (w_products w)" "absent_or_dir (w_service w)"
      using Staging(5) staging_dir [OF Staging(5)]
      by (auto simp: staging_def absent_or_dir_def one_of_def split: option.splits node.splits)
    have "disposed pl w" if "w_stage w = None" "w_products w = None" "w_service w = None" "p_archive pl = None"
      using that by (simp add: disposed_def)
    then have "mtriple E (opened pl s0 r False j w) rest (\<lambda>_. ready (cfg E) pl s0 r) (failing E pl s0)"
      using Staging step_finish_staging [OF ok g Staging(5,1,2,3,4)]
      by (intro rest dirs step_dispose_again [OF g]) auto
    with Staging show ?thesis by (simp add: body_def)
  next
    case (Archived a)
    then have "w_archive w \<noteq> None" by (auto simp: disposed_def archived_def)
    with Archived step_accept_archive [OF ok g Archived(2,1,4,3)] show ?thesis by (simp add: body_def)
  next
    case Removing
    with step_resume_removal [OF g] show ?thesis by (simp add: body_def)
  next
    case Removed
    have dirs: "absent_or_dir (w_stage w)" "absent_or_dir (w_products w)" "absent_or_dir (w_service w)"
      "w_stage w = None" "w_products w = None" "w_service w = None"
      using Removed(4) by (simp_all add: disposed_def absent_or_dir_def)
    have "mtriple E (opened pl s0 r False j w) rest (\<lambda>_. ready (cfg E) pl s0 r) (failing E pl s0)"
      by (rule rest [OF dirs(1-3)]) (use Removed dirs step_dispose_again [OF g Removed(1) _ Removed(2,4)] in auto)
    with Removed show ?thesis by (simp add: body_def)
  qed
  show ?thesis
    unfolding recover_staging_def
    by (rule mtriple_recall [where ?t0.0 = "tx r False j"], erule opened_mem,
        unfold tx_simps Let_def good_record(5) [OF g] good_record(1) [OF g],
        rule step_archive_exists [OF ok g shape], assumption,
        fold rest_def, unfold good_journal(6) [OF g], fold body_def, rule body)
qed

section \<open>Recovering the promotion\<close>

definition promoted :: "settings \<Rightarrow> plan \<Rightarrow> fsys \<Rightarrow> transaction \<Rightarrow> fsys \<Rightarrow> bool" where
  "promoted c pl s0 t s \<longleftrightarrow>
     (\<exists>r j w. opened pl s0 r True j w t s \<and> good c pl True r j w \<and> 4 \<le> steps j)"

lemma promotedI:
  "opened pl s0 r True j w t s \<Longrightarrow> good c pl True r j w \<Longrightarrow> 4 \<le> steps j \<Longrightarrow> promoted c pl s0 t s"
  unfolding promoted_def by blast

lemma step_revalidate:
  assumes "good (cfg E) pl cur r j w"
  shows "mtriple E (opened pl s0 r cur j w) (revalidate_status (record_path pl cur) r)
     (\<lambda>_. opened pl s0 r cur j w) (failing E pl s0)"
proof (rule step_call [OF _ _ assms])
  show "triple E (displays pl s0 cur r j w) (revalidate_status (record_path pl cur) r)
      (\<lambda>_. displays pl s0 cur r j w) (\<lambda>_ s. \<not> quiet E \<and> displays pl s0 cur r j w s)"
    by (rule triple_weaken [OF revalidate_displays]) auto
  show "keeps_mem (revalidate_status (record_path pl cur) r)"
    by (simp add: revalidate_status_def keeps)
qed

lemma current_steps:
  assumes "good c pl True r j w"
  shows "3 \<le> steps j" "w_stage w = None" "w_service w = None" "p_archive pl \<noteq> None \<Longrightarrow> archived pl w"
    "absent_or_dir (w_candidate w)" "absent_or_dir (w_products w)"
  using assms
  by (auto simp: good_def phase_def current_phase_def absent_or_dir_def split: if_splits option.splits node.splits)

lemma good_promoted:
  assumes "good c pl True r j w"
  shows "good c pl True r (at_step (max 4 (steps j)) j) w"
proof (cases "steps j = 3")
  case True
  with assms show ?thesis
    by (auto simp: good_def phase_def current_phase_def plan_journal_at_step steps_at_step
        split: if_splits option.splits node.splits)
next
  case False
  with current_steps(1) [OF assms] have "max 4 (steps j) = steps j" by simp
  with assms plan_journal_steps [of pl j] show ?thesis by (simp add: good_def)
qed

lemma step_promoted_checkpoint:
  assumes g: "good (cfg E) pl True r j w"
  shows "mtriple E (opened pl s0 r True j w) (named_checkpoint ''record_promoted'')
     (\<lambda>_. promoted (cfg E) pl s0) (failing E pl s0)"
proof -
  note s = current_steps(1) [OF g] good_journal(8) [OF g]
  show ?thesis
    by (rule mtriple_post [OF step_checkpoint [OF g good_promoted [OF g] _ _ _ checkpoint_nth(4)]])
       (use s good_promoted [OF g] in \<open>auto simp: steps_at_step intro!: promotedI\<close>)
qed

text \<open>The rename of the record directory, and the open transaction following it.\<close>

lemma promotion_moves:
  assumes g: "good (cfg E) pl False r j w" and j: "steps j = 3"
  shows "mtriple E (opened pl s0 r False j w) (rename (Queue, []) (entry_name pl) (Events, []) (p_event pl))
      (\<lambda>_ t s. t = tx r False j \<and> displays pl s0 True r j w s) (failing E pl s0)"
    and "mtriple E (\<lambda>t s. t = tx r False j \<and> displays pl s0 True r j w s) (modify_mem enter_events)
      (\<lambda>_. opened pl s0 r True j w) (failing E pl s0)"
proof -
  have svc: "w_service w = None"
    using g j by (auto simp: good_def phase_def queue_phase_def disposed_def)
  show "mtriple E (opened pl s0 r False j w) (rename (Queue, []) (entry_name pl) (Events, []) (p_event pl))
      (\<lambda>_ t s. t = tx r False j \<and> displays pl s0 True r j w s) (failing E pl s0)"
  proof (rule mtriple_lift, rule keeps)
    fix t
    show "triple E (opened pl s0 r False j w t) (rename (Queue, []) (entry_name pl) (Events, []) (p_event pl))
        (\<lambda>_ s. t = tx r False j \<and> displays pl s0 True r j w s) (\<lambda>e. failing E pl s0 e t)"
      unfolding opened_def
      by (rule triple_pure, rule triple_weaken [OF promote_move [OF svc]])
         (auto simp: failing_def opened_def intro: opened_lags [OF g, unfolded opened_def])
  qed
  show "mtriple E (\<lambda>t s. t = tx r False j \<and> displays pl s0 True r j w s) (modify_mem enter_events)
      (\<lambda>_. opened pl s0 r True j w) (failing E pl s0)"
    by (rule mtriple_modify) (simp add: opened_def)
qed

lemma step_promote:
  assumes g: "good (cfg E) pl False r j w" and j: "steps j = 3"
  shows "mtriple E (opened pl s0 r False j w) recover_promotion
     (\<lambda>_. promoted (cfg E) pl s0) (failing E pl s0)"
proof -
  have d: "disposed pl w" "w_candidate w = None" "\<not> j_candidate_removal j"
    using g j by (auto simp: good_def phase_def queue_phase_def)
  then have svc: "w_service w = None" by (simp add: disposed_def)
  have g1: "good (cfg E) pl True r j w"
    using g d j by (auto simp: good_def phase_def current_phase_def plan_record_def disposed_def)
  have read: "displays pl s0 False r j w s \<Longrightarrow> safe_directory_entry (Events, []) (p_event pl) s = Inr False" for s
    using read_source [of pl s0 r j w s Service_kind] svc by (simp add: absent_or_dir_def)
  have rest: "mtriple E (opened pl s0 r False j w)
      (thenM (revalidate_status (record_path pl False) r)
      (thenM (rename (Queue, []) (entry_name pl) (Events, []) (p_event pl))
      (thenM (modify_mem enter_events) (thenM fsync (thenM fsync (named_checkpoint ''record_promoted''))))))
      (\<lambda>_. promoted (cfg E) pl s0) (failing E pl s0)"
    by (rule mtriple_then [OF step_revalidate [OF g] mtriple_then [OF promotion_moves(1) [OF g j]
          mtriple_then [OF promotion_moves(2) [OF g j] mtriple_then [OF step_fsync [OF g1] mtriple_then [OF step_fsync [OF g1]
          step_promoted_checkpoint [OF g1]]]]]])
  show ?thesis
    unfolding recover_promotion_def
    by (rule mtriple_recall [where ?t0.0 = "tx r False j"], erule opened_mem,
        unfold tx_simps good_record [OF g] safe_entry_def if_False entry_name_def [symmetric],
        rule step_read [where v = False], erule read, rule mtriple_checked, simp, rule rest)
qed

lemma step_promoted_already:
  assumes g: "good (cfg E) pl True r j w"
  shows "mtriple E (opened pl s0 r True j w) recover_promotion
     (\<lambda>_. promoted (cfg E) pl s0) (failing E pl s0)"
  unfolding recover_promotion_def
  by (rule mtriple_recall [where ?t0.0 = "tx r True j"], erule opened_mem, unfold tx_simps if_True,
      rule step_promoted_checkpoint [OF g])

section \<open>After the promotion\<close>

lemma step_verify_disposition:
  assumes ok: "plan_ok (cfg E) pl" and g: "good (cfg E) pl True r j w"
  shows "mtriple E (opened pl s0 r True j w) verify_disposition_after_promotion
     (\<lambda>_. opened pl s0 r True j w) (failing E pl s0)"
proof -
  note cs = current_steps [OF g]
  have arch: "mtriple E (opened pl s0 r True j w)
      (case p_archive pl of
         None \<Rightarrow> ret ()
       | Some a \<Rightarrow>
           bindM (safe_entry (Archive, []) (path_name a)) (\<lambda>present.
           thenM (check present RecalculationError ''transaction archive is missing after promotion'')
                 (verify_archive_contents (path_name a) j)))
      (\<lambda>_. opened pl s0 r True j w) (failing E pl s0)"
  proof (cases "p_archive pl")
    case (Some a)
    then have ar: "archived pl w" using cs(4) by simp
    then obtain d where d: "w_archive w = Some (Dir d)" by (auto simp: archived_def)
    have "safe_directory_entry (Archive, []) (path_name a) s = Inr True" if "displays pl s0 True r j w s" for s
      using read_archive [OF that Some] d by (simp add: safe_directory_entry_def)
    moreover have "mtriple E (opened pl s0 r True j w) (thenM (verify_archive_contents (path_name a) j) (ret ()))
        (\<lambda>_. opened pl s0 r True j w) (failing E pl s0)"
      by (rule step_verify_archive [OF g Some ar mtriple_ret])
    moreover have "thenM m (ret ()) = m" for m :: "(transaction, unit) io"
      by (intro ext) (simp add: thenM_def bindM_def ret_def split: prod.splits outcome.splits)
    ultimately show ?thesis
      unfolding safe_entry_def Some option.case by (intro step_read mtriple_checked) simp_all
  qed (simp add: mtriple_ret)
  show ?thesis
    unfolding verify_disposition_after_promotion_def entry_exists_def
    by (rule mtriple_recall [where ?t0.0 = "tx r True j"], erule opened_mem,
        unfold tx_simps good_record(5) [OF g] good_journal(6) [OF g],
        rule step_read [where v = False], simp add: read_private(3) cs(2),
        rule mtriple_checked, simp, rule arch)
qed

section \<open>Removing the private candidate\<close>

text \<open>The last state before the record is failed: no private tree is left.\<close>

definition cleared :: "settings \<Rightarrow> plan \<Rightarrow> fsys \<Rightarrow> transaction \<Rightarrow> fsys \<Rightarrow> bool" where
  "cleared c pl s0 t s \<longleftrightarrow>
     (\<exists>r j w. opened pl s0 r True j w t s \<and> good c pl True r j w \<and> w_candidate w = None)"

lemma clearedI:
  "opened pl s0 r True j w t s \<Longrightarrow> good c pl True r j w \<Longrightarrow> w_candidate w = None \<Longrightarrow> cleared c pl s0 t s"
  unfolding cleared_def by blast

definition discarding :: "journal \<Rightarrow> view \<Rightarrow> bool" where
  "discarding j w \<longleftrightarrow> j_candidate_removal j \<and> w_products w = None \<and> steps j \<in> {4, 5}"

lemma discarding_good:
  assumes "good c pl True r j w" "discarding j w" "absent_or_dir v"
  shows "good c pl True r j (w\<lparr>w_candidate := v\<rparr>)" "discarding j (w\<lparr>w_candidate := v\<rparr>)"
  using assms by (auto simp: good_def phase_def current_phase_def discarding_def archived_def)

lemma step_rmtree_candidate:
  assumes g: "good (cfg E) pl True r j w" and ds: "discarding j w" and d: "w_candidate w = Some (Dir d)"
  shows "mtriple E (opened pl s0 r True j w) (rmtree (record_path pl True) NATIVE_CANDIDATE_DIRECTORY)
     (\<lambda>_. opened pl s0 r True j (w\<lparr>w_candidate := None\<rparr>)) (failing E pl s0)"
proof (rule mtriple_lift, rule keeps)
  fix t
  have "failing E pl s0 e t s" if "\<not> quiet E" "t = tx r True j"
    "displays pl s0 True r j (w\<lparr>w_candidate := Some (Dir d')\<rparr>) s" for d' e s
    using that discarding_good(1) [OF g ds, of "Some (Dir d')"]
    by (auto simp: failing_def absent_or_dir_def opened_def intro!: opened_lags)
  then show "triple E (opened pl s0 r True j w t) (rmtree (record_path pl True) NATIVE_CANDIDATE_DIRECTORY)
      (\<lambda>_. opened pl s0 r True j (w\<lparr>w_candidate := None\<rparr>) t) (\<lambda>e. failing E pl s0 e t)"
    unfolding opened_def
    by (intro triple_pure triple_weaken [OF rmtree_candidate [OF d]]) auto
qed

lemma step_discard:
  assumes g: "good (cfg E) pl True r j w" and ds: "discarding j w"
  shows "mtriple E (opened pl s0 r True j w)
     (thenM (whenM (w_candidate w \<noteq> None) (rmtree (record_path pl True) NATIVE_CANDIDATE_DIRECTORY))
     (thenM fsync (ret b)))
     (\<lambda>_. cleared (cfg E) pl s0) (failing E pl s0)"
proof -
  let ?w = "w\<lparr>w_candidate := None\<rparr>"
  have g1: "good (cfg E) pl True r j ?w"
    by (rule discarding_good(1) [OF g ds]) (simp add: absent_or_dir_def)
  have "mtriple E (opened pl s0 r True j w)
      (whenM (w_candidate w \<noteq> None) (rmtree (record_path pl True) NATIVE_CANDIDATE_DIRECTORY))
      (\<lambda>_. opened pl s0 r True j ?w) (failing E pl s0)"
  proof (cases "w_candidate w")
    case None
    then have "?w = w" by (cases w) simp
    then show ?thesis unfolding \<open>?w = w\<close> using None by (simp add: whenM_def mtriple_ret)
  next
    case (Some v)
    then obtain d where d: "w_candidate w = Some (Dir d)"
      using current_steps(5) [OF g] by (auto simp: absent_or_dir_def)
    with step_rmtree_candidate [OF g ds d] show ?thesis by (simp add: whenM_def)
  qed
  then show ?thesis
    by (rule mtriple_then)
       (rule mtriple_then [OF step_fsync [OF g1] mtriple_ret], rule clearedI [OF _ g1], simp_all)
qed

lemma candidate_cases:
  assumes "good c pl True r j w" "4 \<le> steps j"
  obtains (Discarding) "discarding j w"
  | (Published) d where "\<not> j_candidate_removal j" "w_products w = Some (Dir d)" "w_candidate w = None" "5 \<le> steps j"
  | (Nothing) "\<not> j_candidate_removal j" "w_products w = None" "w_candidate w = None" "steps j = 4"
  | (Private) d where "\<not> j_candidate_removal j" "w_products w = None" "w_candidate w = Some (Dir d)"
      "steps j \<in> {4, 5}"
  using assms
  by (auto simp: good_def phase_def current_phase_def discarding_def split: if_splits option.splits node.splits)

lemma candidate_intent:
  assumes "good c pl True r j w" "w_products w = None" "w_candidate w = Some (Dir d)" "steps j \<in> {4, 5}"
  shows "good c pl True r (j\<lparr>j_candidate_removal := True\<rparr>) w" "discarding (j\<lparr>j_candidate_removal := True\<rparr>) w"
  using assms
  by (auto simp: good_def phase_def current_phase_def discarding_def plan_journal_def steps_def absent_or_dir_def
      split: if_splits)

lemma read_products:
  assumes "displays pl s0 True r j w s" "absent_or_dir (w_products w)"
  shows "safe_directory_entry (Products, []) (p_event pl) s = Inr (w_products w \<noteq> None)"
  using assms
  by (auto elim!: displaysE dest!: looks_currentD(4) simp: safe_directory_entry_def entry_at_def absent_or_dir_def)

lemma whenM_ret: "thenM (whenM True m) (ret x) = thenM m (ret x)" "thenM (whenM False m) (ret x) = ret x"
  by (simp_all add: whenM_def thenM_def bindM_def ret_def fun_eq_iff)

lemma check_True: "thenM (check True k msg) m = m"
  by (simp add: thenM_def bindM_def check_def ret_def)

lemma step_remove_candidate:
  assumes g: "good (cfg E) pl True r j w" and j: "4 \<le> steps j"
  shows "mtriple E (opened pl s0 r True j w) remove_private_candidate
     (\<lambda>_. cleared (cfg E) pl s0) (failing E pl s0)"
proof -
  note cs = current_steps(5,6) [OF g]
  have names: "''candidate_ready'' \<in> set (j_completed j) \<longleftrightarrow> 4 < steps j"
    "''native_tree_published'' \<in> set (j_completed j) \<longleftrightarrow> 5 < steps j"
    unfolding checkpoint_nth by (rule completed_steps [OF g]; simp)+
  let ?c = "w_candidate w \<noteq> None" and ?p = "w_products w \<noteq> None"
  define body where "body =
    (if j_candidate_removal j
     then thenM (check (\<not> ?p) RecalculationError ''candidate-removal intent conflicts with a published native tree'')
         (thenM (whenM ?c (rmtree (record_path pl True) NATIVE_CANDIDATE_DIRECTORY)) (thenM fsync (ret False)))
     else thenM (check (\<not> (?c \<and> ?p)) RecalculationError ''private and published native event trees both exist'')
         (thenM (check (\<not> (?p \<and> \<not> 4 < steps j)) RecalculationError
                   ''published native event tree has no ready checkpoint'')
         (thenM (check (\<not> (\<not> ?p \<and> 5 < steps j)) RecalculationError ''published native event tree is missing'')
         (thenM (check (\<not> (\<not> ?c \<and> \<not> ?p \<and> 4 < steps j)) RecalculationError
                   ''ready native event-tree candidate is missing'')
         (thenM (whenM ?c (thenM (named_intent Candidate_removal)
                   (thenM (rmtree (record_path pl True) NATIVE_CANDIDATE_DIRECTORY) fsync)))
                (ret ?p))))))"
  have body: "mtriple E (opened pl s0 r True j w) body (\<lambda>_. cleared (cfg E) pl s0) (failing E pl s0)"
    using g j
  proof (cases rule: candidate_cases)
    case Discarding
    with step_discard [OF g Discarding] show ?thesis
      by (simp add: body_def discarding_def check_True)
  next
    case (Published d)
    then show ?thesis
      by (simp add: body_def check_True whenM_ret mtriple_ret clearedI [OF _ g])
  next
    case Nothing
    then show ?thesis
      by (simp add: body_def check_True whenM_ret mtriple_ret clearedI [OF _ g])
  next
    case (Private d)
    let ?j = "j\<lparr>j_candidate_removal := True\<rparr>" and ?w = "w\<lparr>w_candidate := None\<rparr>"
    note i = candidate_intent [OF g Private(2-4)]
    have g1: "good (cfg E) pl True r ?j ?w"
      by (rule discarding_good(1) [OF i]) (simp add: absent_or_dir_def)
    have intent: "mtriple E (opened pl s0 r True j w) (named_intent Candidate_removal)
        (\<lambda>_. opened pl s0 r True ?j w) (failing E pl s0)"
      by (rule step_intent [OF g _ i(1)]) (use Private in \<open>simp_all add: tx_def\<close>)
    have "mtriple E (opened pl s0 r True j w)
        (thenM (thenM (named_intent Candidate_removal)
          (thenM (rmtree (record_path pl True) NATIVE_CANDIDATE_DIRECTORY) fsync)) (ret ?p))
        (\<lambda>_. cleared (cfg E) pl s0) (failing E pl s0)"
      by (rule mtriple_then [OF mtriple_then [OF intent mtriple_then [OF step_rmtree_candidate [OF i Private(3)]
            step_fsync [OF g1]]] mtriple_ret], rule clearedI [OF _ g1]) simp_all
    moreover have "\<not> 5 < steps j" using Private(4) by auto
    ultimately show ?thesis
      using Private by (simp add: body_def check_True whenM_ret)
  qed
  show ?thesis
    unfolding remove_private_candidate_def safe_entry_def
    by (rule mtriple_recall [where ?t0.0 = "tx r True j"], erule opened_mem,
        unfold tx_simps Let_def good_record(5) [OF g] good_record(1) [OF g] names,
        rule step_read, erule read_private(2) [OF _ cs(1)], rule step_read, erule read_products [OF _ cs(2)],
        fold body_def, rule body)
qed

section \<open>Failing the record and removing the journal\<close>

definition ended :: "settings \<Rightarrow> plan \<Rightarrow> fsys \<Rightarrow> transaction \<Rightarrow> fsys \<Rightarrow> bool" where
  "ended c pl s0 t s \<longleftrightarrow>
     (\<exists>r j w. opened pl s0 r True j w t s \<and> good c pl True r j w \<and> can_settle c pl r w)"

lemma endedI:
  assumes "opened pl s0 r True j w t s" "good c pl True r j w" "state_of r = Some FAILED" "w_candidate w = None"
  shows "ended c pl s0 t s"
proof -
  have "can_settle c pl r w"
    using assms(2-4) current_steps [OF assms(2)] by (simp add: can_settle_def good_def)
  with assms show ?thesis unfolding ended_def by blast
qed

lemma state_status: "state_of r = Some st \<longleftrightarrow> r_status r = jstr (state_value st)"
  by (simp add: state_of_def parse_state_Some)

lemma step_mark_failed:
  assumes g: "good (cfg E) pl True r j w" and w: "w_candidate w = None" and clk: "clock_valid E"
  shows "mtriple E (opened pl s0 r True j w) (mark_failed message) (\<lambda>_. ended (cfg E) pl s0) (failing E pl s0)"
proof -
  have rec: "plan_record (cfg E) pl True r" using g by (simp add: good_def)
  then have "state_of r = Some RUNNING \<or> state_of r = Some FAILED" by (simp add: plan_record_def)
  then show ?thesis
  proof
    assume "state_of r = Some FAILED"
    then show ?thesis
      unfolding mark_failed_def
      by (intro mtriple_recall [where ?t0.0 = "tx r True j"])
         (auto simp: opened_mem state_status intro!: mtriple_ret endedI [OF _ g] w)
  next
    assume running: "state_of r = Some RUNNING"
    let ?f = "jobj [(''code'', jstr ''interrupted_recalculation''), (''message'', jstr message)]"
    let ?R = "\<lambda>r' t s. plan_record (cfg E) pl True r' \<and> state_of r' = Some FAILED \<and> t = tx r True j
        \<and> displays pl s0 True r' j w s"
    have g1: "good (cfg E) pl True r' j w" if "plan_record (cfg E) pl True r'" for r'
      using g that by (simp add: good_def)
    have fail: "mtriple E (opened pl s0 r True j w) (transition_current_record (p_event pl) FAILED (failure_args ?f))
        ?R (failing E pl s0)"
    proof (rule mtriple_lift, rule keeps)
      fix t
      have "failing E pl s0 e (tx r True j) s"
        if "\<not> quiet E" "plan_record (cfg E) pl True r'" "displays pl s0 True r' j w s" for e s r'
        using that g1 [OF that(2)] good_tracks [OF g] by (auto simp: failing_def lags_iff)
      then show "triple E (opened pl s0 r True j w t) (transition_current_record (p_event pl) FAILED (failure_args ?f))
          (\<lambda>r'. ?R r' t) (\<lambda>e. failing E pl s0 e t)"
        unfolding opened_def
        by (intro triple_pure triple_weaken [OF fail_displays [OF rec running clk]]) (auto simp: failure_ok_def)
    qed
    have keep: "mtriple E (?R r') (thenM (modify_mem (set_record r')) (revalidate_status (record_path pl True) r'))
        (\<lambda>_. ended (cfg E) pl s0) (failing E pl s0)" for r'
      by (rule mtriple_pure, rule mtriple_then [where R = "\<lambda>t s. state_of r' = Some FAILED
            \<and> opened pl s0 r' True j w t s"], rule mtriple_modify, simp add: opened_def, rule mtriple_pure,
          rule mtriple_post [OF step_revalidate [OF g1]], assumption, erule endedI [OF _ g1]; (assumption | rule w))
    have st: "r_status r = jstr ''RUNNING''" using running by (simp add: state_status)
    have ne: "(jstr ''RUNNING'' = jstr ''FAILED'') = False" by (simp add: lit_inject)
    show ?thesis
      unfolding mark_failed_def
      by (rule mtriple_recall [where ?t0.0 = "tx r True j"], erule opened_mem,
          unfold tx_simps good_record(1,5) [OF g] st ne if_False,
          rule mtriple_checked, rule refl, rule mtriple_bind [OF fail keep])
  qed
qed

text \<open>
  An operation that fails leaves the transaction in progress, or, when the very last \<open>fsync\<close> fails,
  settled with the journal already gone.
\<close>

definition halted :: "settings \<Rightarrow> plan \<Rightarrow> fsys \<Rightarrow> transaction \<Rightarrow> fsys \<Rightarrow> bool" where
  "halted c pl s0 t s \<longleftrightarrow>
     lags c pl s0 t s
     \<or> tracks pl t \<and> in_events t
       \<and> (\<exists>r w. good c pl True r (t_journal t) w \<and> can_settle c pl r w \<and> unlinked pl s0 r w s)"

lemma step_remove_journal:
  "mtriple E (ended (cfg E) pl s0) (bindM get_mem (\<lambda>t. thenM (remove_journal (record_dir t)) (ret True)))
     (\<lambda>b t s. b \<and> settled (cfg E) pl s0 s) (\<lambda>_ t s. \<not> quiet E \<and> halted (cfg E) pl s0 t s)"
    (is "mtriple E _ _ _ ?X")
  unfolding ended_def
proof (rule mtriple_ex)+
  fix r j w
  let ?P = "\<lambda>t s. opened pl s0 r True j w t s \<and> good (cfg E) pl True r j w \<and> can_settle (cfg E) pl r w"
  show "mtriple E ?P (bindM get_mem (\<lambda>t. thenM (remove_journal (record_dir t)) (ret True)))
      (\<lambda>b t s. b \<and> settled (cfg E) pl s0 s) ?X"
  proof (cases "good (cfg E) pl True r j w \<and> can_settle (cfg E) pl r w")
    case False
    then show ?thesis by (auto simp: mtriple_def)
  next
    case True
    then have g: "good (cfg E) pl True r j w" and cs: "can_settle (cfg E) pl r w" by simp_all
    let ?S = "\<lambda>t s. t = tx r True j \<and> unlinked pl s0 r w s"
    have after: "mtriple E ?S m (\<lambda>_. ?S) ?X" if "m = fsync" for m :: "(transaction, unit) io"
      unfolding that
      by (rule mtriple_fsync) (use g cs good_tracks [OF g] in \<open>auto simp: halted_def\<close>)
    have un: "mtriple E ?P (unlink (record_path pl True) TRANSACTION_FILE) (\<lambda>_. ?S)
        (\<lambda>e t s. \<not> quiet E \<and> (e = Some injected \<or> e = None) \<and> t = tx r True j \<and> displays pl s0 True r j w s)"
    proof (rule mtriple_lift, rule keeps)
      fix t
      show "triple E (?P t) (unlink (record_path pl True) TRANSACTION_FILE) (\<lambda>_. ?S t)
          (\<lambda>e s. \<not> quiet E \<and> (e = Some injected \<or> e = None) \<and> t = tx r True j \<and> displays pl s0 True r j w s)"
        unfolding opened_def conj_assoc
        by (rule triple_pure, rule triple_weaken [OF unlink_journal]) auto
    qed
    have lag: "?X e t s" if "\<not> quiet E" "t = tx r True j" "displays pl s0 True r j w s" for e t s
      using that g good_tracks [OF g] by (auto simp: halted_def lags_iff)
    have removal: "mtriple E ?P (remove_journal (record_path pl True)) (\<lambda>_ t s. settled (cfg E) pl s0 s) ?X"
      unfolding remove_journal_def
    proof (rule mtriple_bind)
      show "mtriple E ?P (catchM (thenM (unlink (record_path pl True) TRANSACTION_FILE) (ret True))
          (\<lambda>e. if is_not_found e then ret False else reraise e))
          (\<lambda>b t s. b \<and> ?S t s) ?X"
      proof (rule mtriple_catch)
        show "mtriple E ?P (thenM (unlink (record_path pl True) TRANSACTION_FILE) (ret True))
            (\<lambda>b t s. b \<and> ?S t s) (\<lambda>e. case e of None \<Rightarrow> ?X None
              | Some e' \<Rightarrow> \<lambda>t s. \<not> is_not_found e' \<and> ?X None t s)"
          by (rule mtriple_then [where R = ?S], rule mtriple_weaken [OF un])
             (auto simp: is_not_found_def injected_def intro!: mtriple_ret dest: lag split: option.splits)
        show "mtriple E (\<lambda>t s. \<not> is_not_found e \<and> ?X None t s) (if is_not_found e then ret False else reraise e)
            (\<lambda>b t s. b \<and> ?S t s) ?X" for e
          by (rule mtriple_pure) (simp add: mtriple_reraise)
      qed
      show "mtriple E (\<lambda>t s. b \<and> ?S t s) (whenM b fsync) (\<lambda>_ t s. settled (cfg E) pl s0 s) ?X" for b
        by (rule mtriple_pure)
           (simp add: whenM_def, rule mtriple_post [OF after [OF refl]], simp add: unlinked_settled [OF cs])
    qed
    show ?thesis
    proof (rule mtriple_recall [where ?t0.0 = "tx r True j"])
      show "?P t s \<Longrightarrow> t = tx r True j" for t s by (simp add: opened_def)
      show "mtriple E ?P (thenM (remove_journal (record_dir (tx r True j))) (ret True))
          (\<lambda>b t s. b \<and> settled (cfg E) pl s0 s) ?X"
        unfolding good_record(5) [OF g] by (rule mtriple_then [OF removal mtriple_ret]) simp
    qed
  qed
qed

section \<open>Recording a failed reconciliation\<close>

lemma good_failure:
  assumes "good c pl cur r j w" "valid_recovery_failure f"
  shows "good c pl cur r (j\<lparr>j_recovery_failure := f\<rparr>) w"
  using assms
  by (auto simp: good_def plan_journal_def phase_def queue_phase_def current_phase_def steps_def
      split: if_splits option.splits node.splits)

lemma recovery_evidence:
  assumes "valid_ts (JStr now)"
  shows "valid_recovery_failure (jobj [(''type'', jstr a), (''message'', jstr b), (''recorded_at'', JStr now)])"
  using assms by (simp add: valid_recovery_failure_def valid_ts_def has_exact_keys_jobj)

definition leaves :: "settings \<Rightarrow> plan \<Rightarrow> fsys \<Rightarrow> fsys \<Rightarrow> bool" where
  "leaves c pl s0 s \<longleftrightarrow> in_progress c pl s0 s \<or> settled c pl s0 s"

lemma leavesI: "good c pl cur r j w \<Longrightarrow> displays pl s0 cur r j w s \<Longrightarrow> leaves c pl s0 s"
  unfolding leaves_def in_progress_def by blast

lemma step_save_failure:
  assumes h: "halted (cfg E) pl s0 t1 s1" and f: "valid_recovery_failure f"
  shows "mtriple E (\<lambda>t s. t = put_recovery_failure f t1 \<and> s = s1) save_journal
     (\<lambda>_ t s. in_progress (cfg E) pl s0 s) (\<lambda>_ t s. leaves (cfg E) pl s0 s)"
proof -
  let ?t = "put_recovery_failure f t1"
  have t: "tracks pl ?t \<longleftrightarrow> tracks pl t1" "in_events ?t = in_events t1"
    "t_journal ?t = (t_journal t1)\<lparr>j_recovery_failure := f\<rparr>"
    by (simp_all add: put_recovery_failure_def)
  from h consider
      (Lag) r j w where "tracks pl t1" "good (cfg E) pl (in_events t1) r j w"
        "good (cfg E) pl (in_events t1) r (t_journal t1) w" "displays pl s0 (in_events t1) r j w s1"
    | (Gone) r w where "tracks pl t1" "in_events t1" "good (cfg E) pl True r (t_journal t1) w"
        "can_settle (cfg E) pl r w" "unlinked pl s0 r w s1"
    by (auto simp: halted_def lags_iff)
  then show ?thesis
  proof cases
    case Lag
    note g = good_failure [OF Lag(3) f, folded t(3)]
    have "tracks pl ?t" using Lag(1) t(1) by simp
    from save_journal_from [OF this t(2) write_journal_displays [of E pl s0 _ r j w]] show ?thesis
      by (rule mtriple_weaken) (use Lag g in \<open>auto simp: in_progress_def intro: leavesI\<close>)
  next
    case Gone
    note g = good_failure [OF Gone(3) f, folded t(3)]
    have "tracks pl ?t" using Gone(1) t(1) by simp
    moreover have "in_events ?t = True" using Gone(2) t(2) by simp
    ultimately show ?thesis
      by (rule mtriple_weaken [OF save_journal_from [OF _ _ write_journal_unlinked [of E pl s0 r w]]])
         (use Gone g in \<open>auto simp: in_progress_def leaves_def dest: unlinked_settled\<close>)
  qed
qed

lemma step_record_failure:
  assumes clk: "clock_valid E"
  shows "mtriple E (halted (cfg E) pl s0) (record_recovery_failure e)
     (\<lambda>_ t s. in_progress (cfg E) pl s0 s) (\<lambda>_ t s. leaves (cfg E) pl s0 s)"
  unfolding record_recovery_failure_def
proof (rule mtriple_bind [where R = "\<lambda>now t s. valid_ts (JStr now) \<and> halted (cfg E) pl s0 t s"])
  show "mtriple E (halted (cfg E) pl s0) read_now
      (\<lambda>now t s. valid_ts (JStr now) \<and> halted (cfg E) pl s0 t s) (\<lambda>_ t s. leaves (cfg E) pl s0 s)"
    by (rule mtriple_lift) (use clk in \<open>auto simp: clock_valid_def intro!: keeps triple_read_now\<close>)
  fix now
  let ?f = "jobj [(''type'', jstr (exn_name (exn_kind_of e))), (''message'', jstr (exn_message e)),
      (''recorded_at'', JStr now)]"
  show "mtriple E (\<lambda>t s. valid_ts (JStr now) \<and> halted (cfg E) pl s0 t s)
      (thenM (modify_mem (put_recovery_failure ?f))
        (catchM save_journal (\<lambda>_. raise RecalculationError
           ''reconciliation failed; recording failure evidence also failed'')))
      (\<lambda>_ t s. in_progress (cfg E) pl s0 s) (\<lambda>_ t s. leaves (cfg E) pl s0 s)"
  proof (rule mtriple_pure, rule mtriple_fixed)
    fix t1 s1 assume "valid_ts (JStr now)" "halted (cfg E) pl s0 t1 s1"
    note save = step_save_failure [OF this(2) recovery_evidence [OF this(1)]]
    show "mtriple E (\<lambda>t s. t = t1 \<and> s = s1)
        (thenM (modify_mem (put_recovery_failure ?f))
          (catchM save_journal (\<lambda>_. raise RecalculationError
             ''reconciliation failed; recording failure evidence also failed'')))
        (\<lambda>_ t s. in_progress (cfg E) pl s0 s) (\<lambda>_ t s. leaves (cfg E) pl s0 s)"
      by (rule mtriple_then [OF mtriple_modify mtriple_catch [OF mtriple_weaken [OF save] mtriple_raise]])
         (auto split: option.splits)
  qed
qed

section \<open>The steps of a reconciliation\<close>

lemma mtriple_facts: "(b \<Longrightarrow> mtriple E P m Q X) \<Longrightarrow> mtriple E (\<lambda>t s. P t s \<and> b) m Q X"
  by (simp add: mtriple_def)

lemma failing_halted: "failing E pl s0 e t s \<Longrightarrow> \<not> quiet E \<and> halted (cfg E) pl s0 t s"
  by (simp add: failing_def halted_def)

lemma step_from_ready:
  "mtriple E (ready (cfg E) pl s0 r) recover_promotion (\<lambda>_. promoted (cfg E) pl s0) (failing E pl s0)"
  unfolding ready_def
proof (rule mtriple_ex)+
  fix j w
  show "mtriple E (\<lambda>t s. opened pl s0 r False j w t s \<and> good (cfg E) pl False r j w \<and> steps j = 3)
      recover_promotion (\<lambda>_. promoted (cfg E) pl s0) (failing E pl s0)"
    by (rule mtriple_facts) (simp add: step_promote)
qed

lemma step_to_promoted:
  assumes ok: "plan_ok (cfg E) pl" and g: "good (cfg E) pl cur r j w"
  shows "mtriple E (opened pl s0 r cur j w) (thenM (whenM (\<not> cur) recover_staging) recover_promotion)
     (\<lambda>_. promoted (cfg E) pl s0) (failing E pl s0)"
proof (cases cur)
  case True
  then have "mtriple E (opened pl s0 r cur j w) recover_promotion (\<lambda>_. promoted (cfg E) pl s0) (failing E pl s0)"
    using step_promoted_already [of E pl r j w s0] g by simp
  with True show ?thesis
    by (simp add: whenM_def) (rule mtriple_then [OF mtriple_ret], assumption+)
next
  case False
  then show ?thesis
    using mtriple_then [OF step_recover_staging [OF ok, of r j w s0] step_from_ready] g by (simp add: whenM_def)
qed

definition finishing :: "(transaction, bool) io" where
  "finishing =
     thenM verify_disposition_after_promotion
    (bindM remove_private_candidate (\<lambda>published.
     thenM (mark_failed (if published then PUBLISHED_MESSAGE else UNPUBLISHED_MESSAGE))
    (bindM get_mem (\<lambda>t'.
     thenM (remove_journal (record_dir t')) (ret True)))))"

lemma step_finishing:
  assumes ok: "plan_ok (cfg E) pl" and clk: "clock_valid E"
  shows "mtriple E (promoted (cfg E) pl s0) finishing (\<lambda>b t s. b \<and> settled (cfg E) pl s0 s)
     (\<lambda>_ t s. \<not> quiet E \<and> halted (cfg E) pl s0 t s)"
    (is "mtriple E _ _ ?Q ?X")
proof -
  have weak: "mtriple E P m R (failing E pl s0) \<Longrightarrow> mtriple E P m R ?X" for P m R
    by (erule mtriple_weaken) (auto dest: failing_halted)
  have mark: "mtriple E (cleared (cfg E) pl s0) (mark_failed message) (\<lambda>_. ended (cfg E) pl s0) ?X" for message
    unfolding cleared_def
  proof (rule mtriple_ex)+
    fix r j w
    show "mtriple E (\<lambda>t s. opened pl s0 r True j w t s \<and> good (cfg E) pl True r j w \<and> w_candidate w = None)
        (mark_failed message) (\<lambda>_. ended (cfg E) pl s0) ?X"
      by (rule mtriple_facts) (simp add: weak [OF step_mark_failed [OF _ _ clk]])
  qed
  have remove: "mtriple E (promoted (cfg E) pl s0)
      (thenM verify_disposition_after_promotion remove_private_candidate) (\<lambda>_. cleared (cfg E) pl s0) ?X"
    unfolding promoted_def
  proof (rule mtriple_ex)+
    fix r j w
    show "mtriple E (\<lambda>t s. opened pl s0 r True j w t s \<and> good (cfg E) pl True r j w \<and> 4 \<le> steps j)
        (thenM verify_disposition_after_promotion remove_private_candidate) (\<lambda>_. cleared (cfg E) pl s0) ?X"
      by (rule mtriple_facts)
         (elim conjE, rule weak [OF mtriple_then [OF step_verify_disposition [OF ok] step_remove_candidate]])
  qed
  have assoc: "finishing = bindM (thenM verify_disposition_after_promotion remove_private_candidate)
      (\<lambda>published. thenM (mark_failed (if published then PUBLISHED_MESSAGE else UNPUBLISHED_MESSAGE))
        (bindM get_mem (\<lambda>t'. thenM (remove_journal (record_dir t')) (ret True))))"
    by (simp add: finishing_def thenM_def bindM_def fun_eq_iff split: prod.splits outcome.splits)
  show ?thesis
    unfolding assoc by (rule mtriple_bind [OF remove mtriple_then [OF mark step_remove_journal]])
qed

lemma step_reconcile:
  assumes ok: "plan_ok (cfg E) pl" and clk: "clock_valid E" and g: "good (cfg E) pl cur r j w"
  shows "mtriple E (opened pl s0 r cur j w) reconcile_steps (\<lambda>b t s. b \<and> settled (cfg E) pl s0 s)
     (\<lambda>_ t s. \<not> quiet E \<and> halted (cfg E) pl s0 t s)"
proof -
  have first: "mtriple E (opened pl s0 r cur j w) (thenM (whenM (\<not> cur) recover_staging) recover_promotion)
      (\<lambda>_. promoted (cfg E) pl s0) (\<lambda>_ t s. \<not> quiet E \<and> halted (cfg E) pl s0 t s)"
    by (rule mtriple_weaken [OF step_to_promoted [OF ok g]]) (auto dest: failing_halted)
  have split: "reconcile_steps = bindM get_mem (\<lambda>t. thenM (thenM (whenM (\<not> in_events t) recover_staging)
      recover_promotion) finishing)"
    by (simp add: reconcile_steps_def finishing_def thenM_def bindM_def fun_eq_iff
        split: prod.splits outcome.splits)
  show ?thesis
    unfolding split
    by (rule mtriple_recall [where ?t0.0 = "tx r cur j"], erule opened_mem, unfold tx_simps,
        rule mtriple_then [OF first step_finishing [OF ok clk]])
qed

section \<open>Locating the transaction\<close>

lemma good_journal_ok:
  assumes ok: "plan_ok c pl" and g: "good c pl cur r j w"
  shows "journal_ok c j"
proof -
  note j = good_journal [OF g]
  have arch: "j_archive_path j \<noteq> None \<longleftrightarrow> \<not> j_overwrite j \<and> has_preceding j"
    using plan_archive_iff [OF ok g] j by (auto simp: good_record [OF g])
  have k: "\<exists>k\<le>6. j_completed j = take k CHECKPOINTS" using j by blast
  have "(j_stage_removal j \<longrightarrow> 2 \<le> steps j) \<and> (j_candidate_removal j \<longrightarrow> 4 \<le> steps j)"
  proof (cases cur)
    case True
    with g have "good c pl True r j w" by simp
    note cs = current_steps(1) [OF this] this [unfolded good_def phase_def current_phase_def]
    then show ?thesis by (cases "j_candidate_removal j") auto
  next
    case False
    with g have "queue_phase pl j w" by (simp add: good_def phase_def)
    then show ?thesis unfolding queue_phase_def by (elim conjE disjE) simp_all
  qed
  then have sr: "j_stage_removal j \<Longrightarrow> 2 \<le> steps j" and cr: "j_candidate_removal j \<Longrightarrow> 4 \<le> steps j"
    by simp_all
  have names: "''service_staged'' \<in> set (j_completed j) \<longleftrightarrow> 1 < steps j"
    "''record_promoted'' \<in> set (j_completed j) \<longleftrightarrow> 3 < steps j"
    unfolding checkpoint_nth by (rule completed_steps [OF g]; simp)+
  have f: "valid_recovery_failure (j_recovery_failure j)"
    using g by (simp add: good_def plan_journal_def)
  have a: "if \<not> j_overwrite j \<and> has_preceding j
      then \<exists>t. valid_datetime t \<and> j_archive_path j = Some (archive_path_for c (j_event_id j) t)
      else j_archive_path j = None"
  proof (cases "p_archive pl")
    case None
    with arch j(6) show ?thesis by simp
  next
    case (Some a)
    with ok obtain t where "valid_datetime t" "a = archive_path_for c (p_event pl) t"
      by (auto simp: plan_ok_def)
    with arch j(1,6) Some show ?thesis by auto
  qed
  show ?thesis
    unfolding journal_ok_def names
  proof (intro conjI impI)
    show "valid_event_id (j_event_id j)" "1 \<le> j_sequence j" using ok j(1,2) by (simp_all add: plan_ok_def)
    show "j_stage_removal j \<Longrightarrow> 1 < steps j" "j_candidate_removal j \<Longrightarrow> 3 < steps j"
      using sr cr by simp_all
  qed (fact a k f)+
qed

lemma queue_service:
  assumes "plan_ok c pl" "good c pl False r j w" "w_service w = Some v"
  shows "\<exists>d. v = Dir d \<and> aget d TRANSACTION_FILE = None"
proof -
  have "w_service w = map_option Dir (p_service pl)"
    using assms(2)
  proof (cases rule: queue_cases)
    case Staging
    then show ?thesis using assms(3) by (auto simp: staging_def one_of_def split: option.splits node.splits)
  qed (use assms(2,3) in \<open>auto simp: disposed_def good_def phase_def queue_phase_def\<close>)
  with assms(3) obtain d where "p_service pl = Some d" "v = Dir d" by (cases "p_service pl") auto
  with assms(1) show ?thesis by (simp add: plan_ok_def)
qed

lemma located_entries:
  assumes ok: "plan_ok c pl" and g: "good c pl cur r j w" and D: "displays pl s0 cur r j w s"
  shows "safe_directory_entry (Queue, []) (queue_entry_name (p_sequence pl)) s = Inr (\<not> cur)"
    and "\<exists>b. safe_directory_entry (Events, []) (p_event pl) s = Inr b \<and> (cur \<longrightarrow> b)
        \<and> (b \<and> holds_journal (event_service_dir (p_event pl)) s \<longleftrightarrow> cur)"
    and "\<not> cur \<Longrightarrow> holds_journal (queue_entry_dir (p_sequence pl)) s"
    and "holds_journal (record_path pl cur) s"
proof -
  obtain d where d: "looks pl cur d w s" "dir_at (record_path pl cur) s = Some d"
      "aget d TRANSACTION_FILE = Some (File (Json (journal_to_json j)))"
    using D by (rule displaysE)
  show h: "holds_journal (record_path pl cur) s"
    using d(2,3) by (simp add: holds_journal_def entry_at_def)
  show "safe_directory_entry (Queue, []) (queue_entry_name (p_sequence pl)) s = Inr (\<not> cur)"
    using d(1) looks_queueD(1) [of pl d w s] looks_currentD(2) [of pl d w s]
    by (cases cur) (simp_all add: safe_directory_entry_def entry_at_def entry_name_def)
  show "\<not> cur \<Longrightarrow> holds_journal (queue_entry_dir (p_sequence pl)) s"
    using h by (simp add: record_path_def queue_entry_dir_def entry_name_def)
  show "\<exists>b. safe_directory_entry (Events, []) (p_event pl) s = Inr b \<and> (cur \<longrightarrow> b)
      \<and> (b \<and> holds_journal (event_service_dir (p_event pl)) s \<longleftrightarrow> cur)"
  proof (cases cur)
    case True
    then show ?thesis
      using d(1) looks_currentD(1) [of pl d w s] h
      by (intro exI [of _ True]) (simp add: safe_directory_entry_def entry_at_def record_path_def event_service_dir_def)
  next
    case False
    with d(1) have l: "looks pl False d w s" and g: "good c pl False r j w" using g by simp_all
    show ?thesis
    proof (cases "w_service w")
      case None
      with looks_queueD(2) [OF l] False show ?thesis
        by (intro exI [of _ False]) (simp add: safe_directory_entry_def entry_at_def)
    next
      case (Some v)
      with queue_service [OF ok g] obtain t where "v = Dir t" "aget t TRANSACTION_FILE = None" by blast
      with looks_queueD(2) [OF l] False Some show ?thesis
        by (intro exI [of _ True]) (simp add: safe_directory_entry_def entry_at_def holds_journal_def event_service_dir_def)
    qed
  qed
qed

lemma step_locate:
  assumes ok: "plan_ok (cfg E) pl" and g: "good (cfg E) pl cur r j w"
  shows "mtriple E (\<lambda>t s. displays pl s0 cur r j w s) (locate_transaction (p_event pl) (p_sequence pl))
     (\<lambda>b t s. b \<and> opened pl s0 r cur j w t s) (\<lambda>_ _ _. False)"
proof -
  let ?D = "\<lambda>(t :: transaction) s. displays pl s0 cur r j w s"
  note e = located_entries [OF ok g]
  have event: "valid_event_id (p_event pl)" using ok by (simp add: plan_ok_def)
  have candidate: "bindE (safe_directory_entry (Queue, []) (queue_entry_name (p_sequence pl)) s) (\<lambda>queued.
      if queued \<and> holds_journal (queue_entry_dir (p_sequence pl)) s then Inr True
      else bindE (safe_directory_entry (Events, []) (p_event pl) s) (\<lambda>current.
        Inr (current \<and> holds_journal (event_service_dir (p_event pl)) s))) = Inr True"
    if "displays pl s0 cur r j w s" for s
    using e [OF that] by (cases cur) auto
  have select: "select_location (p_event pl) (p_sequence pl) s = Inr (Some cur)"
    if "displays pl s0 cur r j w s" for s
    using e [OF that] by (cases cur) (auto simp: select_location_def)
  have path: "(if cur then event_service_dir (p_event pl) else queue_entry_dir (p_sequence pl)) = record_path pl cur"
    by (simp add: record_path_def event_service_dir_def queue_entry_dir_def entry_name_def)
  have load: "(if cur then read_current_record (cfg E) (p_event pl) s
      else read_status (cfg E) (p_sequence pl) s) = Inr (Some r)" if D: "displays pl s0 cur r j w s" for s
  proof -
    obtain d where d: "dir_at (record_path pl cur) s = Some d"
        "aget d STATUS_FILE = Some (File (Json (record_to_dict r)))"
      using D by (rule displaysE)
    have st: "entry_at (record_path pl cur) STATUS_FILE s = Some (File (Json (record_to_dict r)))"
      using d by (simp add: entry_at_def)
    have o: "open_record_directory (record_path pl cur) s = Inr (Some d)"
      using d(1) open_record_dir by (metis record_path_cases)
    have "load_record (cfg E) (record_path pl cur) es ee s = Inr r"
      if "es = None \<or> es = Some (p_sequence pl)" "ee = None \<or> ee = Some (p_event pl)" for es ee
      by (rule load_stored [OF st good_record(4) [OF g]]) (use that good_record(1,2) [OF g] in auto)
    with o path event show ?thesis
      by (cases cur) (simp_all add: read_current_record_def read_status_def read_record_directory_def
          validate_event_id_Inr)
  qed
  have journal: "load_journal (cfg E) (record_path pl cur) s = Inr j" if D: "displays pl s0 cur r j w s" for s
  proof -
    obtain d where "dir_at (record_path pl cur) s = Some d"
        "aget d TRANSACTION_FILE = Some (File (Json (journal_to_json j)))"
      using D by (rule displaysE)
    then show ?thesis by (intro load_journal_round_trip [OF good_journal_ok [OF ok g]]) (simp add: entry_at_def)
  qed
  have identity: "validate_journal_identity j r = Inr ()"
    using good_journal(1-3) [OF g] good_record(1-3) [OF g] valid_record_identity(1,3) [OF good_record(4) [OF g]]
    by (simp add: validate_journal_identity_def guardE_def)
  have transaction: "mtriple E ?D (load_transaction (p_event pl) (p_sequence pl) cur)
      (\<lambda>_. opened pl s0 r cur j w) (\<lambda>_ _ _. False)"
    unfolding load_transaction_def Let_def path
  proof (rule mtriple_read [where v = r])
    show "bindE (if cur then read_current_record (cfg E) (p_event pl) s else read_status (cfg E) (p_sequence pl) s)
        (\<lambda>found. case found of
          None \<Rightarrow> Inl (Exn RecalculationError ''transaction record identity does not match its journal'')
        | Some r \<Rightarrow> bindE (guardE (sequence_of r = p_sequence pl) RecalculationError
                       ''transaction record identity does not match its journal'') (\<lambda>_. Inr r)) = Inr r"
      if "?D t s" for t s
      using load [OF that] good_record(2) [OF g] by (simp add: guardE_def)
    show "mtriple E ?D (thenM (revalidate_status (record_path pl cur) r)
        (bindM (observe (\<lambda>E. load_journal (cfg E) (record_path pl cur))) (\<lambda>j.
         thenM (check (j_event_id j = p_event pl \<and> j_sequence j = p_sequence pl) RecalculationError
           ''requested transaction identity does not match journal'')
        (thenM (liftE (validate_journal_identity j r))
           (modify_mem (\<lambda>_. \<lparr>t_record = r, in_events = cur, t_journal = j\<rparr>))))))
        (\<lambda>_. opened pl s0 r cur j w) (\<lambda>_ _ _. False)"
      by (rule mtriple_then [where R = ?D],
          rule mtriple_lift, simp add: revalidate_status_def keeps, rule revalidate_displays,
          rule mtriple_read, erule journal, rule mtriple_checked, simp add: good_journal [OF g],
          rule mtriple_lifted, rule TrueI, rule mtriple_modify, simp add: opened_def tx_def, rule identity)
  qed
  show ?thesis
    unfolding locate_transaction_def journal_candidate_present_def
    by (rule mtriple_read, erule candidate, simp only: not_True_eq_False if_False,
        rule mtriple_read, erule select, simp only: option.case,
        rule mtriple_then [OF transaction mtriple_ret], simp)
qed

section \<open>One reconciliation\<close>

lemma step_transaction:
  assumes "plan_ok (cfg E) pl" "clock_valid E"
  shows "mtriple E (\<lambda>t s. in_progress (cfg E) pl s0 s)
     (reconcile_transaction (p_event pl) (p_sequence pl))
     (\<lambda>b t s. b \<and> settled (cfg E) pl s0 s)
     (\<lambda>_ t s. \<not> quiet E \<and> (in_progress (cfg E) pl s0 s \<or> settled (cfg E) pl s0 s))"
proof -
  have event: "validate_event_id (JStr (p_event pl)) = Inr (p_event pl)"
    using assms(1) by (simp add: plan_ok_def validate_event_id_Inr)
  have handled: "mtriple E (\<lambda>t s. \<not> quiet E \<and> halted (cfg E) pl s0 t s)
      (thenM (record_recovery_failure e) (raise RecalculationError ''could not reconcile calculation''))
      (\<lambda>b t s. b \<and> settled (cfg E) pl s0 s)
      (\<lambda>_ t s. \<not> quiet E \<and> (in_progress (cfg E) pl s0 s \<or> settled (cfg E) pl s0 s))" for e
    by (rule mtriple_pure,
        rule mtriple_then [OF mtriple_weaken [OF step_record_failure [OF assms(2)]] mtriple_raise])
       (auto simp: leaves_def)
  have one: "mtriple E (\<lambda>t s. good (cfg E) pl cur r j w \<and> displays pl s0 cur r j w s)
      (reconcile_transaction (p_event pl) (p_sequence pl))
      (\<lambda>b t s. b \<and> settled (cfg E) pl s0 s)
      (\<lambda>_ t s. \<not> quiet E \<and> (in_progress (cfg E) pl s0 s \<or> settled (cfg E) pl s0 s))" for cur r j w
  proof (rule mtriple_pure)
    assume g: "good (cfg E) pl cur r j w"
    have steps: "mtriple E (opened pl s0 r cur j w)
        (catchM reconcile_steps (\<lambda>e. thenM (record_recovery_failure e)
           (raise RecalculationError ''could not reconcile calculation'')))
        (\<lambda>b t s. b \<and> settled (cfg E) pl s0 s)
        (\<lambda>_ t s. \<not> quiet E \<and> (in_progress (cfg E) pl s0 s \<or> settled (cfg E) pl s0 s))"
      by (rule mtriple_catch [OF mtriple_weaken [OF step_reconcile [OF assms g]] handled])
         (auto simp: halted_def lags_iff in_progress_def dest: unlinked_settled split: option.splits)
    have located: "mtriple E (\<lambda>t s. b \<and> opened pl s0 r cur j w t s)
        (if \<not> b then ret False else catchM reconcile_steps (\<lambda>e. thenM (record_recovery_failure e)
           (raise RecalculationError ''could not reconcile calculation'')))
        (\<lambda>b t s. b \<and> settled (cfg E) pl s0 s)
        (\<lambda>_ t s. \<not> quiet E \<and> (in_progress (cfg E) pl s0 s \<or> settled (cfg E) pl s0 s))" for b
      by (rule mtriple_pure) (simp add: steps)
    show "mtriple E (\<lambda>t s. displays pl s0 cur r j w s) (reconcile_transaction (p_event pl) (p_sequence pl))
        (\<lambda>b t s. b \<and> settled (cfg E) pl s0 s)
        (\<lambda>_ t s. \<not> quiet E \<and> (in_progress (cfg E) pl s0 s \<or> settled (cfg E) pl s0 s))"
      unfolding reconcile_transaction_def event liftE_def sum.case
      by (rule mtriple_bind [OF mtriple_ret], assumption,
          rule mtriple_bind [OF mtriple_weaken [OF step_locate [OF assms(1) g]] located]) simp_all
  qed
  show ?thesis
  proof (rule mtriple_fixed)
    fix t0 :: transaction and s1
    assume "in_progress (cfg E) pl s0 s1"
    then obtain cur r j w where "good (cfg E) pl cur r j w" "displays pl s0 cur r j w s1"
      by (auto simp: in_progress_def)
    then show "mtriple E (\<lambda>t s. t = t0 \<and> s = s1) (reconcile_transaction (p_event pl) (p_sequence pl))
        (\<lambda>b t s. b \<and> settled (cfg E) pl s0 s)
        (\<lambda>_ t s. \<not> quiet E \<and> (in_progress (cfg E) pl s0 s \<or> settled (cfg E) pl s0 s))"
      by (intro mtriple_pre [OF one]) auto
  qed
qed

end
