(* ===== verification/Preparation.thy ===== *)
theory Preparation
  imports Recovery
begin

text \<open>
  The forward half of a durable replacement, executed symbolically: from the claimed record to the
  published native tree, for every fault. An operation that fails or dies leaves a transaction that
  reconciliation settles, or, before the journal is there, a record that was only given a warning.
\<close>

section \<open>Staging\<close>

lemma step_stage_kind:
  assumes g: "good (cfg E) pl False r j w" and st: "staged pl w d"
    and j: "\<not> j_stage_removal j" "steps j = kind_step k"
    and src: "w_source k w = map_option Dir (tree_of pl k)"
    and w: "w_archive w = None" "w_candidate w = None"
  shows "mtriple E (opened pl s0 r False j w) (stage_kind k)
     (\<lambda>_. opened pl s0 r False (at_step (Suc (kind_step k)) j) (moved k w)) (failing E pl s0)"
proof -
  note m = staged_moved [OF st, where k = k]
  have n: "Suc (kind_step k) \<le> 2" using kind_step_less [of k] by simp
  obtain d' where "staged pl (moved k w) d'" using m(1) by blast
  then have sm: "staging pl (moved k w)" by (simp add: staged_def)
  have g1: "good (cfg E) pl False r j (moved k w)"
    by (rule staging_good_same [OF g sm j(1)]) (use m w n j in simp_all)
  have g2: "good (cfg E) pl False r (at_step (Suc (kind_step k)) j) (moved k w)"
    by (rule good_staging [OF g sm j(1) n]) (use m w in simp_all)
  have checkpoint: "mtriple E (opened pl s0 r False j (moved k w)) (named_checkpoint (kind_checkpoint k))
      (\<lambda>_. opened pl s0 r False (at_step (Suc (kind_step k)) j) (moved k w)) (failing E pl s0)"
    by (rule step_checkpoint [OF g1 g2 _ _ _ kind_checkpoint_nth]) (use kind_step_less [of k] j in simp_all)
  have move: "mtriple E (opened pl s0 r False j w)
      (whenM (preceding j k)
         (thenM (rename (kind_source k) (p_event pl) (child (record_path pl False) STAGING_DIRECTORY) (kind_name k))
         (thenM fsync fsync)))
      (\<lambda>_. opened pl s0 r False j (moved k w)) (failing E pl s0)"
  proof (cases "tree_of pl k")
    case None
    then have "moved k w = w" "\<not> preceding j k"
      using src preceding_tree [OF g, of k] by (simp_all add: moved_def)
    then show ?thesis by (simp add: whenM_def mtriple_ret)
  next
    case (Some t)
    then show ?thesis
      using src preceding_tree [OF g, of k]
      by (auto simp: whenM_def intro!: mtriple_then [OF step_rename_source [OF g st]]
          mtriple_then [OF step_fsync [OF g1]] step_fsync [OF g1])
  qed
  show ?thesis
    unfolding stage_kind_def
    by (rule mtriple_recall [where ?t0.0 = "tx r False j"], erule opened_mem,
        unfold tx_simps good_record [OF g], rule mtriple_then [OF move checkpoint])
qed

text \<open>What both ways of disposing of the stage start from.\<close>

definition all_staged ::
  "settings \<Rightarrow> plan \<Rightarrow> fsys \<Rightarrow> calculation_record \<Rightarrow> transaction \<Rightarrow> fsys \<Rightarrow> bool" where
  "all_staged c pl s0 r t s \<longleftrightarrow>
     (\<exists>j w d. opened pl s0 r False j w t s \<and> good c pl False r j w \<and> staged pl w d
        \<and> \<not> j_stage_removal j \<and> steps j = 2 \<and> w_archive w = None \<and> w_products w = None \<and> w_service w = None)"

lemma step_stage_preceding:
  assumes g: "good (cfg E) pl False r j w" and st: "staging pl w" "w_stage w = None"
    and j: "\<not> j_stage_removal j" "steps j = 0" and w: "w_archive w = None" "w_candidate w = None"
  shows "mtriple E (opened pl s0 r False j w) stage_preceding (\<lambda>_. all_staged (cfg E) pl s0 r) (failing E pl s0)"
proof -
  let ?w1 = "w\<lparr>w_stage := Some (Dir [])\<rparr>"
  let ?w2 = "moved Products_kind ?w1"
  let ?w3 = "moved Service_kind ?w2"
  let ?j1 = "at_step 1 j" and ?j2 = "at_step 2 j"
  have src: "w_products w = map_option Dir (p_products pl)" "w_service w = map_option Dir (p_service pl)"
    using st by (simp_all add: staging_def)
  note d1 = staging_absent_stage [OF st]
  note m2 = staged_moved [OF d1, where k = Products_kind]
  obtain d2 where d2: "staged pl ?w2 d2" using m2(1) ..
  note m3 = staged_moved [OF d2, where k = Service_kind]
  obtain d3 where d3: "staged pl ?w3 d3" using m3(1) ..
  have svc: "w_service ?w2 = w_service w"
    by (simp add: moved_def split: option.splits node.splits)
  have g1: "good (cfg E) pl False r j ?w1"
    by (rule staging_good_same [OF g _ j(1)]) (use d1 w j in \<open>simp_all add: staged_def\<close>)
  have g2: "good (cfg E) pl False r ?j1 ?w2"
    by (rule good_staging [OF g _ j(1)]) (use d2 w m2(4,5) in \<open>simp_all add: staged_def\<close>)
  have g3: "good (cfg E) pl False r ?j2 ?w3"
    by (rule good_staging [OF g _ j(1)]) (use d3 w m2(4,5) m3(4,5) in \<open>simp_all add: staged_def\<close>)
  have make: "mtriple E (opened pl s0 r False j w) (mkdir (record_path pl False) STAGING_DIRECTORY)
      (\<lambda>_. opened pl s0 r False j ?w1) (failing E pl s0)"
    by (rule step_call [OF mkdir_stage [OF st(2)] keeps_calls(1) g])
  have k1: "mtriple E (opened pl s0 r False j ?w1) (stage_kind Products_kind)
      (\<lambda>_. opened pl s0 r False ?j1 ?w2) (failing E pl s0)"
    using step_stage_kind [OF g1 d1, of Products_kind] j w src by simp
  have k2: "mtriple E (opened pl s0 r False ?j1 ?w2) (stage_kind Service_kind)
      (\<lambda>_. opened pl s0 r False ?j2 ?w3) (failing E pl s0)"
    using step_stage_kind [OF g2 d2, of Service_kind] j w src svc m2(4,5) by (simp add: steps_at_step numeral_2_eq_2)
  have sources: "w_products ?w3 = None" "w_service ?w3 = None" "w_archive ?w3 = None"
    using m3(2,4) m3(3) [where k' = Products_kind] m2(2,4) w by simp_all
  have reached: "opened pl s0 r False ?j2 ?w3 t s \<Longrightarrow> all_staged (cfg E) pl s0 r t s" for t s
    unfolding all_staged_def using g3 d3 sources j
    by (intro exI [of _ ?j2] exI [of _ ?w3] exI [of _ d3]) (simp add: steps_at_step)
  show ?thesis
    unfolding stage_preceding_def
    by (rule mtriple_recall [where ?t0.0 = "tx r False j"], erule opened_mem,
        unfold tx_simps good_record(5) [OF g], rule mtriple_post,
        rule mtriple_then [OF make mtriple_then [OF step_fsync [OF g1] mtriple_then [OF k1 k2]]], erule reached)
qed

lemma step_dispose:
  assumes ok: "plan_ok (cfg E) pl"
  shows "mtriple E (all_staged (cfg E) pl s0 r) dispose_preceding (\<lambda>_. ready (cfg E) pl s0 r) (failing E pl s0)"
  unfolding all_staged_def
proof (rule mtriple_ex)+
  fix j w d
  let ?F = "good (cfg E) pl False r j w \<and> staged pl w d \<and> \<not> j_stage_removal j \<and> steps j = 2
      \<and> w_archive w = None \<and> w_products w = None \<and> w_service w = None"
  show "mtriple E (\<lambda>t s. opened pl s0 r False j w t s \<and> ?F) dispose_preceding
      (\<lambda>_. ready (cfg E) pl s0 r) (failing E pl s0)"
  proof (rule mtriple_facts)
    assume "?F"
    then have g: "good (cfg E) pl False r j w" and st: "staged pl w d"
      and j: "\<not> j_stage_removal j" "steps j = 2"
      and w: "w_archive w = None" "w_products w = None" "w_service w = None" by simp_all
    have "mtriple E (opened pl s0 r False j w)
        (thenM (if r_overwrite r = JBool False \<and> has_preceding j then archive_stage else remove_stage)
           (named_checkpoint ''preceding_disposed'')) (\<lambda>_. ready (cfg E) pl s0 r) (failing E pl s0)"
    proof (cases "p_archive pl")
      case None
      with plan_archive_iff [OF ok g] step_remove_stage [OF g st j w(2,3) None]
      show ?thesis by auto
    next
      case (Some a)
      with plan_archive_iff [OF ok g] step_archive_stage [OF g st j w Some]
      show ?thesis by auto
    qed
    then show "mtriple E (opened pl s0 r False j w) dispose_preceding (\<lambda>_. ready (cfg E) pl s0 r) (failing E pl s0)"
      unfolding dispose_preceding_def
      by (intro mtriple_recall [where ?t0.0 = "tx r False j"]) (simp_all add: opened_mem)
  qed
qed

section \<open>Promotion\<close>

text \<open>The record is current, the native tree not yet made.\<close>

definition fresh ::
  "settings \<Rightarrow> plan \<Rightarrow> fsys \<Rightarrow> calculation_record \<Rightarrow> transaction \<Rightarrow> fsys \<Rightarrow> bool" where
  "fresh c pl s0 r t s \<longleftrightarrow>
     (\<exists>j w. opened pl s0 r True j w t s \<and> good c pl True r j w \<and> steps j = 4 \<and> \<not> j_candidate_removal j
        \<and> w_products w = None \<and> w_candidate w = None)"

lemma step_promote_record:
  "mtriple E (ready (cfg E) pl s0 r) promote_record (\<lambda>_. fresh (cfg E) pl s0 r) (failing E pl s0)"
  unfolding ready_def
proof (rule mtriple_ex)+
  fix j w
  let ?F = "good (cfg E) pl False r j w \<and> steps j = 3"
  show "mtriple E (\<lambda>t s. opened pl s0 r False j w t s \<and> ?F) promote_record
      (\<lambda>_. fresh (cfg E) pl s0 r) (failing E pl s0)"
  proof (rule mtriple_facts)
    assume "?F"
    then have g: "good (cfg E) pl False r j w" and j: "steps j = 3" by simp_all
    have d: "disposed pl w" "w_candidate w = None" "\<not> j_candidate_removal j"
      using g j by (auto simp: good_def phase_def queue_phase_def)
    have g1: "good (cfg E) pl True r j w"
      using g d j by (auto simp: good_def phase_def current_phase_def plan_record_def disposed_def)
    have g2: "good (cfg E) pl True r (at_step 4 j) w"
      using good_promoted [OF g1] j by simp
    have cp: "mtriple E (opened pl s0 r True j w) (named_checkpoint ''record_promoted'')
        (\<lambda>_. fresh (cfg E) pl s0 r) (failing E pl s0)"
      by (rule mtriple_post [OF step_checkpoint [OF g1 g2 _ _ _ checkpoint_nth(4)]])
         (use j g2 d in \<open>auto simp: steps_at_step fresh_def disposed_def intro!: exI [of _ w]\<close>)
    show "mtriple E (opened pl s0 r False j w) promote_record (\<lambda>_. fresh (cfg E) pl s0 r) (failing E pl s0)"
      unfolding promote_record_def
      by (rule mtriple_recall [where ?t0.0 = "tx r False j"], erule opened_mem,
          unfold tx_simps good_record [OF g] entry_name_def [symmetric],
          rule mtriple_then [OF step_revalidate [OF g] mtriple_then [OF promotion_moves(1) [OF g j] mtriple_then [OF promotion_moves(2) [OF g j]
          mtriple_then [OF step_fsync [OF g1] mtriple_then [OF step_fsync [OF g1] cp]]]]])
  qed
qed

section \<open>The native tree\<close>

lemma candidate_good:
  assumes "good c pl True r j w" "steps j = 4" "\<not> j_candidate_removal j" "w_products w = None"
  shows "good c pl True r j (w\<lparr>w_candidate := Some (Dir d)\<rparr>)"
    and "good c pl True r (at_step 5 j) (w\<lparr>w_candidate := Some (Dir d)\<rparr>)"
  using assms
  by (auto simp: good_def phase_def current_phase_def plan_journal_at_step steps_at_step archived_def)

text \<open>A candidate with any contents.\<close>

definition filling ::
  "plan \<Rightarrow> fsys \<Rightarrow> calculation_record \<Rightarrow> journal \<Rightarrow> view \<Rightarrow> transaction \<Rightarrow> fsys \<Rightarrow> bool" where
  "filling pl s0 r j w t s \<longleftrightarrow> t = tx r True j \<and> with_candidate pl s0 True r j w s"

lemma filling_lags:
  assumes "good c pl True r j w" "steps j = 4" "\<not> j_candidate_removal j" "w_products w = None"
  shows "filling pl s0 r j w t s \<Longrightarrow> lags c pl s0 t s"
  using candidate_good(1) [OF assms] good_tracks [OF assms(1)]
  unfolding filling_def with_candidate_def lags_iff by fastforce

lemma step_filling:
  assumes "triple E (with_candidate pl s0 True r j w) m (\<lambda>_. with_candidate pl s0 True r j w)
      (\<lambda>_. with_candidate pl s0 True r j w)" "keeps_mem m"
    and "\<And>t s. filling pl s0 r j w t s \<Longrightarrow> lags c pl s0 t s"
  shows "mtriple E (filling pl s0 r j w) m (\<lambda>_. filling pl s0 r j w) (\<lambda>_. lags c pl s0)"
proof (rule mtriple_post, rule mtriple_lift [OF assms(2)])
  fix t
  show "triple E (filling pl s0 r j w t) m (\<lambda>_. filling pl s0 r j w t) (\<lambda>_. lags c pl s0 t)"
    unfolding filling_def
    by (rule triple_pure, rule triple_weaken [OF assms(1)])
       (auto simp: filling_def intro: assms(3) [unfolded filling_def])
qed

text \<open>The native tree is ready, then public.\<close>

definition candidate_made ::
  "settings \<Rightarrow> plan \<Rightarrow> fsys \<Rightarrow> calculation_record \<Rightarrow> transaction \<Rightarrow> fsys \<Rightarrow> bool" where
  "candidate_made c pl s0 r t s \<longleftrightarrow>
     (\<exists>j w d. opened pl s0 r True j w t s \<and> good c pl True r j w \<and> steps j = 5 \<and> \<not> j_candidate_removal j
        \<and> w_products w = None \<and> w_candidate w = Some (Dir d))"

definition prepared ::
  "settings \<Rightarrow> plan \<Rightarrow> fsys \<Rightarrow> calculation_record \<Rightarrow> transaction \<Rightarrow> fsys \<Rightarrow> bool" where
  "prepared c pl s0 r t s \<longleftrightarrow>
     (\<exists>j w d. opened pl s0 r True j w t s \<and> good c pl True r j w \<and> steps j = 6 \<and> \<not> j_candidate_removal j
        \<and> w_products w = Some (Dir d) \<and> w_candidate w = None)"

lemma step_copy:
  "mtriple E (fresh (cfg E) pl s0 r) (copy_manifested_request manifest)
     (\<lambda>_. candidate_made (cfg E) pl s0 r) (\<lambda>_. lags (cfg E) pl s0)"
  unfolding fresh_def
proof (rule mtriple_ex)+
  fix j w
  let ?F = "good (cfg E) pl True r j w \<and> steps j = 4 \<and> \<not> j_candidate_removal j
        \<and> w_products w = None \<and> w_candidate w = None"
  show "mtriple E (\<lambda>t s. opened pl s0 r True j w t s \<and> ?F) (copy_manifested_request manifest)
      (\<lambda>_. candidate_made (cfg E) pl s0 r) (\<lambda>_. lags (cfg E) pl s0)"
  proof (rule mtriple_facts)
    assume "?F"
    then have g: "good (cfg E) pl True r j w"
      and w: "steps j = 4" "\<not> j_candidate_removal j" "w_products w = None" and none: "w_candidate w = None"
      by simp_all
    note cand = candidate_good [OF g w]
    note fill = step_filling [OF _ _ filling_lags [OF g w]]
    have path: "record_path pl True = (Events, [p_event pl])" by (simp add: record_path_def)
    note calls = candidate_calls [OF path] copy_displays [OF path]
    have make: "mtriple E (opened pl s0 r True j w) (mkdir (record_path pl True) NATIVE_CANDIDATE_DIRECTORY)
        (\<lambda>_. filling pl s0 r j w) (\<lambda>_. lags (cfg E) pl s0)"
      by (rule mtriple_weaken [OF step_call [OF mkdir_candidate [OF none] keeps_calls(1) g]])
         (auto simp: filling_def with_candidate_def opened_def failing_def)
    have sync: "mtriple E (filling pl s0 r j w) fsync (\<lambda>_. filling pl s0 r j w) (\<lambda>_. lags (cfg E) pl s0)"
      by (rule fill [OF triple_fsync keeps_calls(8)]) auto
    have current: "mtriple E (filling pl s0 r j w)
        (mkdir (Events, [p_event pl, NATIVE_CANDIDATE_DIRECTORY]) (lit ''current''))
        (\<lambda>_. filling pl s0 r j w) (\<lambda>_. lags (cfg E) pl s0)"
      by (rule fill [OF calls(1) keeps_calls(1)])
    have copy: "mtriple E (filling pl s0 r j w)
        (forM items (copy_request_file request (Events, [p_event pl, NATIVE_CANDIDATE_DIRECTORY, lit ''current''])))
        (\<lambda>_. filling pl s0 r j w) (\<lambda>_. lags (cfg E) pl s0)" for items request
      by (intro mtriple_forM fill [OF calls(4)])
         (auto simp: copy_request_file_def intro!: keeps split: prod.splits)
    have ready: "mtriple E (filling pl s0 r j w) (named_checkpoint ''candidate_ready'')
        (\<lambda>_. candidate_made (cfg E) pl s0 r) (\<lambda>_. lags (cfg E) pl s0)"
    proof -
      have each: "mtriple E (opened pl s0 r True j (w\<lparr>w_candidate := Some (Dir d)\<rparr>)) (named_checkpoint ''candidate_ready'')
          (\<lambda>_. candidate_made (cfg E) pl s0 r) (\<lambda>_. lags (cfg E) pl s0)" for d
        by (rule mtriple_weaken [OF step_checkpoint [OF cand [of d] _ _ _ checkpoint_nth(5)]])
           (use w cand [of d] in \<open>auto simp: steps_at_step candidate_made_def failing_def
              intro!: exI [of _ "w\<lparr>w_candidate := Some (Dir d)\<rparr>"]\<close>)
      have "mtriple E (\<lambda>t s. \<exists>d. opened pl s0 r True j (w\<lparr>w_candidate := Some (Dir d)\<rparr>) t s)
          (named_checkpoint ''candidate_ready'') (\<lambda>_. candidate_made (cfg E) pl s0 r) (\<lambda>_. lags (cfg E) pl s0)"
        by (rule mtriple_ex) (rule each)
      then show ?thesis
        by (rule mtriple_pre) (auto simp: filling_def with_candidate_def opened_def)
    qed
    show "mtriple E (opened pl s0 r True j w) (copy_manifested_request manifest)
        (\<lambda>_. candidate_made (cfg E) pl s0 r) (\<lambda>_. lags (cfg E) pl s0)"
      unfolding copy_manifested_request_def
      by (rule mtriple_recall [where ?t0.0 = "tx r True j"], erule opened_mem,
          unfold Let_def child_def good_record(5) [OF g], unfold path, unfold prod.sel append_Cons append_Nil,
          rule mtriple_then [OF make [unfolded path] mtriple_then [OF current mtriple_then [OF copy
            mtriple_then [OF sync mtriple_then [OF sync mtriple_then [OF sync ready]]]]]])
  qed
qed

lemma step_publish_native:
  "mtriple E (candidate_made (cfg E) pl s0 r) publish_native_tree
     (\<lambda>_. prepared (cfg E) pl s0 r) (\<lambda>_. lags (cfg E) pl s0)"
  unfolding candidate_made_def
proof (rule mtriple_ex)+
  fix j w d
  let ?F = "good (cfg E) pl True r j w \<and> steps j = 5 \<and> \<not> j_candidate_removal j
        \<and> w_products w = None \<and> w_candidate w = Some (Dir d)"
  show "mtriple E (\<lambda>t s. opened pl s0 r True j w t s \<and> ?F) publish_native_tree
      (\<lambda>_. prepared (cfg E) pl s0 r) (\<lambda>_. lags (cfg E) pl s0)"
  proof (rule mtriple_facts)
    let ?w = "w\<lparr>w_candidate := None, w_products := Some (Dir d)\<rparr>"
    assume "?F"
    then have g: "good (cfg E) pl True r j w" and w: "steps j = 5" "\<not> j_candidate_removal j"
        "w_products w = None" "w_candidate w = Some (Dir d)" by simp_all
    have g1: "good (cfg E) pl True r j ?w" and g2: "good (cfg E) pl True r (at_step 6 j) ?w"
      using g w by (auto simp: good_def phase_def current_phase_def plan_journal_at_step steps_at_step archived_def)
    have lag: "failing E pl s0 e t s \<Longrightarrow> lags (cfg E) pl s0 t s" for e t s by (simp add: failing_def)
    have move: "mtriple E (opened pl s0 r True j w)
        (rename (record_path pl True) NATIVE_CANDIDATE_DIRECTORY (Products, []) (p_event pl))
        (\<lambda>_. opened pl s0 r True j ?w) (\<lambda>_. lags (cfg E) pl s0)"
      by (rule mtriple_weaken [OF step_call [OF publish_move [OF w(4,3)] keeps_calls(6) g]]) (auto intro: lag)
    have sync: "mtriple E (opened pl s0 r True j ?w) fsync (\<lambda>_. opened pl s0 r True j ?w) (\<lambda>_. lags (cfg E) pl s0)"
      by (rule mtriple_weaken [OF step_fsync [OF g1]]) (auto intro: lag)
    have cp: "mtriple E (opened pl s0 r True j ?w) (named_checkpoint ''native_tree_published'')
        (\<lambda>_. prepared (cfg E) pl s0 r) (\<lambda>_. lags (cfg E) pl s0)"
      by (rule mtriple_weaken [OF step_checkpoint [OF g1 g2 _ _ _ checkpoint_nth(6)]])
         (use w g2 in \<open>auto simp: steps_at_step prepared_def intro: lag intro!: exI [of _ ?w]\<close>)
    show "mtriple E (opened pl s0 r True j w) publish_native_tree
        (\<lambda>_. prepared (cfg E) pl s0 r) (\<lambda>_. lags (cfg E) pl s0)"
      unfolding publish_native_tree_def
      by (rule mtriple_recall [where ?t0.0 = "tx r True j"], erule opened_mem,
          unfold tx_simps good_record [OF g],
          rule mtriple_then [OF move mtriple_then [OF sync mtriple_then [OF sync cp]]])
  qed
qed

section \<open>Opening the transaction\<close>

text \<open>A record that has been admitted: running, in the queue, and no journal anywhere.\<close>

definition claimed :: "settings \<Rightarrow> calculation_record \<Rightarrow> dirc \<Rightarrow> fsys \<Rightarrow> bool" where
  "claimed c r d s \<longleftrightarrow>
     dir_at (queue_entry_dir (sequence_of r)) s = Some d
     \<and> aget d STATUS_FILE = Some (File (Json (record_to_dict r)))
     \<and> aget d TRANSACTION_FILE = None
     \<and> valid_record c r \<and> state_of r = Some RUNNING
     \<and> (\<forall>v. aget (s Events) (event_id_of r) = Some (Dir v) \<longrightarrow> aget v TRANSACTION_FILE = None)"

text \<open>Only \<open>status.json\<close> in the record's queue entry may have changed, by a warning.\<close>

definition unprepared :: "settings \<Rightarrow> calculation_record \<Rightarrow> fsys \<Rightarrow> fsys \<Rightarrow> bool" where
  "unprepared c r s0 s \<longleftrightarrow>
     only_at (queue_entry_dir (sequence_of r)) s0 s
     \<and> (\<exists>r' d. same_identity r r' \<and> claimed c r' d s)"

text \<open>The plan of the transaction that is to replace what the store \<open>s0\<close> shows of the event.\<close>

definition replaces :: "settings \<Rightarrow> calculation_record \<Rightarrow> fsys \<Rightarrow> plan \<Rightarrow> bool" where
  "replaces c r s0 pl \<longleftrightarrow>
     plan_ok c pl \<and> p_event pl = event_id_of r \<and> p_sequence pl = sequence_of r
     \<and> JBool (p_overwrite pl) = r_overwrite r
     \<and> map_option Dir (p_products pl) = aget (s0 Products) (event_id_of r)
     \<and> map_option Dir (p_service pl) = aget (s0 Events) (event_id_of r)"

definition handed_over :: "settings \<Rightarrow> calculation_record \<Rightarrow> fsys \<Rightarrow> fsys \<Rightarrow> bool" where
  "handed_over c r s0 s \<longleftrightarrow>
     unprepared c r s0 s \<or> (\<exists>pl. replaces c r s0 pl \<and> in_progress c pl s0 s)"

lemma claimed_unprepared: "claimed c r d s \<Longrightarrow> unprepared c r s s"
  unfolding unprepared_def by (auto intro!: exI [of _ r] exI [of _ d] simp: same_identity_def)

text \<open>Adding a warning.\<close>

lemma add_warning_valid:
  assumes "valid_record c r" "state_of r = Some RUNNING"
  shows "valid_record c (r\<lparr>r_warnings := JList (list_of (r_warnings r) @ [jstr x])\<rparr>)"
    and "state_of (r\<lparr>r_warnings := JList (list_of (r_warnings r) @ [jstr x])\<rparr>) = Some RUNNING"
proof -
  note v = valid_recordD [OF assms]
  let ?r = "r\<lparr>r_warnings := JList (list_of (r_warnings r) @ [jstr x])\<rparr>"
  have ids: "event_id_of ?r = event_id_of r" "sequence_of ?r = sequence_of r"
    by (simp_all add: event_id_of_def sequence_of_def)
  have id: "validate_identity ?r None None = Inr ()"
    using v(1) by (simp add: validate_identity_Inr ids)
  have st: "validate_state ?r = Inr RUNNING"
    using v(7) by (cases "r_warnings r") (auto simp: validate_state_Inr)
  have rest: "validate_request ?r = validate_request r" "validate_progress c ?r = validate_progress c r"
    "validate_timestamps ?r RUNNING = validate_timestamps r RUNNING"
    "validate_outcomes ?r RUNNING = validate_outcomes r RUNNING"
    "validate_shared_paths c ?r = validate_shared_paths c r"
    by (simp_all add: validate_request_def validate_progress_def validate_timestamps_def
        validate_outcomes_def validate_shared_paths_def ids)
  from valid_recordI [where cfg = c, OF id st, unfolded rest, OF v(2-6)]
  show "valid_record c ?r" "state_of ?r = Some RUNNING" by simp_all
qed

text \<open>The record after the warning, in a store that is otherwise \<open>s0\<close>.\<close>

definition warned :: "settings \<Rightarrow> calculation_record \<Rightarrow> dirc \<Rightarrow> fsys \<Rightarrow> calculation_record \<Rightarrow> fsys \<Rightarrow> bool" where
  "warned c r d s0 r' s \<longleftrightarrow>
     same_identity r r' \<and> valid_record c r' \<and> state_of r' = Some RUNNING
     \<and> dir_in (queue_entry_dir (sequence_of r)) s0 (agree (stored r' d)) s"

lemma agree_stored_self:
  "aget d STATUS_FILE = Some (File (Json (record_to_dict r))) \<Longrightarrow> agree d d' \<Longrightarrow> agree (stored r d) d'"
  by (auto simp: agree_def stored_def)

lemma warned_unprepared:
  assumes "claimed c r d s0" "warned c r d s0 r' s"
  shows "unprepared c r s0 s"
proof -
  obtain d' where d': "s = put_dir (queue_entry_dir (sequence_of r)) d' s0" "agree (stored r' d) d'"
    using assms(2) by (auto simp: warned_def dir_in_def)
  have "dir_at (queue_entry_dir (sequence_of r)) s = Some d'"
    using assms(1) d'(1) dir_at_put_dir by (simp add: claimed_def)
  moreover have "aget d' STATUS_FILE = Some (File (Json (record_to_dict r')))" "aget d' TRANSACTION_FILE = None"
    using d'(2) assms(1) by (simp_all add: agree_def stored_def claimed_def)
  moreover have "s Events = s0 Events"
    using d'(1) by (auto simp: put_dir_def queue_entry_dir_def split: option.splits node.splits)
  moreover have "only_at (queue_entry_dir (sequence_of r)) s0 s"
    using d'(1) only_at_put_dir by (simp add: queue_entry_dir_def)
  ultimately show ?thesis
    using assms same_identityD [of r r'] unfolding unprepared_def warned_def claimed_def
    by (intro conjI exI [of _ r'] exI [of _ d']) simp_all
qed

lemma step_warn:
  assumes cl: "claimed (cfg E) r d s0"
  shows "triple E (\<lambda>s. s = s0) (persist_missing_counterpart_warning r warning)
     (\<lambda>r' s. warned (cfg E) r d s0 r' s) (\<lambda>_ s. unprepared (cfg E) r s0 s)"
proof -
  have at: "dir_at (Queue, [queue_entry_name (sequence_of r)]) s0 = Some d"
      "aget d STATUS_FILE = Some (File (Json (record_to_dict r)))"
      "valid_record (cfg E) r" "state_of r = Some RUNNING"
    using cl by (simp_all add: claimed_def queue_entry_dir_def)
  have self: "warned (cfg E) r d s0 r s0"
    using at agree_stored_self [OF at(2) agree_refl]
    by (auto simp: warned_def same_identity_def queue_entry_dir_def intro: dir_in_start)
  show ?thesis
  proof (cases warning)
    case None
    then show ?thesis
      by (auto simp: persist_missing_counterpart_warning_def self intro!: triple_ret)
  next
    case (Some msg)
    let ?r = "r\<lparr>r_warnings := JList (list_of (r_warnings r) @ [jstr msg])\<rparr>"
    note valid = add_warning_valid [OF at(3,4), of msg]
    have same: "same_identity r ?r" by (simp add: same_identity_def)
    have w: "warned (cfg E) r d s0 ?r s" if "dir_in (queue_entry_dir (sequence_of r)) s0 (agree (stored ?r d)) s" for s
      using that valid same by (simp add: warned_def)
    have either: "unprepared (cfg E) r s0 s"
      if "dir_in (queue_entry_dir (sequence_of r)) s0 (\<lambda>d'. agree d d' \<or> agree (stored ?r d) d') s" for s
    proof -
      have "warned (cfg E) r d s0 r s \<or> warned (cfg E) r d s0 ?r s"
        using that w self agree_stored_self [OF at(2)] by (auto simp: dir_in_def warned_def)
      then show ?thesis using warned_unprepared [OF cl] by blast
    qed
    have upd: "triple E (\<lambda>s. s = s0) (update_status (sequence_of r)
          [(''warnings'', JList (list_of (r_warnings r) @ [jstr msg]))])
        (\<lambda>x s. x = ?r \<and> warned (cfg E) r d s0 ?r s) (\<lambda>_ s. unprepared (cfg E) r s0 s)"
      unfolding update_status_def queue_entry_dir_def
      by (rule triple_weaken [OF triple_update [OF at(1,2,3) _ _ _ _ valid(1) same]])
         (auto simp: FORBIDDEN_CHANGES_def queue_entry_dir_def intro: w either)
    have reval: "triple E (warned (cfg E) r d s0 r1) (revalidate_status (queue_entry_dir (sequence_of r)) r1)
        (\<lambda>_. warned (cfg E) r d s0 r1) (\<lambda>_ s. unprepared (cfg E) r s0 s)" for r1
      unfolding revalidate_status_def
      by (rule triple_observe) (auto intro: warned_unprepared [OF cl])
    have "triple E (\<lambda>s. s = s0) (bindM (update_status (sequence_of r)
          [(''warnings'', JList (list_of (r_warnings r) @ [jstr msg]))])
        (\<lambda>updated. thenM (revalidate_status (queue_entry_dir (sequence_of r)) updated) (ret updated)))
        (\<lambda>r' s. warned (cfg E) r d s0 r' s) (\<lambda>_ s. unprepared (cfg E) r s0 s)"
      by (rule triple_bind [OF upd]) (auto intro!: triple_pure triple_then [OF reval] triple_ret)
    then show ?thesis
      unfolding persist_missing_counterpart_warning_def Some option.case
      by (auto simp: self intro!: triple_if triple_ret)
  qed
qed

text \<open>The first view and the first journal of a plan.\<close>

definition first_view :: "plan \<Rightarrow> view" where
  "first_view pl = \<lparr>w_stage = None, w_candidate = None, w_service = map_option Dir (p_service pl),
     w_products = map_option Dir (p_products pl), w_archive = None\<rparr>"

definition first_journal :: "plan \<Rightarrow> journal" where
  "first_journal pl = \<lparr>j_event_id = p_event pl, j_sequence = p_sequence pl, j_overwrite = p_overwrite pl,
     j_products = (p_products pl \<noteq> None), j_service = (p_service pl \<noteq> None), j_archive_path = p_archive pl,
     j_completed = [], j_stage_removal = False, j_candidate_removal = False, j_recovery_failure = JNull\<rparr>"

lemma put_queue_other [simp]: "k \<noteq> Queue \<Longrightarrow> put_dir (Queue, [n]) d s k = s k"
  by (auto simp: put_dir_def split: option.splits node.splits)

lemma first_good:
  assumes "replaces c r s0 pl" "same_identity r r'" "valid_record c r'" "state_of r' = Some RUNNING"
  shows "good c pl False r' (first_journal pl) (first_view pl)" "staging pl (first_view pl)"
proof -
  show st: "staging pl (first_view pl)" by (simp add: staging_def first_view_def)
  have "plan_record c pl False r'"
    using assms same_identityD [OF assms(2)] by (simp add: plan_record_def replaces_def same_identity_def)
  then show "good c pl False r' (first_journal pl) (first_view pl)"
    using st by (simp add: good_def plan_journal_def phase_def queue_phase_def first_journal_def steps_def
        first_view_def valid_recovery_failure_def)
qed

lemma open_journal:
  assumes cl: "claimed (cfg E) r d s0" and clear: "aget d STAGING_DIRECTORY = None"
      "aget d NATIVE_CANDIDATE_DIRECTORY = None"
    and w: "warned (cfg E) r d s0 r' s1" and pl: "replaces (cfg E) r s0 pl" "archive_entry pl s1 = None"
  shows "triple E (\<lambda>s. s = s1) (write_journal (queue_entry_dir (sequence_of r)) (first_journal pl))
     (\<lambda>_. displays pl s0 False r' (first_journal pl) (first_view pl))
     (\<lambda>_ s. handed_over (cfg E) r s0 s)"
proof -
  let ?p = "queue_entry_dir (sequence_of r)" and ?j = "first_journal pl"
  have path: "?p = (Queue, [entry_name pl])" "record_path pl False = (Queue, [entry_name pl])"
    using pl(1) by (simp_all add: queue_entry_dir_def entry_name_def replaces_def record_path_def)
  obtain d' where s1: "s1 = put_dir ?p d' s0" and d': "agree (stored r' d) d'"
    using w by (auto simp: warned_def dir_in_def)
  have at0: "dir_at ?p s0 = Some d" using cl by (simp add: claimed_def)
  then have at: "dir_at ?p s1 = Some d'" using s1 dir_at_put_dir by simp
  have reads: "aget d' STATUS_FILE = Some (File (Json (record_to_dict r')))"
      "aget d' TRANSACTION_FILE = None" "aget d' STAGING_DIRECTORY = None" "aget d' NATIVE_CANDIDATE_DIRECTORY = None"
    using d' cl clear by (simp_all add: agree_def stored_def claimed_def)
  have shown: "displays pl s0 False r' ?j (first_view pl) s"
    if "dir_in ?p s1 (agree (aput TRANSACTION_FILE (File (Json (journal_to_json ?j))) d')) s" for s
  proof -
    obtain d2 where d2: "s = put_dir ?p d2 s1" "agree (aput TRANSACTION_FILE (File (Json (journal_to_json ?j))) d') d2"
      using \<open>dir_in ?p s1 _ s\<close> by (auto simp: dir_in_def)
    have s: "s = put_dir ?p d2 s0" using d2(1) s1 put_dir_put_dir [OF at0] by simp
    have "elsewhere pl s0 s"
      using elsewhere_put_dir [of pl s0 s0 False d2] s path by (simp add: elsewhere_def)
    moreover have "archive_entry pl s = None"
      using pl(2) s s1 path by (auto simp: archive_entry_def split: option.splits)
    then have "looks pl False d2 (first_view pl) s"
      using pl(1) s path dir_at_put_dir [OF at0, of d2] d2(2) reads
      by (simp add: looks_def first_view_def agree_def replaces_def)
    moreover have "aget d2 STATUS_FILE = Some (File (Json (record_to_dict r')))"
      "aget d2 TRANSACTION_FILE = Some (File (Json (journal_to_json ?j)))"
      using d2(2) reads by (simp_all add: agree_def)
    ultimately show ?thesis unfolding displays_def by blast
  qed
  have kept: "unprepared (cfg E) r s0 s" if "dir_in ?p s1 (agree d') s" for s
  proof -
    have "dir_in ?p s0 (agree (stored r' d)) s"
      using that s1 put_dir_put_dir [OF at0] d' by (auto simp: dir_in_def agree_def)
    then show ?thesis using w by (intro warned_unprepared [OF cl, of r']) (simp add: warned_def)
  qed
  have progress: "in_progress (cfg E) pl s0 s" if "displays pl s0 False r' ?j (first_view pl) s" for s
    using that first_good [OF pl(1)] w unfolding in_progress_def warned_def by blast
  have either: "handed_over (cfg E) r s0 s"
    if "dir_in ?p s1 (\<lambda>v. agree d' v \<or> agree (aput TRANSACTION_FILE (File (Json (journal_to_json ?j))) d') v) s" for s
  proof -
    from that consider "dir_in ?p s1 (agree d') s"
      | "dir_in ?p s1 (agree (aput TRANSACTION_FILE (File (Json (journal_to_json ?j))) d')) s"
      by (auto simp: dir_in_def)
    then show ?thesis
      by cases (use kept progress [OF shown] pl(1) in \<open>auto simp: handed_over_def\<close>)
  qed
  show ?thesis
    unfolding write_journal_def
    by (rule triple_weaken [OF triple_publish [OF at not_temporary(2) tmp_journal]])
       (use reads shown either in auto)
qed

text \<open>The opened transaction.\<close>

definition started ::
  "settings \<Rightarrow> calculation_record \<Rightarrow> fsys \<Rightarrow> plan \<Rightarrow> calculation_record \<Rightarrow> transaction \<Rightarrow> fsys \<Rightarrow> bool" where
  "started c r s0 pl r' t s \<longleftrightarrow>
     replaces c r s0 pl \<and> same_identity r r' \<and> valid_record c r' \<and> state_of r' = Some RUNNING
     \<and> opened pl s0 r' False (first_journal pl) (first_view pl) t s"

text \<open>What a read leaves: the store as it is, and what was read.\<close>

lemma mtriple_looked:
  assumes "\<And>x. f E s1 = Inr x \<Longrightarrow> mtriple E (\<lambda>t s. s = s1) (g x) Q X" "\<And>e t. X e t s1"
  shows "mtriple E (\<lambda>t s. s = s1) (bindM (observe f) g) Q X"
proof (rule mtriple_bind [where R = "\<lambda>x t s. f E s1 = Inr x \<and> s = s1"])
  show "mtriple E (\<lambda>t s. s = s1) (observe f) (\<lambda>x t s. f E s1 = Inr x \<and> s = s1) X"
    by (rule mtriple_observe) (use assms(2) in auto)
  show "mtriple E (\<lambda>t s. f E s1 = Inr x \<and> s = s1) (g x) Q X" for x
    by (rule mtriple_pure) (rule assms(1))
qed

lemma mtriple_guarded:
  assumes "ok \<Longrightarrow> mtriple E (\<lambda>t s. s = s1) n Q X" "\<And>e t. X e t s1"
  shows "mtriple E (\<lambda>t s. s = s1) (thenM (check ok k msg) n) Q X"
proof (cases ok)
  case True
  then show ?thesis by (intro mtriple_checked assms(1)) simp_all
next
  case False
  then show ?thesis
    by (intro mtriple_then [where R = "\<lambda>t s. False"] mtriple_check) (auto simp: assms(2) mtriple_def)
qed

lemma mtriple_absent:
  assumes "entry_at p n s1 = None \<Longrightarrow> mtriple E (\<lambda>t s. s = s1) m Q X" "\<And>e t. X e t s1"
  shows "mtriple E (\<lambda>t s. s = s1) (thenM (require_absent p n msg) m) Q X"
proof -
  have "thenM (require_absent p n msg) m
      = bindM (entry_exists p n) (\<lambda>present. thenM (check (\<not> present) RecalculationError msg) m)"
    by (simp add: require_absent_def thenM_def bindM_def fun_eq_iff split: prod.splits outcome.splits)
  then show ?thesis
    unfolding entry_exists_def using assms by (auto intro!: mtriple_looked mtriple_guarded)
qed

lemma archive_name_free:
  "archive_name_loop n d e t = Some t' \<Longrightarrow>
     valid_datetime t' \<and> aget d (event_archive_name e (archive_timestamp t')) = None"
  by (induction n d e t rule: archive_name_loop.induct) (auto split: if_splits)

text \<open>The plan the read entries give.\<close>

definition dirc_of :: "node option \<Rightarrow> dirc option" where
  "dirc_of v = (case v of Some (Dir d) \<Rightarrow> Some d | _ \<Rightarrow> None)"

lemma dirc_of_absent_or_dir: "absent_or_dir v \<Longrightarrow> map_option Dir (dirc_of v) = v \<and> (dirc_of v = None \<longleftrightarrow> v = None)"
  by (auto simp: absent_or_dir_def dirc_of_def)

definition plan_for :: "calculation_record \<Rightarrow> fsys \<Rightarrow> ustr option \<Rightarrow> plan" where
  "plan_for r s0 a = \<lparr>p_event = event_id_of r, p_sequence = sequence_of r, p_overwrite = bool_of (r_overwrite r),
     p_products = dirc_of (aget (s0 Products) (event_id_of r)),
     p_service = dirc_of (aget (s0 Events) (event_id_of r)), p_archive = a\<rparr>"

lemma plan_for_replaces:
  assumes cl: "claimed c r d s0"
    and dirs: "absent_or_dir (aget (s0 Products) (event_id_of r))" "absent_or_dir (aget (s0 Events) (event_id_of r))"
    and a: "a \<noteq> None \<longleftrightarrow> \<not> bool_of (r_overwrite r)
        \<and> (aget (s0 Products) (event_id_of r) \<noteq> None \<or> aget (s0 Events) (event_id_of r) \<noteq> None)"
      "\<And>x. a = Some x \<Longrightarrow> \<exists>t. valid_datetime t \<and> x = archive_path_for c (event_id_of r) t"
  shows "replaces c r s0 (plan_for r s0 a)"
proof -
  note id = valid_record_identity [of c r]
  note t = dirc_of_absent_or_dir [OF dirs(1)] dirc_of_absent_or_dir [OF dirs(2)]
  have clear: "aget v TRANSACTION_FILE = None" if "dirc_of (aget (s0 Events) (event_id_of r)) = Some v" for v
    using that cl by (auto simp: dirc_of_def claimed_def split: option.splits node.splits)
  have ov: "JBool (bool_of (r_overwrite r)) = r_overwrite r"
    using id(5) cl by (cases "r_overwrite r") (auto simp: claimed_def)
  show ?thesis
    using cl t a clear ov id
    by (auto simp: replaces_def plan_for_def plan_ok_def had_preceding_def claimed_def)
qed

definition archive_for :: "calculation_record \<Rightarrow> bool \<Rightarrow> bool \<Rightarrow> ('m, ustr option) io" where
  "archive_for r products service =
     (if \<not> bool_of (r_overwrite r) \<and> (products \<or> service)
      then bindM (allocate_archive_path (event_id_of r)) (\<lambda>a. ret (Some a)) else ret None)"

lemma step_archive_for:
  assumes cl: "claimed (cfg E) r d s0" and w: "warned (cfg E) r d s0 r' s1"
    and dirs: "absent_or_dir (aget (s0 Products) (event_id_of r))" "absent_or_dir (aget (s0 Events) (event_id_of r))"
  shows "triple E (\<lambda>s. s = s1)
     (archive_for r (aget (s0 Products) (event_id_of r) \<noteq> None) (aget (s0 Events) (event_id_of r) \<noteq> None))
     (\<lambda>a s. (replaces (cfg E) r s0 (plan_for r s0 a) \<and> archive_entry (plan_for r s0 a) s1 = None) \<and> s = s1)
     (\<lambda>_ s. handed_over (cfg E) r s0 s)"
    (is "triple E _ (archive_for r ?p ?q) ?R ?X")
proof (cases "\<not> bool_of (r_overwrite r) \<and> (?p \<or> ?q)")
  case False
  then have "replaces (cfg E) r s0 (plan_for r s0 None)"
    by (intro plan_for_replaces [OF cl dirs]) auto
  then show ?thesis
    unfolding archive_for_def if_not_P [OF False]
    by (intro triple_ret) (simp add: archive_entry_def plan_for_def)
next
  case True
  have kept: "handed_over (cfg E) r s0 s1" using warned_unprepared [OF cl w] by (simp add: handed_over_def)
  have ok: "?R (Some (archive_path_for (cfg E) (event_id_of r) t)) s1"
    if "archive_name_loop ARCHIVE_ATTEMPTS (s1 Archive) (event_id_of r) x = Some t" for x t
  proof -
    note free = archive_name_free [OF that]
    have "replaces (cfg E) r s0 (plan_for r s0 (Some (archive_path_for (cfg E) (event_id_of r) t)))"
      using True free by (intro plan_for_replaces [OF cl dirs]) auto
    moreover have "valid_event_id (event_id_of r)"
      using cl valid_record_identity(2) by (auto simp: claimed_def)
    then have "path_name (archive_path_for (cfg E) (event_id_of r) t) = event_archive_name (event_id_of r) (archive_timestamp t)"
      by (rule archive_path_for_parts)
    ultimately show ?thesis using free by (simp add: archive_entry_def plan_for_def)
  qed
  have "triple E (\<lambda>s. s = s1) (allocate_archive_path (event_id_of r)) (\<lambda>a. ?R (Some a)) ?X"
    unfolding allocate_archive_path_def
    by (rule triple_bind [where R = "\<lambda>_ s. s = s1"], rule triple_read_datetime, assumption,
        rule triple_observe) (auto simp: kept dest!: ok split: option.splits)
  then have "triple E (\<lambda>s. s = s1) (bindM (allocate_archive_path (event_id_of r)) (\<lambda>a. ret (Some a))) ?R ?X"
    by (rule triple_bind) (rule triple_ret)
  then show ?thesis unfolding archive_for_def if_P [OF True] .
qed

lemma step_first_journal:
  assumes cl: "claimed (cfg E) r d s0" and clear: "aget d STAGING_DIRECTORY = None"
      "aget d NATIVE_CANDIDATE_DIRECTORY = None"
    and w: "warned (cfg E) r d s0 r' s1" and pl: "replaces (cfg E) r s0 pl" "archive_entry pl s1 = None"
  shows "mtriple E (\<lambda>t s. s = s1) (thenM (write_journal (queue_entry_dir (sequence_of r)) (first_journal pl))
      (thenM (modify_mem (\<lambda>_. tx r' False (first_journal pl))) (ret manifest)))
     (\<lambda>_ t s. \<exists>pl r'. started (cfg E) r s0 pl r' t s) (\<lambda>_ t s. handed_over (cfg E) r s0 s)"
proof (rule mtriple_then [where R = "\<lambda>t s. displays pl s0 False r' (first_journal pl) (first_view pl) s"])
  show "mtriple E (\<lambda>t s. s = s1) (write_journal (queue_entry_dir (sequence_of r)) (first_journal pl))
      (\<lambda>_ t s. displays pl s0 False r' (first_journal pl) (first_view pl) s)
      (\<lambda>_ t s. handed_over (cfg E) r s0 s)"
    by (rule mtriple_lift [OF _ open_journal [OF cl clear w pl]]) (simp add: write_journal_def keeps)
  show "mtriple E (\<lambda>t s. displays pl s0 False r' (first_journal pl) (first_view pl) s)
      (thenM (modify_mem (\<lambda>_. tx r' False (first_journal pl))) (ret manifest))
      (\<lambda>_ t s. \<exists>pl r'. started (cfg E) r s0 pl r' t s) (\<lambda>_ t s. handed_over (cfg E) r s0 s)"
    using w pl(1)
    by (intro mtriple_then [where R = "\<lambda>t s. started (cfg E) r s0 pl r' t s"] mtriple_modify mtriple_ret)
       (auto simp: started_def opened_def warned_def)
qed

definition raw_journal :: "calculation_record \<Rightarrow> bool \<Rightarrow> bool \<Rightarrow> ustr option \<Rightarrow> journal" where
  "raw_journal r products service archive =
     \<lparr>j_event_id = event_id_of r, j_sequence = sequence_of r,
      j_overwrite = bool_of (r_overwrite r), j_products = products, j_service = service,
      j_archive_path = archive, j_completed = [], j_stage_removal = False,
      j_candidate_removal = False, j_recovery_failure = JNull\<rparr>"

text \<open>The part of \<open>new_transaction\<close> after its checks.\<close>

definition begin_new :: "path \<Rightarrow> calculation_record \<Rightarrow> bool \<Rightarrow> bool \<Rightarrow> 'a \<Rightarrow> (transaction, 'a) io" where
  "begin_new p r products service manifest =
     bindM (persist_missing_counterpart_warning r (missing_counterpart_warning products service)) (\<lambda>r'.
     bindM (archive_for r' products service) (\<lambda>archive.
     let j = raw_journal r' products service archive in
     thenM (write_journal p j)
    (thenM (modify_mem (\<lambda>_. \<lparr>t_record = r', in_events = False, t_journal = j\<rparr>))
           (ret manifest))))"

lemma keeps_warn [keeps]: "keeps_mem (persist_missing_counterpart_warning r w)"
  by (auto simp: persist_missing_counterpart_warning_def revalidate_status_def intro!: keeps split: option.splits)

lemma keeps_archive_for [keeps]: "keeps_mem (archive_for r p q)"
  by (auto simp: archive_for_def allocate_archive_path_def intro!: keeps)

lemma step_begin_new:
  assumes cl: "claimed (cfg E) r d s0" and clear: "aget d STAGING_DIRECTORY = None"
      "aget d NATIVE_CANDIDATE_DIRECTORY = None"
    and dirs: "absent_or_dir (aget (s0 Products) (event_id_of r))" "absent_or_dir (aget (s0 Events) (event_id_of r))"
  shows "mtriple E (\<lambda>t s. s = s0) (begin_new (queue_entry_dir (sequence_of r)) r
       (aget (s0 Products) (event_id_of r) \<noteq> None) (aget (s0 Events) (event_id_of r) \<noteq> None) manifest)
     (\<lambda>_ t s. \<exists>pl r'. started (cfg E) r s0 pl r' t s) (\<lambda>_ t s. handed_over (cfg E) r s0 s)"
    (is "mtriple E _ (begin_new _ r ?p ?q manifest) ?Q ?X")
  unfolding begin_new_def
proof (rule mtriple_bind [where R = "\<lambda>r' t s. warned (cfg E) r d s0 r' s"])
  show "mtriple E (\<lambda>t s. s = s0) (persist_missing_counterpart_warning r (missing_counterpart_warning ?p ?q))
      (\<lambda>r' t s. warned (cfg E) r d s0 r' s) ?X"
    by (rule mtriple_lift [OF keeps_warn], rule triple_weaken [OF step_warn [OF cl]]) (auto simp: handed_over_def)
  fix r'
  have mem: "\<lparr>t_record = r', in_events = False, t_journal = j\<rparr> = tx r' False j" for j
    by (simp add: tx_def)
  show "mtriple E (\<lambda>t s. warned (cfg E) r d s0 r' s) (bindM (archive_for r' ?p ?q) (\<lambda>archive.
     let j = raw_journal r' ?p ?q archive in
     thenM (write_journal (queue_entry_dir (sequence_of r)) j)
    (thenM (modify_mem (\<lambda>_. \<lparr>t_record = r', in_events = False, t_journal = j\<rparr>))
           (ret manifest)))) ?Q ?X"
  proof (rule mtriple_fixed)
    fix t0 :: transaction and s1
    assume w: "warned (cfg E) r d s0 r' s1"
    then have same: "event_id_of r' = event_id_of r" "sequence_of r' = sequence_of r" "r_overwrite r' = r_overwrite r"
      using same_identityD [of r r'] by (simp_all add: warned_def same_identity_def)
    then have arch: "archive_for r' ?p ?q = (archive_for r ?p ?q :: (transaction, ustr option) io)"
      by (simp add: archive_for_def)
    have j: "raw_journal r' ?p ?q a = first_journal (plan_for r s0 a)" for a
      using dirc_of_absent_or_dir [OF dirs(1)] dirc_of_absent_or_dir [OF dirs(2)] same
      by (simp add: raw_journal_def first_journal_def plan_for_def)
    have rest: "mtriple E (\<lambda>t s. (replaces (cfg E) r s0 (plan_for r s0 a)
          \<and> archive_entry (plan_for r s0 a) s1 = None) \<and> s = s1)
        (thenM (write_journal (queue_entry_dir (sequence_of r)) (first_journal (plan_for r s0 a)))
        (thenM (modify_mem (\<lambda>_. tx r' False (first_journal (plan_for r s0 a)))) (ret manifest))) ?Q ?X" for a
      by (rule mtriple_pure) (rule step_first_journal [OF cl clear w]; simp)
    have alloc: "mtriple E (\<lambda>t s. t = t0 \<and> s = s1) (archive_for r ?p ?q)
        (\<lambda>a t s. (replaces (cfg E) r s0 (plan_for r s0 a) \<and> archive_entry (plan_for r s0 a) s1 = None) \<and> s = s1) ?X"
      by (rule mtriple_lift [OF keeps_archive_for], rule triple_weaken [OF step_archive_for [OF cl w dirs]]) auto
    show "mtriple E (\<lambda>t s. t = t0 \<and> s = s1) (bindM (archive_for r' ?p ?q) (\<lambda>archive.
     let j = raw_journal r' ?p ?q archive in
     thenM (write_journal (queue_entry_dir (sequence_of r)) j)
    (thenM (modify_mem (\<lambda>_. \<lparr>t_record = r', in_events = False, t_journal = j\<rparr>))
           (ret manifest)))) ?Q ?X"
      unfolding arch j mem Let_def
      by (rule mtriple_bind [OF alloc rest])
  qed
qed

lemma safe_directory_Inr:
  "safe_directory_entry p n s = Inr b \<longleftrightarrow> absent_or_dir (entry_at p n s) \<and> (b \<longleftrightarrow> entry_at p n s \<noteq> None)"
  by (auto simp: safe_directory_entry_def absent_or_dir_def split: option.splits node.splits)

lemma step_new:
  assumes cl: "claimed (cfg E) r d s0"
  shows "mtriple E (\<lambda>t s. s = s0) (new_transaction (sequence_of r))
     (\<lambda>_ t s. \<exists>pl r'. started (cfg E) r s0 pl r' t s) (\<lambda>_ t s. handed_over (cfg E) r s0 s)"
    (is "mtriple E _ _ ?Q ?X")
proof -
  let ?p = "queue_entry_dir (sequence_of r)" and ?e = "event_id_of r"
  have X: "?X e t s0" for e t using claimed_unprepared [OF cl] by (simp add: handed_over_def)
  have at: "dir_at ?p s0 = Some d" using cl by (simp add: claimed_def)
  have loaded: "x = r" if "bindE (read_status (cfg E) (sequence_of r) s0) (\<lambda>found.
       case found of
         None \<Rightarrow> Inl (Exn RecalculationError ''claimed queue record does not exist'')
       | Some x \<Rightarrow>
           bindE (guardE (r_status x = jstr ''RUNNING'') RecalculationError
                    ''calculation must be durably RUNNING before preparation'') (\<lambda>_. Inr x)) = Inr x" for x
  proof -
    have "load_record (cfg E) ?p (Some (sequence_of r)) None s0 = Inr r"
      by (rule load_stored) (use cl at in \<open>auto simp: claimed_def entry_at_def\<close>)
    moreover have "open_record_directory ?p s0 = Inr (Some d)"
      using open_record_dir at by (simp add: queue_entry_dir_def)
    ultimately have "read_status (cfg E) (sequence_of r) s0 = Inr (Some r)"
      using cl valid_record_identity(4) by (auto simp: read_status_def read_record_directory_def claimed_def)
    with that show ?thesis by (auto simp: result_simps)
  qed
  have tail: "mtriple E (\<lambda>t s. s = s0)
      (bindM (safe_entry (Products, []) ?e) (\<lambda>products. bindM (safe_entry (Events, []) ?e) (\<lambda>service.
         begin_new ?p r products service manifest))) ?Q ?X"
    if "aget d STAGING_DIRECTORY = None" "aget d NATIVE_CANDIDATE_DIRECTORY = None" for manifest
    unfolding safe_entry_def
    by (intro mtriple_looked X)
       (auto simp: safe_directory_Inr entry_at_def simp del: not_None_eq intro!: step_begin_new [OF cl that])
  have shape: "new_transaction (sequence_of r) =
     bindM (safe_entry (Queue, []) (queue_entry_name (sequence_of r))) (\<lambda>present.
     thenM (check present RecalculationError ''claimed queue record is missing or unsafe'')
    (bindM (load_running_record (sequence_of r)) (\<lambda>r.
     thenM (revalidate_status ?p r)
    (bindM (validate_manifest ?p r) (\<lambda>manifest.
     thenM (require_absent ?p TRANSACTION_FILE ''calculation already has a transaction journal'')
    (thenM (require_absent ?p STAGING_DIRECTORY ''calculation has unexpected private staging state'')
    (thenM (require_absent ?p NATIVE_CANDIDATE_DIRECTORY ''calculation has unexpected native candidate state'')
    (bindM (safe_entry (Products, []) (event_id_of r)) (\<lambda>products.
     bindM (safe_entry (Events, []) (event_id_of r)) (\<lambda>service.
     begin_new ?p r products service manifest))))))))))"
    by (simp add: new_transaction_def begin_new_def archive_for_def raw_journal_def Let_def)
  show ?thesis
    unfolding shape safe_entry_def [of "(Queue, [])"] load_running_record_def revalidate_status_def
      validate_manifest_def thenM_def [of "observe _"]
    by (intro mtriple_looked mtriple_guarded mtriple_absent X, drule loaded) (simp add: entry_at_def at tail)
qed

section \<open>Preparation\<close>

definition result_of :: "settings \<Rightarrow> calculation_record \<Rightarrow> fsys \<Rightarrow> transaction \<Rightarrow> transaction \<Rightarrow> fsys \<Rightarrow> bool" where
  "result_of c r s0 result t s \<longleftrightarrow>
     result = t \<and> (\<exists>pl r'. replaces c r s0 pl \<and> same_identity r r' \<and> prepared c pl s0 r' t s)"

lemma lags_handed: "replaces c r s0 pl \<Longrightarrow> lags c pl s0 t s \<Longrightarrow> handed_over c r s0 s"
  unfolding handed_over_def in_progress_def lags_def by blast

lemma step_after_opening:
  assumes pl: "replaces (cfg E) r s0 pl" and r': "same_identity r r'" "valid_record (cfg E) r'" "state_of r' = Some RUNNING"
  shows "mtriple E (opened pl s0 r' False (first_journal pl) (first_view pl))
     (thenM stage_preceding (thenM dispose_preceding (thenM promote_record
       (thenM (copy_manifested_request manifest) (thenM publish_native_tree get_mem)))))
     (\<lambda>result t s. result_of (cfg E) r s0 result t s) (\<lambda>_ t s. handed_over (cfg E) r s0 s)"
    (is "mtriple E _ _ ?Q ?X")
proof -
  note g = first_good [OF pl r']
  have ok: "plan_ok (cfg E) pl" using pl by (simp add: replaces_def)
  have lag: "failing E pl s0 e t s \<Longrightarrow> ?X e t s" "lags (cfg E) pl s0 t s \<Longrightarrow> ?X e t s" for e t s
    using lags_handed [OF pl] by (auto simp: failing_def)
  have 1: "mtriple E (opened pl s0 r' False (first_journal pl) (first_view pl)) stage_preceding
      (\<lambda>_. all_staged (cfg E) pl s0 r') ?X"
    by (rule mtriple_weaken [OF step_stage_preceding [OF g]])
       (auto simp: first_view_def first_journal_def steps_def intro: lag)
  have 2: "mtriple E (all_staged (cfg E) pl s0 r') dispose_preceding (\<lambda>_. ready (cfg E) pl s0 r') ?X"
    by (rule mtriple_weaken [OF step_dispose [OF ok]]) (auto intro: lag)
  have 3: "mtriple E (ready (cfg E) pl s0 r') promote_record (\<lambda>_. fresh (cfg E) pl s0 r') ?X"
    by (rule mtriple_weaken [OF step_promote_record]) (auto intro: lag)
  have 4: "mtriple E (fresh (cfg E) pl s0 r') (copy_manifested_request manifest)
      (\<lambda>_. candidate_made (cfg E) pl s0 r') ?X"
    by (rule mtriple_weaken [OF step_copy]) (auto intro: lag)
  have 5: "mtriple E (candidate_made (cfg E) pl s0 r') publish_native_tree (\<lambda>_. prepared (cfg E) pl s0 r') ?X"
    by (rule mtriple_weaken [OF step_publish_native]) (auto intro: lag)
  have 6: "mtriple E (prepared (cfg E) pl s0 r') get_mem ?Q ?X"
    using pl r' by (intro mtriple_get) (auto simp: result_of_def)
  show ?thesis
    by (rule mtriple_then [OF 1 mtriple_then [OF 2 mtriple_then [OF 3 mtriple_then [OF 4 mtriple_then [OF 5 6]]]]])
qed

lemma step_prepare:
  assumes cl: "claimed (cfg E) r d s0"
  shows "mtriple E (\<lambda>t s. s = s0) (prepare_calculation (sequence_of r))
     (\<lambda>result t s. result_of (cfg E) r s0 result t s) (\<lambda>_ t s. handed_over (cfg E) r s0 s)"
  unfolding prepare_calculation_def
proof (rule mtriple_bind [OF step_new [OF cl]])
  fix manifest
  have "mtriple E (started (cfg E) r s0 pl r')
     (thenM stage_preceding (thenM dispose_preceding (thenM promote_record
       (thenM (copy_manifested_request manifest) (thenM publish_native_tree get_mem)))))
     (\<lambda>result t s. result_of (cfg E) r s0 result t s) (\<lambda>_ t s. handed_over (cfg E) r s0 s)" for pl r'
    unfolding started_def conj_assoc [symmetric]
    by (rule mtriple_pure) (simp add: step_after_opening)
  then show "mtriple E (\<lambda>t s. \<exists>pl r'. started (cfg E) r s0 pl r' t s)
     (thenM stage_preceding (thenM dispose_preceding (thenM promote_record
       (thenM (copy_manifested_request manifest) (thenM publish_native_tree get_mem)))))
     (\<lambda>result t s. result_of (cfg E) r s0 result t s) (\<lambda>_ t s. handed_over (cfg E) r s0 s)"
    by (intro mtriple_ex)
qed

end
