(* ===== verification/Durability.thy ===== *)
theory Durability
  imports Preparation
begin

text \<open>
  The whole life of a replacement: a preparation under any faults, then any number of reconciliations
  under any faults. What is reachable is closed under reconciliation, no preceding tree is lost on
  the way, and one undisturbed reconciliation ends it.
\<close>

section \<open>Repeated reconciliation\<close>

fun recoveries :: "ustr \<Rightarrow> int \<Rightarrow> (env \<times> nat \<times> transaction) list \<Rightarrow> fsys \<Rightarrow> fsys" where
  "recoveries e n [] s = s"
| "recoveries e n ((E, k, t) # rest) s =
     recoveries e n rest (fs (snd (reconcile_transaction e n E \<lparr>fs = s, clock = k, mem = t\<rparr>)))"

definition admissible :: "settings \<Rightarrow> (env \<times> nat \<times> transaction) list \<Rightarrow> bool" where
  "admissible c rs \<longleftrightarrow> list_all (\<lambda>(E, k, t). cfg E = c \<and> clock_valid E) rs"

text \<open>What a replacement of the record \<open>r\<close>, begun in the store \<open>s0\<close>, can leave.\<close>

definition outcome_of :: "settings \<Rightarrow> calculation_record \<Rightarrow> fsys \<Rightarrow> fsys \<Rightarrow> bool" where
  "outcome_of c r s0 s \<longleftrightarrow>
     unprepared c r s0 s
     \<or> (\<exists>pl. replaces c r s0 pl \<and> (in_progress c pl s0 s \<or> settled c pl s0 s))"

text \<open>Where there is no journal, reconciliation only reads.\<close>

lemma reconcile_without_journal:
  assumes "\<not> holds_journal (queue_entry_dir n) s"
    and "\<And>d. aget (s Events) e = Some (Dir d) \<Longrightarrow> aget d TRANSACTION_FILE = None"
  shows "fs (snd (reconcile_transaction e n E \<lparr>fs = s, clock = k, mem = t\<rparr>)) = s"
proof -
  have none: "\<not> holds_journal (event_service_dir e) s" if dir: "safe_directory_entry (Events, []) e s = Inr True"
  proof -
    obtain d where "aget (s Events) e = Some (Dir d)"
      using dir by (auto simp: safe_directory_Inr absent_or_dir_def entry_at_def)
    with assms(2) show ?thesis
      by (simp add: holds_journal_def event_service_dir_def entry_at_def)
  qed
  have read: "\<exists>r. journal_candidate_present e n E w = (r, w) \<and> r \<noteq> Val True" if "fs w = s" for w :: "transaction world"
  proof -
    have "bindE (safe_directory_entry (Queue, []) (queue_entry_name n) s) (\<lambda>queued.
        if queued \<and> holds_journal (queue_entry_dir n) s then Inr True
        else bindE (safe_directory_entry (Events, []) e s) (\<lambda>current.
          Inr (current \<and> holds_journal (event_service_dir e) s))) \<noteq> Inr True" (is "?x \<noteq> _")
      using none assms(1)
      by (cases "safe_directory_entry (Queue, []) (queue_entry_name n) s"; cases "safe_directory_entry (Events, []) e s")
         auto
    then show ?thesis
      using that by (cases ?x) (auto simp: journal_candidate_present_def observe_def)
  qed
  obtain r where r: "journal_candidate_present e n E \<lparr>fs = s, clock = k, mem = t\<rparr> = (r, \<lparr>fs = s, clock = k, mem = t\<rparr>)"
      "r \<noteq> Val True" using read [of "\<lparr>fs = s, clock = k, mem = t\<rparr>"] by auto
  show ?thesis
    by (cases "validate_event_id (JStr e)"; cases r)
       (use r in \<open>auto simp: reconcile_transaction_def locate_transaction_def bindM_def liftE_def ret_def reraise_def\<close>)
qed

lemma unprepared_quiet:
  assumes "unprepared c r s0 s"
  shows "fs (snd (reconcile_transaction (event_id_of r) (sequence_of r) E \<lparr>fs = s, clock = k, mem = t\<rparr>)) = s"
proof -
  obtain r' d where cl: "same_identity r r'" "claimed c r' d s" using assms by (auto simp: unprepared_def)
  note ids = same_identityD [OF cl(1)]
  show ?thesis
    using cl ids
    by (intro reconcile_without_journal) (auto simp: claimed_def holds_journal_def entry_at_def)
qed

lemma settled_quiet:
  assumes "settled c pl s0 s"
  shows "fs (snd (reconcile_transaction (p_event pl) (p_sequence pl) E \<lparr>fs = s, clock = k, mem = t\<rparr>)) = s"
proof -
  obtain d w where d: "looks pl True d w s" "aget d TRANSACTION_FILE = None"
    using assms by (auto simp: settled_def)
  then show ?thesis
    by (intro reconcile_without_journal)
       (auto simp: looks_def record_path_def holds_journal_def entry_at_def queue_entry_dir_def entry_name_def
        dir_at_def split: option.splits node.splits)
qed

section \<open>Closure and completion\<close>

definition ended_well :: "settings \<Rightarrow> calculation_record \<Rightarrow> fsys \<Rightarrow> fsys \<Rightarrow> bool" where
  "ended_well c r s0 s \<longleftrightarrow> unprepared c r s0 s \<or> (\<exists>pl. replaces c r s0 pl \<and> settled c pl s0 s)"

lemma replaces_ids: "replaces c r s0 pl \<Longrightarrow> p_event pl = event_id_of r \<and> p_sequence pl = sequence_of r"
  and replaces_ok: "replaces c r s0 pl \<Longrightarrow> plan_ok c pl"
  by (simp_all add: replaces_def)

lemma reconcile_progress:
  assumes "replaces (cfg E) r s0 pl" "in_progress (cfg E) pl s0 s" "clock_valid E"
  shows "let s' = fs (snd (reconcile_transaction (event_id_of r) (sequence_of r) E \<lparr>fs = s, clock = k, mem = t\<rparr>)) in
     settled (cfg E) pl s0 s' \<or> \<not> quiet E \<and> in_progress (cfg E) pl s0 s'"
proof -
  note ids = replaces_ids [OF assms(1)]
  obtain x w' where run: "reconcile_transaction (event_id_of r) (sequence_of r) E \<lparr>fs = s, clock = k, mem = t\<rparr> = (x, w')"
    by fastforce
  note d = mtripleD [OF step_transaction [OF replaces_ok [OF assms(1)] assms(3)],
      where w = "\<lparr>fs = s, clock = k, mem = t\<rparr>", simplified ids world.simps, OF assms(2)]
  show ?thesis
    using run d by (cases x) auto
qed

lemma outcome_step:
  assumes "outcome_of (cfg E) r s0 s" "clock_valid E"
  shows "outcome_of (cfg E) r s0 (fs (snd (reconcile_transaction (event_id_of r) (sequence_of r) E
      \<lparr>fs = s, clock = k, mem = t\<rparr>)))" (is ?kept)
    and "quiet E \<Longrightarrow> ended_well (cfg E) r s0 (fs (snd (reconcile_transaction (event_id_of r) (sequence_of r) E
      \<lparr>fs = s, clock = k, mem = t\<rparr>)))" (is "_ \<Longrightarrow> ?ended")
proof -
  consider "unprepared (cfg E) r s0 s" | pl where "replaces (cfg E) r s0 pl" "in_progress (cfg E) pl s0 s"
    | pl where "replaces (cfg E) r s0 pl" "settled (cfg E) pl s0 s"
    using assms(1) by (auto simp: outcome_of_def)
  then have "?kept \<and> (quiet E \<longrightarrow> ?ended)"
  proof cases
    case 1
    then show ?thesis by (simp add: unprepared_quiet [OF 1] outcome_of_def ended_well_def)
  next
    case (2 pl)
    with reconcile_progress [OF 2 assms(2), of k t] show ?thesis
      by (auto simp: outcome_of_def ended_well_def Let_def)
  next
    case (3 pl)
    with settled_quiet [OF 3(2), of E k t, unfolded replaces_ids [OF 3(1), THEN conjunct1]
        replaces_ids [OF 3(1), THEN conjunct2]]
    show ?thesis by (auto simp: outcome_of_def ended_well_def)
  qed
  then show ?kept "quiet E \<Longrightarrow> ?ended" by simp_all
qed

lemma outcome_recoveries:
  assumes "outcome_of c r s0 s" "admissible c rs"
  shows "outcome_of c r s0 (recoveries (event_id_of r) (sequence_of r) rs s)"
  using assms
proof (induction rs arbitrary: s)
  case (Cons a rs)
  obtain E k t where a: "a = (E, k, t)" by (cases a)
  with Cons.prems have "cfg E = c" "clock_valid E" "admissible c rs" by (simp_all add: admissible_def)
  with Cons.IH outcome_step(1) [of E r s0 s k t] Cons.prems(1) show ?case by (simp add: a)
qed simp

lemma recoveries_append:
  "recoveries e n (xs @ ys) s = recoveries e n ys (recoveries e n xs s)"
  by (induction xs arbitrary: s) auto

section \<open>Preparation\<close>

definition prepared_store :: "calculation_record \<Rightarrow> env \<Rightarrow> nat \<Rightarrow> transaction \<Rightarrow> fsys \<Rightarrow> fsys" where
  "prepared_store r E k t s = fs (snd (prepare_calculation (sequence_of r) E \<lparr>fs = s, clock = k, mem = t\<rparr>))"

lemma prepared_progress: "prepared c pl s0 r t s \<Longrightarrow> in_progress c pl s0 s"
  unfolding prepared_def in_progress_def opened_def by blast

lemma outcome_prepared:
  assumes "claimed (cfg E) r d s0"
  shows "outcome_of (cfg E) r s0 (prepared_store r E k t s0)"
proof -
  obtain x w' where run: "prepare_calculation (sequence_of r) E \<lparr>fs = s0, clock = k, mem = t\<rparr> = (x, w')" by fastforce
  note d = mtripleD [OF step_prepare [OF assms], where w = "\<lparr>fs = s0, clock = k, mem = t\<rparr>", simplified world.simps, OF refl]
  have "result_of (cfg E) r s0 y u s \<Longrightarrow> outcome_of (cfg E) r s0 s" "handed_over (cfg E) r s0 s \<Longrightarrow> outcome_of (cfg E) r s0 s"
    for y u s
    using prepared_progress by (auto simp: result_of_def handed_over_def outcome_of_def)
  then show ?thesis
    using run d by (cases x) (auto simp: prepared_store_def)
qed

section \<open>The preceding trees\<close>

text \<open>A preceding tree is at its public place, in the private stage, or in an archive.\<close>

definition preceding_entry :: "calculation_record \<Rightarrow> fsys \<Rightarrow> kind \<Rightarrow> node option" where
  "preceding_entry r s k = entry_at (kind_source k) (event_id_of r) s"

definition tree_kept :: "calculation_record \<Rightarrow> kind \<Rightarrow> dirc \<Rightarrow> fsys \<Rightarrow> bool" where
  "tree_kept r k v s \<longleftrightarrow>
     preceding_entry r s k = Some (Dir v)
     \<or> entry_at (child (queue_entry_dir (sequence_of r)) STAGING_DIRECTORY) (kind_name k) s = Some (Dir v)
     \<or> (\<exists>n. entry_at (Archive, [n]) (kind_name k) s = Some (Dir v))"

lemma kept_archived:
  assumes "looks pl cur d w s" "archived pl w" "tree_of pl k = Some v" "p_archive pl \<noteq> None"
  shows "tree_kept r k v s"
proof -
  obtain a u where a: "p_archive pl = Some a" "aget (s Archive) (path_name a) = Some (Dir u)" "retained pl u"
    using assms by (auto simp: archived_def looks_def archive_entry_def)
  then have "entry_at (Archive, [path_name a]) (kind_name k) s = Some (Dir v)"
    using assms(3) by (cases k) (simp_all add: entry_at_def dir_at_def retained_def)
  then show ?thesis unfolding tree_kept_def by blast
qed

lemma kept_staging:
  assumes "displays pl s0 False r' j w s" "staging pl w" "tree_of pl k = Some v"
    and "p_event pl = event_id_of r" "p_sequence pl = sequence_of r"
  shows "tree_kept r k v s"
proof -
  obtain u where u: "looks pl False u w s" using assms(1) by (auto simp: displays_def)
  note l = looks_queue_all [OF u]
  consider "w_stage w = None" | x where "staged pl w x" using staging_cases [OF assms(2)] by auto
  then show ?thesis
  proof cases
    case 1
    then have "w_source k w = Some (Dir v)" using assms(2,3) by (cases k) (auto simp: staging_def)
    then have "preceding_entry r s k = Some (Dir v)"
      using l assms(4) by (cases k) (auto simp: preceding_entry_def entry_at_def)
    then show ?thesis by (simp add: tree_kept_def)
  next
    case (2 x)
    then have "w_source k w = Some (Dir v) \<or> aget x (kind_name k) = Some (Dir v)"
      using stagedD(1) [OF 2, of k] assms(3) by (auto simp: one_of_def)
    moreover have "w_stage w = Some (Dir x)" using stagedD(3) [OF 2] .
    ultimately show ?thesis
      using l assms(4,5)
      by (cases k) (auto simp: tree_kept_def preceding_entry_def entry_at_def child_def queue_entry_dir_def
          entry_name_def dir_at_def split: option.splits)
  qed
qed

lemma replaces_tree:
  assumes "replaces c r s0 pl" "preceding_entry r s0 k = Some (Dir v)" "r_overwrite r = JBool False"
  shows "tree_of pl k = Some v" "p_archive pl \<noteq> None"
proof -
  show t: "tree_of pl k = Some v"
    using assms(1,2) by (cases k) (auto simp: replaces_def preceding_entry_def entry_at_def)
  then show "p_archive pl \<noteq> None"
    using assms(1,3) by (cases k) (auto simp: replaces_def plan_ok_def had_preceding_def)
qed

lemma kept_in_progress:
  assumes "replaces c r s0 pl" "in_progress c pl s0 s" "tree_of pl k = Some v" "p_archive pl \<noteq> None"
  shows "tree_kept r k v s"
proof -
  obtain cur r' j w where g: "good c pl cur r' j w" and D: "displays pl s0 cur r' j w s"
    using assms(2) by (auto simp: in_progress_def)
  then obtain u where u: "looks pl cur u w s" by (auto simp: displays_def)
  note ids = replaces_ids [OF assms(1)]
  show ?thesis
  proof (cases "archived pl w")
    case True
    then show ?thesis by (rule kept_archived [OF u _ assms(3,4)])
  next
    case False
    then have "\<not> cur" using current_steps(4) [of c pl r' j w] g assms(4) by (cases cur) simp_all
    moreover from this False assms(4) have "staging pl w"
      using g by (auto simp: good_def phase_def queue_phase_def disposed_def)
    ultimately show ?thesis using kept_staging D assms(3) ids by simp
  qed
qed

lemma kept_outcome:
  assumes "outcome_of c r s0 s" "preceding_entry r s0 k = Some (Dir v)" "r_overwrite r = JBool False"
  shows "tree_kept r k v s"
proof -
  consider "unprepared c r s0 s" | pl where "replaces c r s0 pl" "in_progress c pl s0 s"
    | pl where "replaces c r s0 pl" "settled c pl s0 s"
    using assms(1) by (auto simp: outcome_of_def)
  then show ?thesis
  proof cases
    case 1
    then have "preceding_entry r s k = preceding_entry r s0 k"
      by (cases k) (simp_all add: unprepared_def only_at_def preceding_entry_def entry_at_def queue_entry_dir_def)
    with assms(2) show ?thesis by (simp add: tree_kept_def)
  next
    case (2 pl)
    note t = replaces_tree [OF 2(1) assms(2,3)]
    show ?thesis by (rule kept_in_progress [OF 2 t])
  next
    case (3 pl)
    note t = replaces_tree [OF 3(1) assms(2,3)]
    from 3(2) t(2) obtain u w where "looks pl True u w s" "archived pl w" by (auto simp: settled_def)
    with t show ?thesis by (rule_tac kept_archived)
  qed
qed

end
