(* ===== verification/Recovery_Properties.thy ===== *)
theory Recovery_Properties
  imports Durability Samples
begin

text \<open>
  What recovery achieves for an interrupted transaction: one reconciliation settles it or leaves it
  in progress, and any number of interrupted reconciliations followed by an undisturbed one settles
  it, with the retained trees intact in the archive.
\<close>

section \<open>One reconciliation\<close>

text \<open>
  C1: reconciliation is crash-safe. From every state a transaction can be interrupted in, a
  reconciliation that returns has settled it: the record is \<open>FAILED\<close> and current, no private tree and
  no journal is left, and retained preceding trees are complete in the archive. None of its checks
  fails: without a fault it does return; and when an operation fails or the process dies anywhere,
  the transaction is still in progress or already settled. Nothing outside the event's own entries
  changes.
\<close>

theorem reconciliation_settles:
  assumes "plan_ok (cfg E) pl" "clock_valid E"
  shows "mtriple E (\<lambda>t s. in_progress (cfg E) pl s0 s)
     (reconcile_transaction (p_event pl) (p_sequence pl))
     (\<lambda>b t s. b \<and> settled (cfg E) pl s0 s)
     (\<lambda>_ t s. \<not> quiet E \<and> (in_progress (cfg E) pl s0 s \<or> settled (cfg E) pl s0 s))"
  using assms by (rule step_transaction)

text \<open>An interrupted transaction: the products tree still at its place, the journal just written.\<close>

definition sample_plan :: plan where
  "sample_plan = \<lparr>p_event = sample_event, p_sequence = 7, p_overwrite = False,
     p_products = Some [(lit ''current'', Dir [])], p_service = None,
     p_archive = Some (archive_path_for sample_cfg sample_event sample_time)\<rparr>"

definition sample_started :: journal where
  "sample_started = \<lparr>j_event_id = sample_event, j_sequence = 7, j_overwrite = False, j_products = True,
     j_service = False, j_archive_path = p_archive sample_plan, j_completed = [], j_stage_removal = False,
     j_candidate_removal = False, j_recovery_failure = JNull\<rparr>"

definition sample_view :: view where
  "sample_view = \<lparr>w_stage = None, w_candidate = None, w_service = None,
     w_products = Some (Dir [(lit ''current'', Dir [])]), w_archive = None\<rparr>"

definition sample_interrupted :: fsys where
  "sample_interrupted = (\<lambda>_. [])(
     Queue := [(queue_entry_name 7, Dir ((TRANSACTION_FILE, File (Json (journal_to_json sample_started)))
                  # sample_entry (sample_running False)))],
     Products := [(sample_event, Dir [(lit ''current'', Dir [])])])"

lemma sample_plan_ok: "plan_ok sample_cfg sample_plan"
  by (auto simp: plan_ok_def sample_plan_def sample_event_valid had_preceding_def intro: sample_time_valid)

lemma sample_good: "good sample_cfg sample_plan False (sample_running False) sample_started sample_view"
  by (simp add: good_def plan_record_def sample_running plan_journal_def phase_def queue_phase_def staging_def
      sample_plan_def sample_started_def sample_view_def steps_def valid_recovery_failure_def)

lemma sample_displays:
  "displays sample_plan sample_interrupted False (sample_running False) sample_started sample_view
     sample_interrupted"
proof -
  let ?d = "(TRANSACTION_FILE, File (Json (journal_to_json sample_started))) # sample_entry (sample_running False)"
  have names: "lit ''request-manifest.json'' \<noteq> n" "n \<noteq> lit ''request-manifest.json''"
    "lit ''request'' \<noteq> n" "n \<noteq> lit ''request''"
    if "n \<in> {STATUS_FILE, TRANSACTION_FILE, STAGING_DIRECTORY, NATIVE_CANDIDATE_DIRECTORY}" for n
    using that by (auto simp: STATUS_FILE_def TRANSACTION_FILE_def STAGING_DIRECTORY_def
        NATIVE_CANDIDATE_DIRECTORY_def lit_inject)
  have "looks sample_plan False ?d sample_view sample_interrupted"
    by (simp add: looks_def record_path_def entry_name_def sample_plan_def sample_view_def archive_entry_def
        sample_interrupted_def sample_entry_def names)
  moreover have "aget ?d STATUS_FILE = Some (File (Json (record_to_dict (sample_running False))))"
    "aget ?d TRANSACTION_FILE = Some (File (Json (journal_to_json sample_started)))"
    by simp_all
  ultimately show ?thesis unfolding displays_def elsewhere_def by blast
qed

lemma sample_in_progress: "in_progress sample_cfg sample_plan sample_interrupted sample_interrupted"
  unfolding in_progress_def using sample_good sample_displays by blast

theorem reconciliation_settles_witness:
  "\<exists>w'. reconcile_transaction sample_event 7 sample_env
       \<lparr>fs = sample_interrupted, clock = 0, mem = tx (sample_running False) False sample_started\<rparr>
       = (Val True, w')
     \<and> settled sample_cfg sample_plan sample_interrupted (fs w')"
proof -
  have plan: "p_event sample_plan = sample_event" "p_sequence sample_plan = 7"
    by (simp_all add: sample_plan_def)
  have "mtriple sample_env (\<lambda>t s. in_progress sample_cfg sample_plan sample_interrupted s)
      (reconcile_transaction sample_event 7)
      (\<lambda>b t s. b \<and> settled sample_cfg sample_plan sample_interrupted s) (\<lambda>_ _ _. False)"
    by (rule mtriple_weaken [OF reconciliation_settles [of sample_env sample_plan sample_interrupted,
          unfolded plan sample_env_simps, OF sample_plan_ok sample_clock]])
       (simp_all add: sample_quiet)
  from mtriple_total [OF this, of "\<lparr>fs = sample_interrupted, clock = 0,
      mem = tx (sample_running False) False sample_started\<rparr>"] sample_in_progress
  show ?thesis by auto
qed

section \<open>A whole replacement\<close>

text \<open>
  C2: no calculation loses the results it is to retain. Take a running record with
  \<open>overwrite = False\<close> and any preceding tree of its event, products or service. Prepare the
  calculation, letting any system calls fail or the process die at any of them, and reconcile any
  number of times under any faults: at the end (so at every moment between two runs) the tree is
  unchanged at its public place, in the private stage, or in an archive.
\<close>

theorem preceding_trees_survive:
  assumes "claimed (cfg E) r d s0" "r_overwrite r = JBool False"
    and "preceding_entry r s0 k = Some (Dir v)" "admissible (cfg E) rs"
  shows "tree_kept r k v (recoveries (event_id_of r) (sequence_of r) rs (prepared_store r E i t s0))"
  by (rule kept_outcome [OF outcome_recoveries [OF outcome_prepared [OF assms(1)] assms(4)] assms(3,2)])

text \<open>
  C3: every replacement ends. After a preparation under any faults and any interrupted
  reconciliations, one undisturbed reconciliation leaves either a record that was never prepared,
  with everything but its own queue entry as it was, or the failed record promoted to current, no
  private tree, no journal, and the retained trees in the archive.
\<close>

theorem replacement_ends_well:
  assumes "claimed (cfg E) r d s0" "admissible (cfg E) (rs @ [(Z, j, u)])" "quiet Z"
  shows "ended_well (cfg E) r s0
     (recoveries (event_id_of r) (sequence_of r) (rs @ [(Z, j, u)]) (prepared_store r E i t s0))"
proof -
  have rs: "admissible (cfg E) rs" "cfg Z = cfg E" "clock_valid Z"
    using assms(2) by (simp_all add: admissible_def)
  from outcome_recoveries [OF outcome_prepared [OF assms(1)] rs(1)] rs(2)
  have "outcome_of (cfg Z) r s0 (recoveries (event_id_of r) (sequence_of r) rs (prepared_store r E i t s0))"
    by simp
  from outcome_step(2) [OF this rs(3) assms(3)] rs(2) show ?thesis by (simp add: recoveries_append)
qed

text \<open>A running record with a preceding products tree, and a process that dies at its ninth system call.\<close>

definition sample_admitted :: fsys where
  "sample_admitted = (sample_store (sample_running False))(
     Products := [(sample_event, Dir [(lit ''current'', Dir [])])])"

definition dying_env :: env where
  "dying_env = sample_env\<lparr>fault_at := (\<lambda>k. if k = 9 then Dies 0 else Proceed)\<rparr>"

lemma dying_env: "cfg dying_env = sample_cfg" "clock_valid dying_env"
  using sample_clock by (simp_all add: dying_env_def clock_valid_def)

lemma sample_claimed: "claimed sample_cfg (sample_running False) (sample_entry (sample_running False)) sample_admitted"
proof -
  have "aget (sample_entry r) TRANSACTION_FILE = None" for r
    by (simp add: sample_entry_def TRANSACTION_FILE_def STATUS_FILE_def lit_inject)
  then show ?thesis
    by (simp add: claimed_def sample_running sample_admitted_def sample_store_def queue_entry_dir_def)
qed

lemma sample_restarts: "admissible sample_cfg ([(dying_env, 0, blank)] @ [(sample_env, 0, blank)])"
  using dying_env sample_clock by (simp add: admissible_def)

theorem preceding_trees_survive_witness:
  "tree_kept (sample_running False) Products_kind [(lit ''current'', Dir [])]
     (recoveries sample_event 7 [(dying_env, 0, tx (sample_running False) False sample_started)]
       (prepared_store (sample_running False) dying_env 0
         (tx (sample_running False) False sample_started) sample_admitted))"
proof -
  have "preceding_entry (sample_running False) sample_admitted Products_kind = Some (Dir [(lit ''current'', Dir [])])"
    by (simp add: preceding_entry_def sample_admitted_def sample_running entry_at_def)
  moreover have "admissible sample_cfg [(dying_env, 0, b)]" for b
    using dying_env by (simp add: admissible_def)
  ultimately show ?thesis
    using preceding_trees_survive [of dying_env "sample_running False" _ sample_admitted, unfolded dying_env(1),
        OF sample_claimed sample_running(6)]
    by (simp only: sample_running)
qed

theorem replacement_ends_well_witness:
  "ended_well sample_cfg (sample_running False) sample_admitted
     (recoveries sample_event 7 ([(dying_env, 0, tx (sample_running False) False sample_started)] @
         [(sample_env, 0, tx (sample_running False) False sample_started)])
       (prepared_store (sample_running False) dying_env 0
         (tx (sample_running False) False sample_started) sample_admitted))"
  using replacement_ends_well [of dying_env "sample_running False" _ sample_admitted, unfolded dying_env(1),
      OF sample_claimed sample_restarts sample_quiet]
  by (simp only: sample_running)

end
