(* ===== verification/Submission.thy ===== *)
theory Submission
  imports Status_Store
begin

text \<open>
  \<open>submission.py\<close>: a request becomes a durable queue entry. Uploads are streamed into a private
  directory below the queue, linked or renamed into the caller's input directory, the inputs are
  copied into a snapshot, and one rename publishes the complete entry under the next sequence.

  A stream is the list of what its \<open>read\<close> calls return. The private names carry a fresh \<open>uuid4\<close>.
  The readiness reader is the callback the source takes.
\<close>

section \<open>Uploads\<close>

datatype chunk = Data "nat list" | No_data | Not_bytes | Read_error

record upload =
  u_basename :: json
  u_stream :: "chunk list option"

text \<open>A checked upload: its basename and its readable stream.\<close>

type_synonym checked_upload = "ustr \<times> chunk list"

definition REQUIRED_EVENT_FILE :: ustr where
  "REQUIRED_EVENT_FILE = lit ''event.xml''"

definition UPLOAD_PRIVATE_DIRECTORY :: ustr where
  "UPLOAD_PRIVATE_DIRECTORY = lit ''.uploads''"

definition stream_name :: "ustr \<Rightarrow> ustr" where
  "stream_name u = lit ''stream-'' @ u @ lit ''.tmp''"

definition preceding_name :: "ustr \<Rightarrow> ustr" where
  "preceding_name u = lit ''preceding-'' @ u @ lit ''.tmp''"

fun check_uploads :: "upload list \<Rightarrow> ustr list \<Rightarrow> bool \<Rightarrow> exn + checked_upload list" where
  "check_uploads [] seen duplicate =
     bindE (guardE (\<not> duplicate) ValueError ''duplicate upload basenames are not allowed'') (\<lambda>_. Inr [])"
| "check_uploads (u # us) seen duplicate =
     bindE (validate_upload_basename (u_basename u)) (\<lambda>basename.
     bindE (case u_stream u of
              None \<Rightarrow> Inl (Exn ValueError ''upload is not a readable stream'') | Some s \<Rightarrow> Inr s) (\<lambda>stream.
     bindE (check_uploads us (basename # seen) (duplicate \<or> basename \<in> set seen)) (\<lambda>checked.
     Inr ((basename, stream) # checked))))"

definition validated_uploads :: "upload list \<Rightarrow> exn + checked_upload list" where
  "validated_uploads uploads = check_uploads uploads [] False"

text \<open>\<open>repr\<close> of a string: the quote it takes, and the escapes.\<close>

definition hex_digit :: "nat \<Rightarrow> nat" where
  "hex_digit d = (if d < 10 then 48 + d else 87 + d)"

fun hex_pad :: "nat \<Rightarrow> nat \<Rightarrow> ustr" where
  "hex_pad 0 n = []"
| "hex_pad (Suc w) n = hex_pad w (n div 16) @ [hex_digit (n mod 16)]"

definition repr_char :: "(nat \<Rightarrow> bool) \<Rightarrow> nat \<Rightarrow> nat \<Rightarrow> ustr" where
  "repr_char is_printable quote c =
     (if c = quote \<or> c = 92 then [92, c]
      else if c = 9 then lit [CHR 0x5c, CHR ''t''] else if c = 10 then lit [CHR 0x5c, CHR ''n'']
      else if c = 13 then lit [CHR 0x5c, CHR ''r'']
      else if 32 \<le> c \<and> c < 127 \<or> 127 \<le> c \<and> is_printable c then [c]
      else if c < 256 then lit [CHR 0x5c, CHR ''x''] @ hex_pad 2 c
      else if c < 65536 then lit [CHR 0x5c, CHR ''u''] @ hex_pad 4 c
      else lit [CHR 0x5c, CHR ''U''] @ hex_pad 8 c)"

definition py_repr :: "(nat \<Rightarrow> bool) \<Rightarrow> ustr \<Rightarrow> ustr" where
  "py_repr is_printable s =
     (let quote = (if 39 \<in> set s \<and> 34 \<notin> set s then 34 else 39)
      in quote # concat (map (repr_char is_printable quote) s) @ [quote])"

definition replacement_warning :: "(nat \<Rightarrow> bool) \<Rightarrow> ustr \<Rightarrow> ustr" where
  "replacement_warning is_printable basename =
     lit ''Uploaded '' @ py_repr is_printable basename @ lit '' replaced the existing caller input file''"

section \<open>Files\<close>

definition write_json_sync :: "path \<Rightarrow> ustr \<Rightarrow> json \<Rightarrow> ('m, unit) io" where
  "write_json_sync p n j = thenM (create_file p n) (thenM (write_file p n (Json j)) fsync)"

text \<open>The names that are inputs: regular files with an acceptable name, sorted.\<close>

definition input_names :: "dirc \<Rightarrow> ustr list" where
  "input_names d =
     sort (map fst (filter (\<lambda>(n, v). is_file v \<and> okE (validate_upload_basename (JStr n))) d))"

definition event_inputs :: "ustr \<Rightarrow> path" where
  "event_inputs e = (Inputs, [e])"

definition safe_regular_names :: "ustr \<Rightarrow> fsys \<Rightarrow> exn + ustr list" where
  "safe_regular_names e s =
     (case dir_at (event_inputs e) s of None \<Rightarrow> Inl not_found | Some d \<Rightarrow> Inr (input_names d))"

definition existing_regular_file :: "path \<Rightarrow> ustr \<Rightarrow> fsys \<Rightarrow> exn + bool" where
  "existing_regular_file p n s =
     (case entry_at p n s of
        None \<Rightarrow> Inr False
      | Some (File c) \<Rightarrow> Inr True
      | Some v \<Rightarrow> Inl (Exn ValueError ''upload destination exists but is not a safe regular file''))"

section \<open>Private uploads\<close>

text \<open>\<open>True\<close> when the removal or the sync of a private file failed.\<close>

definition private_cleanup_problem :: "path \<Rightarrow> ustr \<Rightarrow> ('m, bool) io" where
  "private_cleanup_problem p n =
     bindM (catchM (thenM (catchM (unlink p n)
                             (\<lambda>e. if exn_kind_of e = FileNotFoundError then ret () else reraise e)) (ret False))
              (\<lambda>e. if is_os_error e then ret True else reraise e)) (\<lambda>removal.
     bindM (catchM (thenM fsync (ret False))
              (\<lambda>e. if is_os_error e then ret True else reraise e)) (\<lambda>sync.
     ret (removal \<or> sync)))"

definition fail_publication :: "path \<Rightarrow> ustr \<Rightarrow> string \<Rightarrow> ('m, 'a) io" where
  "fail_publication p n msg =
     bindM (private_cleanup_problem p n) (\<lambda>problem. raise (InputPublicationError problem) msg)"

fun stream_chunks :: "path \<Rightarrow> ustr \<Rightarrow> nat list \<Rightarrow> chunk list \<Rightarrow> ('m, unit) io" where
  "stream_chunks p n written [] = ret ()"
| "stream_chunks p n written (c # cs) =
     (case c of
        Data [] \<Rightarrow> ret ()
      | Data b \<Rightarrow> thenM (write_file p n (Bytes (written @ b))) (stream_chunks p n (written @ b) cs)
      | No_data \<Rightarrow> raise ValueError ''upload ended without a byte-stream EOF''
      | Not_bytes \<Rightarrow> raise ValueError ''upload returned non-byte content''
      | Read_error \<Rightarrow> raise OtherError ''reading the upload failed'')"

definition stream_upload :: "path \<Rightarrow> checked_upload \<Rightarrow> ('m, ustr) io" where
  "stream_upload p = (\<lambda>(basename, stream).
     bindM read_uuid (\<lambda>u.
     let n = stream_name u in
     thenM (create_private p n)
    (thenM (catchM (thenM (stream_chunks p n [] stream) fsync)
              (\<lambda>e. fail_publication p n ''could not stream upload into private file''))
           (ret n))))"

section \<open>Publication of an upload\<close>

text \<open>
  One rollback: the backup goes back over the target. When the target was never replaced, backup and
  target are two names of one file, and \<open>rename(2)\<close> of those does nothing.
\<close>

definition rollback_replacement ::
  "bool \<Rightarrow> path \<Rightarrow> ustr \<Rightarrow> path \<Rightarrow> ustr \<Rightarrow> ustr \<Rightarrow> ('m, 'a) io" where
  "rollback_replacement replaced inputs target uploads private backup =
     thenM (catchM (if replaced then rename uploads backup inputs target else sys Inr untouched)
              (\<lambda>e. raise (InputPublicationError True) ''upload replacement failed; rollback also failed''))
    (bindM (attempt fsync) (\<lambda>_.
     bindM (private_cleanup_problem uploads private) (\<lambda>problem.
     raise (InputPublicationError problem) ''upload replacement failed; the preceding bytes were restored'')))"

definition replace_existing_upload :: "path \<Rightarrow> ustr \<Rightarrow> path \<Rightarrow> ustr \<Rightarrow> ('m, unit) io" where
  "replace_existing_upload inputs target uploads private =
     bindM read_uuid (\<lambda>u.
     let backup = preceding_name u in
     thenM (catchM (link inputs target uploads backup)
              (\<lambda>e. fail_publication uploads private ''could not create replacement backup''))
    (thenM (catchM (rename uploads private inputs target)
              (\<lambda>e. rollback_replacement False inputs target uploads private backup))
    (thenM (catchM fsync (\<lambda>e. rollback_replacement True inputs target uploads private backup))
    (thenM (catchM (unlink uploads backup)
              (\<lambda>e. rollback_replacement True inputs target uploads private backup))
           (catchM fsync (\<lambda>e. raise (InputPublicationError False)
              ''replacement was published, but syncing the private directory failed''))))))"

definition publish_new_upload :: "path \<Rightarrow> ustr \<Rightarrow> path \<Rightarrow> ustr \<Rightarrow> ('m, unit) io" where
  "publish_new_upload inputs target uploads private =
     thenM (catchM (link uploads private inputs target)
              (\<lambda>e. fail_publication uploads private ''could not publish new caller input''))
    (thenM (catchM fsync
              (\<lambda>e. fail_publication uploads private ''new caller input was linked, but syncing failed''))
    (thenM (catchM (unlink uploads private)
              (\<lambda>e. raise (InputPublicationError True)
                ''new caller input was published, but removing private upload file failed''))
           (catchM fsync (\<lambda>e. raise (InputPublicationError False)
              ''new caller input was published, but syncing the private directory failed''))))"

definition publish_upload :: "path \<Rightarrow> ustr \<Rightarrow> path \<Rightarrow> ustr \<Rightarrow> bool \<Rightarrow> ('m, bool) io" where
  "publish_upload inputs target uploads private replace_existing =
     (if replace_existing
      then thenM (replace_existing_upload inputs target uploads private) (ret True)
      else thenM (publish_new_upload inputs target uploads private) (ret False))"

section \<open>The snapshot\<close>

text \<open>A snapshot file: basename, size, digest.\<close>

type_synonym manifest_file = "ustr \<times> int \<times> ustr"

definition manifest_file_json :: "manifest_file \<Rightarrow> json" where
  "manifest_file_json = (\<lambda>(basename, size, digest).
     jobj [(''basename'', JStr basename), (''size_bytes'', JInt size), (''sha256'', JStr digest)])"

definition copy_regular_file :: "path \<Rightarrow> path \<Rightarrow> ustr \<Rightarrow> ('m, manifest_file) io" where
  "copy_regular_file source destination n =
     bindM (observe (\<lambda>E s. case entry_at source n s of
              None \<Rightarrow> Inl not_found
            | Some (File c) \<Rightarrow> Inr c
            | Some v \<Rightarrow> Inl (Exn ValueError ''input is no longer a safe regular file''))) (\<lambda>c.
     thenM (create_file destination n)
    (bindM (ask (\<lambda>E. content_bytes E c)) (\<lambda>bytes.
     thenM (write_file destination n (Bytes bytes))
    (thenM fsync
    (bindM (ask (\<lambda>E. sha256 E bytes)) (\<lambda>digest.
     ret (n, int (length bytes), digest)))))))"

definition REQUEST_DIRECTORY :: ustr where
  "REQUEST_DIRECTORY = lit ''request''"

definition snapshot_inputs :: "ustr \<Rightarrow> ustr \<Rightarrow> ('m, manifest_file list) io" where
  "snapshot_inputs e private =
     bindM (observe (\<lambda>E. safe_regular_names e)) (\<lambda>names.
     thenM (check (REQUIRED_EVENT_FILE \<in> set names) ValueError ''a readable regular event.xml is required'')
    (thenM (mkdir (Queue, [private]) REQUEST_DIRECTORY)
    (bindM (collectM names (copy_regular_file (event_inputs e) (Queue, [private, REQUEST_DIRECTORY]))) (\<lambda>files.
     thenM fsync (thenM fsync (ret files))))))"

section \<open>The sequence counter\<close>

definition NEXT_SEQUENCE :: ustr where
  "NEXT_SEQUENCE = lit ''.next-sequence''"

definition visible_sequences :: "dirc \<Rightarrow> int list" where
  "visible_sequences d =
     concat (map (\<lambda>n. if hidden n then []
                      else case parse_queue_entry_name n of Inl e \<Rightarrow> [] | Inr i \<Rightarrow> [i]) (akeys d))"

definition filesystem_next :: "dirc \<Rightarrow> int" where
  "filesystem_next d = foldr max (visible_sequences d) 0 + 1"

text \<open>\<open>read().strip()\<close> of the counter file, opened as ASCII, and the checks on it.\<close>

definition parse_counter :: "nat list \<Rightarrow> exn + int" where
  "parse_counter bytes =
     bindE (guardE (list_all (\<lambda>b. b < 128) bytes) ValueError ''ordinal not in range'') (\<lambda>_.
     let content = strip bytes in
     bindE (guardE (content \<noteq> [] \<and> list_all is_digit content \<and> 1 \<le> digits_val content) ValueError
              ''malformed queue sequence state'') (\<lambda>_.
     Inr (int (digits_val content))))"

definition queue_sequence_from_disk :: "env \<Rightarrow> fsys \<Rightarrow> exn + int" where
  "queue_sequence_from_disk E s =
     (let from_names = filesystem_next (s Queue) in
      case aget (s Queue) NEXT_SEQUENCE of
        None \<Rightarrow> Inr from_names
      | Some (File c) \<Rightarrow> bindE (parse_counter (content_bytes E c)) (\<lambda>n. Inr (max n from_names))
      | Some v \<Rightarrow> Inl (Exn ValueError ''queue sequence state is not a safe regular file''))"

definition next_sequence_name :: "ustr \<Rightarrow> ustr" where
  "next_sequence_name u = lit ''.next-sequence-'' @ u @ lit ''.tmp''"

definition store_next_sequence :: "int \<Rightarrow> ('m, unit) io" where
  "store_next_sequence next_sequence =
     bindM read_uuid (\<lambda>u.
     let n = next_sequence_name u in
     finallyM (thenM (create_private (Queue, []) n)
              (thenM (write_file (Queue, []) n (Bytes (decimal (nat next_sequence) @ [10])))
              (thenM fsync
              (thenM (rename (Queue, []) n (Queue, []) NEXT_SEQUENCE) fsync))))
       (catchM (unlink (Queue, []) n)
          (\<lambda>e. if exn_kind_of e = FileNotFoundError then ret () else reraise e)))"

section \<open>Publication of the entry\<close>

record request =
  q_event :: ustr
  q_configuration :: ustr
  q_overwrite :: bool

definition request_manifest :: "ustr \<Rightarrow> int \<Rightarrow> manifest_file list \<Rightarrow> json" where
  "request_manifest e sequence files =
     jobj [(''schema_version'', JInt 1), (''event_id'', JStr e), (''internal_sequence'', JInt sequence),
           (''files'', JList (map manifest_file_json files))]"

definition publish_queue_entry_locked ::
  "ustr \<Rightarrow> request \<Rightarrow> ustr list \<Rightarrow> string \<Rightarrow> manifest_file list \<Rightarrow> ('m, calculation_record) io" where
  "publish_queue_entry_locked private q warnings input_mode files =
     bindM (observe queue_sequence_from_disk) (\<lambda>sequence.
     bindM (ask cfg) (\<lambda>c.
     bindM read_now (\<lambda>now.
     bindM (liftE (new_queued_record c now (JStr (q_event q)) sequence (JStr (q_configuration q))
                     (q_overwrite q) warnings (jstr input_mode))) (\<lambda>record.
     thenM (write_json_sync (Queue, [private]) (lit ''request-manifest.json'')
              (request_manifest (q_event q) sequence files))
    (thenM (write_json_sync (Queue, [private]) STATUS_FILE (record_to_dict record))
    (thenM fsync
    (thenM (store_next_sequence (sequence + 1))
    (bindM (observe (\<lambda>E s. Inr (aget (s Queue) (queue_entry_name sequence) \<noteq> None))) (\<lambda>final_exists.
     thenM (check (\<not> final_exists) FileExistsError ''queue entry already exists'')
    (thenM (rename (Queue, []) private (Queue, []) (queue_entry_name sequence))
    (thenM fsync (ret record))))))))))))"

text \<open>\<open>reader\<close> is the readiness callback: what it returns from the store.\<close>

definition publish_queue_entry ::
  "(env \<Rightarrow> fsys \<Rightarrow> exn + json) option \<Rightarrow> ustr \<Rightarrow> request \<Rightarrow> ustr list \<Rightarrow> string
     \<Rightarrow> manifest_file list \<Rightarrow> ('m, calculation_record) io" where
  "publish_queue_entry reader private q warnings input_mode files =
     thenM (case reader of
              None \<Rightarrow> ret ()
            | Some f \<Rightarrow> bindM (observe f) (\<lambda>state.
                check (jget state ''ready'' = JBool True) ServiceUnavailableError ''service is not ready''))
           (publish_queue_entry_locked private q warnings input_mode files)"

section \<open>The private queue directory\<close>

definition private_name :: "ustr \<Rightarrow> ustr" where
  "private_name u = lit ''.accept-'' @ u"

definition cleanup_private_queue_directory :: "ustr \<Rightarrow> ('m, unit) io" where
  "cleanup_private_queue_directory private =
     bindM (attempt (rmtree (Queue, []) private)) (\<lambda>removal.
     bindM (observe (\<lambda>E s. Inr (aget (s Queue) private \<noteq> None))) (\<lambda>retained.
     bindM (catchM (thenM fsync (ret False)) (\<lambda>e. if is_os_error e then ret True else reraise e)) (\<lambda>unsynced.
     thenM (check (\<not> retained) PrivateRequestCleanupError ''incomplete private material remains'')
           (check (\<not> unsynced) PrivateRequestCleanupError ''cleanup sync failed''))))"

fun make_private_queue_directory :: "nat \<Rightarrow> ('m, ustr) io" where
  "make_private_queue_directory 0 =
     raise FileExistsError ''could not allocate a private queue directory''"
| "make_private_queue_directory (Suc attempts) =
     bindM read_uuid (\<lambda>u.
     let n = private_name u in
     bindM (catchM (thenM (mkdir (Queue, []) n) (ret True))
              (\<lambda>e. if exn_kind_of e = FileExistsError then ret False else reraise e)) (\<lambda>made.
     if \<not> made then make_private_queue_directory attempts
     else thenM (catchM fsync (\<lambda>e. thenM (cleanup_private_queue_directory n) (reraise e))) (ret n)))"

section \<open>Acceptance\<close>

definition as_input_error :: "exn + 'a \<Rightarrow> exn + 'a" where
  "as_input_error r =
     (case r of
        Inl e \<Rightarrow> if is_value_error e then Inl (Exn InputValidationError (exn_message e)) else Inl e
      | Inr x \<Rightarrow> Inr x)"

definition validated_request ::
  "json \<Rightarrow> upload list \<Rightarrow> json \<Rightarrow> json \<Rightarrow> exn + request \<times> checked_upload list" where
  "validated_request event_id uploads configuration overwrite =
     as_input_error
       (bindE (validate_event_id event_id) (\<lambda>e.
        bindE (validate_configuration_name configuration) (\<lambda>c.
        bindE (validate_overwrite overwrite) (\<lambda>o'.
        bindE (validated_uploads uploads) (\<lambda>checked.
        Inr (\<lparr>q_event = e, q_configuration = c, q_overwrite = o'\<rparr>, checked))))))"

text \<open>\<open>open_service_directory(event_input_dir(event_id), create=...)\<close> and its error mapping.\<close>

definition open_event_inputs :: "ustr \<Rightarrow> bool \<Rightarrow> ('m, unit) io" where
  "open_event_inputs e create =
     bindM (observe (\<lambda>E s. Inr (aget (s Inputs) e))) (\<lambda>found.
     case found of
       Some (Dir d) \<Rightarrow> ret ()
     | Some v \<Rightarrow> raise InputValidationError ''canonical event input directory could not be opened safely''
     | None \<Rightarrow>
         if \<not> create then raise InputValidationError ''canonical event input directory does not exist''
         else catchM (thenM (catchM (mkdir (Inputs, []) e)
                              (\<lambda>x. if exn_kind_of x = FileExistsError then ret () else reraise x)) fsync)
                (\<lambda>x. if exn_kind_of x = FileNotFoundError
                      then raise InputValidationError ''canonical event input directory does not exist''
                      else if is_os_error x
                      then raise InputSnapshotError ''canonical event input directory could not be opened safely''
                      else reraise x))"

definition replacements :: "ustr \<Rightarrow> checked_upload list \<Rightarrow> ('m, (ustr \<times> bool) list) io" where
  "replacements e uploads = observe (\<lambda>E s. as_input_error (mapE (\<lambda>(basename, stream).
     bindE (existing_regular_file (event_inputs e) basename s) (\<lambda>b. Inr (basename, b))) uploads))"

definition publish_uploads ::
  "ustr \<Rightarrow> ustr \<Rightarrow> checked_upload list \<Rightarrow> (ustr \<times> bool) list \<Rightarrow> ('m, ustr list) io" where
  "publish_uploads private e uploads replace =
     (let dir = (Queue, [private, UPLOAD_PRIVATE_DIRECTORY]) in
     thenM (mkdir (Queue, [private]) UPLOAD_PRIVATE_DIRECTORY)
    (thenM fsync
    (bindM (ask same_device) (\<lambda>same.
     thenM (check same (InputPublicationError False)
              ''upload publication requires caller input and private upload storage on the same filesystem'')
    (bindM (collectM uploads (\<lambda>(basename, stream). bindM (stream_upload dir (basename, stream))
              (\<lambda>n. ret (basename, n)))) (\<lambda>streamed.
     bindM (collectM streamed (\<lambda>(basename, n).
              bindM (publish_upload (event_inputs e) basename dir n (aget replace basename = Some True)) (\<lambda>replaced.
              bindM (ask printable) (\<lambda>is_printable.
              ret (if replaced then [replacement_warning is_printable basename] else []))))) (\<lambda>warnings.
     thenM (catchM (rmdir (Queue, [private]) UPLOAD_PRIVATE_DIRECTORY)
              (\<lambda>x. if is_os_error x then raise (InputPublicationError True)
                     ''removing the private upload directory failed'' else reraise x))
    (thenM (catchM fsync
              (\<lambda>x. if is_os_error x then raise (InputPublicationError False)
                     ''syncing after the removal of the private upload directory failed'' else reraise x))
           (ret (concat warnings))))))))))"

definition input_mode_of :: "bool \<Rightarrow> bool \<Rightarrow> string" where
  "input_mode_of uploaded existing =
     (if uploaded \<and> existing then ''mixed'' else if uploaded then ''upload'' else ''directory'')"

definition snapshot_error :: "exn \<Rightarrow> ('m, 'a) io" where
  "snapshot_error x =
     (if is_value_error x then raise InputValidationError (exn_message x)
      else if is_os_error x
      then raise InputSnapshotError ''caller input files could not be snapshotted completely''
      else reraise x)"

definition accept_private ::
  "(env \<Rightarrow> fsys \<Rightarrow> exn + json) option \<Rightarrow> ustr \<Rightarrow> request \<Rightarrow> checked_upload list \<Rightarrow> ustr list
     \<Rightarrow> (ustr \<times> bool) list \<Rightarrow> ('m, calculation_record \<times> ustr list) io" where
  "accept_private reader private q uploads existing replace =
     bindM (if uploads = [] then ret [] else publish_uploads private (q_event q) uploads replace) (\<lambda>warnings.
     bindM (catchM (snapshot_inputs (q_event q) private) snapshot_error) (\<lambda>files.
     bindM (publish_queue_entry reader private q warnings
              (input_mode_of (uploads \<noteq> []) (existing \<noteq> [])) files) (\<lambda>record.
     ret (record, warnings))))"

text \<open>\<open>except BaseException\<close>: the private tree goes unless the error asks to keep it.\<close>

fun publication_retains :: "exn \<Rightarrow> bool option" where
  "publication_retains (Exn (InputPublicationError retain) m) = Some retain"
| "publication_retains e = None"

definition abandon_private :: "ustr \<Rightarrow> exn \<Rightarrow> ('m, 'a) io" where
  "abandon_private private acceptance_error =
     thenM (if publication_retains acceptance_error = Some True then ret ()
            else catchM (cleanup_private_queue_directory private)
                   (\<lambda>x. if exn_kind_of x = PrivateRequestCleanupError
                           \<and> publication_retains acceptance_error \<noteq> None
                        then raise (InputPublicationError True) ''secondary unpublished request cleanup failure''
                        else reraise x))
           (reraise acceptance_error)"

record submission_result =
  s_event_id :: ustr
  s_internal_sequence :: int
  s_status :: json
  s_warnings :: "ustr list"
  s_configuration :: ustr
  s_overwrite :: bool
  s_status_path :: ustr
  s_input_path :: ustr
  s_products_path :: ustr

definition result_of_submission :: "settings \<Rightarrow> request \<Rightarrow> calculation_record \<Rightarrow> ustr list \<Rightarrow> submission_result" where
  "result_of_submission c q r warnings =
     \<lparr>s_event_id = q_event q, s_internal_sequence = sequence_of r, s_status = r_status r,
      s_warnings = warnings, s_configuration = q_configuration q, s_overwrite = q_overwrite q,
      s_status_path = lit ''.service/queue/'' @ queue_entry_name (sequence_of r) @ lit ''/status.json'',
      s_input_path = shared_event_input_dir c (q_event q),
      s_products_path = shared_event_native_products_dir c (q_event q)\<rparr>"

definition accept_request ::
  "(env \<Rightarrow> fsys \<Rightarrow> exn + json) option \<Rightarrow> json \<Rightarrow> upload list \<Rightarrow> json \<Rightarrow> json \<Rightarrow> ('m, submission_result) io"
where
  "accept_request reader event_id uploads configuration overwrite =
     bindM (liftE (validated_request event_id uploads configuration overwrite)) (\<lambda>(q, checked).
     thenM (open_event_inputs (q_event q) (checked \<noteq> []))
    (bindM (observe (\<lambda>E. safe_regular_names (q_event q))) (\<lambda>existing.
     bindM (replacements (q_event q) checked) (\<lambda>replace.
     bindM (make_private_queue_directory 100) (\<lambda>private.
     bindM (catchM (accept_private reader private q checked existing replace)
              (abandon_private private)) (\<lambda>(record, warnings).
     bindM (ask cfg) (\<lambda>c.
     ret (result_of_submission c q record warnings))))))))"

end
