(* ===== verification/Stable.thy ===== *)
theory Stable
  imports Triples
begin

text \<open>
  Properties of the store that a computation keeps whatever happens: \<open>stable E I m\<close> says that \<open>I\<close>
  holds at the end of \<open>m\<close>, be it a value, an exception or the death of the process. The rules of the
  collection \<open>stable\<close> follow the structure of a computation down to its system calls, for which
  \<open>alters A\<close> names the root entries a call may change.
\<close>

definition stable :: "env \<Rightarrow> (fsys \<Rightarrow> bool) \<Rightarrow> ('m, 'a) io \<Rightarrow> bool" where
  "stable E I m \<longleftrightarrow> triple E I m (\<lambda>_. I) (\<lambda>_. I)"

named_theorems stable \<open>computations that keep a property of the store\<close>

lemma stable_triple: "stable E I m \<Longrightarrow> (\<And>s. P s \<Longrightarrow> I s) \<Longrightarrow> triple E P m (\<lambda>_. I) (\<lambda>_. I)"
  unfolding stable_def by (rule triple_pre)

lemma stable_basic [stable]:
  "stable E I (ret x)" "stable E I (raise k msg)" "stable E I (reraise e)" "stable E I (check b k msg)"
  "stable E I (liftE r)" "stable E I (ask f)" "stable E I (observe g)" "stable E I read_uuid"
  "stable E I read_now" "stable E I read_datetime"
  unfolding stable_def
  by (auto intro: triple_ret triple_raise triple_reraise triple_check triple_liftE triple_ask
      triple_observe triple_read_uuid triple_read_now triple_read_datetime)

lemma stable_bind [stable]: "stable E I m \<Longrightarrow> (\<And>x. stable E I (f x)) \<Longrightarrow> stable E I (bindM m f)"
  unfolding stable_def by (rule triple_bind)

lemma stable_then [stable]: "stable E I m \<Longrightarrow> stable E I n \<Longrightarrow> stable E I (thenM m n)"
  unfolding stable_def by (rule triple_then)

lemma stable_catch [stable]: "stable E I m \<Longrightarrow> (\<And>e. stable E I (h e)) \<Longrightarrow> stable E I (catchM m h)"
  unfolding stable_def by (rule triple_catch [where R = "\<lambda>_. I"]) (auto elim: triple_weaken split: option.splits)

lemma stable_when [stable]: "stable E I m \<Longrightarrow> stable E I (whenM b m)"
  by (simp add: whenM_def stable_basic)

lemma stable_if [stable]: "stable E I m \<Longrightarrow> stable E I n \<Longrightarrow> stable E I (if b then m else n)"
  by simp

lemma stable_let [stable]: "stable E I (f x) \<Longrightarrow> stable E I (let y = x in f y)"
  by simp

lemma stable_option [stable]:
  "stable E I m \<Longrightarrow> (\<And>x. stable E I (f x)) \<Longrightarrow> stable E I (case v of None \<Rightarrow> m | Some x \<Rightarrow> f x)"
  by (cases v) auto

lemma stable_prod [stable]: "(\<And>x y. stable E I (f x y)) \<Longrightarrow> stable E I (case v of (x, y) \<Rightarrow> f x y)"
  by (cases v) auto

lemma stable_sum [stable]:
  "(\<And>x. stable E I (f x)) \<Longrightarrow> (\<And>y. stable E I (g y)) \<Longrightarrow> stable E I (case v of Inl x \<Rightarrow> f x | Inr y \<Rightarrow> g y)"
  by (cases v) auto

lemma stable_node [stable]:
  "(\<And>c. stable E I (f c)) \<Longrightarrow> (\<And>d. stable E I (g d)) \<Longrightarrow> stable E I m \<Longrightarrow>
    stable E I (case v of File c \<Rightarrow> f c | Dir d \<Rightarrow> g d | Special \<Rightarrow> m)"
  by (cases v) auto

lemma stable_attempt [stable]: "stable E I m \<Longrightarrow> stable E I (attempt m)"
  unfolding attempt_def by (intro stable)

lemma stable_finally [stable]: "stable E I m \<Longrightarrow> stable E I f \<Longrightarrow> stable E I (finallyM m f)"
  unfolding finallyM_def by (intro stable)

lemma stable_forM [stable]: "(\<And>x. stable E I (f x)) \<Longrightarrow> stable E I (forM xs f)"
  by (induction xs) (auto intro: stable)

lemma stable_collectM [stable]: "(\<And>x. stable E I (f x)) \<Longrightarrow> stable E I (collectM xs f)"
  by (induction xs) (auto intro: stable)

lemma stable_conj: "stable E I m \<Longrightarrow> stable E J m \<Longrightarrow> stable E (\<lambda>s. I s \<and> J s) m"
  unfolding stable_def by (rule triple_conj)

lemma stable_disj:
  assumes "stable E I m" "stable E J m"
  shows "stable E (\<lambda>s. I s \<or> J s) m"
proof -
  have or_pre: "triple E (\<lambda>s. P s \<or> Q s) m R X" if "triple E P m R X" "triple E Q m R X" for P Q R X
    using that unfolding triple_def by (metis (no_types))
  show ?thesis
    using assms unfolding stable_def by (auto intro!: or_pre elim: triple_weaken)
qed

text \<open>What a run achieves, together with what it keeps.\<close>

lemma triple_stable:
  assumes "triple E P m Q (\<lambda>_ _. True)" "stable E I m" "\<And>s. P s \<Longrightarrow> I s"
  shows "triple E P m (\<lambda>x s. Q x s \<and> I s) (\<lambda>_. I)"
proof -
  have keep: "triple E P m (\<lambda>_. I) (\<lambda>_. I)" by (rule stable_triple [OF assms(2,3)])
  show ?thesis by (rule triple_weaken [OF triple_conj [OF assms(1) keep]]) auto
qed

lemma triple_attempted:
  assumes "triple E P m Q X"
  shows "triple E P (attempt m) (\<lambda>r. case r of Inl e \<Rightarrow> X (Some e) | Inr x \<Rightarrow> Q x) X"
proof -
  let ?Q = "\<lambda>r. case r of Inl e \<Rightarrow> X (Some e) | Inr x \<Rightarrow> Q x"
  have got: "triple E P (bindM m (\<lambda>x. ret (Inr x))) ?Q X"
    by (rule triple_bind [OF assms]) (simp add: triple_ret)
  have "triple E P (bindM m (\<lambda>x. ret (Inr x))) ?Q (\<lambda>e. case e of None \<Rightarrow> X None | Some e' \<Rightarrow> X (Some e'))"
    by (rule triple_weaken [OF got]) (auto split: option.splits)
  then show ?thesis
    unfolding attempt_def
    by (rule triple_catch) (simp add: triple_ret)
qed

lemma triple_finally:
  assumes "triple E P m R (\<lambda>_ _. True)" "\<And>x. triple E (R x) f (\<lambda>_. Q x) (\<lambda>_ _. True)"
  shows "triple E P (finallyM m f) Q (\<lambda>_ _. True)"
  unfolding finallyM_def
proof (rule triple_bind [OF triple_attempted [OF assms(1)]])
  have any: "triple E A f (\<lambda>_ _. True) (\<lambda>_ _. True)" for A
    by (auto simp: triple_def split: prod.splits outcome.splits)
  show "triple E (case r of Inl e \<Rightarrow> (\<lambda>_. True) | Inr x \<Rightarrow> R x)
      (thenM f (case r of Inl e \<Rightarrow> reraise e | Inr x \<Rightarrow> ret x)) Q (\<lambda>_ _. True)" for r
  proof (cases r)
    case (Inl e)
    have "triple E (\<lambda>_. True) (thenM f (reraise e)) Q (\<lambda>_ _. True)"
      by (rule triple_then [where R = "\<lambda>_. True"], rule any) (simp add: triple_reraise)
    with Inl show ?thesis by simp
  next
    case (Inr x)
    have "triple E (R x) (thenM f (ret x)) Q (\<lambda>_ _. True)"
      by (rule triple_then [OF assms(2)]) (simp add: triple_ret)
    with Inr show ?thesis by simp
  qed
qed

section \<open>The entries a call may change\<close>

definition alters :: "(root \<times> ustr) set \<Rightarrow> fsys \<Rightarrow> fsys \<Rightarrow> bool" where
  "alters A s s' \<longleftrightarrow> (\<forall>k n. (k, n) \<notin> A \<longrightarrow> aget (s' k) n = aget (s k) n)"

text \<open>The root entry through which \<open>n\<close> in the directory \<open>p\<close> is reached.\<close>

fun entry_root :: "path \<Rightarrow> ustr \<Rightarrow> root \<times> ustr" where
  "entry_root (k, []) n = (k, n)"
| "entry_root (k, m # p) n = (k, m)"

lemma alters_refl [simp]: "alters A s s"
  by (simp add: alters_def)

lemma alters_trans: "alters A s s' \<Longrightarrow> alters A s' s'' \<Longrightarrow> alters A s s''"
  by (simp add: alters_def)

lemma alters_mono: "alters A s s' \<Longrightarrow> A \<subseteq> B \<Longrightarrow> alters B s s'"
  unfolding alters_def by blast

lemma update_root:
  assumes "\<And>d m. m \<noteq> n \<Longrightarrow> aget (f d) m = aget d m"
  shows "alters {entry_root p n} s (update_at p f s)"
proof (cases p)
  case (Pair k ns)
  then show ?thesis
    using assms by (cases ns) (auto simp: alters_def update_at_def split: option.splits node.splits)
qed

lemma aput_root: "alters {entry_root p n} s (update_at p (aput n v) s)"
  and adel_root: "alters {entry_root p n} s (update_at p (adel n) s)"
  by (rule update_root; simp)+

lemma effects_alter:
  "mkdir_effect p n s = Inr s' \<Longrightarrow> alters {entry_root p n} s s'"
  "create_effect p n s = Inr s' \<Longrightarrow> alters {entry_root p n} s s'"
  "create_private_effect p n s = Inr s' \<Longrightarrow> alters {entry_root p n} s s'"
  "write_effect p n c s = Inr s' \<Longrightarrow> alters {entry_root p n} s s'"
  "unlink_effect p n s = Inr s' \<Longrightarrow> alters {entry_root p n} s s'"
  "rmdir_effect p n s = Inr s' \<Longrightarrow> alters {entry_root p n} s s'"
  "rmtree_effect p n s = Inr s' \<Longrightarrow> alters {entry_root p n} s s'"
  "link_effect p n p' n' s = Inr s' \<Longrightarrow> alters {entry_root p' n'} s s'"
  by (auto simp: mkdir_effect_def create_effect_def create_private_effect_def write_effect_def unlink_effect_def
      rmdir_effect_def rmtree_effect_def link_effect_def aput_root adel_root
      split: option.splits node.splits if_splits list.splits)

lemma rename_alters:
  assumes "rename_effect p n p' n' s = Inr s'"
  shows "alters {entry_root p n, entry_root p' n'} s s'"
proof -
  obtain v where "s' = update_at p' (aput n' v) (update_at p (adel n) s)"
    using assms by (auto simp: rename_effect_def split: option.splits if_splits)
  moreover have "alters {entry_root p n, entry_root p' n'} s (update_at p (adel n) s)"
    by (rule alters_mono [OF adel_root]) auto
  moreover have "alters {entry_root p n, entry_root p' n'} u (update_at p' (aput n' v) u)" for u v
    by (rule alters_mono [OF aput_root]) auto
  ultimately show ?thesis using alters_trans by blast
qed

lemma rmtree_part_alters: "alters {entry_root p n} s (rmtree_part p n k s)"
  by (auto simp: rmtree_part_def aput_root split: option.splits node.splits)

lemma stable_sys:
  assumes "\<And>s s'. I s \<Longrightarrow> op s = Inr s' \<Longrightarrow> I s'" "\<And>n s. I s \<Longrightarrow> I (part n s)"
  shows "stable E I (sys op part)"
  unfolding stable_def by (rule triple_sys) (auto intro: assms)

lemma alters_sys:
  assumes "\<And>s s'. op s = Inr s' \<Longrightarrow> alters B s s'" "\<And>n s. alters B s (part n s)" "B \<subseteq> A"
  shows "stable E (alters A s0) (sys op part)"
  using alters_mono [OF assms(1) assms(3)] alters_mono [OF assms(2) assms(3)] alters_trans
  by (intro stable_sys) blast+

lemma alters_calls [stable]:
  "entry_root p n \<in> A \<Longrightarrow> stable E (alters A s0) (mkdir p n)"
  "entry_root p n \<in> A \<Longrightarrow> stable E (alters A s0) (create_file p n)"
  "entry_root p n \<in> A \<Longrightarrow> stable E (alters A s0) (create_private p n)"
  "entry_root p n \<in> A \<Longrightarrow> stable E (alters A s0) (write_file p n c)"
  "entry_root p n \<in> A \<Longrightarrow> stable E (alters A s0) (unlink p n)"
  "entry_root p n \<in> A \<Longrightarrow> stable E (alters A s0) (rmdir p n)"
  "entry_root p n \<in> A \<Longrightarrow> stable E (alters A s0) (rmtree p n)"
  "entry_root p' n' \<in> A \<Longrightarrow> stable E (alters A s0) (link p n p' n')"
  "entry_root p n \<in> A \<Longrightarrow> entry_root p' n' \<in> A \<Longrightarrow> stable E (alters A s0) (rename p n p' n')"
  unfolding mkdir_def create_file_def create_private_def write_file_def unlink_def rmdir_def rmtree_def
    link_def rename_def
  by (rule alters_sys, erule effects_alter rename_alters, simp add: untouched_def rmtree_part_alters, simp)+

lemma stable_fsync [stable]: "stable E I fsync" "stable E I (sys Inr untouched)"
  unfolding fsync_def by (rule stable_sys; simp add: untouched_def)+

end
