(* ===== verification/Submission_Triples.thy ===== *)
theory Submission_Triples
  imports Submission Stable Status_Triples
begin

text \<open>
  What a submission does to the store, for every fault: until the single publication rename only
  hidden queue entries and the caller's input directory change, and what the rename publishes is a
  complete entry.
\<close>

section \<open>Private work\<close>

definition accepting :: "ustr \<Rightarrow> bool" where
  "accepting n \<longleftrightarrow> starts_with (lit ''.accept-'') n"

definition scratch :: "ustr \<Rightarrow> (root \<times> ustr) set" where
  "scratch e = {(k, n). k = Queue \<and> accepting n \<or> k = Inputs \<and> n = e}"

definition counters :: "(root \<times> ustr) set" where
  "counters = {(k, n). k = Queue \<and> starts_with (lit ''.next-sequence'') n}"

lemma scratch_simps [simp]:
  "(Queue, n) \<in> scratch e \<longleftrightarrow> accepting n" "(Inputs, n) \<in> scratch e \<longleftrightarrow> n = e"
  "(Products, n) \<notin> scratch e" "(Events, n) \<notin> scratch e" "(Archive, n) \<notin> scratch e" "(Service, n) \<notin> scratch e"
  by (simp_all add: scratch_def)

lemma accepting_names [simp]: "accepting (private_name u)" "\<not> accepting NEXT_SEQUENCE" "\<not> accepting (next_sequence_name u)"
  by (simp_all add: accepting_def private_name_def NEXT_SEQUENCE_def next_sequence_name_def starts_with_def
      lit_Cons lit_Nil)

lemma counter_names [simp]: "(Queue, NEXT_SEQUENCE) \<in> counters" "(Queue, next_sequence_name u) \<in> counters"
  by (simp_all add: counters_def NEXT_SEQUENCE_def next_sequence_name_def starts_with_def lit_Cons lit_Nil)

lemma accepting_hidden: "accepting n \<Longrightarrow> hidden n"
  by (cases n) (auto simp: accepting_def hidden_def starts_with_def lit_Cons lit_Nil)

lemma hidden_NEXT_SEQUENCE [simp]: "hidden NEXT_SEQUENCE"
  by (simp add: NEXT_SEQUENCE_def hidden_def starts_with_def lit_Cons lit_Nil)

lemma counters_hidden: "(k, n) \<in> counters \<Longrightarrow> k = Queue \<and> hidden n"
  by (cases n) (auto simp: counters_def hidden_def starts_with_def lit_Cons lit_Nil)

lemma entry_name_visible: "\<not> hidden (queue_entry_name i)" if "1 \<le> i"
proof
  assume h: "hidden (queue_entry_name i)"
  have "list_all is_digit (queue_entry_name i)"
    using digits_pad digits_decimal by (simp add: queue_entry_name_def Let_def)
  with h show False
    by (cases "queue_entry_name i") (auto simp: hidden_def starts_with_def lit_Cons lit_Nil is_digit_def)
qed

lemma stable_cleanup_problem [stable]:
  "entry_root p n \<in> A \<Longrightarrow> stable E (alters A s0) (private_cleanup_problem p n)"
  unfolding private_cleanup_problem_def by (intro stable)

lemma stable_fail_publication [stable]:
  "entry_root p n \<in> A \<Longrightarrow> stable E (alters A s0) (fail_publication p n msg)"
  unfolding fail_publication_def by (intro stable)

lemma stable_stream_chunks [stable]:
  "entry_root p n \<in> A \<Longrightarrow> stable E (alters A s0) (stream_chunks p n b cs)"
proof (induction p n b cs rule: stream_chunks.induct)
  case (2 p n b c cs)
  then show ?case by (auto intro!: stable split: chunk.splits list.splits)
qed (simp add: stable)

lemma stable_stream_upload [stable]:
  assumes "\<And>n. entry_root p n \<in> A"
  shows "stable E (alters A s0) (stream_upload p u)"
  unfolding stream_upload_def Let_def by (intro stable assms)

lemma stable_rollback [stable]:
  assumes "\<And>n. entry_root inputs n \<in> A" "\<And>n. entry_root uploads n \<in> A"
  shows "stable E (alters A s0) (rollback_replacement b inputs t uploads pr bk)"
  unfolding rollback_replacement_def by (intro stable assms)

lemma stable_publish_upload [stable]:
  assumes "\<And>n. entry_root inputs n \<in> A" "\<And>n. entry_root uploads n \<in> A"
  shows "stable E (alters A s0) (publish_upload inputs t uploads pr b)"
  unfolding publish_upload_def replace_existing_upload_def publish_new_upload_def Let_def
  by (intro stable assms)

lemma stable_publish_uploads [stable]:
  assumes "accepting private"
  shows "stable E (alters (scratch e) s0) (publish_uploads private e us rep)"
  unfolding publish_uploads_def Let_def
  by (intro stable) (simp_all add: assms event_inputs_def)

lemma stable_snapshot [stable]:
  assumes "accepting private"
  shows "stable E (alters (scratch e) s0) (snapshot_inputs e private)"
  unfolding snapshot_inputs_def copy_regular_file_def
  by (intro stable) (simp_all add: assms)

lemma stable_cleanup [stable]:
  assumes "accepting private"
  shows "stable E (alters (scratch e) s0) (cleanup_private_queue_directory private)"
  unfolding cleanup_private_queue_directory_def by (intro stable) (simp_all add: assms)

lemma stable_make_private [stable]:
  "stable E (alters (scratch e) s0) (make_private_queue_directory k)"
proof (induction k)
  case (Suc k)
  then show ?case
    unfolding make_private_queue_directory.simps Let_def by (intro stable) simp_all
qed (simp add: stable)

lemma stable_store_sequence [stable]:
  assumes "counters \<subseteq> A"
  shows "stable E (alters A s0) (store_next_sequence k)"
  unfolding store_next_sequence_def Let_def
  by (intro stable) (use assms counter_names in \<open>simp_all add: subset_eq\<close>)

lemma stable_open_inputs [stable]: "stable E (alters (scratch e) s0) (open_event_inputs e b)"
  unfolding open_event_inputs_def by (intro stable) simp_all

lemma stable_replacements [stable]: "stable E I (replacements e us)"
  unfolding replacements_def by (intro stable)

lemma stable_snapshot_error [stable]: "stable E I (snapshot_error x)"
  unfolding snapshot_error_def by (intro stable)

lemma stable_write_json [stable]:
  "entry_root p n \<in> A \<Longrightarrow> stable E (alters A s0) (write_json_sync p n j)"
  unfolding write_json_sync_def by (intro stable)

section \<open>The snapshot\<close>

text \<open>\<open>rd\<close> holds a copy of the input \<open>n\<close>, which the manifest entry \<open>f\<close> describes.\<close>

definition copied :: "env \<Rightarrow> ustr \<Rightarrow> fsys \<Rightarrow> dirc \<Rightarrow> manifest_file \<Rightarrow> bool" where
  "copied E e s rd = (\<lambda>(n, size, digest).
     \<exists>c. entry_at (event_inputs e) n s = Some (File c)
       \<and> aget rd n = Some (File (Bytes (content_bytes E c)))
       \<and> size = int (length (content_bytes E c)) \<and> digest = sha256 E (content_bytes E c))"

definition copies :: "env \<Rightarrow> ustr \<Rightarrow> fsys \<Rightarrow> dirc \<Rightarrow> manifest_file list \<Rightarrow> bool" where
  "copies E e s rd ms \<longleftrightarrow>
     distinct (map fst ms) \<and> distinct (akeys rd) \<and> set (akeys rd) = set (map fst ms) \<and> list_all (copied E e s rd) ms"

lemma copied_cong:
  "aget (s Inputs) e = aget (s' Inputs) e \<Longrightarrow> aget rd (fst f) = aget rd' (fst f) \<Longrightarrow> copied E e s rd f = copied E e s' rd' f"
  by (auto simp: copied_def entry_at_def event_inputs_def dir_at_def split: prod.splits)

lemma copies_cong:
  "aget (s Inputs) e = aget (s' Inputs) e \<Longrightarrow> copies E e s rd ms = copies E e s' rd ms"
  using copied_cong [of s e s' rd _ rd E] by (simp add: copies_def list_all_iff)

lemma copy_step:
  assumes at: "dir_at (Queue, ns) s0 = Some rd" and ms: "copies E e s0 rd ms"
  shows "triple E (\<lambda>s. s = s0) (copy_regular_file (event_inputs e) (Queue, ns) n)
     (\<lambda>f s. fst f = n \<and> (\<exists>rd'. s = put_dir (Queue, ns) rd' s0 \<and> copies E e s rd' (ms @ [f])))
     (\<lambda>_ _. True)"
proof -
  let ?P = "(Queue, ns)"
  have rest: "triple E (\<lambda>s. s = s0) (thenM (create_file ?P n) (bindM (ask (\<lambda>E. content_bytes E c)) (\<lambda>bytes.
       thenM (write_file ?P n (Bytes bytes)) (thenM fsync (bindM (ask (\<lambda>E. sha256 E bytes)) (\<lambda>digest.
       ret (n, int (length bytes), digest)))))))
      (\<lambda>f s. fst f = n \<and> (\<exists>rd'. s = put_dir ?P rd' s0 \<and> copies E e s rd' (ms @ [f]))) (\<lambda>_ _. True)"
    if c: "entry_at (event_inputs e) n s0 = Some (File c)" for c
  proof -
    let ?b = "content_bytes E c" and ?v = "\<lambda>b. aput n (File (Bytes b)) rd"
    let ?rd = "aput n (File (Bytes ?b)) (?v [])"
    have inputs: "put_dir ?P d s0 Inputs = s0 Inputs" for d by (simp add: put_dir_def update_at_def)
    have old: "n \<notin> fst ` set ms" if "aget rd n = None"
      using that ms in_akeys [of n rd] by (auto simp: copies_def)
    have cop: "copies E e (put_dir ?P ?rd s0) ?rd (ms @ [(n, int (length ?b), sha256 E ?b)])"
      if none: "aget rd n = None"
    proof -
      have "copied E e (put_dir ?P ?rd s0) ?rd f" if "f \<in> set ms" for f
      proof -
        have "fst f \<noteq> n" using that old [OF none] by force
        then have "copied E e (put_dir ?P ?rd s0) ?rd f = copied E e s0 rd f"
          by (intro copied_cong) (simp_all add: inputs)
        then show ?thesis using that ms by (simp add: copies_def list_all_iff)
      qed
      moreover have "copied E e (put_dir ?P ?rd s0) ?rd (n, int (length ?b), sha256 E ?b)"
        using c by (auto simp: copied_def entry_at_def event_inputs_def dir_at_def inputs)
      ultimately show ?thesis
        using ms old [OF none] by (auto simp: copies_def list_all_iff)
    qed
    have create: "triple E (\<lambda>s. s = s0) (create_file ?P n)
        (\<lambda>_ s. aget rd n = None \<and> s = put_dir ?P (?v []) s0) (\<lambda>_ _. True)"
      unfolding create_file_def
      by (rule triple_sys) (auto simp: create_effect_def at put_dir_change [OF at] split: if_splits)
    have fill: "triple E (\<lambda>s. s = put_dir ?P (?v []) s0) (write_file ?P n (Bytes ?b))
        (\<lambda>_ s. s = put_dir ?P ?rd s0) (\<lambda>_ _. True)"
      unfolding write_file_def
      by (rule triple_sys)
         (auto simp: write_effect_def put_dir_change [OF dir_at_put_dir [OF at]] put_dir_put_dir [OF at])
    show ?thesis
      by (rule triple_then [OF create], rule triple_pure, rule triple_bind [where R = "\<lambda>b s. b = ?b \<and> s = put_dir ?P (?v []) s0"],
          rule triple_ask, simp, rule triple_pure, simp, rule triple_then [OF fill],
          rule triple_then [where R = "\<lambda>s. s = put_dir ?P ?rd s0"], rule triple_fsync)
         (auto intro!: triple_bind [where R = "\<lambda>d s. d = sha256 E ?b \<and> s = put_dir ?P ?rd s0"] triple_ask triple_pure
            triple_ret exI [of _ ?rd] cop)
  qed
  show ?thesis
    unfolding copy_regular_file_def
    by (rule triple_bind [where R = "\<lambda>c s. entry_at (event_inputs e) n s0 = Some (File c) \<and> s = s0"], rule triple_observe)
       (auto split: option.splits node.splits intro!: triple_pure rest)
qed

lemma copy_all:
  assumes "dir_at (Queue, ns) s0 = Some rd" "copies E e s0 rd ms"
  shows "triple E (\<lambda>s. s = s0)
     (collectM names (copy_regular_file (event_inputs e) (Queue, ns)) :: ('m, manifest_file list) io)
     (\<lambda>fs' s. map fst fs' = names \<and> (\<exists>rd'. s = put_dir (Queue, ns) rd' s0 \<and> copies E e s rd' (ms @ fs')))
     (\<lambda>_ _. True)"
  using assms
proof (induction names arbitrary: s0 rd ms)
  case Nil
  have "s0 = put_dir (Queue, ns) rd s0"
    using put_dir_change [OF Nil(1), of "\<lambda>x. x"] by (simp add: update_at_id)
  with Nil show ?case by (auto intro!: triple_ret)
next
  case (Cons n names)
  show ?case
    unfolding collectM.simps
  proof (rule triple_bind [OF copy_step [OF Cons.prems]], rule triple_fixed)
    fix f s1
    assume "fst f = n \<and> (\<exists>rd'. s1 = put_dir (Queue, ns) rd' s0 \<and> copies E e s1 rd' (ms @ [f]))"
    then obtain rd1 where f: "fst f = n" and s1: "s1 = put_dir (Queue, ns) rd1 s0" and c: "copies E e s1 rd1 (ms @ [f])"
      by blast
    have at: "dir_at (Queue, ns) s1 = Some rd1" using s1 dir_at_put_dir [OF Cons.prems(1)] by simp
    show "triple E (\<lambda>s. s = s1) (bindM (collectM names (copy_regular_file (event_inputs e) (Queue, ns)))
        (\<lambda>ys. ret (f # ys)) :: ('m, manifest_file list) io)
       (\<lambda>fs' s. map fst fs' = n # names \<and> (\<exists>rd'. s = put_dir (Queue, ns) rd' s0 \<and> copies E e s rd' (ms @ fs')))
       (\<lambda>_ _. True)"
      by (rule triple_bind [where R = "\<lambda>fs' s. map fst fs' = names
            \<and> (\<exists>rd'. s = put_dir (Queue, ns) rd' s1 \<and> copies E e s rd' ((ms @ [f]) @ fs'))"], rule Cons.IH [OF at c])
         (auto intro!: triple_ret simp: f s1 put_dir_put_dir [OF Cons.prems(1)])
  qed
qed

text \<open>The private entry once the snapshot is complete.\<close>

definition snapshotted :: "env \<Rightarrow> ustr \<Rightarrow> manifest_file list \<Rightarrow> dirc \<Rightarrow> fsys \<Rightarrow> bool" where
  "snapshotted E e ms d s \<longleftrightarrow>
     (\<exists>rd. aget d REQUEST_DIRECTORY = Some (Dir rd) \<and> copies E e s rd ms)
     \<and> (\<exists>di. dir_at (event_inputs e) s = Some di \<and> map fst ms = input_names di)
     \<and> REQUIRED_EVENT_FILE \<in> fst ` set ms"

lemma snapshot_effect:
  assumes at: "aget (s0 Queue) private = Some (Dir d)"
  shows "triple E (\<lambda>s. s = s0) (snapshot_inputs e private)
     (\<lambda>ms s. \<exists>d'. s = put_dir (Queue, [private]) d' s0 \<and> snapshotted E e ms d' s
        \<and> (\<forall>m. m \<noteq> REQUEST_DIRECTORY \<longrightarrow> aget d' m = aget d m)) (\<lambda>_ _. True)"
    (is "triple E _ _ ?Q _")
proof -
  let ?P = "(Queue, [private])" and ?R = "(Queue, [private, REQUEST_DIRECTORY])"
  let ?d1 = "aput REQUEST_DIRECTORY (Dir []) d"
  let ?s1 = "put_dir ?P ?d1 s0"
  have dir: "dir_at ?P s0 = Some d" using at by simp
  have queue: "aget (?s1 Queue) private = Some (Dir ?d1)" using at by (simp add: put_dir_def)
  have sub: "dir_at ?R ?s1 = Some []"
    using queue by (simp add: dir_at_def)
  have put: "put_dir ?R rd ?s1 = put_dir ?P (aput REQUEST_DIRECTORY (Dir rd) ?d1) s0" for rd
    using at queue by (auto simp: put_dir_def update_at_def fun_eq_iff aput_aput)
  have inputs: "put_dir ?P x s0 Inputs = s0 Inputs" for x by (simp add: put_dir_def update_at_def)
  have make: "triple E (\<lambda>s. s = s0) (mkdir ?P REQUEST_DIRECTORY) (\<lambda>_ s. s = ?s1) (\<lambda>_ _. True)"
    unfolding mkdir_def
    by (rule triple_sys) (auto simp: mkdir_effect_def at put_dir_def split: if_splits)
  have empty: "copies E e ?s1 [] []" by (simp add: copies_def akeys_def)
  have body: "triple E (\<lambda>s. s = s0) (thenM (mkdir ?P REQUEST_DIRECTORY)
      (bindM (collectM names (copy_regular_file (event_inputs e) ?R)) (\<lambda>files. thenM fsync (thenM fsync (ret files)))))
      ?Q (\<lambda>_ _. True)"
    if names: "dir_at (event_inputs e) s0 = Some di" "names = input_names di" "REQUIRED_EVENT_FILE \<in> set names" for names di
  proof -
    have fin: "?Q ms s"
      if "map fst ms = names" "s = put_dir ?R rd ?s1" "copies E e s rd ms" for ms s rd
    proof (intro exI conjI)
      show s: "s = put_dir ?P (aput REQUEST_DIRECTORY (Dir rd) ?d1) s0" using that(2) put by simp
      have "dir_at (event_inputs e) s = Some di"
        using names(1) by (simp add: s event_inputs_def inputs)
      then show "snapshotted E e ms (aput REQUEST_DIRECTORY (Dir rd) ?d1) s"
        using that(1,3) names(2,3) unfolding snapshotted_def by (auto simp flip: set_map)
      show "\<forall>m. m \<noteq> REQUEST_DIRECTORY \<longrightarrow> aget (aput REQUEST_DIRECTORY (Dir rd) ?d1) m = aget d m" by simp
    qed
    show ?thesis
      by (rule triple_then [OF make], rule triple_bind [OF copy_all [OF sub empty]], rule triple_fixed)
         (use fin in \<open>auto intro!: triple_then [where R = "\<lambda>s. s = put_dir ?R _ ?s1"] triple_fsync triple_ret\<close>)
  qed
  have checked: "triple E (\<lambda>s. s = s0) (thenM (check (REQUIRED_EVENT_FILE \<in> set (input_names di)) ValueError msg)
      (thenM (mkdir ?P REQUEST_DIRECTORY) (bindM (collectM (input_names di) (copy_regular_file (event_inputs e) ?R))
        (\<lambda>files. thenM fsync (thenM fsync (ret files))))))
      ?Q (\<lambda>_ _. True)"
    if "dir_at (event_inputs e) s0 = Some di" for di msg
    by (rule triple_then [where R = "\<lambda>s. REQUIRED_EVENT_FILE \<in> set (input_names di) \<and> s = s0"], rule triple_check)
       (use that in \<open>auto intro!: triple_pure body\<close>)
  show ?thesis
    unfolding snapshot_inputs_def
    by (rule triple_bind [where R = "\<lambda>names s. (\<exists>di. dir_at (event_inputs e) s0 = Some di \<and> names = input_names di) \<and> s = s0"],
        rule triple_observe)
       (auto simp: safe_regular_names_def split: option.splits intro!: triple_pure checked)
qed

section \<open>The counter\<close>

definition counter_file :: "int \<Rightarrow> node" where
  "counter_file n = File (Bytes (decimal (nat n) @ [10]))"

lemma store_sequence_effect:
  "triple E (\<lambda>s. s = s0) (store_next_sequence n)
     (\<lambda>_ s. aget (s Queue) NEXT_SEQUENCE = Some (counter_file n)) (\<lambda>_ _. True)"
proof -
  have stored: "triple E (\<lambda>s. s = s0) (thenM (create_private (Queue, []) t)
      (thenM (write_file (Queue, []) t (Bytes (decimal (nat n) @ [10])))
      (thenM fsync (thenM (rename (Queue, []) t (Queue, []) NEXT_SEQUENCE) fsync))))
      (\<lambda>_ s. aget (s Queue) NEXT_SEQUENCE = Some (counter_file n)) (\<lambda>_ _. True)" for t
    unfolding create_private_def write_file_def rename_def
    by (rule triple_then [where R = "\<lambda>s. True"], rule triple_sys, simp_all,
        rule triple_then [where R = "\<lambda>s. aget (s Queue) t = Some (counter_file n)"], rule triple_sys,
        simp_all add: write_effect_def counter_file_def,
        rule triple_then [where R = "\<lambda>s. aget (s Queue) t = Some (File (Bytes (decimal (nat n) @ [10])))"],
        rule triple_fsync, simp_all,
        rule triple_then [where R = "\<lambda>s. aget (s Queue) NEXT_SEQUENCE = Some (File (Bytes (decimal (nat n) @ [10])))"],
        rule triple_sys)
       (auto simp: rename_effect_def entry_at_def split: if_splits intro!: triple_fsync)
  have removed: "triple E (\<lambda>s. aget (s Queue) NEXT_SEQUENCE = Some (counter_file n))
      (catchM (unlink (Queue, []) (next_sequence_name u))
        (\<lambda>e. if exn_kind_of e = FileNotFoundError then ret () else reraise e))
      (\<lambda>_ s. aget (s Queue) NEXT_SEQUENCE = Some (counter_file n)) (\<lambda>_ _. True)" for u
  proof (rule triple_fixed)
    fix s1 :: fsys assume c: "aget (s1 Queue) NEXT_SEQUENCE = Some (counter_file n)"
    have ne: "NEXT_SEQUENCE \<noteq> next_sequence_name u"
      by (simp add: NEXT_SEQUENCE_def next_sequence_name_def lit_Cons lit_Nil)
    have "stable E (alters {(Queue, next_sequence_name u)} s1)
        (catchM (unlink (Queue, []) (next_sequence_name u))
          (\<lambda>e. if exn_kind_of e = FileNotFoundError then ret () else reraise e))"
      by (intro stable) simp
    from stable_triple [OF this, of "\<lambda>s. s = s1"]
    have "triple E (\<lambda>s. s = s1) (catchM (unlink (Queue, []) (next_sequence_name u))
        (\<lambda>e. if exn_kind_of e = FileNotFoundError then ret () else reraise e))
        (\<lambda>_. alters {(Queue, next_sequence_name u)} s1) (\<lambda>_. alters {(Queue, next_sequence_name u)} s1)"
      by simp
    then show "triple E (\<lambda>s. s = s1) (catchM (unlink (Queue, []) (next_sequence_name u))
        (\<lambda>e. if exn_kind_of e = FileNotFoundError then ret () else reraise e))
        (\<lambda>_ s. aget (s Queue) NEXT_SEQUENCE = Some (counter_file n)) (\<lambda>_ _. True)"
      by (rule triple_weaken) (use c ne in \<open>auto simp: alters_def\<close>)
  qed
  show ?thesis
    unfolding store_next_sequence_def Let_def
    by (rule triple_bind [where R = "\<lambda>_ s. s = s0"], rule triple_read_uuid, assumption,
        rule triple_finally [OF stored removed])
qed

section \<open>Publishing the entry\<close>

lemma write_json_effect:
  assumes at: "dir_at p s0 = Some d"
  shows "triple E (\<lambda>s. s = s0) (write_json_sync p n j)
     (\<lambda>_ s. \<exists>d'. s = put_dir p d' s0 \<and> (\<forall>m. aget d' m = (if m = n then Some (File (Json j)) else aget d m)))
     (\<lambda>_ _. True)"
proof -
  let ?d1 = "aput n (File (Bytes [])) d"
  let ?d2 = "aput n (File (Json j)) ?d1"
  show ?thesis
    unfolding write_json_sync_def create_file_def write_file_def
    by (rule triple_then [where R = "\<lambda>s. s = put_dir p ?d1 s0"], rule triple_sys,
        simp_all add: create_effect_def at put_dir_change [OF at] split: if_splits,
        rule triple_then [where R = "\<lambda>s. s = put_dir p ?d2 s0"], rule triple_sys)
       (auto simp: write_effect_def put_dir_change [OF dir_at_put_dir [OF at]] put_dir_put_dir [OF at]
          intro!: triple_fsync exI [of _ ?d2])
qed

end
