(* ===== verification/Upload_Properties.thy ===== *)
theory Upload_Properties
  imports Submission_Triples Samples
begin

text \<open>
  The replacement of a caller's input file by an upload: a hard link keeps the preceding bytes, a
  rename publishes the new ones, and an error on the way renames the link back.
\<close>

section \<open>Two directories of different trees\<close>

lemma entry_at_update:
  "entry_at p n (update_at p f s) = (case dir_at p s of None \<Rightarrow> None | Some d \<Rightarrow> aget (f d) n)"
proof (cases "dir_at p s")
  case (Some d)
  then show ?thesis by (simp add: entry_at_def dir_at_update_at)
next
  case None
  have "walk (change_at f ns d) ns = None" if "walk d ns = None" for ns d
    using that by (induction ns arbitrary: d) (auto split: option.splits node.splits)
  with None show ?thesis by (simp add: entry_at_def dir_at_def update_at_def)
qed

lemma entry_at_other: "fst p \<noteq> fst p' \<Longrightarrow> entry_at p n (update_at p' f s) = entry_at p n s"
  by (simp add: entry_at_def dir_at_def update_at_def)

lemma entry_at_dir: "entry_at p n s = Some v \<Longrightarrow> \<exists>d. dir_at p s = Some d \<and> aget d n = Some v"
  by (auto simp: entry_at_def split: option.splits)

section \<open>The replacement\<close>

text \<open>\<open>target\<close> holds \<open>v\<close>, the private file holds the upload.\<close>

definition target_holds :: "path \<Rightarrow> ustr \<Rightarrow> content \<Rightarrow> fsys \<Rightarrow> bool" where
  "target_holds inputs target v s \<longleftrightarrow> entry_at inputs target s = Some (File v)"

definition old_or_new :: "path \<Rightarrow> ustr \<Rightarrow> content \<Rightarrow> content \<Rightarrow> fsys \<Rightarrow> bool" where
  "old_or_new inputs target old new s \<longleftrightarrow> target_holds inputs target old s \<or> target_holds inputs target new s"

lemma stable_private:
  assumes "fst inputs \<noteq> fst uploads"
  shows "stable E (target_holds inputs target v) (private_cleanup_problem uploads n)"
    "stable E (target_holds inputs target v) (unlink uploads n)"
    "stable E (target_holds inputs target v) (link p m uploads n)"
proof -
  have un: "stable E (target_holds inputs target v) (unlink uploads n)" for n
    unfolding unlink_def
    by (rule stable_sys)
       (auto simp: target_holds_def unlink_effect_def untouched_def entry_at_other [OF assms] split: option.splits node.splits)
  show "stable E (target_holds inputs target v) (unlink uploads n)" by (rule un)
  show "stable E (target_holds inputs target v) (link p m uploads n)"
    unfolding link_def
    by (rule stable_sys)
       (auto simp: target_holds_def link_effect_def untouched_def entry_at_other [OF assms]
         split: option.splits node.splits if_splits)
  show "stable E (target_holds inputs target v) (private_cleanup_problem uploads n)"
    unfolding private_cleanup_problem_def by (intro stable un)
qed

lemma rename_in:
  assumes "fst inputs \<noteq> fst uploads" "entry_at uploads n s = Some (File c)" "rename_effect uploads n inputs target s = Inr s'"
  shows "target_holds inputs target c s'" "m \<noteq> n \<Longrightarrow> entry_at uploads m s' = entry_at uploads m s"
proof -
  obtain d where d: "dir_at inputs s = Some d" and s': "s' = update_at inputs (aput target (File c)) (update_at uploads (adel n) s)"
    using assms(2,3) by (auto simp: rename_effect_def split: option.splits if_splits)
  have "dir_at inputs (update_at uploads (adel n) s) = Some d"
    using d assms(1) by (simp add: dir_at_def update_at_def)
  then show "target_holds inputs target c s'"
    by (simp add: target_holds_def s' entry_at_update)
  show "entry_at uploads m s' = entry_at uploads m s" if "m \<noteq> n"
    using assms(1,2) that entry_at_dir [OF assms(2)]
    by (auto simp: s' entry_at_other entry_at_update) (simp add: entry_at_def)
qed

lemma triple_of_stable: "stable E I m \<Longrightarrow> triple E I m (\<lambda>_. I) (\<lambda>_. I)"
  by (simp add: stable_def)

lemma stable_old_or_new:
  "stable E (target_holds inputs target old) m \<Longrightarrow> stable E (target_holds inputs target new) m \<Longrightarrow>
    stable E (old_or_new inputs target old new) m"
  unfolding old_or_new_def by (rule stable_disj)

lemma rollback_restores:
  assumes roots: "fst inputs \<noteq> fst uploads"
  shows "triple E (\<lambda>s. old_or_new inputs target old new s \<and> (replaced \<longrightarrow> entry_at uploads backup s = Some (File old)))
     (rollback_replacement replaced inputs target uploads private backup) Q
     (\<lambda>_. old_or_new inputs target old new)"
proof -
  let ?I = "old_or_new inputs target old new"
  have move: "triple E (\<lambda>s. ?I s \<and> (replaced \<longrightarrow> entry_at uploads backup s = Some (File old)))
      (if replaced then rename uploads backup inputs target else sys Inr untouched) (\<lambda>_. ?I) (\<lambda>_. ?I)"
    unfolding rename_def
    by (cases replaced) (auto intro!: triple_sys simp: untouched_def old_or_new_def dest: rename_in(1) [OF roots])
  have caught: "triple E (\<lambda>s. ?I s \<and> (replaced \<longrightarrow> entry_at uploads backup s = Some (File old)))
      (catchM (if replaced then rename uploads backup inputs target else sys Inr untouched)
         (\<lambda>e. raise (InputPublicationError True) msg)) (\<lambda>_. ?I) (\<lambda>_. ?I)" for msg
    by (rule triple_catch [where R = "\<lambda>_. ?I"], rule triple_weaken [OF move])
       (auto split: option.splits intro: triple_raise)
  have synced: "triple E ?I (attempt fsync) (\<lambda>_. ?I) (\<lambda>_. ?I)"
    by (rule triple_of_stable) (intro stable)
  have cleaned: "triple E ?I (private_cleanup_problem uploads private) (\<lambda>_. ?I) (\<lambda>_. ?I)"
    by (rule triple_of_stable [OF stable_old_or_new [OF stable_private(1) [OF roots] stable_private(1) [OF roots]]])
  show ?thesis
    unfolding rollback_replacement_def
    by (rule triple_then [OF caught], rule triple_bind [OF synced], rule triple_bind [OF cleaned], rule triple_raise)
qed

lemma replacement_effect:
  assumes roots: "fst inputs \<noteq> fst uploads" and names: "\<And>u. preceding_name u \<noteq> private"
    and old: "entry_at inputs target s0 = Some (File old)" and new: "entry_at uploads private s0 = Some (File new)"
  shows "triple E (\<lambda>s. s = s0) (replace_existing_upload inputs target uploads private)
     (\<lambda>_. target_holds inputs target new) (\<lambda>_. old_or_new inputs target old new)"
proof -
  let ?X = "\<lambda>_ :: exn option. old_or_new inputs target old new"
  let ?A = "\<lambda>u s. target_holds inputs target old s \<and> entry_at uploads private s = Some (File new)
      \<and> entry_at uploads (preceding_name u) s = Some (File old)"
  let ?B = "\<lambda>u s. target_holds inputs target new s \<and> entry_at uploads (preceding_name u) s = Some (File old)"
  let ?N = "target_holds inputs target new"
  have here: "target_holds inputs target old s0" using old by (simp add: target_holds_def)
  obtain d where d: "dir_at uploads s0 = Some d" using entry_at_dir [OF new] by blast
  have fail: "triple E (target_holds inputs target old) (fail_publication uploads private msg) Q ?X" for msg Q
    unfolding fail_publication_def
    by (rule triple_bind [where R = "\<lambda>_. target_holds inputs target old"],
        rule triple_weaken [OF triple_of_stable [OF stable_private(1) [OF roots]]])
       (auto simp: old_or_new_def intro: triple_raise)
  have linked: "triple E (\<lambda>s. s = s0) (link inputs target uploads (preceding_name u)) (\<lambda>_. ?A u)
      (\<lambda>_. target_holds inputs target old)" for u
    unfolding link_def
    by (rule triple_sys)
       (use names [of u] new d here in \<open>auto simp: link_effect_def old untouched_def target_holds_def entry_at_other [OF roots]
          entry_at_update entry_at_other [OF roots [symmetric]] split: if_splits, simp_all add: entry_at_def\<close>)
  have backed_up: "triple E (\<lambda>s. s = s0) (catchM (link inputs target uploads (preceding_name u))
      (\<lambda>e. fail_publication uploads private msg)) (\<lambda>_. ?A u) ?X" for u msg
    by (rule triple_catch [where R = "\<lambda>_. target_holds inputs target old", OF triple_weaken [OF linked] fail])
       (auto simp: old_or_new_def split: option.splits)
  have renamed: "triple E (?A u) (rename uploads private inputs target) (\<lambda>_. ?B u) (\<lambda>_. target_holds inputs target old)" for u
    unfolding rename_def
    by (rule triple_sys) (use rename_in [OF roots] names [of u] in \<open>auto simp: untouched_def\<close>)
  have swapped: "triple E (?A u) (catchM (rename uploads private inputs target)
      (\<lambda>e. rollback_replacement False inputs target uploads private (preceding_name u))) (\<lambda>_. ?B u) ?X" for u
    by (rule triple_catch [where R = "\<lambda>_. target_holds inputs target old", OF triple_weaken [OF renamed]
          triple_pre [OF rollback_restores [OF roots]]])
       (auto simp: old_or_new_def split: option.splits)
  have synced: "triple E (?B u) (catchM fsync
      (\<lambda>e. rollback_replacement True inputs target uploads private (preceding_name u))) (\<lambda>_. ?B u) ?X" for u
    by (rule triple_catch [where R = "\<lambda>_. ?B u", OF triple_fsync triple_pre [OF rollback_restores [OF roots]]])
       (auto simp: old_or_new_def)
  have unlinked: "triple E (?B u) (unlink uploads (preceding_name u)) (\<lambda>_. ?N) (\<lambda>_. ?B u)" for u
    unfolding unlink_def
    by (rule triple_sys) (auto simp: unlink_effect_def untouched_def target_holds_def entry_at_other [OF roots]
        split: option.splits node.splits)
  have dropped: "triple E (?B u) (catchM (unlink uploads (preceding_name u))
      (\<lambda>e. rollback_replacement True inputs target uploads private (preceding_name u))) (\<lambda>_. ?N) ?X" for u
    by (rule triple_catch [where R = "\<lambda>_. ?B u", OF triple_weaken [OF unlinked] triple_pre [OF rollback_restores [OF roots]]])
       (auto simp: old_or_new_def split: option.splits)
  have last: "triple E ?N (catchM fsync (\<lambda>e. raise k msg)) (\<lambda>_. ?N) ?X" for k msg
    by (rule triple_catch [where R = "\<lambda>_. ?N", OF triple_fsync triple_raise]) (auto simp: old_or_new_def)
  show ?thesis
    unfolding replace_existing_upload_def Let_def
    by (rule triple_bind [where R = "\<lambda>_ s. s = s0"], rule triple_read_uuid, assumption,
        rule triple_then [OF backed_up], rule triple_then [OF swapped], rule triple_then [OF synced],
        rule triple_then [OF dropped last])
qed

text \<open>
  C14: Replacing a caller's input file by an upload is atomic for every fault. When the replacement
  returns, the input file holds the uploaded bytes; when it raises or the process dies, the file is
  still there and holds either exactly its preceding bytes or exactly the uploaded ones.
\<close>

theorem input_replacement_is_atomic:
  assumes "entry_at (event_inputs e) target (fs w) = Some (File old)"
    and "entry_at (Queue, dir) (stream_name u) (fs w) = Some (File new)"
    and "publish_upload (event_inputs e) target (Queue, dir) (stream_name u) True E w = (r, w')"
  shows "entry_at (event_inputs e) target (fs w') \<in> {Some (File old), Some (File new)}
    \<and> (\<forall>b. r = Val b \<longrightarrow> b \<and> entry_at (event_inputs e) target (fs w') = Some (File new))"
proof -
  have names: "preceding_name v \<noteq> stream_name u" for v
    by (simp add: preceding_name_def stream_name_def lit_Cons lit_Nil)
  have "triple E (\<lambda>s. s = fs w) (publish_upload (event_inputs e) target (Queue, dir) (stream_name u) True)
      (\<lambda>b s. b \<and> target_holds (event_inputs e) target new s) (\<lambda>_. old_or_new (event_inputs e) target old new)"
    unfolding publish_upload_def if_True
    by (rule triple_then [OF replacement_effect [OF _ names assms(1,2)] triple_ret]) (simp_all add: event_inputs_def)
  note run = tripleD [OF this refl]
  show ?thesis
  proof (cases r)
    case (Val x)
    from run(1) [OF assms(3) [unfolded Val]] Val show ?thesis by (simp add: target_holds_def)
  next
    case (Exc x)
    from run(2) [OF assms(3) [unfolded Exc]] Exc show ?thesis by (auto simp: target_holds_def old_or_new_def)
  next
    case Dead
    from run(3) [OF assms(3) [unfolded Dead]] Dead show ?thesis by (auto simp: target_holds_def old_or_new_def)
  qed
qed

text \<open>An upload that replaces the event's \<open>event.xml\<close>.\<close>

definition upload_store :: fsys where
  "upload_store = (\<lambda>_. [])(Inputs := [(sample_event, Dir [(lit ''event.xml'', File (Bytes [1]))])],
     Queue := [(lit ''p'', Dir [(UPLOAD_PRIVATE_DIRECTORY, Dir [(stream_name (lit ''u''), File (Bytes [2]))])])])"

definition upload_world :: "unit world" where
  "upload_world = \<lparr>fs = upload_store, clock = 0, mem = ()\<rparr>"

theorem input_replacement_is_atomic_witness:
  "entry_at (event_inputs sample_event) (lit ''event.xml'')
     (fs (snd (publish_upload (event_inputs sample_event) (lit ''event.xml'')
        (Queue, [lit ''p'', UPLOAD_PRIVATE_DIRECTORY]) (stream_name (lit ''u'')) True sample_env upload_world)))
   \<in> {Some (File (Bytes [1])), Some (File (Bytes [2]))}"
proof -
  obtain r w' where run: "publish_upload (event_inputs sample_event) (lit ''event.xml'')
      (Queue, [lit ''p'', UPLOAD_PRIVATE_DIRECTORY]) (stream_name (lit ''u'')) True sample_env upload_world = (r, w')"
    by fastforce
  from input_replacement_is_atomic [OF _ _ run, of "Bytes [1]" "Bytes [2]"] show ?thesis
    unfolding run by (simp add: upload_world_def upload_store_def entry_at_def event_inputs_def dir_at_def)
qed

end
