(* ===== verification/Acceptance.thy ===== *)
theory Acceptance
  imports Submission_Triples
begin

text \<open>
  The acceptance of a request: what the queue holds once the single publication rename is done, and
  that before it, and after any error or death before it, the visible queue is what it was.
\<close>

section \<open>Filling the private entry\<close>

text \<open>A complete entry for the request \<open>q\<close>, under the sequence \<open>seq\<close>.\<close>

definition complete_entry :: "env \<Rightarrow> request \<Rightarrow> manifest_file list \<Rightarrow> int \<Rightarrow> fsys \<Rightarrow> bool" where
  "complete_entry E q ms seq s \<longleftrightarrow>
     (\<exists>d rec. aget (s Queue) (queue_entry_name seq) = Some (Dir d)
        \<and> aget d STATUS_FILE = Some (File (Json (record_to_dict rec)))
        \<and> valid_record (cfg E) rec \<and> state_of rec = Some QUEUED \<and> event_id_of rec = q_event q
        \<and> sequence_of rec = seq
        \<and> aget d (lit ''request-manifest.json'') = Some (File (Json (request_manifest (q_event q) seq ms)))
        \<and> snapshotted E (q_event q) ms d s)"

definition published :: "env \<Rightarrow> request \<Rightarrow> fsys \<Rightarrow> int \<Rightarrow> fsys \<Rightarrow> bool" where
  "published E q s0 seq s \<longleftrightarrow>
     queue_sequence_from_disk E s0 = Inr seq \<and> aget (s0 Queue) (queue_entry_name seq) = None
     \<and> (\<exists>ms. complete_entry E q ms seq s)
     \<and> aget (s Queue) NEXT_SEQUENCE = Some (counter_file (seq + 1))
     \<and> alters (insert (Queue, queue_entry_name seq) (scratch (q_event q) \<union> counters)) s0 s"

lemma filesystem_next_positive: "1 \<le> filesystem_next d"
proof -
  have "0 \<le> foldr max xs (0::int)" for xs by (induction xs) auto
  then show ?thesis by (simp add: filesystem_next_def)
qed

lemma from_disk_positive:
  assumes "queue_sequence_from_disk E s = Inr seq"
  shows "1 \<le> seq"
proof -
  have "seq = filesystem_next (s Queue) \<or> (\<exists>n. seq = max n (filesystem_next (s Queue)))"
    using assms by (auto simp: queue_sequence_from_disk_def Let_def result_simps split: option.splits node.splits)
  then show ?thesis using filesystem_next_positive [of "s Queue"] by auto
qed

lemma snapshotted_cong:
  assumes i: "aget (s Inputs) e = aget (s' Inputs) e" and r: "aget d REQUEST_DIRECTORY = aget d' REQUEST_DIRECTORY"
  shows "snapshotted E e ms d s = snapshotted E e ms d' s'"
proof -
  have "dir_at (event_inputs e) s = dir_at (event_inputs e) s'"
    by (simp add: event_inputs_def i)
  moreover have "copies E e s rd ms = copies E e s' rd ms" for rd
    using copies_cong [of s e s' E rd ms] i by blast
  ultimately show ?thesis by (simp only: snapshotted_def r)
qed

text \<open>The private directory just before the rename.\<close>

definition ready_entry :: "env \<Rightarrow> request \<Rightarrow> manifest_file list \<Rightarrow> int \<Rightarrow> dirc \<Rightarrow> fsys \<Rightarrow> calculation_record \<Rightarrow> bool" where
  "ready_entry E q ms seq d s rec \<longleftrightarrow>
     aget d STATUS_FILE = Some (File (Json (record_to_dict rec)))
     \<and> valid_record (cfg E) rec \<and> state_of rec = Some QUEUED \<and> event_id_of rec = q_event q
     \<and> sequence_of rec = seq
     \<and> aget d (lit ''request-manifest.json'') = Some (File (Json (request_manifest (q_event q) seq ms)))
     \<and> snapshotted E (q_event q) ms d s"

lemma ready_complete:
  "aget (s Queue) (queue_entry_name seq) = Some (Dir d) \<Longrightarrow> ready_entry E q ms seq d s rec \<Longrightarrow>
    complete_entry E q ms seq s"
  by (auto simp: complete_entry_def ready_entry_def)

lemma ready_cong:
  "aget (s Inputs) (q_event q) = aget (s' Inputs) (q_event q) \<Longrightarrow>
    ready_entry E q ms seq d s rec = ready_entry E q ms seq d s' rec"
  using snapshotted_cong [of s "q_event q" s' d d E ms] by (auto simp: ready_entry_def)

lemma fill_effect:
  assumes at: "aget (s0 Queue) private = Some (Dir d)" and snap: "snapshotted E (q_event q) ms d s0"
    and rec: "valid_record (cfg E) rec" "state_of rec = Some QUEUED" "event_id_of rec = q_event q" "sequence_of rec = seq"
  shows "triple E (\<lambda>s. s = s0)
     (thenM (write_json_sync (Queue, [private]) (lit ''request-manifest.json'') (request_manifest (q_event q) seq ms))
       (write_json_sync (Queue, [private]) STATUS_FILE (record_to_dict rec)))
     (\<lambda>_ s. \<exists>d'. aget (s Queue) private = Some (Dir d') \<and> ready_entry E q ms seq d' s rec)
     (\<lambda>_ _. True)"
proof (rule triple_then [OF write_json_effect], simp add: at)
  let ?p = "(Queue, [private])" and ?m = "lit ''request-manifest.json''"
  have dir: "dir_at ?p s0 = Some d" using at by simp
  show "triple E (\<lambda>s. \<exists>d'. s = put_dir ?p d' s0 \<and> (\<forall>m. aget d' m
        = (if m = ?m then Some (File (Json (request_manifest (q_event q) seq ms))) else aget d m)))
      (write_json_sync ?p STATUS_FILE (record_to_dict rec))
      (\<lambda>_ s. \<exists>d'. aget (s Queue) private = Some (Dir d') \<and> ready_entry E q ms seq d' s rec) (\<lambda>_ _. True)"
  proof (rule triple_fixed)
    fix s1 assume "\<exists>d'. s1 = put_dir ?p d' s0 \<and> (\<forall>m. aget d' m
        = (if m = ?m then Some (File (Json (request_manifest (q_event q) seq ms))) else aget d m))"
    then obtain d1 where s1: "s1 = put_dir ?p d1 s0" and d1: "\<And>m. aget d1 m
        = (if m = ?m then Some (File (Json (request_manifest (q_event q) seq ms))) else aget d m)"
      by blast
    have names: "REQUEST_DIRECTORY \<noteq> ?m" "REQUEST_DIRECTORY \<noteq> STATUS_FILE" "STATUS_FILE \<noteq> ?m"
      by (simp_all add: REQUEST_DIRECTORY_def STATUS_FILE_def)
    have dir1: "dir_at ?p s1 = Some d1" using s1 dir_at_put_dir [OF dir] by simp
    show "triple E (\<lambda>s. s = s1) (write_json_sync ?p STATUS_FILE (record_to_dict rec))
        (\<lambda>_ s. \<exists>d'. aget (s Queue) private = Some (Dir d') \<and> ready_entry E q ms seq d' s rec) (\<lambda>_ _. True)"
    proof (rule triple_weaken [OF write_json_effect [OF dir1]])
      fix s assume "\<exists>d'. s = put_dir ?p d' s1 \<and> (\<forall>m. aget d' m
          = (if m = STATUS_FILE then Some (File (Json (record_to_dict rec))) else aget d1 m))"
      then obtain d2 where s: "s = put_dir ?p d2 s0" and d2: "\<And>m. aget d2 m
          = (if m = STATUS_FILE then Some (File (Json (record_to_dict rec))) else aget d1 m)"
        unfolding s1 put_dir_put_dir [OF dir] by blast
      have "s Inputs = s0 Inputs" by (simp add: s put_dir_def update_at_def)
      then have "snapshotted E (q_event q) ms d2 s"
        using snap snapshotted_cong [of s "q_event q" s0 d2 d E ms] by (simp add: d2 d1 names)
      moreover have "aget (s Queue) private = Some (Dir d2)"
        using at by (simp add: s put_dir_def)
      ultimately show "\<exists>d'. aget (s Queue) private = Some (Dir d') \<and> ready_entry E q ms seq d' s rec"
        using names by (auto simp: ready_entry_def d2 d1 rec)
    qed simp_all
  qed
qed

section \<open>Publication\<close>

lemma thenM_assoc: "thenM (thenM a b) c = thenM a (thenM b c)"
  by (auto simp: thenM_def bindM_def fun_eq_iff split: prod.splits outcome.splits)

definition unpublished :: "request \<Rightarrow> fsys \<Rightarrow> fsys \<Rightarrow> bool" where
  "unpublished q s0 s \<longleftrightarrow> alters (scratch (q_event q) \<union> counters) s0 s"

lemma accepting_not_counter: "accepting n \<Longrightarrow> (Queue, n) \<notin> counters"
proof
  assume "accepting n" "(Queue, n) \<in> counters"
  then obtain t t' where "n = lit ''.accept-'' @ t" "n = lit ''.next-sequence'' @ t'"
    using starts_withD unfolding accepting_def counters_def by blast
  then show False by (simp add: lit_Cons lit_Nil)
qed

lemma store_ready:
  assumes "aget (s1 Queue) private = Some (Dir d)" "accepting private" "ready_entry E q ms seq d s1 rec"
    and "unpublished q s0 s1"
  shows "triple E (\<lambda>s. s = s1) (store_next_sequence n)
     (\<lambda>_ s. aget (s Queue) private = Some (Dir d) \<and> ready_entry E q ms seq d s rec
        \<and> aget (s Queue) NEXT_SEQUENCE = Some (counter_file n) \<and> unpublished q s0 s)
     (\<lambda>_. unpublished q s0)"
proof -
  have p: "(Queue, private) \<notin> counters" using assms(2) by (rule accepting_not_counter)
  have un: "unpublished q s0 s" if "alters counters s1 s" for s
    using alters_trans [OF assms(4) [unfolded unpublished_def] alters_mono [OF that]]
    by (simp add: unpublished_def)
  have inputs: "aget (s Inputs) k = aget (s1 Inputs) k" if "alters counters s1 s" for s k
    using that by (simp add: alters_def counters_def)
  have mine: "aget (s Queue) private = Some (Dir d)" if "alters counters s1 s" for s
    using that p assms(1) by (simp add: alters_def)
  have ready: "ready_entry E q ms seq d s rec" if "alters counters s1 s" for s
    using ready_cong [of s q s1 E ms seq d rec] inputs [OF that] assms(3) by blast
  have "triple E (\<lambda>s. s = s1) (store_next_sequence n)
      (\<lambda>_ s. aget (s Queue) NEXT_SEQUENCE = Some (counter_file n) \<and> alters counters s1 s) (\<lambda>_. alters counters s1)"
    by (rule triple_stable [OF store_sequence_effect stable_store_sequence]) simp_all
  then show ?thesis
    by (rule triple_weaken) (simp_all add: un mine ready)
qed

lemma rename_ready:
  assumes s1: "aget (s1 Queue) private = Some (Dir d)" "accepting private" "ready_entry E q ms seq d s1 rec"
      "unpublished q s0 s1" "aget (s1 Queue) NEXT_SEQUENCE = Some (counter_file (seq + 1))"
    and seq: "queue_sequence_from_disk E s0 = Inr seq"
    and free: "aget (s1 Queue) (queue_entry_name seq) = None"
    and renamed: "rename_effect (Queue, []) private (Queue, []) (queue_entry_name seq) s1 = Inr s"
  shows "published E q s0 seq s"
proof -
  let ?n = "queue_entry_name seq"
  have visible: "\<not> hidden ?n" by (rule entry_name_visible [OF from_disk_positive [OF seq]])
  have ne: "?n \<noteq> private" "?n \<noteq> NEXT_SEQUENCE" "private \<noteq> NEXT_SEQUENCE"
    using visible accepting_hidden [OF s1(2)] hidden_NEXT_SEQUENCE s1(2) by auto
  have out: "(Queue, ?n) \<notin> scratch (q_event q) \<union> counters"
    using visible accepting_hidden counters_hidden by (auto simp: scratch_def)
  have s: "s = s1(Queue := aput ?n (Dir d) (adel private (s1 Queue)))"
    using renamed s1(1) free by (simp add: rename_effect_def entry_at_def)
  have "aget (s0 Queue) ?n = None"
    using s1(4) out free by (simp add: unpublished_def alters_def)
  moreover have "complete_entry E q ms seq s"
  proof (rule ready_complete)
    show "ready_entry E q ms seq d s rec"
      using ready_cong [of s q s1 E ms seq d rec] s1(3) by (simp add: s)
  qed (simp add: s)
  moreover have "aget (s Queue) NEXT_SEQUENCE = Some (counter_file (seq + 1))"
    using s1(5) ne by (simp add: s)
  moreover have "alters (insert (Queue, ?n) (scratch (q_event q) \<union> counters)) s0 s"
  proof (rule alters_trans [OF alters_mono])
    show "alters (scratch (q_event q) \<union> counters) s0 s1" using s1(4) by (simp add: unpublished_def)
    show "alters (insert (Queue, ?n) (scratch (q_event q) \<union> counters)) s1 s"
      using s1(2) by (auto simp: alters_def s)
  qed blast
  ultimately show ?thesis using seq by (auto simp: published_def)
qed

text \<open>The outcome of an acceptance that ends in an error or a death.\<close>

definition unpublished_or_published :: "env \<Rightarrow> request \<Rightarrow> fsys \<Rightarrow> fsys \<Rightarrow> bool" where
  "unpublished_or_published E q s0 s \<longleftrightarrow> unpublished q s0 s \<or> (\<exists>seq. published E q s0 seq s)"

lemma publish_tail:
  assumes at: "aget (s1 Queue) private = Some (Dir d)" and acc: "accepting private"
    and snap: "snapshotted E (q_event q) ms d s1" and un: "unpublished q s0 s1"
    and seq: "queue_sequence_from_disk E s0 = Inr seq"
    and rec: "valid_record (cfg E) rec" "state_of rec = Some QUEUED" "event_id_of rec = q_event q" "sequence_of rec = seq"
  shows "triple E (\<lambda>s. s = s1)
     (thenM (write_json_sync (Queue, [private]) (lit ''request-manifest.json'') (request_manifest (q_event q) seq ms))
    (thenM (write_json_sync (Queue, [private]) STATUS_FILE (record_to_dict rec))
    (thenM fsync
    (thenM (store_next_sequence (seq + 1))
    (bindM (observe (\<lambda>E s. Inr (aget (s Queue) (queue_entry_name seq) \<noteq> None))) (\<lambda>final_exists.
     thenM (check (\<not> final_exists) FileExistsError msg)
    (thenM (rename (Queue, []) private (Queue, []) (queue_entry_name seq))
    (thenM fsync (ret rec)))))))))
     (\<lambda>r s. r = rec \<and> published E q s0 seq s) (\<lambda>_. unpublished_or_published E q s0)"
proof -
  let ?X = "\<lambda>_ :: exn option. unpublished_or_published E q s0"
  let ?R = "\<lambda>s. \<exists>d'. aget (s Queue) private = Some (Dir d') \<and> ready_entry E q ms seq d' s rec \<and> unpublished q s0 s"
  let ?S = "\<lambda>s. \<exists>d'. aget (s Queue) private = Some (Dir d') \<and> ready_entry E q ms seq d' s rec
      \<and> aget (s Queue) NEXT_SEQUENCE = Some (counter_file (seq + 1)) \<and> unpublished q s0 s"
  have keep: "stable E (unpublished q s0) (thenM
      (write_json_sync (Queue, [private]) (lit ''request-manifest.json'') (request_manifest (q_event q) seq ms))
      (write_json_sync (Queue, [private]) STATUS_FILE (record_to_dict rec)))"
    unfolding unpublished_def by (intro stable) (simp_all add: acc)
  have fill: "triple E (\<lambda>s. s = s1) (thenM
      (write_json_sync (Queue, [private]) (lit ''request-manifest.json'') (request_manifest (q_event q) seq ms))
      (write_json_sync (Queue, [private]) STATUS_FILE (record_to_dict rec))) (\<lambda>_. ?R) ?X"
    by (rule triple_weaken [OF triple_stable [OF fill_effect [OF at snap rec] keep]])
       (auto simp: un unpublished_or_published_def)
  have store: "triple E ?R (store_next_sequence (seq + 1)) (\<lambda>_. ?S) ?X"
  proof (rule triple_fixed)
    fix s2 assume "?R s2"
    then obtain d2 where "aget (s2 Queue) private = Some (Dir d2)" "ready_entry E q ms seq d2 s2 rec" "unpublished q s0 s2"
      by blast
    from store_ready [OF this(1) acc this(2,3), of "seq + 1"]
    show "triple E (\<lambda>s. s = s2) (store_next_sequence (seq + 1)) (\<lambda>_. ?S) ?X"
      by (rule triple_weaken) (auto simp: unpublished_or_published_def)
  qed
  have move: "triple E (\<lambda>s. ?S s \<and> aget (s Queue) (queue_entry_name seq) = None)
      (rename (Queue, []) private (Queue, []) (queue_entry_name seq)) (\<lambda>_. published E q s0 seq) ?X"
    unfolding rename_def
    by (rule triple_sys) (auto simp: untouched_def unpublished_or_published_def intro: rename_ready [OF _ acc _ _ _ seq])
  have last: "triple E (\<lambda>s. b = (aget (s Queue) (queue_entry_name seq) \<noteq> None) \<and> ?S s)
      (thenM (check (\<not> b) FileExistsError msg) (thenM (rename (Queue, []) private (Queue, []) (queue_entry_name seq))
        (thenM fsync (ret rec))))
      (\<lambda>r s. r = rec \<and> published E q s0 seq s) ?X" for b
  proof (rule triple_then [where R = "\<lambda>s. ?S s \<and> aget (s Queue) (queue_entry_name seq) = None"])
    show "triple E (\<lambda>s. b = (aget (s Queue) (queue_entry_name seq) \<noteq> None) \<and> ?S s)
        (check (\<not> b) FileExistsError msg) (\<lambda>_ s. ?S s \<and> aget (s Queue) (queue_entry_name seq) = None) ?X"
      by (rule triple_check) (auto simp: unpublished_or_published_def)
    show "triple E (\<lambda>s. ?S s \<and> aget (s Queue) (queue_entry_name seq) = None)
        (thenM (rename (Queue, []) private (Queue, []) (queue_entry_name seq)) (thenM fsync (ret rec)))
        (\<lambda>r s. r = rec \<and> published E q s0 seq s) ?X"
      by (rule triple_then [OF move], rule triple_then [where R = "published E q s0 seq"], rule triple_fsync)
         (auto simp: unpublished_or_published_def intro: triple_ret)
  qed
  have synced: "triple E ?R fsync (\<lambda>_. ?R) ?X"
    by (rule triple_fsync) (auto simp: unpublished_or_published_def)
  have look: "triple E ?S (observe (\<lambda>E s. Inr (aget (s Queue) (queue_entry_name seq) \<noteq> None)))
      (\<lambda>b s. b = (aget (s Queue) (queue_entry_name seq) \<noteq> None) \<and> ?S s) ?X"
    by (rule triple_observe) auto
  show ?thesis
    by (subst thenM_assoc [symmetric], rule triple_then [OF fill], rule triple_then [OF synced],
        rule triple_then [OF store], rule triple_bind [OF look last])
qed

text \<open>The whole publication, from the store \<open>s0\<close> the acceptance started from.\<close>

lemma new_queued_published:
  assumes "new_queued_record c now (JStr (q_event q)) seq (JStr (q_configuration q)) ow ws (jstr mode) = Inr rec"
    and "valid_event_id (q_event q)" "safe_basename (q_configuration q)" "valid_ts (JStr now)" "1 \<le> seq"
    and "mode \<in> {''directory'', ''upload'', ''mixed''}"
  shows "valid_record c rec \<and> state_of rec = Some QUEUED \<and> event_id_of rec = q_event q \<and> sequence_of rec = seq"
proof -
  have "jstr mode \<in> {jstr ''directory'', jstr ''upload'', jstr ''mixed''}" using assms(6) by auto
  from new_queued_valid [OF assms(2,5,3,4) this, of c ow ws] assms(1) show ?thesis by auto
qed

lemma publish_locked_effect:
  assumes at: "aget (s1 Queue) private = Some (Dir d)" and acc: "accepting private"
    and snap: "snapshotted E (q_event q) ms d s1" and un: "unpublished q s0 s1"
    and same: "queue_sequence_from_disk E s1 = queue_sequence_from_disk E s0"
    and q: "valid_event_id (q_event q)" "safe_basename (q_configuration q)"
    and mode: "mode \<in> {''directory'', ''upload'', ''mixed''}" and clk: "clock_valid E"
  shows "triple E (\<lambda>s. s = s1) (publish_queue_entry_locked private q ws mode ms)
     (\<lambda>rec s. state_of rec = Some QUEUED \<and> event_id_of rec = q_event q \<and> published E q s0 (sequence_of rec) s)
     (\<lambda>_. unpublished_or_published E q s0)"
    (is "triple E _ _ ?Q ?X")
proof -
  have stop: "unpublished_or_published E q s0 s1" using un by (simp add: unpublished_or_published_def)
  have next_sequence: "triple E (\<lambda>s. s = s1) (observe queue_sequence_from_disk)
      (\<lambda>seq s. queue_sequence_from_disk E s0 = Inr seq \<and> s = s1) ?X"
    by (rule triple_observe) (auto simp: same stop)
  have now: "triple E (\<lambda>s. s = s1) read_now (\<lambda>now s. valid_ts (JStr now) \<and> s = s1) ?X"
    by (rule triple_read_now) (use clk in \<open>simp add: clock_valid_def\<close>)
  have settings: "triple E (\<lambda>s. s = s1) (ask cfg) (\<lambda>c s. c = cfg E \<and> s = s1) ?X"
    by (rule triple_ask) simp
  show ?thesis
    unfolding publish_queue_entry_locked_def
  proof (rule triple_bind [OF next_sequence], rule triple_pure, rule triple_bind [OF settings], rule triple_pure,
      rule triple_bind [OF now], rule triple_pure)
    fix seq c now'
    assume seq: "queue_sequence_from_disk E s0 = Inr seq" and c: "c = cfg E" and ts: "valid_ts (JStr now')"
    let ?new = "new_queued_record c now' (JStr (q_event q)) seq (JStr (q_configuration q)) (q_overwrite q) ws (jstr mode)"
    have rec: "valid_record (cfg E) rec \<and> state_of rec = Some QUEUED \<and> event_id_of rec = q_event q \<and> sequence_of rec = seq"
      if "?new = Inr rec" for rec
      using new_queued_published [OF that q ts from_disk_positive [OF seq] mode] c by simp
    have fresh: "triple E (\<lambda>s. s = s1) (liftE ?new) (\<lambda>rec s. ?new = Inr rec \<and> s = s1) ?X"
      by (rule triple_liftE) (auto simp: stop)
    show "triple E (\<lambda>s. s = s1) (bindM (liftE ?new) (\<lambda>rec.
       thenM (write_json_sync (Queue, [private]) (lit ''request-manifest.json'') (request_manifest (q_event q) seq ms))
      (thenM (write_json_sync (Queue, [private]) STATUS_FILE (record_to_dict rec))
      (thenM fsync
      (thenM (store_next_sequence (seq + 1))
      (bindM (observe (\<lambda>E s. Inr (aget (s Queue) (queue_entry_name seq) \<noteq> None))) (\<lambda>final_exists.
       thenM (check (\<not> final_exists) FileExistsError ''queue entry already exists'')
      (thenM (rename (Queue, []) private (Queue, []) (queue_entry_name seq))
      (thenM fsync (ret rec)))))))))) ?Q ?X"
    proof (rule triple_bind [OF fresh], rule triple_pure)
      fix rec assume "?new = Inr rec"
      from rec [OF this] have r: "valid_record (cfg E) rec" "state_of rec = Some QUEUED" "event_id_of rec = q_event q"
          "sequence_of rec = seq" by auto
      from publish_tail [OF at acc snap un seq r, of "''queue entry already exists''"]
      show "triple E (\<lambda>s. s = s1)
         (thenM (write_json_sync (Queue, [private]) (lit ''request-manifest.json'') (request_manifest (q_event q) seq ms))
        (thenM (write_json_sync (Queue, [private]) STATUS_FILE (record_to_dict rec))
        (thenM fsync
        (thenM (store_next_sequence (seq + 1))
        (bindM (observe (\<lambda>E s. Inr (aget (s Queue) (queue_entry_name seq) \<noteq> None))) (\<lambda>final_exists.
         thenM (check (\<not> final_exists) FileExistsError ''queue entry already exists'')
        (thenM (rename (Queue, []) private (Queue, []) (queue_entry_name seq))
        (thenM fsync (ret rec)))))))))
        ?Q ?X"
        by (rule triple_weaken) (simp_all add: r)
    qed
  qed
qed

section \<open>Everything before the publication\<close>

lemma foldr_max_set: "foldr max xs (0::int) = Max (insert 0 (set xs))"
  by (induction xs) (auto simp: insert_commute)

lemma set_visible_sequences:
  "set (visible_sequences d)
     = {i. \<exists>n. \<not> hidden n \<and> aget d n \<noteq> None \<and> parse_queue_entry_name n = Inr i}"
proof (intro set_eqI iffI)
  fix i
  show "i \<in> {i. \<exists>n. \<not> hidden n \<and> aget d n \<noteq> None \<and> parse_queue_entry_name n = Inr i}"
    if "i \<in> set (visible_sequences d)"
    using that in_akeys [of _ d] by (auto simp: visible_sequences_def split: if_splits sum.splits)
  show "i \<in> set (visible_sequences d)"
    if "i \<in> {i. \<exists>n. \<not> hidden n \<and> aget d n \<noteq> None \<and> parse_queue_entry_name n = Inr i}"
  proof -
    from that obtain n where n: "\<not> hidden n" "n \<in> set (akeys d)" "parse_queue_entry_name n = Inr i"
      using in_akeys [of _ d] by auto
    then show ?thesis unfolding visible_sequences_def by (auto intro!: bexI [of _ n])
  qed
qed

lemma filesystem_next_cong:
  assumes "\<And>n. \<not> hidden n \<Longrightarrow> aget d n = aget d' n"
  shows "filesystem_next d = filesystem_next d'"
proof -
  have "set (visible_sequences d) = set (visible_sequences d')"
    unfolding set_visible_sequences using assms by metis
  then show ?thesis by (simp add: filesystem_next_def foldr_max_set)
qed

lemma from_disk_cong:
  assumes "alters (scratch e) s0 s"
  shows "queue_sequence_from_disk E s = queue_sequence_from_disk E s0"
proof -
  have "filesystem_next (s Queue) = filesystem_next (s0 Queue)"
    by (rule filesystem_next_cong) (use assms accepting_hidden in \<open>auto simp: alters_def scratch_def\<close>)
  moreover have "aget (s Queue) NEXT_SEQUENCE = aget (s0 Queue) NEXT_SEQUENCE"
    using assms by (simp add: alters_def)
  ultimately show ?thesis by (simp add: queue_sequence_from_disk_def)
qed

lemma triple_True: "triple E P m (\<lambda>_ _. True) (\<lambda>_ _. True)"
  by (auto simp: triple_def split: prod.splits outcome.splits)

text \<open>A snapshot is taken only in a private directory that is there.\<close>

lemma snapshot_anywhere:
  "triple E (\<lambda>s. s = s1) (snapshot_inputs e private)
     (\<lambda>ms s. \<exists>d. aget (s Queue) private = Some (Dir d) \<and> snapshotted E e ms d s) (\<lambda>_ _. True)"
proof (cases "dir_at (Queue, [private]) s1")
  case None
  have "triple E (\<lambda>s. s = s1) (mkdir (Queue, [private]) REQUEST_DIRECTORY) (\<lambda>_ _. False) (\<lambda>_ _. True)"
    unfolding mkdir_def by (rule triple_sys) (use None in \<open>auto simp: mkdir_effect_def simp del: dir_at_simps\<close>)
  then have made: "triple E (\<lambda>s. s = s1) (thenM (mkdir (Queue, [private]) REQUEST_DIRECTORY) m) Q (\<lambda>_ _. True)"
    for m :: "('m, 'b) io" and Q
    by (rule triple_then) (simp add: triple_def)
  show ?thesis
    unfolding snapshot_inputs_def
    by (rule triple_bind [where R = "\<lambda>_ s. s = s1"], rule triple_observe, simp, simp,
        rule triple_then [where R = "\<lambda>s. s = s1"], rule triple_check, simp, simp, rule made)
next
  case (Some d)
  then have at: "aget (s1 Queue) private = Some (Dir d)" by (auto split: option.splits node.splits)
  show ?thesis
    by (rule triple_weaken [OF snapshot_effect [where ?s0.0 = s1, OF at]]) (auto simp: put_dir_def at)
qed

lemma snapshot_private:
  assumes acc: "accepting private"
  shows "triple E (alters (scratch e) s0) (catchM (snapshot_inputs e private) snapshot_error)
     (\<lambda>ms s. (\<exists>d. aget (s Queue) private = Some (Dir d) \<and> snapshotted E e ms d s) \<and> alters (scratch e) s0 s)
     (\<lambda>_. alters (scratch e) s0)"
proof (rule triple_fixed)
  fix s1 assume s1: "alters (scratch e) s0 s1"
  have keep: "stable E (alters (scratch e) s0) (catchM (snapshot_inputs e private) snapshot_error)"
    by (intro stable acc)
  show "triple E (\<lambda>s. s = s1) (catchM (snapshot_inputs e private) snapshot_error)
     (\<lambda>ms s. (\<exists>d. aget (s Queue) private = Some (Dir d) \<and> snapshotted E e ms d s) \<and> alters (scratch e) s0 s)
     (\<lambda>_. alters (scratch e) s0)"
  proof (rule triple_stable [OF _ keep])
    show "triple E (\<lambda>s. s = s1) (catchM (snapshot_inputs e private) snapshot_error)
        (\<lambda>ms s. \<exists>d. aget (s Queue) private = Some (Dir d) \<and> snapshotted E e ms d s) (\<lambda>_ _. True)"
    proof (rule triple_catch [where R = "\<lambda>_ _. True"])
      show "triple E (\<lambda>_. True) (snapshot_error x)
          (\<lambda>ms s. \<exists>d. aget (s Queue) private = Some (Dir d) \<and> snapshotted E e ms d s) (\<lambda>_ _. True)" for x
        unfolding snapshot_error_def by (intro triple_if triple_raise triple_reraise) auto
    qed (rule triple_weaken [OF snapshot_anywhere], auto split: option.splits)
  qed (use s1 in simp)
qed

section \<open>The whole acceptance\<close>

lemma stop_unpublished: "alters (scratch (q_event q)) s0 s \<Longrightarrow> unpublished_or_published E q s0 s"
  using alters_mono [of "scratch (q_event q)" s0 s "scratch (q_event q) \<union> counters"]
  by (auto simp: unpublished_or_published_def unpublished_def)

lemma unpublishedI: "alters (scratch (q_event q)) s0 s \<Longrightarrow> unpublished q s0 s"
  using alters_mono [of "scratch (q_event q)" s0 s "scratch (q_event q) \<union> counters"]
  by (auto simp: unpublished_def)

definition valid_request :: "request \<Rightarrow> bool" where
  "valid_request q \<longleftrightarrow> valid_event_id (q_event q) \<and> safe_basename (q_configuration q)"

definition accepted :: "env \<Rightarrow> request \<Rightarrow> fsys \<Rightarrow> calculation_record \<Rightarrow> fsys \<Rightarrow> bool" where
  "accepted E q s0 rec s \<longleftrightarrow>
     state_of rec = Some QUEUED \<and> event_id_of rec = q_event q \<and> published E q s0 (sequence_of rec) s"

lemma publish_effect:
  assumes "accepting private" "valid_request q" "clock_valid E" "mode \<in> {''directory'', ''upload'', ''mixed''}"
  shows "triple E (\<lambda>s. (\<exists>d. aget (s Queue) private = Some (Dir d) \<and> snapshotted E (q_event q) ms d s)
        \<and> alters (scratch (q_event q)) s0 s)
     (publish_queue_entry reader private q ws mode ms) (accepted E q s0) (\<lambda>_. unpublished_or_published E q s0)"
    (is "triple E ?P _ _ ?X")
proof -
  have locked: "triple E ?P (publish_queue_entry_locked private q ws mode ms) (accepted E q s0) ?X"
  proof (rule triple_fixed)
    fix s1 assume "?P s1"
    then obtain d where d: "aget (s1 Queue) private = Some (Dir d)" "snapshotted E (q_event q) ms d s1"
      and a: "alters (scratch (q_event q)) s0 s1" by blast
    have q: "valid_event_id (q_event q)" "safe_basename (q_configuration q)"
      using assms(2) by (simp_all add: valid_request_def)
    show "triple E (\<lambda>s. s = s1) (publish_queue_entry_locked private q ws mode ms) (accepted E q s0) ?X"
      by (rule triple_weaken [OF publish_locked_effect [OF d(1) assms(1) d(2) unpublishedI [OF a] from_disk_cong [OF a]
            q assms(4,3)]]) (simp_all add: accepted_def)
  qed
  have gate: "triple E ?P (bindM (observe f) (\<lambda>state. check (ok state) k m)) (\<lambda>_. ?P) ?X" for f ok k m
    by (rule triple_bind [where R = "\<lambda>_. ?P"], rule triple_observe, assumption, blast intro: stop_unpublished,
        rule triple_check, assumption, blast intro: stop_unpublished)
  show ?thesis
    unfolding publish_queue_entry_def
    by (rule triple_then [OF _ locked]) (auto intro!: gate triple_ret split: option.splits)
qed

lemma accept_private_effect:
  assumes "accepting private" "valid_request q" "clock_valid E"
  shows "triple E (alters (scratch (q_event q)) s0) (accept_private reader private q us ex rep)
     (\<lambda>(rec, ws). accepted E q s0 rec) (\<lambda>_. unpublished_or_published E q s0)"
proof -
  let ?A = "alters (scratch (q_event q)) s0"
  let ?X = "\<lambda>_ :: exn option. unpublished_or_published E q s0"
  have uploads: "triple E ?A (if us = [] then ret [] else publish_uploads private (q_event q) us rep) (\<lambda>_. ?A) ?X"
    by (rule triple_weaken [OF stable_triple [where I = ?A and P = ?A]]) (auto intro!: stable assms(1) stop_unpublished)
  have snapshot: "triple E ?A (catchM (snapshot_inputs (q_event q) private) snapshot_error)
      (\<lambda>ms s. (\<exists>d. aget (s Queue) private = Some (Dir d) \<and> snapshotted E (q_event q) ms d s) \<and> ?A s) ?X"
    by (rule triple_weaken [OF snapshot_private [OF assms(1)]]) (auto intro: stop_unpublished)
  have mode: "input_mode_of a b \<in> {''directory'', ''upload'', ''mixed''}" for a b
    by (simp add: input_mode_of_def)
  show ?thesis
    unfolding accept_private_def
    by (rule triple_bind [OF uploads], rule triple_bind [OF snapshot], rule triple_bind [OF publish_effect [OF assms mode]],
        rule triple_ret) simp
qed

text \<open>The clean-up after an error leaves a published entry alone.\<close>

lemma published_cleanup:
  assumes "published E q s0 seq s" "accepting private" "alters {(Queue, private)} s s'"
  shows "published E q s0 seq s'"
proof -
  have seq: "queue_sequence_from_disk E s0 = Inr seq" using assms(1) by (simp add: published_def)
  have ne: "queue_entry_name seq \<noteq> private" "NEXT_SEQUENCE \<noteq> private"
    using entry_name_visible [OF from_disk_positive [OF seq]] accepting_hidden [OF assms(2)] assms(2) by auto
  have inputs: "aget (s Inputs) (q_event q) = aget (s' Inputs) (q_event q)"
    using assms(3) by (simp add: alters_def)
  have "alters (insert (Queue, queue_entry_name seq) (scratch (q_event q) \<union> counters)) s s'"
    by (rule alters_mono [OF assms(3)]) (use assms(2) in simp)
  moreover have "complete_entry E q ms seq s'" if "complete_entry E q ms seq s" for ms
    using that ne(1) assms(3) snapshotted_cong [of s "q_event q" s' _ _ E ms, OF inputs]
    by (fastforce simp: complete_entry_def alters_def)
  ultimately show ?thesis
    using assms(1,3) ne(2) alters_trans unfolding published_def by (auto simp: alters_def)
qed

lemma unpublished_or_published_cleanup:
  assumes "unpublished_or_published E q s0 s" "accepting private" "alters {(Queue, private)} s s'"
  shows "unpublished_or_published E q s0 s'"
proof -
  have "alters (scratch (q_event q) \<union> counters) s s'"
    by (rule alters_mono [OF assms(3)]) (use assms(2) in simp)
  then show ?thesis
    using assms published_cleanup alters_trans unfolding unpublished_or_published_def unpublished_def by blast
qed

lemma abandon_effect:
  assumes "accepting private"
  shows "triple E (unpublished_or_published E q s0) (abandon_private private x) Q (\<lambda>_. unpublished_or_published E q s0)"
proof (rule triple_fixed)
  fix s1 assume s1: "unpublished_or_published E q s0 s1"
  have "stable E (alters {(Queue, private)} s1) (abandon_private private x)"
    unfolding abandon_private_def cleanup_private_queue_directory_def by (intro stable) simp_all
  moreover have "triple E (\<lambda>s. s = s1) (abandon_private private x) (\<lambda>_ _. False) (\<lambda>_ _. True)"
    unfolding abandon_private_def
    by (rule triple_then [OF triple_True]) (simp add: triple_reraise)
  ultimately have "triple E (\<lambda>s. s = s1) (abandon_private private x) (\<lambda>_ s. False \<and> alters {(Queue, private)} s1 s)
      (\<lambda>_. alters {(Queue, private)} s1)"
    by (intro triple_stable) simp_all
  then show "triple E (\<lambda>s. s = s1) (abandon_private private x) Q (\<lambda>_. unpublished_or_published E q s0)"
    by (rule triple_weaken) (auto intro: unpublished_or_published_cleanup [OF s1 assms])
qed

lemma validated_request_valid:
  assumes "validated_request ev us c ow = Inr (q, checked)"
  shows "valid_request q"
  using assms
  by (auto simp: validated_request_def as_input_error_def result_simps valid_request_def
      validate_event_id_Inr validate_configuration_name_Inr split: sum.splits if_splits)

lemma make_private_accepting:
  "triple E (alters (scratch e) s0) (make_private_queue_directory k :: ('m, ustr) io) (\<lambda>n s. accepting n \<and> alters (scratch e) s0 s)
     (\<lambda>_. alters (scratch e) s0)"
proof -
  have "triple E (\<lambda>_. True) (make_private_queue_directory k :: ('m, ustr) io) (\<lambda>n _. accepting n) (\<lambda>_ _. True)"
  proof (induction k)
    case (Suc k)
    have "triple E (\<lambda>_. True) (if \<not> made then make_private_queue_directory k
        else thenM (catchM fsync (\<lambda>x. thenM (cleanup_private_queue_directory (private_name u)) (reraise x)))
          (ret (private_name u)) :: ('m, ustr) io) (\<lambda>n _. accepting n) (\<lambda>_ _. True)" for made u
    proof (cases made)
      case True
      then show ?thesis by (simp, intro triple_then [OF triple_True] triple_ret) simp
    qed (simp add: Suc)
    then show ?case
      unfolding make_private_queue_directory.simps Let_def
      by (intro triple_bind [OF triple_True])
  qed (simp add: triple_raise)
  then have "triple E (alters (scratch e) s0) (make_private_queue_directory k :: ('m, ustr) io) (\<lambda>n _. accepting n) (\<lambda>_ _. True)"
    by (rule triple_pre) simp
  then show ?thesis by (rule triple_stable) (auto intro: stable)
qed

lemma accept_request_effect:
  assumes "validated_request ev us conf ow = Inr (q, checked)" "clock_valid E"
  shows "triple E (\<lambda>s. s = s0) (accept_request reader ev us conf ow)
     (\<lambda>x s. \<exists>rec ws. x = result_of_submission (cfg E) q rec ws \<and> accepted E q s0 rec s)
     (\<lambda>_. unpublished_or_published E q s0)"
proof -
  let ?A = "alters (scratch (q_event q)) s0"
  let ?X = "\<lambda>_ :: exn option. unpublished_or_published E q s0"
  have valid: "valid_request q" by (rule validated_request_valid [OF assms(1)])
  have stop: "unpublished_or_published E q s0 s" if "?A s" for s by (rule stop_unpublished [OF that])
  have front: "triple E ?A m (\<lambda>_. ?A) ?X" if "stable E ?A m" for m :: "('m, 'b) io"
    by (rule triple_weaken [OF stable_triple [OF that, of ?A]]) (auto intro: stop)
  have work: "triple E (\<lambda>s. accepting n \<and> ?A s)
      (catchM (accept_private reader n q checked ex rep) (abandon_private n))
      (\<lambda>(rec, ws). accepted E q s0 rec) ?X" for n ex rep
    by (rule triple_pure, rule triple_catch [where R = "\<lambda>_. unpublished_or_published E q s0"],
        rule triple_weaken [OF accept_private_effect [OF _ valid assms(2)]])
       (auto split: option.splits intro: abandon_effect)
  have open_inputs: "triple E (\<lambda>s. s = s0) (open_event_inputs (q_event q) b) (\<lambda>_. ?A) ?X" for b
    by (rule triple_pre [OF front]) (auto intro: stable)
  have request: "triple E (\<lambda>s. s = s0) (liftE (validated_request ev us conf ow)) (\<lambda>v s. v = (q, checked) \<and> s = s0) ?X"
    by (rule triple_liftE) (simp_all add: assms(1))
  have allocated: "triple E ?A (make_private_queue_directory 100) (\<lambda>n s. accepting n \<and> ?A s) ?X"
    by (rule triple_weaken [OF make_private_accepting]) (auto intro: stop)
  have finish: "triple E (case v of (rec, ws) \<Rightarrow> accepted E q s0 rec)
      (case v of (rec, ws) \<Rightarrow> bindM (ask cfg) (\<lambda>c. ret (result_of_submission c q rec ws)))
      (\<lambda>x s. \<exists>rec ws. x = result_of_submission (cfg E) q rec ws \<and> accepted E q s0 rec s) ?X" for v
    by (cases v) (auto intro!: triple_bind [where R = "\<lambda>c s. c = cfg E \<and> accepted E q s0 (fst v) s"] triple_ask triple_pure triple_ret)
  have rest: "triple E (\<lambda>s. s = s0) (thenM (open_event_inputs (q_event q) (checked \<noteq> []))
      (bindM (observe (\<lambda>E. safe_regular_names (q_event q))) (\<lambda>existing.
       bindM (replacements (q_event q) checked) (\<lambda>replace.
       bindM (make_private_queue_directory 100) (\<lambda>private.
       bindM (catchM (accept_private reader private q checked existing replace) (abandon_private private))
         (\<lambda>(record, warnings). bindM (ask cfg) (\<lambda>c. ret (result_of_submission c q record warnings))))))))
      (\<lambda>x s. \<exists>rec ws. x = result_of_submission (cfg E) q rec ws \<and> accepted E q s0 rec s) ?X"
    by (rule triple_then [OF open_inputs], rule triple_bind [OF front [OF stable_basic(7)]],
        rule triple_bind [OF front [OF stable_replacements]], rule triple_bind [OF allocated],
        rule triple_bind [OF work finish])
  show ?thesis
    unfolding accept_request_def
    by (rule triple_bind [OF request], rule triple_pure, simp only: prod.case rest)
qed

end
