(* ===== verification/Submission_Liveness.thy ===== *)
theory Submission_Liveness
  imports Acceptance
begin

text \<open>
  When no system call fails, a valid request for an event whose inputs are in place is accepted.
  \<open>returns\<close> says that a computation ends with a value.
\<close>

definition returns :: "env \<Rightarrow> (fsys \<Rightarrow> bool) \<Rightarrow> ('m, 'a) io \<Rightarrow> bool" where
  "returns E P m \<longleftrightarrow> triple E P m (\<lambda>_ _. True) (\<lambda>_ _. False)"

named_theorems returns \<open>computations that end with a value\<close>

lemma returns_with: "returns E P m \<Longrightarrow> triple E P m Q (\<lambda>_ _. True) \<Longrightarrow> triple E P m Q (\<lambda>_ _. False)"
  unfolding returns_def by (drule (1) triple_conj) (erule triple_weaken; simp)

lemma returns_bind:
  assumes "returns E P m" "triple E P m R (\<lambda>_ _. True)" "\<And>x. returns E (R x) (f x)"
  shows "returns E P (bindM m f)"
  using triple_bind [OF returns_with [OF assms(1,2)]] assms(3) unfolding returns_def by blast

lemma returns_then:
  assumes "returns E P m" "triple E P m (\<lambda>_. R) (\<lambda>_ _. True)" "returns E R n"
  shows "returns E P (thenM m n)"
  unfolding thenM_def by (rule returns_bind [OF assms])

lemma returns_basic [returns]:
  "returns E P (ret x)" "returns E P (ask f)" "returns E P read_now" "returns E P read_uuid"
  by (simp_all add: returns_def triple_ret triple_ask triple_read_now triple_read_uuid)

lemma returns_fsync [returns]: "quiet E \<Longrightarrow> returns E P fsync"
  unfolding returns_def by (rule triple_fsync) simp_all

lemma returns_check: "(\<And>s. P s \<Longrightarrow> b) \<Longrightarrow> returns E P (check b k msg)"
  unfolding returns_def by (rule triple_check) auto

lemma returns_observe: "(\<And>s. P s \<Longrightarrow> \<exists>x. f E s = Inr x) \<Longrightarrow> returns E P (observe f)"
  unfolding returns_def by (rule triple_observe) fastforce+

lemma returns_liftE: "m = Inr x \<Longrightarrow> returns E P (liftE m)"
  unfolding returns_def by (rule triple_liftE) auto

lemma returns_sys: "quiet E \<Longrightarrow> (\<And>s. P s \<Longrightarrow> \<exists>s'. op s = Inr s') \<Longrightarrow> returns E P (sys op part)"
  unfolding returns_def by (rule triple_sys_ok) auto

lemma returns_pre: "returns E P m \<Longrightarrow> (\<And>s. P' s \<Longrightarrow> P s) \<Longrightarrow> returns E P' m"
  unfolding returns_def by (rule triple_pre)

lemma returns_catch:
  assumes "returns E P m"
  shows "returns E P (catchM m h)"
proof -
  have "triple E P m (\<lambda>_ _. True) (\<lambda>e. case e of None \<Rightarrow> (\<lambda>_. False) | Some e' \<Rightarrow> (\<lambda>_. False))"
    by (rule triple_weaken [OF assms [unfolded returns_def]]) simp_all
  moreover have "triple E (\<lambda>_. False) (h e) (\<lambda>_ _. True) (\<lambda>_ _. False)" for e
    by (simp add: triple_def)
  ultimately show ?thesis
    unfolding returns_def by (rule triple_catch [where R = "\<lambda>_ _. False" and X = "\<lambda>_ _. False"])
qed

lemma returns_fixed: "(\<And>s0. P s0 \<Longrightarrow> returns E (\<lambda>s. s = s0) m) \<Longrightarrow> returns E P m"
  unfolding returns_def by (rule triple_fixed)

lemma returns_finally:
  fixes m :: "('m, 'a) io"
  assumes "returns E P m" "triple E P m (\<lambda>_. R) (\<lambda>_ _. True)" "returns E R f"
  shows "returns E P (finallyM m f)"
proof -
  have m: "returns E P (attempt m)"
    unfolding attempt_def by (rule returns_catch, rule returns_bind [OF assms(1) triple_True], rule returns_basic)
  have value_only: "triple E P (attempt m) (\<lambda>r s. (\<exists>x. r = Inr x) \<and> R s) (\<lambda>_ _. True)"
    using triple_attempted [OF returns_with [OF assms(1,2)]] by (rule triple_weaken) (auto split: sum.splits)
  have "returns E (\<lambda>s. (\<exists>x. r = Inr x) \<and> R s) (thenM f (case r of Inl e \<Rightarrow> reraise e | Inr x \<Rightarrow> ret x))"
    for r :: "exn + 'a"
  proof (cases r)
    case (Inr x)
    then show ?thesis
      by (simp, intro returns_then [OF returns_pre [OF assms(3)] triple_True] returns_basic) simp
  qed (simp add: returns_def triple_def)
  then show ?thesis
    unfolding finallyM_def by (rule returns_bind [OF m value_only])
qed

section \<open>The snapshot\<close>

lemma copy_returns:
  assumes "quiet E" "dir_at (Queue, ns) s0 = Some rd" "aget rd n = None"
    and c: "entry_at (event_inputs e) n s0 = Some (File c)"
  shows "returns E (\<lambda>s. s = s0) (copy_regular_file (event_inputs e) (Queue, ns) n)"
proof -
  have "returns E (\<lambda>s. s = s0) (create_file (Queue, ns) n)"
    unfolding create_file_def by (rule returns_sys) (use assms in \<open>auto simp: create_effect_def\<close>)
  moreover have "returns E (\<lambda>_. True) (write_file (Queue, ns) n b)" for b
    unfolding write_file_def by (rule returns_sys) (use assms in \<open>auto simp: write_effect_def\<close>)
  ultimately show ?thesis
    unfolding copy_regular_file_def
    by (intro returns_bind [where R = "\<lambda>_ s. s = s0"] returns_observe triple_observe
          returns_then [OF _ triple_True] returns_bind [OF _ triple_True] returns assms(1))
       (auto simp: c split: option.splits node.splits)
qed

lemma copy_all_returns:
  assumes "quiet E" "dir_at (Queue, ns) s0 = Some rd" "copies E e s0 rd ms"
    and "distinct names" "set names \<inter> fst ` set ms = {}"
    and "\<And>n. n \<in> set names \<Longrightarrow> \<exists>c. entry_at (event_inputs e) n s0 = Some (File c)"
  shows "returns E (\<lambda>s. s = s0) (collectM names (copy_regular_file (event_inputs e) (Queue, ns)) :: ('m, manifest_file list) io)"
  using assms(2-)
proof (induction names arbitrary: s0 rd ms)
  case Nil
  then show ?case by (simp add: returns_basic)
next
  case (Cons n names)
  have "n \<notin> set (akeys rd)" using Cons.prems by (auto simp: copies_def)
  then have free: "aget rd n = None" using in_akeys [of n rd] by simp
  obtain c where "entry_at (event_inputs e) n s0 = Some (File c)" using Cons.prems(5) by auto
  from copy_returns [OF assms(1) Cons.prems(1) free this]
  have first: "returns E (\<lambda>s. s = s0) (copy_regular_file (event_inputs e) (Queue, ns) n :: ('m, manifest_file) io)" .
  show ?case
    unfolding collectM.simps
  proof (rule returns_bind [OF first copy_step [OF Cons.prems(1,2)]], rule returns_fixed)
    fix f s1
    assume "fst f = n \<and> (\<exists>rd'. s1 = put_dir (Queue, ns) rd' s0 \<and> copies E e s1 rd' (ms @ [f]))"
    then obtain rd1 where f: "fst f = n" and s1: "s1 = put_dir (Queue, ns) rd1 s0" and c: "copies E e s1 rd1 (ms @ [f])"
      by blast
    have at: "dir_at (Queue, ns) s1 = Some rd1" using s1 dir_at_put_dir [OF Cons.prems(1)] by simp
    have same: "entry_at (event_inputs e) k s1 = entry_at (event_inputs e) k s0" for k
      by (simp add: s1 entry_at_def event_inputs_def put_dir_def update_at_def)
    have "returns E (\<lambda>s. s = s1) (collectM names (copy_regular_file (event_inputs e) (Queue, ns)) :: ('m, manifest_file list) io)"
      by (rule Cons.IH [OF at c]) (use Cons.prems(3-5) f in \<open>auto simp: same\<close>)
    then show "returns E (\<lambda>s. s = s1) (bindM (collectM names (copy_regular_file (event_inputs e) (Queue, ns)))
        (\<lambda>ys. ret (f # ys)) :: ('m, manifest_file list) io)"
      by (intro returns_bind [OF _ triple_True] returns_basic)
  qed
qed

lemma snapshot_returns:
  assumes quiet: "quiet E" and at: "aget (s0 Queue) private = Some (Dir d)" and free: "aget d REQUEST_DIRECTORY = None"
    and di: "aget (s0 Inputs) e = Some (Dir di)" "distinct (akeys di)" "REQUIRED_EVENT_FILE \<in> set (input_names di)"
  shows "returns E (\<lambda>s. s = s0) (snapshot_inputs e private)"
proof -
  let ?P = "(Queue, [private])" and ?R = "(Queue, [private, REQUEST_DIRECTORY])"
  let ?s1 = "put_dir ?P (aput REQUEST_DIRECTORY (Dir []) d) s0"
  have names: "safe_regular_names e s0 = Inr (input_names di)"
    using di(1) by (simp add: safe_regular_names_def event_inputs_def)
  have source: "\<exists>c. aget di n = Some (File c)" if "n \<in> set (input_names di)" for n
  proof -
    from that obtain v where v: "(n, v) \<in> set di" "is_file v" by (auto simp: input_names_def)
    then have "aget di n = Some v" using di(2) by (simp add: aget_def akeys_def)
    with v(2) show ?thesis by (cases v) auto
  qed
  have make: "triple E (\<lambda>s. s = s0) (mkdir ?P REQUEST_DIRECTORY) (\<lambda>_ s. s = ?s1) (\<lambda>_ _. True)"
    unfolding mkdir_def
    by (rule triple_sys) (auto simp: mkdir_effect_def at put_dir_def split: if_splits)
  have made: "returns E (\<lambda>s. s = s0) (mkdir ?P REQUEST_DIRECTORY)"
    unfolding mkdir_def by (rule returns_sys [OF quiet]) (simp add: mkdir_effect_def at free)
  have sub: "dir_at ?R ?s1 = Some []"
    using at by (simp add: dir_at_def put_dir_def)
  have "distinct (input_names di)"
    using di(2) by (simp add: input_names_def akeys_def distinct_map_filter)
  then have copied_all: "returns E (\<lambda>s. s = ?s1) (collectM (input_names di) (copy_regular_file (event_inputs e) ?R))"
    using source di(1)
    by (intro copy_all_returns [OF quiet sub, of e "[]"])
       (auto simp: copies_def entry_at_def event_inputs_def put_dir_def update_at_def)
  have listed: "triple E (\<lambda>s. s = s0) (observe (\<lambda>E. safe_regular_names e)) (\<lambda>ns s. ns = input_names di \<and> s = s0) (\<lambda>_ _. True)"
    by (rule triple_observe) (simp_all add: names)
  have checked: "triple E (\<lambda>s. s = s0) (check b k msg) (\<lambda>_ s. s = s0) (\<lambda>_ _. True)" for b k msg
    by (rule triple_check) simp_all
  have rest: "returns E (\<lambda>s. ns = input_names di \<and> s = s0)
      (thenM (check (REQUIRED_EVENT_FILE \<in> set ns) ValueError msg) (thenM (mkdir ?P REQUEST_DIRECTORY)
        (bindM (collectM ns (copy_regular_file (event_inputs e) ?R)) (\<lambda>files. thenM fsync (thenM fsync (ret files))))))" for ns msg
    unfolding returns_def
  proof (rule triple_pure, unfold returns_def [symmetric])
    assume ns: "ns = input_names di"
    show "returns E (\<lambda>s. s = s0)
      (thenM (check (REQUIRED_EVENT_FILE \<in> set ns) ValueError msg) (thenM (mkdir ?P REQUEST_DIRECTORY)
        (bindM (collectM ns (copy_regular_file (event_inputs e) ?R)) (\<lambda>files. thenM fsync (thenM fsync (ret files))))))"
      unfolding ns
      by (rule returns_then [OF returns_check checked], simp add: di(3), rule returns_then [OF made make],
          rule returns_bind [OF copied_all triple_True])
         (intro returns_then [OF _ triple_True] returns quiet)
  qed
  show ?thesis
    unfolding snapshot_inputs_def
    by (rule returns_bind [OF returns_observe listed rest]) (simp add: names)
qed

section \<open>The publication\<close>

lemma write_json_returns:
  assumes "quiet E" "dir_at p s0 = Some d" "aget d n = None"
  shows "returns E (\<lambda>s. s = s0) (write_json_sync p n j)"
proof -
  have "returns E (\<lambda>s. s = s0) (create_file p n)"
    unfolding create_file_def by (rule returns_sys) (use assms in \<open>auto simp: create_effect_def\<close>)
  moreover have "returns E (\<lambda>_. True) (write_file p n b)" for b
    unfolding write_file_def by (rule returns_sys) (use assms in \<open>auto simp: write_effect_def\<close>)
  ultimately show ?thesis
    unfolding write_json_sync_def by (intro returns_then [OF _ triple_True] returns assms(1))
qed

lemma store_sequence_returns:
  fixes s0 :: fsys
  assumes quiet: "quiet E" and old: "\<And>d. aget (s0 Queue) NEXT_SEQUENCE \<noteq> Some (Dir d)"
  shows "returns E (\<lambda>s. s = s0) (store_next_sequence k :: ('m, unit) io)"
proof -
  define main :: "ustr \<Rightarrow> content \<Rightarrow> ('m, unit) io" where
    "main u c = thenM (create_private (Queue, []) (next_sequence_name u))
      (thenM (write_file (Queue, []) (next_sequence_name u) c)
      (thenM fsync (thenM (rename (Queue, []) (next_sequence_name u) (Queue, []) NEXT_SEQUENCE) fsync)))" for u c
  define no_tmp where "no_tmp u s \<longleftrightarrow> aget (s Queue) (next_sequence_name u) = None" for u and s :: fsys
  have main: "returns E (\<lambda>s. s = s0) (main u c)" "triple E (\<lambda>s. s = s0) (main u c) (\<lambda>_. no_tmp u) (\<lambda>_ _. True)" for u c
  proof -
    let ?t = "next_sequence_name u"
    let ?I = "\<lambda>s. (\<exists>c. aget (s Queue) ?t = Some (File c)) \<and> aget (s Queue) NEXT_SEQUENCE = aget (s0 Queue) NEXT_SEQUENCE"
    have ne: "NEXT_SEQUENCE \<noteq> ?t"
      by (simp add: NEXT_SEQUENCE_def next_sequence_name_def lit_Cons lit_Nil)
    have allowed: "rename_allowed (File c) (aget (s0 Queue) NEXT_SEQUENCE)" for c
      using old by (cases "aget (s0 Queue) NEXT_SEQUENCE"; cases "the (aget (s0 Queue) NEXT_SEQUENCE)") auto
    have create: "returns E (\<lambda>s. s = s0) (create_private (Queue, []) ?t)"
      "triple E (\<lambda>s. s = s0) (create_private (Queue, []) ?t) (\<lambda>_. ?I) (\<lambda>_ _. True)"
      unfolding create_private_def
      by (rule returns_sys [OF quiet], simp add: create_private_effect_def)
         (rule triple_sys; use ne in \<open>auto simp: create_private_effect_def\<close>)
    have fill: "returns E ?I (write_file (Queue, []) ?t c)"
      "triple E ?I (write_file (Queue, []) ?t c) (\<lambda>_. ?I) (\<lambda>_ _. True)"
      unfolding write_file_def
      by (rule returns_sys [OF quiet], simp add: write_effect_def)
         (rule triple_sys; use ne in \<open>auto simp: write_effect_def\<close>)
    have move: "returns E ?I (rename (Queue, []) ?t (Queue, []) NEXT_SEQUENCE)"
      unfolding rename_def
      by (rule returns_sys [OF quiet]) (auto simp: rename_effect_def entry_at_def allowed)
    have synced: "triple E ?I fsync (\<lambda>_. ?I) (\<lambda>_ _. True)" by (rule triple_fsync) simp_all
    have moved: "triple E ?I (rename (Queue, []) ?t (Queue, []) NEXT_SEQUENCE) (\<lambda>_. no_tmp u) (\<lambda>_ _. True)"
      unfolding rename_def no_tmp_def
      by (rule triple_sys) (use ne in \<open>auto simp: rename_effect_def entry_at_def split: if_splits\<close>)
    have end_synced: "triple E (no_tmp u) fsync (\<lambda>_. no_tmp u) (\<lambda>_ _. True)" by (rule triple_fsync) simp_all
    have finished: "triple E (\<lambda>s. s = s0) (main u c) (\<lambda>_. no_tmp u) (\<lambda>_ _. True)"
      unfolding main_def
      by (rule triple_then [OF create(2)], rule triple_then [OF fill(2)], rule triple_then [OF synced],
          rule triple_then [OF moved end_synced])
    have "returns E (\<lambda>s. s = s0) (main u c)"
      unfolding main_def
      by (rule returns_then [OF create], rule returns_then [OF fill],
          rule returns_then [OF returns_fsync [OF quiet] synced],
          rule returns_then [OF move triple_True], rule returns_fsync [OF quiet])
    then show "returns E (\<lambda>s. s = s0) (main u c)" and "triple E (\<lambda>s. s = s0) (main u c) (\<lambda>_. no_tmp u) (\<lambda>_ _. True)"
      using finished by blast+
  qed
  have clean: "returns E (no_tmp u) (catchM (unlink (Queue, []) (next_sequence_name u))
      (\<lambda>e. if exn_kind_of e = FileNotFoundError then ret () else reraise e))" for u
  proof -
    have missing: "triple E (no_tmp u) (unlink (Queue, []) (next_sequence_name u)) (\<lambda>_ _. True)
        (\<lambda>e. case e of None \<Rightarrow> (\<lambda>_. False) | Some e' \<Rightarrow> (\<lambda>_. e' = not_found))"
      unfolding unlink_def no_tmp_def
      by (rule triple_sys) (use quiet in \<open>auto simp: unlink_effect_def entry_at_def\<close>)
    have handled: "triple E (\<lambda>_. e = not_found) (if exn_kind_of e = FileNotFoundError then ret () else reraise e)
        (\<lambda>_ _. True) (\<lambda>_ _. False)" for e
      by (simp add: triple_def ret_def reraise_def not_found_def)
    show ?thesis
      unfolding returns_def by (rule triple_catch [where X = "\<lambda>_ _. False", OF missing handled])
  qed
  show ?thesis
    unfolding store_next_sequence_def Let_def
    by (rule returns_bind [where R = "\<lambda>_ s. s = s0"], rule returns_basic, rule triple_read_uuid, assumption,
        fold main_def, rule returns_finally [OF main clean])
qed

lemma fill_returns:
  assumes "quiet E" "aget (s0 Queue) private = Some (Dir d)"
    and "aget d (lit ''request-manifest.json'') = None" "aget d STATUS_FILE = None"
  shows "returns E (\<lambda>s. s = s0) (thenM (write_json_sync (Queue, [private]) (lit ''request-manifest.json'') j)
     (write_json_sync (Queue, [private]) STATUS_FILE j'))"
proof -
  let ?p = "(Queue, [private])"
  have at: "dir_at ?p s0 = Some d" using assms(2) by simp
  show ?thesis
  proof (rule returns_then [OF write_json_returns [OF assms(1) at assms(3)] write_json_effect [OF at]], rule returns_fixed)
    fix s1 assume "\<exists>d'. s1 = put_dir ?p d' s0 \<and> (\<forall>m. aget d' m
        = (if m = lit ''request-manifest.json'' then Some (File (Json j)) else aget d m))"
    then obtain d1 where s1: "s1 = put_dir ?p d1 s0" and d1: "\<And>m. aget d1 m
        = (if m = lit ''request-manifest.json'' then Some (File (Json j)) else aget d m)" by blast
    show "returns E (\<lambda>s. s = s1) (write_json_sync ?p STATUS_FILE j')"
    proof (rule write_json_returns [OF assms(1)])
      show "dir_at ?p s1 = Some d1" unfolding s1 by (rule dir_at_put_dir [OF at])
      show "aget d1 STATUS_FILE = None" using assms(4) by (simp add: d1 STATUS_FILE_def)
    qed
  qed
qed

lemma from_disk_no_directory: "queue_sequence_from_disk E s = Inr seq \<Longrightarrow> aget (s Queue) NEXT_SEQUENCE \<noteq> Some (Dir d)"
  by (auto simp: queue_sequence_from_disk_def Let_def)

lemma publish_locked_returns:
  assumes quiet: "quiet E" and at: "aget (s0 Queue) private = Some (Dir d)" and acc: "accepting private"
    and d: "aget d (lit ''request-manifest.json'') = None" "aget d STATUS_FILE = None"
    and snap: "snapshotted E (q_event q) ms d s0"
    and seq: "queue_sequence_from_disk E s0 = Inr seq" and free: "aget (s0 Queue) (queue_entry_name seq) = None"
    and q: "valid_request q" and mode: "mode \<in> {''directory'', ''upload'', ''mixed''}" and clk: "clock_valid E"
  shows "returns E (\<lambda>s. s = s0) (publish_queue_entry_locked private q ws mode ms :: ('m, calculation_record) io)"
proof -
  let ?p = "(Queue, [private])"
  let ?I = "\<lambda>s. (\<exists>d. aget (s Queue) private = Some (Dir d)) \<and> aget (s Queue) NEXT_SEQUENCE = aget (s0 Queue) NEXT_SEQUENCE
      \<and> aget (s Queue) (queue_entry_name seq) = None"
  let ?J = "\<lambda>s. (\<exists>d. aget (s Queue) private = Some (Dir d)) \<and> aget (s Queue) (queue_entry_name seq) = None"
  have visible: "\<not> hidden (queue_entry_name seq)" by (rule entry_name_visible [OF from_disk_positive [OF seq]])
  have ne: "NEXT_SEQUENCE \<noteq> private" "queue_entry_name seq \<noteq> private" "(Queue, private) \<notin> counters"
      "(Queue, queue_entry_name seq) \<notin> counters"
    using acc visible accepting_hidden [OF acc] accepting_not_counter [OF acc] counters_hidden by auto
  have tail: "returns E (\<lambda>s. s = s0)
     (thenM (write_json_sync ?p (lit ''request-manifest.json'') (request_manifest (q_event q) seq ms))
    (thenM (write_json_sync ?p STATUS_FILE (record_to_dict rec))
    (thenM fsync
    (thenM (store_next_sequence (seq + 1))
    (bindM (observe (\<lambda>E s. Inr (aget (s Queue) (queue_entry_name seq) \<noteq> None))) (\<lambda>final_exists.
     thenM (check (\<not> final_exists) FileExistsError ''queue entry already exists'')
    (thenM (rename (Queue, []) private (Queue, []) (queue_entry_name seq))
    (thenM fsync (ret rec)))))))))"
    if rec: "valid_record (cfg E) rec" "state_of rec = Some QUEUED" "event_id_of rec = q_event q" "sequence_of rec = seq"
    for rec
  proof -
    let ?fill = "thenM (write_json_sync ?p (lit ''request-manifest.json'') (request_manifest (q_event q) seq ms))
      (write_json_sync ?p STATUS_FILE (record_to_dict rec))"
    have keep: "stable E (alters {(Queue, private)} s0) ?fill" by (intro stable) simp_all
    have filled: "triple E (\<lambda>s. s = s0) ?fill (\<lambda>_. ?I) (\<lambda>_ _. True)"
      by (rule triple_weaken [OF triple_stable [OF fill_effect [OF at snap rec] keep]])
         (use ne free in \<open>auto simp: alters_def\<close>)
    have synced: "triple E ?I fsync (\<lambda>_. ?I) (\<lambda>_ _. True)" by (rule triple_fsync) simp_all
    have stored: "returns E ?I (store_next_sequence (seq + 1))"
      by (rule returns_fixed, rule store_sequence_returns [OF quiet])
         (use from_disk_no_directory [OF seq] in auto)
    have kept: "triple E ?I (store_next_sequence (seq + 1)) (\<lambda>_. ?J) (\<lambda>_ _. True)"
    proof (rule triple_fixed)
      fix s1 assume s1: "?I s1"
      have "triple E (\<lambda>s. s = s1) (store_next_sequence (seq + 1)) (\<lambda>_. alters counters s1) (\<lambda>_. alters counters s1)"
        by (rule stable_triple [OF stable_store_sequence]) simp_all
      then show "triple E (\<lambda>s. s = s1) (store_next_sequence (seq + 1)) (\<lambda>_. ?J) (\<lambda>_ _. True)"
        by (rule triple_weaken) (use s1 ne in \<open>auto simp: alters_def\<close>)
    qed
    have looked: "triple E ?J (observe (\<lambda>E s. Inr (aget (s Queue) (queue_entry_name seq) \<noteq> None)))
        (\<lambda>b s. \<not> b \<and> ?J s) (\<lambda>_ _. True)"
      by (rule triple_observe) auto
    have checked: "triple E (\<lambda>s. \<not> b \<and> ?J s) (check (\<not> b) FileExistsError ''queue entry already exists'') (\<lambda>_. ?J) (\<lambda>_ _. True)" for b
      by (rule triple_check) auto
    have move: "returns E ?J (rename (Queue, []) private (Queue, []) (queue_entry_name seq))"
      unfolding rename_def by (rule returns_sys [OF quiet]) (auto simp: rename_effect_def entry_at_def)
    have last: "returns E (\<lambda>s. \<not> b \<and> ?J s) (thenM (check (\<not> b) FileExistsError ''queue entry already exists'')
        (thenM (rename (Queue, []) private (Queue, []) (queue_entry_name seq)) (thenM fsync (ret rec))))" for b
      by (rule returns_then [OF returns_check checked], blast, rule returns_then [OF move triple_True])
         (intro returns_then [OF _ triple_True] returns quiet)
    show ?thesis
      by (subst thenM_assoc [symmetric], rule returns_then [OF fill_returns [where ?s0.0 = s0, OF quiet at d] filled],
          rule returns_then [OF returns_fsync [OF quiet] synced], rule returns_then [OF stored kept],
          rule returns_bind [OF returns_observe looked last]) auto
  qed
  have front: "triple E (\<lambda>s. s = s0) (observe queue_sequence_from_disk) (\<lambda>x s. x = seq \<and> s = s0) (\<lambda>_ _. True)"
    by (rule triple_observe) (simp_all add: seq)
  have settings: "triple E (\<lambda>s. s = s0) (ask cfg) (\<lambda>c s. c = cfg E \<and> s = s0) (\<lambda>_ _. True)"
    by (rule triple_ask) simp
  have now: "triple E (\<lambda>s. s = s0) read_now (\<lambda>now s. valid_ts (JStr now) \<and> s = s0) (\<lambda>_ _. True)"
    by (rule triple_read_now) (use clk in \<open>simp add: clock_valid_def\<close>)
  have pure: "(b \<Longrightarrow> returns E P m) \<Longrightarrow> returns E (\<lambda>s. b \<and> P s) m" for b P and m :: "('m, calculation_record) io"
    unfolding returns_def by (rule triple_pure)
  have known: "valid_event_id (q_event q)" "safe_basename (q_configuration q)"
    using q by (simp_all add: valid_request_def)
  show ?thesis
    unfolding publish_queue_entry_locked_def
  proof (rule returns_bind [OF returns_observe front], simp add: seq, rule pure,
      rule returns_bind [OF returns_basic(2) settings], rule pure,
      rule returns_bind [OF returns_basic(3) now], rule pure)
    fix sequence c now'
    assume eqs: "sequence = seq" "c = cfg E" and ts: "valid_ts (JStr now')"
    have "jstr mode \<in> {jstr ''directory'', jstr ''upload'', jstr ''mixed''}" using mode by auto
    from new_queued_valid [OF known(1) from_disk_positive [OF seq] known(2) ts this, of "cfg E" "q_overwrite q" ws]
    obtain rec where new: "new_queued_record (cfg E) now' (JStr (q_event q)) seq (JStr (q_configuration q)) (q_overwrite q) ws
        (jstr mode) = Inr rec" and rec: "valid_record (cfg E) rec" "state_of rec = Some QUEUED" "event_id_of rec = q_event q"
        "sequence_of rec = seq" by blast
    show "returns E (\<lambda>s. s = s0) (bindM (liftE (new_queued_record c now' (JStr (q_event q)) sequence
         (JStr (q_configuration q)) (q_overwrite q) ws (jstr mode))) (\<lambda>rec.
       thenM (write_json_sync ?p (lit ''request-manifest.json'') (request_manifest (q_event q) sequence ms))
      (thenM (write_json_sync ?p STATUS_FILE (record_to_dict rec))
      (thenM fsync
      (thenM (store_next_sequence (sequence + 1))
      (bindM (observe (\<lambda>E s. Inr (aget (s Queue) (queue_entry_name sequence) \<noteq> None))) (\<lambda>final_exists.
       thenM (check (\<not> final_exists) FileExistsError ''queue entry already exists'')
      (thenM (rename (Queue, []) private (Queue, []) (queue_entry_name sequence))
      (thenM fsync (ret rec))))))))) :: ('m, calculation_record) io)"
      unfolding eqs new
    proof (rule returns_bind [where R = "\<lambda>r s. r = rec \<and> s = s0"])
      show "returns E (\<lambda>s. s = s0) (liftE (Inr rec))" by (rule returns_liftE [OF refl])
      show "triple E (\<lambda>s. s = s0) (liftE (Inr rec)) (\<lambda>r s. r = rec \<and> s = s0) (\<lambda>_ _. True)" by (rule triple_liftE) simp_all
    qed (rule pure, elim ssubst, rule tail [OF rec])
  qed
qed

section \<open>The acceptance\<close>

lemma allocate:
  assumes quiet: "quiet E" and fresh: "\<And>u. aget (s0 Queue) (private_name u) = None"
  shows "returns E (\<lambda>s. s = s0) (make_private_queue_directory (Suc k))"
    and "triple E (\<lambda>s. s = s0) (make_private_queue_directory (Suc k))
      (\<lambda>n s. accepting n \<and> s = s0(Queue := aput n (Dir []) (s0 Queue))) (\<lambda>_ _. True)"
proof -
  let ?made = "\<lambda>u s. s = s0(Queue := aput (private_name u) (Dir []) (s0 Queue))"
  let ?made_dir = "\<lambda>u. catchM (thenM (mkdir (Queue, []) (private_name u)) (ret True))
    (\<lambda>e. if exn_kind_of e = FileExistsError then ret False else reraise e)"
  have mk: "returns E (\<lambda>s. s = s0) (mkdir (Queue, []) (private_name u))" for u
    unfolding mkdir_def by (rule returns_sys [OF quiet]) (simp add: mkdir_effect_def fresh)
  have mk_effect: "triple E (\<lambda>s. s = s0) (mkdir (Queue, []) (private_name u)) (\<lambda>_. ?made u) (\<lambda>_ _. False)" for u
    by (rule returns_with [OF mk], unfold mkdir_def, rule triple_sys) (auto simp: mkdir_effect_def fresh)
  have attempt_effect: "triple E (\<lambda>s. s = s0) (?made_dir u) (\<lambda>b s. b \<and> ?made u s) (\<lambda>_ _. False)" for u
    by (rule triple_catch [where R = "\<lambda>_ _. False"], rule triple_then [where R = "?made u"],
        rule triple_weaken [OF mk_effect], simp_all add: triple_ret split: option.splits)
       (simp_all add: triple_def)
  have rest: "triple E (\<lambda>s. b \<and> ?made u s) (if \<not> b then m
        else thenM (catchM fsync (h u)) (ret (private_name u)))
      (\<lambda>n s. accepting n \<and> s = s0(Queue := aput n (Dir []) (s0 Queue))) (\<lambda>_ _. False)" for b u h m
  proof (rule triple_pure)
    assume b: b
    have "returns E (?made u) (catchM fsync (h u))" by (rule returns_catch, rule returns_fsync [OF quiet])
    moreover have "triple E (?made u) (catchM fsync (h u)) (\<lambda>_. ?made u) (\<lambda>_ _. True)"
      by (rule triple_catch [where R = "\<lambda>_ _. False"], rule triple_fsync) (use quiet in \<open>simp_all add: triple_def\<close>)
    ultimately have "triple E (?made u) (catchM fsync (h u)) (\<lambda>_. ?made u) (\<lambda>_ _. False)"
      by (rule returns_with)
    then show "triple E (?made u) (if \<not> b then m else thenM (catchM fsync (h u)) (ret (private_name u)))
        (\<lambda>n s. accepting n \<and> s = s0(Queue := aput n (Dir []) (s0 Queue))) (\<lambda>_ _. False)"
      using b by (auto intro!: triple_then triple_ret)
  qed
  have all: "triple E (\<lambda>s. s = s0) (make_private_queue_directory (Suc k))
      (\<lambda>n s. accepting n \<and> s = s0(Queue := aput n (Dir []) (s0 Queue))) (\<lambda>_ _. False)"
    unfolding make_private_queue_directory.simps Let_def
    by (rule triple_bind [where R = "\<lambda>_ s. s = s0"], rule triple_read_uuid, assumption,
        rule triple_bind [OF attempt_effect rest])
  show "returns E (\<lambda>s. s = s0) (make_private_queue_directory (Suc k))"
    unfolding returns_def by (rule triple_weaken [OF all]) simp_all
  show "triple E (\<lambda>s. s = s0) (make_private_queue_directory (Suc k))
      (\<lambda>n s. accepting n \<and> s = s0(Queue := aput n (Dir []) (s0 Queue))) (\<lambda>_ _. True)"
    by (rule triple_weaken [OF all]) simp_all
qed

lemma accept_private_returns:
  assumes quiet: "quiet E" and clk: "clock_valid E" and q: "valid_request q" and acc: "accepting private"
    and at: "aget (s0 Queue) private = Some (Dir [])"
    and di: "aget (s0 Inputs) (q_event q) = Some (Dir di)" "distinct (akeys di)" "REQUIRED_EVENT_FILE \<in> set (input_names di)"
    and seq: "queue_sequence_from_disk E s0 = Inr seq" and free: "aget (s0 Queue) (queue_entry_name seq) = None"
    and ready: "\<And>f s. reader = Some f \<Longrightarrow> \<exists>state. f E s = Inr state \<and> jget state ''ready'' = JBool True"
  shows "returns E (\<lambda>s. s = s0) (accept_private reader private q [] ex rep)"
proof -
  let ?e = "q_event q"
  let ?S = "\<lambda>ms s. \<exists>d. s = put_dir (Queue, [private]) d s0 \<and> snapshotted E ?e ms d s
      \<and> (\<forall>m. m \<noteq> REQUEST_DIRECTORY \<longrightarrow> aget d m = None)"
  have snap: "returns E (\<lambda>s. s = s0) (snapshot_inputs ?e private)"
    by (rule snapshot_returns [where ?s0.0 = s0, OF quiet at _ di]) simp
  have snapped: "triple E (\<lambda>s. s = s0) (snapshot_inputs ?e private) ?S (\<lambda>_ _. False)"
    by (rule returns_with [OF snap], rule triple_weaken [OF snapshot_effect [where ?s0.0 = s0, OF at]]) auto
  have caught: "triple E (\<lambda>s. s = s0) (catchM (snapshot_inputs ?e private) snapshot_error) ?S (\<lambda>_ _. False)"
    by (rule triple_catch [where R = "\<lambda>_ _. False"], rule triple_weaken [OF snapped])
       (simp_all add: triple_def split: option.splits)
  have publishes: "returns E (?S ms) (publish_queue_entry reader private q ws (input_mode_of a b) ms)" for ms ws a b
  proof (rule returns_fixed)
    fix s1 assume "?S ms s1"
    then obtain d where s1: "s1 = put_dir (Queue, [private]) d s0" and snap1: "snapshotted E ?e ms d s1"
      and none: "\<And>m. m \<noteq> REQUEST_DIRECTORY \<Longrightarrow> aget d m = None" by blast
    have at1: "aget (s1 Queue) private = Some (Dir d)" using at by (simp add: s1 put_dir_def)
    have "alters {(Queue, private)} s0 s1" by (auto simp: alters_def s1 put_dir_def at)
    then have same: "queue_sequence_from_disk E s1 = Inr seq"
      using from_disk_cong [of ?e s0 s1 E] alters_mono [of _ s0 s1 "scratch ?e"] acc seq by (simp add: subset_eq)
    have free1: "aget (s1 Queue) (queue_entry_name seq) = None"
      using free at accepting_hidden [OF acc] entry_name_visible [OF from_disk_positive [OF seq]]
      by (auto simp: s1 put_dir_def)
    have names: "lit ''request-manifest.json'' \<noteq> REQUEST_DIRECTORY" "STATUS_FILE \<noteq> REQUEST_DIRECTORY"
      by (simp_all add: REQUEST_DIRECTORY_def STATUS_FILE_def)
    have locked: "returns E (\<lambda>s. s = s1) (publish_queue_entry_locked private q ws (input_mode_of a b) ms)"
      by (rule publish_locked_returns [where ?s0.0 = s1, OF quiet at1 acc none [OF names(1)] none [OF names(2)] snap1 same free1 q _ clk])
         (simp add: input_mode_of_def)
    show "returns E (\<lambda>s. s = s1) (publish_queue_entry reader private q ws (input_mode_of a b) ms)"
    proof (cases reader)
      case None
      then show ?thesis
        unfolding publish_queue_entry_def
        by (simp, intro returns_then [OF returns_basic(1) _ locked] triple_ret) simp
    next
      case (Some f)
      obtain state where state: "f E s1 = Inr state" "jget state ''ready'' = JBool True" using ready [OF Some] by blast
      let ?gate = "bindM (observe f) (\<lambda>state. check (jget state ''ready'' = JBool True) ServiceUnavailableError ''service is not ready'')"
      have gate: "triple E (\<lambda>s. s = s1) ?gate (\<lambda>_ s. s = s1) (\<lambda>_ _. False)"
        by (rule triple_bind [where R = "\<lambda>x s. x = state \<and> s = s1"], rule triple_observe, simp_all add: state,
            rule triple_check) (use state in auto)
      have "returns E (\<lambda>s. s = s1) ?gate"
        unfolding returns_def by (rule triple_weaken [OF gate]) simp_all
      moreover have "triple E (\<lambda>s. s = s1) ?gate (\<lambda>_ s. s = s1) (\<lambda>_ _. True)"
        by (rule triple_weaken [OF gate]) simp_all
      ultimately show ?thesis
        unfolding publish_queue_entry_def Some option.case by (rule returns_then [OF _ _ locked])
    qed
  qed
  have caught_returns: "returns E (\<lambda>s. s = s0) (catchM (snapshot_inputs ?e private) snapshot_error)"
    by (rule returns_catch [OF snap])
  have caught_effect: "triple E (\<lambda>s. s = s0) (catchM (snapshot_inputs ?e private) snapshot_error) ?S (\<lambda>_ _. True)"
    by (rule triple_weaken [OF caught]) simp_all
  have none: "triple E (\<lambda>s. s = s0) (if [] = [] then ret [] else m) (\<lambda>ws s. s = s0) (\<lambda>_ _. True)" for m
    by (simp add: triple_ret)
  have none_returns: "returns E P (if [] = [] then ret [] else m)" for P m
    by (simp add: returns_basic)
  show ?thesis
    unfolding accept_private_def
    by (rule returns_bind [OF none_returns none], rule returns_bind [OF caught_returns caught_effect],
        rule returns_bind [OF publishes triple_True], rule returns_basic)
qed

lemma accept_returns:
  assumes quiet: "quiet E" and clk: "clock_valid E" and request: "validated_request ev [] conf ow = Inr (q, [])"
    and fresh: "\<And>u. aget (s0 Queue) (private_name u) = None"
    and di: "aget (s0 Inputs) (q_event q) = Some (Dir di)" "distinct (akeys di)" "REQUIRED_EVENT_FILE \<in> set (input_names di)"
    and seq: "queue_sequence_from_disk E s0 = Inr seq" and free: "aget (s0 Queue) (queue_entry_name seq) = None"
    and ready: "\<And>f s. reader = Some f \<Longrightarrow> \<exists>state. f E s = Inr state \<and> jget state ''ready'' = JBool True"
  shows "returns E (\<lambda>s. s = s0) (accept_request reader ev [] conf ow)"
proof -
  have valid: "valid_request q" by (rule validated_request_valid [OF request])
  let ?P = "\<lambda>n s. accepting n \<and> s = s0(Queue := aput n (Dir []) (s0 Queue))"
  have hundred: "(100::nat) = Suc 99" by simp
  note allocated = allocate [where ?s0.0 = s0 and k = 99, OF quiet fresh, folded hundred]
  have work: "returns E (?P n) (catchM (accept_private reader n q [] ex rep) (abandon_private n))" for n ex rep
  proof (rule returns_catch, rule returns_fixed)
    fix s1 assume s1: "?P n s1"
    have "alters {(Queue, n)} s0 s1" using s1 by (auto simp: alters_def)
    then have same: "queue_sequence_from_disk E s1 = Inr seq"
      using from_disk_cong [of "q_event q" s0 s1 E] alters_mono [of _ s0 s1 "scratch (q_event q)"] s1 seq by (simp add: subset_eq)
    have "queue_entry_name seq \<noteq> n"
      using s1 accepting_hidden entry_name_visible [OF from_disk_positive [OF seq]] by auto
    then show "returns E (\<lambda>s. s = s1) (accept_private reader n q [] ex rep)"
      using s1 free di ready by (intro accept_private_returns [OF quiet clk valid _ _ _ di(2,3) same]) auto
  qed
  have request_returns: "returns E (\<lambda>s. s = s0) (liftE (validated_request ev [] conf ow))"
    unfolding request by (rule returns_liftE [OF refl])
  have opened: "open_event_inputs (q_event q) b E w = (Val (), w)" if "fs w = s0" for b w
    using that di(1) by (simp add: open_event_inputs_def bindM_def observe_def ret_def)
  have opens: "returns E (\<lambda>s. s = s0) (open_event_inputs (q_event q) b)"
    "triple E (\<lambda>s. s = s0) (open_event_inputs (q_event q) b) (\<lambda>_ s. s = s0) (\<lambda>_ _. True)" for b
    unfolding returns_def triple_def by (simp_all add: opened)
  have listed: "returns E (\<lambda>s. s = s0) (observe (\<lambda>E. safe_regular_names (q_event q)))"
    "triple E (\<lambda>s. s = s0) (observe (\<lambda>E. safe_regular_names (q_event q))) (\<lambda>_ s. s = s0) (\<lambda>_ _. True)"
    by (rule returns_observe, use di(1) in \<open>simp add: safe_regular_names_def event_inputs_def\<close>,
        rule triple_observe) simp_all
  have replaced: "returns E (\<lambda>s. s = s0) (replacements (q_event q) [])"
    "triple E (\<lambda>s. s = s0) (replacements (q_event q) []) (\<lambda>_ s. s = s0) (\<lambda>_ _. True)"
    unfolding replacements_def
    by (rule returns_observe, simp add: as_input_error_def, rule triple_observe) simp_all
  have finish: "returns E (\<lambda>_. True) (case v of (rec, ws) \<Rightarrow> bindM (ask cfg) (\<lambda>c. ret (result_of_submission c q rec ws)))" for v
    by (cases v) (auto intro!: returns_bind [OF _ triple_True] returns)
  have rest: "returns E (\<lambda>s. s = s0) (thenM (open_event_inputs (q_event q) ([] \<noteq> []))
      (bindM (observe (\<lambda>E. safe_regular_names (q_event q))) (\<lambda>existing.
       bindM (replacements (q_event q) []) (\<lambda>replace.
       bindM (make_private_queue_directory 100) (\<lambda>private.
       bindM (catchM (accept_private reader private q [] existing replace) (abandon_private private))
         (\<lambda>(record, warnings). bindM (ask cfg) (\<lambda>c. ret (result_of_submission c q record warnings))))))))"
    by (rule returns_then [OF opens], rule returns_bind [OF listed], rule returns_bind [OF replaced],
        rule returns_bind [OF allocated], rule returns_bind [OF work triple_True finish])
  have started: "triple E (\<lambda>s. s = s0) (liftE (validated_request ev [] conf ow)) (\<lambda>v s. v = (q, []) \<and> s = s0) (\<lambda>_ _. True)"
    by (rule triple_liftE) (simp_all add: request)
  show ?thesis
    unfolding accept_request_def
    by (rule returns_bind [OF request_returns started], unfold returns_def, rule triple_pure,
        simp only: prod.case, rule rest [unfolded returns_def])
qed

end
