(* ===== verification/Submission_Properties.thy ===== *)
theory Submission_Properties
  imports Submission_Liveness Samples
begin

text \<open>
  What a submission promises its caller and the scheduler, for every fault and every death: the
  published entry passes the scan that the scheduler runs, acceptance is all or nothing, a sequence
  is never given twice.
\<close>

section \<open>The published entry passes the scan\<close>

text \<open>\<open>hashlib.sha256(...).hexdigest()\<close> is 64 lower-case hexadecimal digits.\<close>

definition hex_digests :: "env \<Rightarrow> bool" where
  "hex_digests E \<longleftrightarrow> (\<forall>b. is_hex_digest (JStr (sha256 E b)))"

lemma manifest_files_encoded:
  assumes "distinct (map fst (ex @ ms))"
    and "\<And>n size digest. (n, size, digest) \<in> set ms \<Longrightarrow>
      safe_basename n \<and> 0 \<le> size \<and> is_hex_digest (JStr digest)"
  shows "manifest_files k ex (map manifest_file_json ms) = Inr (ex @ ms)"
  using assms
proof (induction ms arbitrary: ex)
  case (Cons f ms)
  obtain n size digest where f: "f = (n, size, digest)" by (cases f)
  then have ok: "safe_basename n" "0 \<le> size" "is_hex_digest (JStr digest)" using Cons.prems(2) by auto
  have "n \<notin> fst ` set ex" using Cons.prems(1) f by auto
  then have fresh: "aget ex n = None"
    unfolding aget_def by (simp add: map_of_eq_None_iff)
  have name: "validate_upload_basename (JStr n) = Inr n" using ok(1) by (simp add: validate_upload_basename_Inr)
  have "manifest_files k ((ex @ [f])) (map manifest_file_json ms) = Inr ((ex @ [f]) @ ms)"
    using Cons.prems by (intro Cons.IH) auto
  then show ?case
    by (simp add: f manifest_file_json_def has_exact_keys_jobj name fresh ok)
qed simp

lemma input_names_safe: "n \<in> set (input_names d) \<Longrightarrow> safe_basename n"
  by (auto simp: input_names_def okE_iff validate_upload_basename_Inr)

lemma request_manifest_simps [simp]:
  "is_dict (request_manifest e i ms)"
  "has_exact_keys (request_manifest e i ms) [''schema_version'', ''event_id'', ''internal_sequence'', ''files'']"
  "jget (request_manifest e i ms) ''schema_version'' = JInt 1"
  "jget (request_manifest e i ms) ''event_id'' = JStr e"
  "jget (request_manifest e i ms) ''internal_sequence'' = JInt i"
  "jget (request_manifest e i ms) ''files'' = JList (map manifest_file_json ms)"
  by (simp_all add: request_manifest_def has_exact_keys_jobj)

lemma complete_entry_validates:
  assumes "complete_entry E q ms seq s" "hex_digests E"
  shows "\<exists>rec. validate_queue_entry E seq (queue_entry_name seq) s = Inr rec \<and> state_of rec = Some QUEUED
    \<and> event_id_of rec = q_event q \<and> sequence_of rec = seq"
proof -
  let ?n = "queue_entry_name seq"
  obtain d rec where d: "aget (s Queue) ?n = Some (Dir d)"
      "aget d STATUS_FILE = Some (File (Json (record_to_dict rec)))"
    and rec: "valid_record (cfg E) rec" "state_of rec = Some QUEUED" "event_id_of rec = q_event q" "sequence_of rec = seq"
    and m: "aget d (lit ''request-manifest.json'') = Some (File (Json (request_manifest (q_event q) seq ms)))"
    and snap: "snapshotted E (q_event q) ms d s"
    using assms(1) unfolding complete_entry_def by blast
  obtain rd di where rd: "aget d REQUEST_DIRECTORY = Some (Dir rd)" "copies E (q_event q) s rd ms"
    and di: "map fst ms = input_names di" "REQUIRED_EVENT_FILE \<in> fst ` set ms"
    using snap unfolding snapshotted_def by blast
  have dir: "dir_at (Queue, [?n]) s = Some d" using d by simp
  have load: "load_record (cfg E) (Queue, [?n]) (Some seq) None s = Inr rec"
    by (rule load_stored) (use d rec dir in \<open>auto simp: entry_at_def\<close>)
  have request: "dir_at (Queue, [?n, lit ''request'']) s = Some rd"
    using d rd(1) by (simp add: dir_at_def REQUEST_DIRECTORY_def)
  have man: "load_request_manifest_identity ValueError (Queue, [?n]) rec s = Inr (request_manifest (q_event q) seq ms)"
    using dir m valid_record_identity [OF rec(1)] rec(3,4)
    by (simp add: load_request_manifest_identity_def read_json_def open_regular_def entry_at_def)
  have copy: "\<And>n size digest. (n, size, digest) \<in> set ms \<Longrightarrow> copied E (q_event q) s rd (n, size, digest)"
    using rd(2) by (auto simp: copies_def list_all_iff)
  have "safe_basename n \<and> 0 \<le> size \<and> is_hex_digest (JStr digest)" if "(n, size, digest) \<in> set ms" for n size digest
  proof -
    have "n \<in> set (map fst ms)" using that by force
    then have "safe_basename n" using input_names_safe di(1) by metis
    then show ?thesis using copy [OF that] assms(2) by (auto simp: copied_def hex_digests_def)
  qed
  then have files: "manifest_files ValueError [] (map manifest_file_json ms) = Inr ms"
    using manifest_files_encoded [of "[]" ms] rd(2) by (simp add: copies_def)
  have in_ms: "aget ms n \<noteq> None \<longleftrightarrow> n \<in> fst ` set ms" for n
    unfolding aget_def by (simp add: map_of_eq_None_iff)
  have in_rd: "aget rd n = Some v" if "(n, v) \<in> set rd" for n v
    using that rd(2) by (simp add: copies_def aget_def akeys_def)
  have listed: "n \<in> fst ` set ms" if "(n, v) \<in> set rd" for n v
    using that rd(2) by (force simp: copies_def akeys_def)
  have copied_file: "is_file v" if "(n, v) \<in> set rd" for n v
  proof -
    from listed [OF that] obtain size digest where "(n, size, digest) \<in> set ms" by auto
    from copy [OF this] in_rd [OF that] show ?thesis by (auto simp: copied_def)
  qed
  have sizes: "case aget rd n of Some (File c) \<Rightarrow> int (length (content_bytes E c)) = size | _ \<Rightarrow> False"
    if "(n, size, digest) \<in> set ms" for n size digest
    using copy [OF that] by (auto simp: copied_def content_bytes_def)
  have present: "aget rd n \<noteq> None" if "(n, size, digest) \<in> set ms" for n size digest
    using copy [OF that] by (auto simp: copied_def)
  have event_xml: "aget ms (lit ''event.xml'') \<noteq> None"
    using di(2) in_ms unfolding REQUIRED_EVENT_FILE_def by blast
  have regular: "list_all (\<lambda>(n, v). is_file v) rd"
    using copied_file by (auto simp: list_all_iff)
  have complete: "list_all (\<lambda>(n, f). aget rd n \<noteq> None) ms"
    using present by (fastforce simp: list_all_iff)
  have exact: "list_all (\<lambda>(n, v). aget ms n \<noteq> None) rd"
    using listed in_ms by (fastforce simp: list_all_iff)
  have measured: "list_all (\<lambda>(n, size, digest). case aget rd n of
       Some (File c) \<Rightarrow> int (length (content_bytes E c)) = size | _ \<Rightarrow> False) ms"
    using sizes unfolding list_all_iff by fast
  have "validate_queue_entry E seq ?n s = Inr rec"
    unfolding validate_queue_entry_def Let_def open_record_dir [OF dir] load request
    by (simp add: man files event_xml regular complete exact measured del: not_None_eq)
  with rec show ?thesis by blast
qed

section \<open>The counter\<close>

lemma strip_line:
  assumes "t \<noteq> []" "list_all is_digit t"
  shows "strip (t @ [10]) = t"
proof -
  have digit: "\<not> is_space c" if "c \<in> set t" for c
    using that assms(2) by (auto simp: list_all_iff is_digit_def is_space_def)
  have "\<not> is_space (hd (t @ [10]))" "\<not> is_space (hd (rev t))"
    using digit assms(1) by (simp_all add: hd_rev)
  moreover have "dropWhile is_space x = x" if "x \<noteq> []" "\<not> is_space (hd x)" for x
    using that by (cases x) auto
  ultimately have "dropWhile is_space (t @ [10]) = t @ [10]" "dropWhile is_space (rev t) = rev t"
    using assms(1) by simp_all
  then show ?thesis by (simp add: strip_def is_space_def)
qed

lemma parse_counter_stored:
  assumes "1 \<le> n"
  shows "parse_counter (decimal (nat n) @ [10]) = Inr n"
proof -
  let ?t = "decimal (nat n)"
  have digits: "list_all is_digit ?t" by (rule digits_decimal)
  moreover have "?t \<noteq> []" by (subst decimal.simps) simp
  moreover have "list_all (\<lambda>b. b < 128) (?t @ [10])"
    using digits by (auto simp: list_all_iff is_digit_def)
  ultimately show ?thesis
    using assms by (simp add: parse_counter_def strip_line digits_val_decimal Let_def guardE_def)
qed

lemma from_disk_counter:
  assumes "aget (s Queue) NEXT_SEQUENCE = Some (counter_file n)" "1 \<le> n"
  shows "queue_sequence_from_disk E s = Inr (max n (filesystem_next (s Queue)))"
  using assms by (simp add: queue_sequence_from_disk_def counter_file_def content_bytes_def parse_counter_stored Let_def)

lemma from_disk_above_visible:
  assumes "queue_sequence_from_disk E s = Inr seq" "i \<in> set (visible_sequences (s Queue))"
  shows "i < seq"
proof -
  have "i \<le> foldr max (visible_sequences (s Queue)) 0"
    unfolding foldr_max_set by (rule Max_ge) (use assms(2) in auto)
  moreover have "filesystem_next (s Queue) \<le> seq"
    using assms(1) by (auto simp: queue_sequence_from_disk_def Let_def result_simps split: option.splits node.splits)
  ultimately show ?thesis by (simp add: filesystem_next_def)
qed

section \<open>The properties\<close>

text \<open>The roots differ at most at hidden queue entries and in the input directory of the event \<open>e\<close>.\<close>

definition same_outside :: "ustr \<Rightarrow> fsys \<Rightarrow> fsys \<Rightarrow> bool" where
  "same_outside e s s' \<longleftrightarrow>
     (\<forall>k n. k = Queue \<and> hidden n \<or> k = Inputs \<and> n = e \<or> aget (s' k) n = aget (s k) n)"

text \<open>One entry more, which the scan accepts as a QUEUED record of the event.\<close>

definition entry_added :: "env \<Rightarrow> ustr \<Rightarrow> int \<Rightarrow> fsys \<Rightarrow> fsys \<Rightarrow> bool" where
  "entry_added E e seq s s' \<longleftrightarrow>
     aget (s Queue) (queue_entry_name seq) = None
     \<and> (\<forall>i \<in> set (visible_sequences (s Queue)). i < seq)
     \<and> (\<exists>rec. validate_queue_entry E seq (queue_entry_name seq) s' = Inr rec
          \<and> state_of rec = Some QUEUED \<and> event_id_of rec = e \<and> sequence_of rec = seq)
     \<and> same_outside e s (s'(Queue := adel (queue_entry_name seq) (s' Queue)))"

lemma published_entry_added:
  assumes "published E q s seq s'" "hex_digests E"
  shows "entry_added E (q_event q) seq s s'"
proof -
  have seq: "queue_sequence_from_disk E s = Inr seq" using assms(1) by (simp add: published_def)
  have "same_outside (q_event q) s (s'(Queue := adel (queue_entry_name seq) (s' Queue)))"
    unfolding same_outside_def
  proof (intro allI)
    fix k n
    have "(k, n) = (Queue, queue_entry_name seq) \<or> (k, n) \<in> scratch (q_event q) \<union> counters \<or> aget (s' k) n = aget (s k) n"
      using assms(1) by (auto simp: published_def alters_def)
    then show "k = Queue \<and> hidden n \<or> k = Inputs \<and> n = q_event q
        \<or> aget ((s'(Queue := adel (queue_entry_name seq) (s' Queue))) k) n = aget (s k) n"
      using assms(1) counters_hidden accepting_hidden by (auto simp: scratch_def published_def)
  qed
  then show ?thesis
    using assms(1) complete_entry_validates [OF _ assms(2)] from_disk_above_visible [OF seq]
    unfolding entry_added_def published_def by blast
qed

lemma unpublished_same_outside: "unpublished q s s' \<Longrightarrow> same_outside (q_event q) s s'"
  using counters_hidden accepting_hidden by (fastforce simp: unpublished_def alters_def same_outside_def scratch_def)


text \<open>
  C12: A sequence is never given twice. Whatever has happened to the queue since a request was
  accepted under a sequence (its entry executed and removed, other entries lost), as long as the
  counter file the acceptance left is in place, the next accepted request gets a larger sequence.
\<close>

theorem sequences_never_reused:
  assumes "clock_valid E"
    and "accept_request reader ev us conf ow E w = (Val x, w')"
    and "aget (fs v Queue) NEXT_SEQUENCE = aget (fs w' Queue) NEXT_SEQUENCE"
    and "accept_request reader' ev' us' conf' ow' E v = (Val y, v')"
  shows "s_internal_sequence x < s_internal_sequence y"
proof -
  have got: "\<exists>q. published E q (fs v) (s_internal_sequence y) (fs v')"
    if "accept_request reader ev us conf ow E v = (Val y, v')" for reader ev us conf ow v y v'
  proof (cases "validated_request ev us conf ow")
    case (Inl e)
    with that show ?thesis by (simp add: accept_request_def liftE_def bindM_def reraise_def)
  next
    case (Inr a)
    then have "validated_request ev us conf ow = Inr (fst a, snd a)" by simp
    from tripleD(1) [OF accept_request_effect [OF this assms(1)] refl that]
    show ?thesis by (auto simp: accepted_def result_of_submission_def)
  qed
  from got [OF assms(2)] have first: "aget (fs w' Queue) NEXT_SEQUENCE = Some (counter_file (s_internal_sequence x + 1))"
      "1 \<le> s_internal_sequence x"
    using from_disk_positive by (auto simp: published_def)
  from got [OF assms(4)] have second: "queue_sequence_from_disk E (fs v) = Inr (s_internal_sequence y)"
    by (auto simp: published_def)
  have "queue_sequence_from_disk E (fs v)
      = Inr (max (s_internal_sequence x + 1) (filesystem_next (fs v Queue)))"
    by (rule from_disk_counter) (use first assms(3) in auto)
  with second show ?thesis by auto
qed


section \<open>Instances\<close>

text \<open>A caller's directory with its \<open>event.xml\<close>, and a counter left by an earlier acceptance.\<close>

definition input_store :: "(ustr \<times> node) list \<Rightarrow> fsys" where
  "input_store queue = (\<lambda>_. [])(Inputs := [(sample_event, Dir [(lit ''event.xml'', File (Bytes [60]))])], Queue := queue)"

definition input_world :: "(ustr \<times> node) list \<Rightarrow> unit world" where
  "input_world queue = \<lparr>fs = input_store queue, clock = 0, mem = ()\<rparr>"

definition sample_request :: request where
  "sample_request = \<lparr>q_event = sample_event, q_configuration = lit ''global'', q_overwrite = False\<rparr>"

lemma sample_request_validated:
  "validated_request (JStr sample_event) [] (jstr ''global'') (JBool False) = Inr (sample_request, [])"
  using sample_event_valid sample_configuration
  by (simp add: validated_request_def as_input_error_def validated_uploads_def sample_request_def
      validate_event_id_Inr [THEN iffD2] validate_configuration_name_Inr [THEN iffD2] validate_overwrite_def)

lemma sample_digests: "hex_digests sample_env"
  by (simp add: hex_digests_def is_hex_digest_def is_digit_def list_all_iff)

lemma private_not_counter: "private_name u \<noteq> NEXT_SEQUENCE"
  by (simp add: private_name_def NEXT_SEQUENCE_def lit_Cons lit_Nil)

lemma filesystem_next_hidden: "filesystem_next [] = 1" "filesystem_next [(NEXT_SEQUENCE, v)] = 1"
  by (simp_all add: filesystem_next_def visible_sequences_def)

lemma sample_inputs:
  "aget (fs (input_world queue) Inputs) (q_event sample_request) = Some (Dir [(lit ''event.xml'', File (Bytes [60]))])"
  "fs (input_world queue) Queue = queue"
  "REQUIRED_EVENT_FILE \<in> set (input_names [(lit ''event.xml'', File (Bytes [60]))])"
  using sample_event_xml
  by (simp_all add: input_world_def input_store_def sample_request_def input_names_def REQUIRED_EVENT_FILE_def)


text \<open>The run of the sample request over a queue without entries, and what it leaves.\<close>

lemma sample_run:
  assumes queue: "queue = [] \<and> n = 1 \<or> queue = [(NEXT_SEQUENCE, counter_file n)] \<and> 1 \<le> n"
  shows "\<exists>x w'. accept_request None (JStr sample_event) [] (jstr ''global'') (JBool False) sample_env (input_world queue) = (Val x, w')
    \<and> s_event_id x = sample_event \<and> s_internal_sequence x = n \<and> aget (fs w' Queue) NEXT_SEQUENCE = Some (counter_file (n + 1))"
proof -
  have seq: "queue_sequence_from_disk sample_env (fs (input_world queue)) = Inr n"
  proof (cases "queue = []")
    case True
    with queue show ?thesis
      by (simp add: sample_inputs(2) queue_sequence_from_disk_def filesystem_next_hidden)
  next
    case False
    with queue have q: "queue = [(NEXT_SEQUENCE, counter_file n)]" "1 \<le> n" by auto
    from from_disk_counter [of "fs (input_world queue)" n sample_env] q show ?thesis
      by (simp add: sample_inputs(2) filesystem_next_hidden)
  qed
  have visible: "queue_entry_name n \<noteq> NEXT_SEQUENCE"
    using entry_name_visible [OF from_disk_positive [OF seq]] by auto
  have "returns sample_env (\<lambda>s. s = fs (input_world queue))
      (accept_request None (JStr sample_event) [] (jstr ''global'') (JBool False))"
    by (rule accept_returns [where ?s0.0 = "fs (input_world queue)" and di = "[(lit ''event.xml'', File (Bytes [60]))]",
          OF sample_quiet sample_clock sample_request_validated _ sample_inputs(1) _ sample_inputs(3) seq])
       (use queue visible private_not_counter in \<open>auto simp: sample_inputs(2)\<close>)
  from triple_total [OF this [unfolded returns_def]] obtain x w' where
    run: "accept_request None (JStr sample_event) [] (jstr ''global'') (JBool False) sample_env (input_world queue) = (Val x, w')"
    by blast
  from tripleD(1) [OF accept_request_effect [OF sample_request_validated sample_clock] refl run] run seq show ?thesis
    by (auto simp: accepted_def published_def result_of_submission_def sample_request_def)
qed


theorem sequences_never_reused_witness:
  "\<exists>x w' y v'. accept_request None (JStr sample_event) [] (jstr ''global'') (JBool False) sample_env (input_world []) = (Val x, w')
     \<and> accept_request None (JStr sample_event) [] (jstr ''global'') (JBool False) sample_env
         (input_world [(NEXT_SEQUENCE, counter_file 2)]) = (Val y, v')
     \<and> s_internal_sequence x < s_internal_sequence y"
proof -
  obtain x w' where first: "accept_request None (JStr sample_event) [] (jstr ''global'') (JBool False) sample_env (input_world [])
      = (Val x, w')" "aget (fs w' Queue) NEXT_SEQUENCE = Some (counter_file 2)"
    using sample_run [of "[]" 1] by auto
  obtain y v' where second: "accept_request None (JStr sample_event) [] (jstr ''global'') (JBool False) sample_env
      (input_world [(NEXT_SEQUENCE, counter_file 2)]) = (Val y, v')"
    using sample_run [of "[(NEXT_SEQUENCE, counter_file 2)]" 2] by auto
  from sequences_never_reused [OF sample_clock first(1) _ second] first(2) first(1) second show ?thesis
    by (auto simp: sample_inputs(2))
qed

end
