(* ===== verification/Queue_Properties.thy ===== *)
theory Queue_Properties
  imports Submission_Properties Queue_Scan
begin

text \<open>
  Submission and scheduler together: the scheduler's scan of the queue after an acceptance is the
  scan before it with the new record at the end.
\<close>

section \<open>The scan and one new entry\<close>

lemma validate_queue_entry_cong:
  assumes "aget (s Queue) n = aget (s' Queue) n"
  shows "validate_queue_entry E i n s = validate_queue_entry E i n s'"
proof -
  have dir: "dir_at (Queue, n # ns) s = dir_at (Queue, n # ns) s'" for ns
    using assms by (simp add: dir_at_def)
  have entry: "entry_at (Queue, [n]) m s = entry_at (Queue, [n]) m s'" for m
    by (simp only: entry_at_def dir)
  have json: "read_json (Queue, [n]) m k s = read_json (Queue, [n]) m k s'" for m k
    by (simp only: read_json_def open_regular_def entry)
  have opened: "open_record_directory (Queue, [n]) s = open_record_directory (Queue, [n]) s'"
    using assms by (simp add: open_record_directory_def)
  show ?thesis
    unfolding validate_queue_entry_def Let_def load_record_def load_request_manifest_identity_def
    by (simp only: dir json opened)
qed

definition scan_entry :: "env \<Rightarrow> fsys \<Rightarrow> ustr \<Rightarrow> exn + calculation_record" where
  "scan_entry E s name = bindE (parse_queue_entry_name name) (\<lambda>sequence. validate_queue_entry E sequence name s)"

definition visible_names :: "fsys \<Rightarrow> ustr list" where
  "visible_names s = filter (\<lambda>n. \<not> hidden n) (listing (s Queue))"

lemma scan_queue_entries:
  "scan_queue_records E s = (case collect (scan_entry E s) (visible_names s) of
     (records, malformed) \<Rightarrow> (sort_key sequence_of records, malformed))"
  by (simp add: scan_queue_records_def scan_entry_def [abs_def] visible_names_def)

lemma scan_entry_sequence:
  assumes "scan_entry E s n = Inr r"
  shows "parse_queue_entry_name n = Inr (sequence_of r)"
  using assms
  by (auto simp: scan_entry_def result_simps validate_queue_entry_def load_record_iff Let_def)

lemma new_name_inserted:
  assumes "distinct xs" "distinct ys" "set ys = insert n (set xs)" "n \<notin> set xs" "sorted xs" "sorted ys"
  shows "\<exists>as bs. ys = as @ n # bs \<and> xs = as @ (bs :: 'a :: linorder list)"
proof -
  obtain as bs where ys: "ys = as @ n # bs" using assms(3) by (metis insertI1 split_list)
  have "set (as @ bs) = set xs" "distinct (as @ bs)" "sorted (as @ bs)"
    using assms ys by (auto simp: sorted_append)
  then have "as @ bs = xs" using assms(1,5) sorted_distinct_set_unique by blast
  with ys show ?thesis by blast
qed

lemma scan_with_new_entry:
  assumes added: "entry_added E e seq s s'" and ok: "1 \<le> seq" "seq < 10 ^ QUEUE_ENTRY_WIDTH"
  shows "\<exists>rec. scan_queue_records E s' = (fst (scan_queue_records E s) @ [rec], snd (scan_queue_records E s))
    \<and> state_of rec = Some QUEUED \<and> event_id_of rec = e \<and> sequence_of rec = seq"
proof -
  let ?n = "queue_entry_name seq"
  obtain rec where val: "validate_queue_entry E seq ?n s' = Inr rec"
    and rec: "state_of rec = Some QUEUED" "event_id_of rec = e" "sequence_of rec = seq"
    using added unfolding entry_added_def by blast
  have new: "aget (s Queue) ?n = None" and larger: "\<And>i. i \<in> set (visible_sequences (s Queue)) \<Longrightarrow> i < seq"
    using added by (auto simp: entry_added_def)
  have same: "aget (s' Queue) n = aget (s Queue) n" if "\<not> hidden n" "n \<noteq> ?n" for n
  proof -
    have "same_outside e s (s'(Queue := adel ?n (s' Queue)))" using added by (simp add: entry_added_def)
    from this [unfolded same_outside_def, rule_format, of Queue n] that show ?thesis by simp
  qed
  have visible: "\<not> hidden ?n" by (rule entry_name_visible [OF ok(1)])
  have here: "aget (s' Queue) ?n \<noteq> None"
    using val by (auto simp: validate_queue_entry_def open_record_directory_def result_simps split: option.splits)
  have scanned: "scan_entry E s' ?n = Inr rec"
    using val ok by (simp add: scan_entry_def parse_queue_entry_name_name)
  have members: "set (visible_names s) = {n. \<not> hidden n \<and> aget (s Queue) n \<noteq> None}" for s
    using in_akeys by (fastforce simp: visible_names_def)
  have "set (visible_names s') = insert ?n (set (visible_names s))" "?n \<notin> set (visible_names s)"
  proof -
    have "aget (s' Queue) m \<noteq> None \<longleftrightarrow> m = ?n \<or> aget (s Queue) m \<noteq> None" if "\<not> hidden m" for m
      using same [OF that] here by (cases "m = ?n") auto
    then show "set (visible_names s') = insert ?n (set (visible_names s))"
      unfolding members using visible by blast
    show "?n \<notin> set (visible_names s)" unfolding members using new by simp
  qed
  moreover have "distinct (visible_names s)" "distinct (visible_names s')" "sorted (visible_names s)" "sorted (visible_names s')"
    by (auto simp: visible_names_def intro: sorted_wrt_filter)
  ultimately obtain as bs where names: "visible_names s' = as @ ?n # bs" "visible_names s = as @ bs"
    using new_name_inserted by metis
  have old: "scan_entry E s' n = scan_entry E s n" if "n \<in> set (as @ bs)" for n
  proof -
    have "n \<in> {n. \<not> hidden n \<and> aget (s Queue) n \<noteq> None}" using that names(2) members by metis
    then have "\<not> hidden n" "n \<noteq> ?n" using new by auto
    from same [OF this] show ?thesis
      unfolding scan_entry_def using validate_queue_entry_cong by metis
  qed
  have olds: "collect (scan_entry E s') as = collect (scan_entry E s) as" "collect (scan_entry E s') bs = collect (scan_entry E s) bs"
    using old by (auto intro: collect_cong)
  have smaller: "sequence_of r < sequence_of rec"
    if "r \<in> set (fst (collect (scan_entry E s) as) @ fst (collect (scan_entry E s) bs))" for r
  proof -
    from that obtain n where n: "n \<in> set (as @ bs)" "scan_entry E s n = Inr r"
      by (auto simp: collect_good)
    then have "n \<in> {n. \<not> hidden n \<and> aget (s Queue) n \<noteq> None}" using names(2) members by metis
    then have "\<not> hidden n" "aget (s Queue) n \<noteq> None" by auto
    then have "sequence_of r \<in> set (visible_sequences (s Queue))"
      unfolding set_visible_sequences using scan_entry_sequence [OF n(2)] by blast
    then show ?thesis using larger rec(3) by simp
  qed
  have "sort_key sequence_of (fst (collect (scan_entry E s) as) @ rec # fst (collect (scan_entry E s) bs))
      = sort_key sequence_of (fst (collect (scan_entry E s) as) @ fst (collect (scan_entry E s) bs)) @ [rec]"
    by (rule sort_key_last) (rule smaller)
  then have "scan_queue_records E s' = (fst (scan_queue_records E s) @ [rec], snd (scan_queue_records E s))"
    unfolding scan_queue_entries names
    by (simp add: collect_append olds scanned Let_def case_prod_beta)
  with rec show ?thesis by blast
qed

text \<open>
  C7: Requests are queued first in, first out. The scan that the scheduler takes its candidates from
  is, after an acceptance, exactly the scan before it with the new QUEUED record appended, under the
  returned sequence, and the same malformed entries.
\<close>

theorem acceptance_appends_to_the_scan:
  assumes "clock_valid E" "hex_digests E"
    and run: "accept_request reader ev us conf ow E w = (Val x, w')"
    and "s_internal_sequence x < 10 ^ QUEUE_ENTRY_WIDTH"
  shows "\<exists>rec. scan_queue_records E (fs w')
      = (fst (scan_queue_records E (fs w)) @ [rec], snd (scan_queue_records E (fs w)))
    \<and> state_of rec = Some QUEUED \<and> event_id_of rec = s_event_id x \<and> sequence_of rec = s_internal_sequence x"
proof (cases "validated_request ev us conf ow")
  case (Inl e)
  with run show ?thesis by (simp add: accept_request_def liftE_def bindM_def reraise_def)
next
  case (Inr v)
  then have "validated_request ev us conf ow = Inr (fst v, snd v)" by simp
  from tripleD(1) [OF accept_request_effect [OF this assms(1)] refl run]
  obtain rec ws where x: "x = result_of_submission (cfg E) (fst v) rec ws"
    and acc: "accepted E (fst v) (fs w) rec (fs w')" by blast
  then have p: "published E (fst v) (fs w) (s_internal_sequence x) (fs w')" and e: "s_event_id x = q_event (fst v)"
    by (simp_all add: accepted_def result_of_submission_def)
  then have "1 \<le> s_internal_sequence x"
    using from_disk_positive by (auto simp: published_def)
  from scan_with_new_entry [OF published_entry_added [OF p assms(2)] this assms(4)] show ?thesis by (simp add: e)
qed

theorem acceptance_appends_to_the_scan_witness:
  "\<exists>x w' rec. accept_request None (JStr sample_event) [] (jstr ''global'') (JBool False) sample_env (input_world []) = (Val x, w')
     \<and> scan_queue_records sample_env (fs w') = ([rec], []) \<and> state_of rec = Some QUEUED \<and> sequence_of rec = 1"
proof -
  obtain x w' where run: "accept_request None (JStr sample_event) [] (jstr ''global'') (JBool False) sample_env (input_world [])
      = (Val x, w')" "s_internal_sequence x = 1"
    using sample_run [of "[]" 1] by auto
  have "scan_queue_records sample_env (fs (input_world [])) = ([], [])"
    by (simp add: scan_queue_records_def sample_inputs(2))
  with acceptance_appends_to_the_scan [OF sample_clock sample_digests run(1)] run show ?thesis
    by (auto simp: QUEUE_ENTRY_WIDTH_def)
qed

end
