(* ===== verification/Projections.thy ===== *)
theory Projections
  imports Lifecycle "HOL-Library.Sublist"
begin

text \<open>
  \<open>public_views.py\<close>, the projections of private evidence: which fields of an identity and of a
  provenance object the service publishes, and the removal of private paths from diagnostics.
\<close>

section \<open>Private fields\<close>

definition PRIVATE_IDENTITY_FIELDS :: "string list list" where
  "PRIVATE_IDENTITY_FIELDS =
    [[''immutable_image'', ''manifest_path''],
     [''immutable_image'', ''installed'', ''dependency_inventory_path''],
     [''immutable_image'', ''installed'', ''environment_compatibility'', ''source_environment_path''],
     [''immutable_image'', ''installed'', ''environment_compatibility'', ''record_path''],
     [''immutable_image'', ''installed'', ''environment_compatibility'', ''provider_differences'',
        ''conda_inventory_path''],
     [''immutable_image'', ''installed'', ''environment_compatibility'', ''provider_differences'',
        ''resolved_python_inventory_path''],
     [''immutable_image'', ''installed'', ''mapping_compatibility'', ''source_lock_path''],
     [''immutable_image'', ''installed'', ''mapping_compatibility'', ''record_path''],
     [''immutable_image'', ''support'', ''natural_earth'', ''manifest_path''],
     [''immutable_image'', ''support'', ''natural_earth'', ''cartopy_data_dir''],
     [''immutable_image'', ''support'', ''strec'', ''database_path''],
     [''immutable_image'', ''support'', ''strec'', ''database_link''],
     [''immutable_image'', ''support'', ''slab2'', ''source_archive_path''],
     [''immutable_image'', ''support'', ''slab2'', ''source_manifest_path''],
     [''immutable_image'', ''support'', ''slab2'', ''installed_files_manifest_path''],
     [''immutable_image'', ''support'', ''slab2'', ''slabs_dir'']]"

definition nonempty_text :: "json option \<Rightarrow> ustr option" where
  "nonempty_text v = (case v of Some (JStr s) \<Rightarrow> if s = [] then None else Some s | _ \<Rightarrow> None)"

text \<open>The value without the field, and the removed text.\<close>

fun remove_nested_field :: "string list \<Rightarrow> json \<Rightarrow> json \<times> ustr option" where
  "remove_nested_field [] v = (v, None)"
| "remove_nested_field [name] v =
     (case v of
        JObj kvs \<Rightarrow> (JObj (adel (lit name) kvs), nonempty_text (aget kvs (lit name)))
      | _ \<Rightarrow> (v, None))"
| "remove_nested_field (name # inner # path) v =
     (case v of
        JObj kvs \<Rightarrow>
          (case aget kvs (lit name) of
             None \<Rightarrow> (v, None)
           | Some child \<Rightarrow>
               (let (child', removed) = remove_nested_field (inner # path) child
                in (JObj (aput (lit name) child' kvs), removed)))
      | _ \<Rightarrow> (v, None))"

fun remove_fields :: "string list list \<Rightarrow> json \<Rightarrow> json \<times> ustr list" where
  "remove_fields [] v = (v, [])"
| "remove_fields (p # ps) v =
     (let (v1, removed) = remove_nested_field p v;
          (v2, others) = remove_fields ps v1
      in (v2, (case removed of None \<Rightarrow> others | Some s \<Rightarrow> s # others)))"

section \<open>Diagnostics\<close>

definition PRIVATE_PATH :: ustr where
  "PRIVATE_PATH = lit ''<private-path>''"

text \<open>\<open>text.replace(old, new)\<close> for a nonempty \<open>old\<close>.\<close>

fun replace_all :: "ustr \<Rightarrow> ustr \<Rightarrow> ustr \<Rightarrow> ustr" where
  "replace_all old new [] = []"
| "replace_all old new (c # s) =
     (if old \<noteq> [] \<and> starts_with old (c # s) then new @ replace_all old new (drop (length old - 1) s)
      else c # replace_all old new s)"

text \<open>White space of \<open>\<backslash>s\<close> in a text pattern, and the characters that end a path in a diagnostic.\<close>

definition unicode_space :: "nat \<Rightarrow> bool" where
  "unicode_space c \<longleftrightarrow> is_space c \<or> c \<in> {133, 160, 5760, 8232, 8233, 8239, 8287, 12288} \<or> 8192 \<le> c \<and> c \<le> 8202"

definition path_end :: "nat \<Rightarrow> bool" where
  "path_end c \<longleftrightarrow> unicode_space c \<or> c \<in> set (lit '',;:'') \<or> c = 39 \<or> c = 34 \<or> c \<in> set (lit '')]}'')"

text \<open>
  What \<open>(?:/[^...]+)*\<close> leaves after a root: since a slash does not end a path, one repetition
  consumes everything up to the next end of a path.
\<close>

fun after_root :: "ustr \<Rightarrow> ustr" where
  "after_root (c # d # s) = (if c = 47 \<and> \<not> path_end d then dropWhile (\<lambda>c. \<not> path_end c) (d # s) else c # d # s)"
| "after_root s = s"

lemma length_after_root: "length (after_root s) \<le> length s"
proof (cases s rule: after_root.cases)
  case (1 c d s')
  have "length (dropWhile (\<lambda>c. \<not> path_end c) (d # s')) \<le> length (d # s')" by (rule length_dropWhile_le)
  with 1 show ?thesis by (auto simp del: dropWhile.simps)
qed auto

function replace_root :: "ustr \<Rightarrow> ustr \<Rightarrow> ustr" where
  "replace_root base [] = []"
| "replace_root base (c # s) =
     (if base \<noteq> [] \<and> starts_with base (c # s)
      then PRIVATE_PATH @ replace_root base (after_root (drop (length base - 1) s))
      else c # replace_root base s)"
  by pat_completeness auto
termination
proof (relation "measure (\<lambda>(base, s). length s)")
  fix base :: ustr and c s
  have "length (after_root (drop (length base - 1) s)) \<le> length s"
    by (rule order_trans [OF length_after_root]) simp
  then show "((base, after_root (drop (length base - 1) s)), base, c # s) \<in> measure (\<lambda>(base, s). length s)"
    by simp
qed auto

text \<open>\<open>rstrip("/")\<close>.\<close>

definition strip_slashes :: "ustr \<Rightarrow> ustr" where
  "strip_slashes s = rev (dropWhile (\<lambda>c. c = 47) (rev s))"

definition private_roots :: "settings \<Rightarrow> ustr list" where
  "private_roots c = [lit ''/opt'', strip_slashes (service_root c)]"

text \<open>
  Longer paths are replaced first. The order of paths of one length is that of a Python set, which
  the model takes as the order they were collected in.
\<close>

definition sanitize_diagnostic_text :: "settings \<Rightarrow> ustr list \<Rightarrow> ustr \<Rightarrow> ustr" where
  "sanitize_diagnostic_text c private_paths value =
     fold replace_root (filter (\<lambda>r. r \<noteq> []) (private_roots c))
       (fold (\<lambda>p. replace_all p PRIVATE_PATH)
          (filter (\<lambda>p. p \<noteq> []) (sort_key (\<lambda>p. - int (length p)) (remdups private_paths))) value)"

fun sanitize_diagnostic :: "settings \<Rightarrow> ustr list \<Rightarrow> json \<Rightarrow> json" where
  "sanitize_diagnostic c ps (JStr s) = JStr (sanitize_diagnostic_text c ps s)"
| "sanitize_diagnostic c ps (JList vs) = JList (map (sanitize_diagnostic c ps) vs)"
| "sanitize_diagnostic c ps (JObj kvs) = JObj (map (\<lambda>(k, v). (k, sanitize_diagnostic c ps v)) kvs)"
| "sanitize_diagnostic c ps v = v"

section \<open>The identity\<close>

definition project_identity :: "settings \<Rightarrow> json \<Rightarrow> exn + json \<times> ustr list" where
  "project_identity c identity =
     bindE (guardE (is_dict identity) ValueError ''service identity is not an object'') (\<lambda>_.
     let (projected, private_paths) = remove_fields PRIVATE_IDENTITY_FIELDS identity;
         image = jget projected ''immutable_image'' in
     if \<not> is_dict image then Inr (projected, private_paths)
     else bindE (if aget (entries image) (lit ''built_at_utc'') = None then Inr ()
                 else validate_timestamp (jget image ''built_at_utc'') ''identity.immutable_image.built_at_utc'' True) (\<lambda>_.
          Inr (if is_str (jget image ''reason'')
               then jput ''immutable_image''
                      (jput ''reason'' (JStr (sanitize_diagnostic_text c private_paths (str_of (jget image ''reason'')))) image)
                      projected
               else projected, private_paths)))"

definition public_identity_projection :: "settings \<Rightarrow> json \<Rightarrow> exn + json" where
  "public_identity_projection c identity = bindE (project_identity c identity) (\<lambda>(projected, ps). Inr projected)"

section \<open>The provenance\<close>

definition validate_provenance_timestamps :: "json \<Rightarrow> exn + unit" where
  "validate_provenance_timestamps provenance =
     bindE (if aget (entries provenance) (lit ''timestamps'') = None then Inr ()
            else bindE (guardE (is_dict (jget provenance ''timestamps'')) ValueError
                          ''provenance timestamps must be an object'') (\<lambda>_.
                 bindE (mapE (\<lambda>(name, v). validate_timestamp v ''provenance.timestamps'' False)
                          (entries (jget provenance ''timestamps''))) (\<lambda>_. Inr ()))) (\<lambda>_.
     let native_execution = jget provenance ''native_execution'' in
     if native_execution = JNull then Inr ()
     else bindE (guardE (is_dict native_execution) ValueError
                   ''provenance native_execution must be an object or null'') (\<lambda>_.
          bindE (mapE (\<lambda>name. if aget (entries native_execution) (lit name) = None then Inr ()
                             else validate_timestamp (jget native_execution name) ''provenance.native_execution'' False)
                   [''started_at'', ''completed_at'']) (\<lambda>_. Inr ())))"

text \<open>\<open>argv[0]\<close> is reduced to its basename.\<close>

definition project_command :: "json \<Rightarrow> json" where
  "project_command provenance =
     (let execution = jget provenance ''native_execution'' in
      case jget execution ''command'' of
        JList (JStr program # arguments) \<Rightarrow>
          if is_dict execution \<and> starts_with (lit ''/'') program
          then jput ''native_execution''
                 (jput ''command'' (JList (JStr (path_name program) # arguments)) execution) provenance
          else provenance
      | _ \<Rightarrow> provenance)"

definition sanitize_field :: "settings \<Rightarrow> ustr list \<Rightarrow> string \<Rightarrow> json \<Rightarrow> json" where
  "sanitize_field c ps name v =
     (case aget (entries v) (lit name) of None \<Rightarrow> v | Some x \<Rightarrow> jput name (sanitize_diagnostic c ps x) v)"

definition project_software_identity :: "settings \<Rightarrow> json \<Rightarrow> exn + json \<times> ustr list" where
  "project_software_identity c provenance =
     (case aget (entries provenance) (lit ''software_identity'') of
        None \<Rightarrow> Inr (provenance, [])
      | Some identity \<Rightarrow> bindE (project_identity c identity) (\<lambda>(projected, ps).
          Inr (jput ''software_identity'' projected provenance, ps)))"

definition project_materialization :: "settings \<Rightarrow> ustr list \<Rightarrow> json \<Rightarrow> json \<times> ustr list" where
  "project_materialization c ps provenance =
     (let configuration = jget provenance ''configuration'';
          materialization = jget configuration ''materialization'' in
      if is_dict configuration \<and> is_dict materialization
      then (let (reduced, removed) = remove_nested_field [''source_directory''] materialization;
                ps' = ps @ (case removed of None \<Rightarrow> [] | Some s \<Rightarrow> [s])
            in (jput ''configuration''
                  (jput ''materialization''
                     (fold (sanitize_field c ps') [''profile_helper'', ''strec_helper'', ''failure''] reduced)
                     configuration) provenance, ps'))
      else (provenance, ps))"

definition public_provenance_projection :: "settings \<Rightarrow> json \<Rightarrow> exn + json" where
  "public_provenance_projection c provenance =
     bindE (guardE (is_dict provenance) ValueError ''provenance is not an object'') (\<lambda>_.
     bindE (project_software_identity c provenance) (\<lambda>(p1, ps1).
     let (p3, ps2) = project_materialization c ps1 (project_command p1);
         p4 = fold (sanitize_field c ps2) [''warnings'', ''failure''] p3 in
     bindE (validate_provenance_timestamps p4) (\<lambda>_. Inr p4)))"

section \<open>What is removed\<close>

fun lookup_field :: "string list \<Rightarrow> json \<Rightarrow> json option" where
  "lookup_field [] v = Some v"
| "lookup_field (name # path) v =
     (case v of
        JObj kvs \<Rightarrow> (case aget kvs (lit name) of None \<Rightarrow> None | Some child \<Rightarrow> lookup_field path child)
      | _ \<Rightarrow> None)"

lemma lookup_removed: "p \<noteq> [] \<Longrightarrow> lookup_field p (fst (remove_nested_field p v)) = None"
  by (induction p v rule: remove_nested_field.induct)
     (auto simp: Let_def case_prod_beta split: json.splits option.splits)

lemma lookup_removed_other:
  "lookup_field q v = None \<Longrightarrow> lookup_field q (fst (remove_nested_field p v)) = None"
proof (induction p v arbitrary: q rule: remove_nested_field.induct)
  case (3 name inner path v)
  show ?case
  proof (cases q)
    case (Cons m q')
    show ?thesis
    proof (cases v)
      case (JObj kvs)
      show ?thesis
      proof (cases "aget kvs (lit name)")
        case (Some child)
        obtain child' r where c: "remove_nested_field (inner # path) child = (child', r)" by fastforce
        have "lookup_field q' child' = None" if "m = name"
          using "3.IH" [OF JObj Some, of q'] "3.prems" JObj Some Cons that c by simp
        then show ?thesis
          using "3.prems" by (auto simp: Cons JObj Some c split: option.splits)
      qed (use "3.prems" JObj in simp)
    qed (use "3.prems" in simp_all)
  qed (use "3.prems" in simp)
next
  case (2 name v)
  then show ?case by (cases q; cases v) (auto split: option.splits)
qed simp

lemma remove_fields_keeps_none:
  "lookup_field q v = None \<Longrightarrow> lookup_field q (fst (remove_fields ps v)) = None"
proof (induction ps arbitrary: v)
  case (Cons p ps)
  from Cons.IH [OF lookup_removed_other [OF Cons.prems]] show ?case
    by (simp add: Let_def case_prod_beta)
qed simp

lemma remove_fields_none:
  "p \<in> set ps \<Longrightarrow> p \<noteq> [] \<Longrightarrow> lookup_field p (fst (remove_fields ps v)) = None"
proof (induction ps arbitrary: v)
  case (Cons r ps)
  obtain v1 x where r: "remove_nested_field r v = (v1, x)" by fastforce
  have "lookup_field p (fst (remove_fields ps v1)) = None"
  proof (cases "p = r")
    case True
    then show ?thesis using lookup_removed [OF Cons.prems(2), of v] r by (intro remove_fields_keeps_none) simp
  qed (use Cons in simp)
  then show ?case by (simp add: r Let_def case_prod_beta)
qed simp

lemma lookup_jput:
  "lookup_field (m # q) (jput n v j) = (if m = n then lookup_field q v
     else case aget (entries j) (lit m) of None \<Rightarrow> None | Some x \<Rightarrow> lookup_field q x)"
  by (auto simp: jput_def split: option.splits)

lemma lookup_dict: "is_dict j \<Longrightarrow> lookup_field (m # q) j
    = (case aget (entries j) (lit m) of None \<Rightarrow> None | Some x \<Rightarrow> lookup_field q x)"
  by (cases j) auto

text \<open>Fields that no removed path leads to, and that lead to no removed one, stay.\<close>

lemma lookup_kept:
  assumes "\<not> prefix p q" "\<not> prefix q p"
  shows "lookup_field q (fst (remove_nested_field p v)) = lookup_field q v"
  using assms
proof (induction p v arbitrary: q rule: remove_nested_field.induct)
  case (3 name inner path v)
  show ?case
  proof (cases q)
    case (Cons m q')
    show ?thesis
    proof (cases v)
      case (JObj kvs)
      show ?thesis
      proof (cases "aget kvs (lit name)")
        case (Some child)
        obtain child' r where c: "remove_nested_field (inner # path) child = (child', r)" by fastforce
        have "lookup_field q' child' = lookup_field q' child" if "m = name"
          using "3.IH" [OF JObj Some, of q'] "3.prems" Cons that c by simp
        then show ?thesis by (auto simp: Cons JObj Some c)
      qed (simp add: JObj)
    qed simp_all
  qed (use "3.prems" in simp)
next
  case (2 name v)
  then show ?case by (cases q; cases v) auto
qed simp

section \<open>What a replacement leaves\<close>

text \<open>\<open>substituted r s t\<close>: \<open>t\<close> is \<open>s\<close> with some of its parts replaced by \<open>r\<close>.\<close>

inductive substituted :: "ustr \<Rightarrow> ustr \<Rightarrow> ustr \<Rightarrow> bool" for r where
  sub_end: "substituted r [] []"
| sub_keep: "substituted r s t \<Longrightarrow> substituted r (c # s) (c # t)"
| sub_replace: "substituted r s t \<Longrightarrow> substituted r (x @ s) (r @ t)"

lemma starts_with_split: "starts_with p s \<Longrightarrow> s = p @ drop (length p) s"
  by (simp add: starts_withD)

lemma dropped_part: "starts_with p (c # s) \<Longrightarrow> p \<noteq> [] \<Longrightarrow> c # s = p @ drop (length p - 1) s"
  by (drule starts_with_split) (cases p; simp)

lemma substituted_replace_all: "substituted new s (replace_all old new s)"
proof (induction old new s rule: replace_all.induct)
  case (2 old new c s)
  show ?case
  proof (cases "old \<noteq> [] \<and> starts_with old (c # s)")
    case True
    then have whole: "c # s = old @ drop (length old - 1) s" using dropped_part by blast
    have "replace_all old new (c # s) = new @ replace_all old new (drop (length old - 1) s)"
      using True by simp
    then show ?thesis using sub_replace [OF "2.IH"(1) [OF True], of old] whole by metis
  next
    case False
    with "2.IH"(2) show ?thesis by (auto intro: sub_keep)
  qed
qed (simp add: sub_end)

lemma after_root_suffix: "\<exists>x. s = x @ after_root s"
proof (cases s rule: after_root.cases)
  case (1 c d s')
  have "\<exists>x. d # s' = x @ dropWhile (\<lambda>c. \<not> path_end c) (d # s')"
    by (metis takeWhile_dropWhile_id)
  with 1 show ?thesis by (metis after_root.simps(1) append_Cons append_Nil)
qed auto

lemma substituted_replace_root: "substituted PRIVATE_PATH s (replace_root base s)"
proof (induction base s rule: replace_root.induct)
  case (2 base c s)
  show ?case
  proof (cases "base \<noteq> [] \<and> starts_with base (c # s)")
    case True
    obtain x where x: "drop (length base - 1) s = x @ after_root (drop (length base - 1) s)"
      using after_root_suffix by blast
    have whole: "c # s = (base @ x) @ after_root (drop (length base - 1) s)"
      using dropped_part [of base c s] True x by simp
    have "replace_root base (c # s) = PRIVATE_PATH @ replace_root base (after_root (drop (length base - 1) s))"
      using True by simp
    then show ?thesis using sub_replace [OF "2.IH"(1) [OF True], of "base @ x"] whole by metis
  next
    case False
    with "2.IH"(2) show ?thesis by (auto intro: sub_keep)
  qed
qed (simp add: sub_end)

text \<open>A text that shares neither end of the replacement cannot appear by replacing.\<close>

definition foreign :: "ustr \<Rightarrow> ustr \<Rightarrow> bool" where
  "foreign r p \<longleftrightarrow> p \<noteq> [] \<and> r \<noteq> [] \<and> hd r \<notin> set p \<and> last r \<notin> set p \<and> \<not> sublist p r"

lemma substituted_prefix:
  "substituted r s t \<Longrightarrow> r \<noteq> [] \<Longrightarrow> prefix p t \<Longrightarrow> hd r \<notin> set p \<Longrightarrow> prefix p s"
proof (induction arbitrary: p rule: substituted.induct)
  case (sub_keep s t c)
  then show ?case by (cases p) auto
next
  case (sub_replace s t x)
  obtain h r' where r: "r = h # r'" using sub_replace.prems(1) by (cases r) auto
  have "p = []"
  proof (cases p)
    case (Cons a p')
    with sub_replace.prems(2) r have "a = h" by simp
    with sub_replace.prems(3) r Cons show ?thesis by simp
  qed
  then show ?case by simp
qed simp

lemma sublist_across:
  assumes "sublist p (r @ t)" "\<not> sublist p r" "last r \<notin> set p" "r \<noteq> []"
  shows "sublist p t"
proof -
  have "\<exists>p1 p2. p = p1 @ p2 \<and> suffix p1 r \<and> prefix p2 t" if "\<not> sublist p t"
    using assms(1,2) that by (auto simp: sublist_append)
  moreover have "last r \<in> set p1" if "suffix p1 r" "p1 \<noteq> []" for p1
    using that by (auto simp: suffix_def)
  ultimately show ?thesis
    using assms(3) prefix_imp_sublist by fastforce
qed

lemma substituted_sublist:
  assumes "substituted r s t" "sublist p t" "foreign r p"
  shows "sublist p s"
  using assms
proof (induction rule: substituted.induct)
  case (sub_keep s t c)
  from sub_keep.prems(1) consider "prefix p (c # t)" | "sublist p t"
    by (auto simp: sublist_Cons_right)
  then show ?case
  proof cases
    case 1
    from substituted_prefix [OF substituted.sub_keep [OF sub_keep.hyps] _ 1] sub_keep.prems(2)
    show ?thesis by (simp add: foreign_def prefix_imp_sublist)
  next
    case 2
    with sub_keep show ?thesis by (simp add: sublist_Cons_right)
  qed
next
  case (sub_replace s t x)
  then have "sublist p t" using sublist_across by (auto simp: foreign_def)
  with sub_replace have "sublist p s" by simp
  then obtain a b where "s = a @ p @ b" by (auto simp: sublist_def)
  then have "x @ s = (x @ a) @ p @ b" by simp
  then show ?case unfolding sublist_def by blast
qed simp

lemma starts_with_prefix: "starts_with p s \<longleftrightarrow> prefix p s"
  by (auto simp: starts_with_def prefix_def) (metis append_take_drop_id)

lemma replace_all_removes: "foreign new p \<Longrightarrow> \<not> sublist p (replace_all p new s)"
proof (induction p new s rule: replace_all.induct)
  case (1 p new)
  then show ?case by (simp add: foreign_def)
next
  case (2 p new c s)
  show ?case
  proof (cases "p \<noteq> [] \<and> starts_with p (c # s)")
    case True
    with "2.IH"(1) [OF True "2.prems"] "2.prems" show ?thesis
      using sublist_across [of p new] by (auto simp: foreign_def)
  next
    case False
    have "\<not> prefix p (c # replace_all p new s)"
    proof
      assume "prefix p (c # replace_all p new s)"
      from substituted_prefix [OF sub_keep [OF substituted_replace_all] _ this] "2.prems"
      have "prefix p (c # s)" by (simp add: foreign_def)
      with False "2.prems" show False by (simp add: starts_with_prefix foreign_def)
    qed
    with "2.IH"(2) [OF False "2.prems"] False show ?thesis by (auto simp: sublist_Cons_right)
  qed
qed

lemma replace_root_removes: "foreign PRIVATE_PATH p \<Longrightarrow> \<not> sublist p (replace_root p s)"
proof (induction p s rule: replace_root.induct)
  case (1 p)
  then show ?case by (simp add: foreign_def)
next
  case (2 p c s)
  show ?case
  proof (cases "p \<noteq> [] \<and> starts_with p (c # s)")
    case True
    with "2.IH"(1) [OF True "2.prems"] "2.prems" show ?thesis
      using sublist_across [of p PRIVATE_PATH] by (auto simp: foreign_def)
  next
    case False
    have "\<not> prefix p (c # replace_root p s)"
    proof
      assume "prefix p (c # replace_root p s)"
      from substituted_prefix [OF sub_keep [OF substituted_replace_root] _ this] "2.prems"
      have "prefix p (c # s)" by (simp add: foreign_def)
      with False "2.prems" show False by (simp add: starts_with_prefix foreign_def)
    qed
    with "2.IH"(2) [OF False "2.prems"] False show ?thesis by (auto simp: sublist_Cons_right)
  qed
qed

text \<open>A fold of replacements leaves none of the texts it removed, nor one that was not there.\<close>

lemma fold_substituted_none:
  assumes "\<And>x s. x \<in> set xs \<Longrightarrow> substituted PRIVATE_PATH s (f x s)" "foreign PRIVATE_PATH p"
    and "\<not> sublist p s"
  shows "\<not> sublist p (fold f xs s)"
  using assms(1,3)
proof (induction xs arbitrary: s)
  case (Cons x xs)
  have "\<not> sublist p (f x s)"
    using substituted_sublist [OF Cons.prems(1) _ assms(2)] Cons.prems(2) by auto
  with Cons show ?case by simp
qed simp

lemma fold_substituted_removes:
  assumes "\<And>x s. x \<in> set xs \<Longrightarrow> substituted PRIVATE_PATH s (f x s)" "foreign PRIVATE_PATH p"
    and "p \<in> set xs" "\<And>s. \<not> sublist p (f p s)"
  shows "\<not> sublist p (fold f xs s)"
  using assms(1,3)
proof (induction xs arbitrary: s)
  case (Cons x xs)
  show ?case
  proof (cases "x = p")
    case True
    have "\<not> sublist p (fold f xs (f p s))"
      by (rule fold_substituted_none) (use Cons.prems(1) assms(2,4) in auto)
    then show ?thesis by (simp add: True)
  qed (use Cons in simp)
qed simp

lemma sanitized_text:
  assumes "foreign PRIVATE_PATH p" "p \<in> set private_paths \<or> p \<in> set (private_roots c)"
  shows "\<not> sublist p (sanitize_diagnostic_text c private_paths s)"
proof -
  have nonempty: "p \<noteq> []" using assms(1) by (simp add: foreign_def)
  let ?paths = "filter (\<lambda>p. p \<noteq> []) (sort_key (\<lambda>p. - int (length p)) (remdups private_paths))"
  let ?roots = "filter (\<lambda>r. r \<noteq> []) (private_roots c)"
  show ?thesis
  proof (cases "p \<in> set (private_roots c)")
    case True
    then show ?thesis
      unfolding sanitize_diagnostic_text_def
      by (intro fold_substituted_removes [where p = p] substituted_replace_root assms(1) replace_root_removes)
         (use nonempty in simp_all)
  next
    case False
    with assms(2) have "p \<in> set private_paths" by simp
    then have "\<not> sublist p (fold (\<lambda>p. replace_all p PRIVATE_PATH) ?paths s)"
      by (intro fold_substituted_removes [where p = p] substituted_replace_all assms(1) replace_all_removes)
         (use nonempty in simp_all)
    then show ?thesis
      unfolding sanitize_diagnostic_text_def
      by (rule fold_substituted_none [OF substituted_replace_root assms(1)])
  qed
qed

end
