(* ===== verification/Projection_Properties.thy ===== *)
theory Projection_Properties
  imports Projections Samples
begin

text \<open>
  No private path leaves the service through an identity or a provenance object: the private fields
  are gone, and the texts of diagnostics name neither their values nor a private root.
\<close>

section \<open>Every removed value is collected\<close>

lemma removed_value:
  "p \<noteq> [] \<Longrightarrow> lookup_field p v = Some (JStr x) \<Longrightarrow> x \<noteq> [] \<Longrightarrow> snd (remove_nested_field p v) = Some x"
  by (induction p v rule: remove_nested_field.induct)
     (auto simp: Let_def case_prod_beta nonempty_text_def split: json.splits option.splits)

lemma removed_values:
  assumes "p \<in> set ps" "p \<noteq> []" "\<And>q. q \<in> set ps \<Longrightarrow> q \<noteq> p \<Longrightarrow> \<not> prefix q p \<and> \<not> prefix p q"
    and "lookup_field p v = Some (JStr x)" "x \<noteq> []"
  shows "x \<in> set (snd (remove_fields ps v))"
  using assms
proof (induction ps arbitrary: v)
  case (Cons r ps)
  show ?case
  proof (cases "r = p")
    case True
    then show ?thesis
      using removed_value [OF Cons.prems(2,4,5)] by (simp add: Let_def case_prod_beta)
  next
    case False
    have "lookup_field p (fst (remove_nested_field r v)) = Some (JStr x)"
      using lookup_kept [of r p v] Cons.prems(3) [of r] False Cons.prems(4) by simp
    with Cons False show ?thesis
      by (auto simp: Let_def case_prod_beta split: option.splits)
  qed
qed simp

lemma private_fields_apart:
  "p \<in> set PRIVATE_IDENTITY_FIELDS \<Longrightarrow> q \<in> set PRIVATE_IDENTITY_FIELDS \<Longrightarrow> q \<noteq> p \<Longrightarrow> \<not> prefix q p \<and> \<not> prefix p q"
proof -
  have "list_all (\<lambda>p. list_all (\<lambda>q. q \<noteq> p \<longrightarrow> \<not> prefix q p \<and> \<not> prefix p q) PRIVATE_IDENTITY_FIELDS) PRIVATE_IDENTITY_FIELDS"
    by code_simp
  then show "p \<in> set PRIVATE_IDENTITY_FIELDS \<Longrightarrow> q \<in> set PRIVATE_IDENTITY_FIELDS \<Longrightarrow> q \<noteq> p \<Longrightarrow> ?thesis"
    unfolding list_all_iff by blast
qed

lemma private_fields_shape:
  assumes "p \<in> set PRIVATE_IDENTITY_FIELDS"
  shows "p \<noteq> []" "p \<noteq> [''immutable_image'', ''reason'']" "\<exists>q. p = ''immutable_image'' # q \<and> hd q \<noteq> ''reason'' \<and> q \<noteq> []"
  using assms by (auto simp: PRIVATE_IDENTITY_FIELDS_def)

lemma lookup_entries: "lookup_field (m # q) v = (case aget (entries v) (lit m) of None \<Rightarrow> None | Some x \<Rightarrow> lookup_field q x)"
  by (cases v) auto

declare lookup_field.simps(2) [simp del]

lemma dict_entry: "aget (entries v) k = Some x \<Longrightarrow> is_dict v"
  by (cases v) auto

section \<open>The identity\<close>

definition reason_path :: "string list" where
  "reason_path = [''immutable_image'', ''reason'']"

lemma projected_identity:
  assumes "project_identity c identity = Inr (projected, ps)"
  shows "is_dict identity" "ps = snd (remove_fields PRIVATE_IDENTITY_FIELDS identity)"
    "p \<in> set PRIVATE_IDENTITY_FIELDS \<Longrightarrow> lookup_field p projected = None"
    "lookup_field reason_path projected = Some (JStr t) \<Longrightarrow> x \<in> set ps \<or> x \<in> set (private_roots c) \<Longrightarrow>
      foreign PRIVATE_PATH x \<Longrightarrow> \<not> sublist x t"
proof -
  let ?r = "fst (remove_fields PRIVATE_IDENTITY_FIELDS identity)"
  let ?image = "jget ?r ''immutable_image''"
  let ?text = "sanitize_diagnostic_text c ps (str_of (jget ?image ''reason''))"
  show "is_dict identity" "ps = snd (remove_fields PRIVATE_IDENTITY_FIELDS identity)"
    using assms
    by (cases "remove_fields PRIVATE_IDENTITY_FIELDS identity",
        auto simp: project_identity_def result_simps Let_def split: if_splits)+
  then have proj: "projected = ?r \<and> \<not> (is_dict ?image \<and> is_str (jget ?image ''reason''))
      \<or> is_dict ?image \<and> projected = jput ''immutable_image'' (jput ''reason'' (JStr ?text) ?image) ?r"
    using assms
    by (cases "remove_fields PRIVATE_IDENTITY_FIELDS identity")
       (auto simp: project_identity_def result_simps Let_def split: if_splits)
  show "lookup_field p projected = None" if "p \<in> set PRIVATE_IDENTITY_FIELDS"
  proof -
    have none: "lookup_field p ?r = None"
      by (rule remove_fields_none [OF that private_fields_shape(1) [OF that]])
    from private_fields_shape(3) [OF that] obtain q where q: "p = ''immutable_image'' # q" "hd q \<noteq> ''reason''" "q \<noteq> []"
      by blast
    show ?thesis
    proof (cases "projected = ?r")
      case False
      with proj have d: "is_dict ?image" and e: "projected = jput ''immutable_image'' (jput ''reason'' (JStr ?text) ?image) ?r"
        by auto
      have "lookup_field q ?image = None"
        using none d by (auto simp: q(1) jget_def lookup_entries split: option.splits)
      with d q(2,3) have "lookup_field q (jput ''reason'' (JStr ?text) ?image) = None"
        by (cases q) (auto simp: lookup_entries)
      then show ?thesis by (simp add: e q(1) lookup_entries)
    qed (simp add: none)
  qed
  show "\<not> sublist x t" if "lookup_field reason_path projected = Some (JStr t)" "x \<in> set ps \<or> x \<in> set (private_roots c)"
    "foreign PRIVATE_PATH x"
  proof -
    have "t = ?text"
    proof (cases "projected = ?r \<and> \<not> (is_dict ?image \<and> is_str (jget ?image ''reason''))")
      case True
      then have "lookup_field reason_path ?r = Some (JStr t)" using that(1) by simp
      then have "is_dict ?image \<and> jget ?image ''reason'' = JStr t"
        by (auto simp: reason_path_def jget_def lookup_entries split: option.splits intro: dict_entry)
      with True show ?thesis by simp
    next
      case False
      with proj have "projected = jput ''immutable_image'' (jput ''reason'' (JStr ?text) ?image) ?r" by blast
      with that(1) show ?thesis by (simp add: reason_path_def lookup_entries)
    qed
    then show ?thesis using sanitized_text [OF that(3,2)] by simp
  qed
qed

text \<open>
  C27: The published identity of the service carries none of the private filesystem facts: every
  private field is absent, and the readiness reason it may contain names neither a removed value nor
  a private root (a value that neither occurs in the placeholder nor shares its delimiters).
\<close>

theorem public_identity_is_private:
  assumes "public_identity_projection c identity = Inr projected"
  shows "(\<forall>p \<in> set PRIVATE_IDENTITY_FIELDS. lookup_field p projected = None)
    \<and> (\<forall>t x p. lookup_field [''immutable_image'', ''reason''] projected = Some (JStr t) \<longrightarrow> foreign PRIVATE_PATH x \<longrightarrow>
         x \<in> set (private_roots c) \<or> (p \<in> set PRIVATE_IDENTITY_FIELDS \<and> lookup_field p identity = Some (JStr x)) \<longrightarrow>
         \<not> sublist x t)"
proof -
  obtain ps where p: "project_identity c identity = Inr (projected, ps)"
    using assms by (auto simp: public_identity_projection_def result_simps)
  have "x \<in> set ps" if "p \<in> set PRIVATE_IDENTITY_FIELDS" "lookup_field p identity = Some (JStr x)" "foreign PRIVATE_PATH x" for x p
    unfolding projected_identity(2) [OF p]
    by (rule removed_values [OF that(1) private_fields_shape(1) [OF that(1)]])
       (use private_fields_apart that in \<open>auto simp: foreign_def\<close>)
  then show ?thesis
    using projected_identity(3,4) [OF p] unfolding reason_path_def by blast
qed

section \<open>The provenance\<close>

lemma kept_entries:
  "n \<noteq> ''native_execution'' \<Longrightarrow> aget (entries (project_command v)) (lit n) = aget (entries v) (lit n)"
  "n \<noteq> ''configuration'' \<Longrightarrow> aget (entries (fst (project_materialization c ps v))) (lit n) = aget (entries v) (lit n)"
  "n \<noteq> m \<Longrightarrow> aget (entries (sanitize_field c ps m v)) (lit n) = aget (entries v) (lit n)"
  by (auto simp: project_command_def project_materialization_def sanitize_field_def Let_def case_prod_beta
      split: json.splits list.splits option.splits)

fun json_texts :: "json \<Rightarrow> ustr list" where
  "json_texts (JStr s) = [s]"
| "json_texts (JList vs) = concat (map json_texts vs)"
| "json_texts (JObj kvs) = concat (map (\<lambda>(k, v). json_texts v) kvs)"
| "json_texts v = []"

lemma sanitized_texts: "t \<in> set (json_texts (sanitize_diagnostic c ps v)) \<Longrightarrow> \<exists>s. t = sanitize_diagnostic_text c ps s"
proof (induction c ps v rule: sanitize_diagnostic.induct)
  case (3 c ps kvs)
  then obtain k v where v: "(k, v) \<in> set kvs" "t \<in> set (json_texts (sanitize_diagnostic c ps v))"
    by (auto simp: case_prod_beta)
  from "3.IH" [OF v(1) refl v(2)] show ?case .
qed auto

lemma sanitized_field_text:
  "aget (entries (sanitize_field c ps n v)) (lit n) = Some x \<Longrightarrow> t \<in> set (json_texts x) \<Longrightarrow>
    \<exists>s. t = sanitize_diagnostic_text c ps s"
  by (auto simp: sanitize_field_def sanitized_texts split: option.splits)

lemma fold_sanitized_text:
  "n \<in> set names \<Longrightarrow> aget (entries (fold (sanitize_field c ps) names v)) (lit n) = Some x \<Longrightarrow> t \<in> set (json_texts x) \<Longrightarrow>
    \<exists>s. t = sanitize_diagnostic_text c ps s"
proof (induction names arbitrary: v rule: rev_induct)
  case (snoc m names)
  then show ?case
    by (cases "n = m") (auto simp: kept_entries intro: sanitized_field_text)
qed simp

lemma project_materialization_cases:
  "\<not> (is_dict (jget v ''configuration'') \<and> is_dict (jget (jget v ''configuration'') ''materialization'')) \<Longrightarrow>
    project_materialization c ps v = (v, ps)"
  "is_dict (jget v ''configuration'') \<Longrightarrow> is_dict (jget (jget v ''configuration'') ''materialization'') \<Longrightarrow>
    project_materialization c ps v =
     (let (reduced, removed) = remove_nested_field [''source_directory''] (jget (jget v ''configuration'') ''materialization'');
          ps' = ps @ (case removed of None \<Rightarrow> [] | Some s \<Rightarrow> [s])
      in (jput ''configuration'' (jput ''materialization''
            (fold (sanitize_field c ps') [''profile_helper'', ''strec_helper'', ''failure''] reduced)
            (jget v ''configuration'')) v, ps'))"
  unfolding project_materialization_def Let_def by (simp_all only: if_False if_True simp_thms)

lemma materialization_source:
  assumes "project_materialization c ps v = (w, ps')"
  shows "set ps \<subseteq> set ps'"
    "lookup_field [''configuration'', ''materialization'', ''source_directory''] w = None"
    "lookup_field [''configuration'', ''materialization'', ''source_directory''] v = Some (JStr x) \<Longrightarrow> x \<noteq> [] \<Longrightarrow> x \<in> set ps'"
    "n \<in> {''profile_helper'', ''strec_helper'', ''failure''} \<Longrightarrow>
      lookup_field [''configuration'', ''materialization'', n] w = Some y \<Longrightarrow> t \<in> set (json_texts y) \<Longrightarrow>
      \<exists>s. t = sanitize_diagnostic_text c ps' s"
proof -
  let ?conf = "jget v ''configuration''"
  let ?mat = "jget ?conf ''materialization''"
  let ?names = "[''profile_helper'', ''strec_helper'', ''failure'']"
  have look: "lookup_field [''configuration'', ''materialization'', n] v
      = (if is_dict ?conf \<and> is_dict ?mat then aget (entries ?mat) (lit n) else None)" for n
  proof -
    have "entries j = []" if "\<not> is_dict j" for j using that by (cases j) auto
    then show ?thesis
      by (cases "is_dict ?conf"; cases "is_dict ?mat") (auto simp: lookup_entries jget_def split: option.splits)
  qed
  consider (no) "\<not> (is_dict ?conf \<and> is_dict ?mat)" "w = v" "ps' = ps"
    | (yes) "is_dict ?conf" "is_dict ?mat"
        "ps' = ps @ (case snd (remove_nested_field [''source_directory''] ?mat) of None \<Rightarrow> [] | Some s \<Rightarrow> [s])"
        "w = jput ''configuration'' (jput ''materialization'' (fold (sanitize_field c ps') ?names
           (fst (remove_nested_field [''source_directory''] ?mat))) ?conf) v"
  proof (cases "is_dict ?conf \<and> is_dict ?mat")
    case False
    have "project_materialization c ps v = (v, ps)" by (rule project_materialization_cases(1) [OF False])
    with assms have "w = v" "ps' = ps" by simp_all
    then show ?thesis by (rule no [OF False])
  next
    case True
    then have d: "is_dict ?conf" "is_dict ?mat" by simp_all
    let ?ps = "ps @ (case snd (remove_nested_field [''source_directory''] ?mat) of None \<Rightarrow> [] | Some s \<Rightarrow> [s])"
    have "project_materialization c ps v = (jput ''configuration'' (jput ''materialization''
        (fold (sanitize_field c ?ps) ?names (fst (remove_nested_field [''source_directory''] ?mat))) ?conf) v, ?ps)"
      unfolding project_materialization_cases(2) [OF d] Let_def case_prod_beta ..
    from trans [OF assms [symmetric] this] have "ps' = ?ps" "w = jput ''configuration'' (jput ''materialization''
        (fold (sanitize_field c ?ps) ?names (fst (remove_nested_field [''source_directory''] ?mat))) ?conf) v"
      by (rule prod.inject [THEN iffD1, THEN conjunct2], rule prod.inject [THEN iffD1, THEN conjunct1])
    then show ?thesis by (intro yes [OF d]) simp_all
  qed
  note cases = this
  show "set ps \<subseteq> set ps'" using cases by cases auto
  have fold_keeps: "aget (entries (fold (sanitize_field c qs) ns m)) (lit n) = aget (entries m) (lit n)"
    if "n \<notin> set ns" for n ns m qs
    using that by (induction ns arbitrary: m) (auto simp: kept_entries)
  show "lookup_field [''configuration'', ''materialization'', ''source_directory''] w = None"
    using cases
  proof cases
    case no
    then show ?thesis using look by auto
  next
    case yes
    then show ?thesis
      by (cases ?mat) (auto simp: lookup_entries fold_keeps simp del: fold.simps)
  qed
  show "x \<in> set ps'" if "lookup_field [''configuration'', ''materialization'', ''source_directory''] v = Some (JStr x)" "x \<noteq> []"
    using cases
  proof cases
    case yes
    then show ?thesis using that look [of "''source_directory''"]
      by (cases ?mat) (auto simp: nonempty_text_def)
  qed (use that look in auto)
  show "\<exists>s. t = sanitize_diagnostic_text c ps' s"
    if n: "n \<in> {''profile_helper'', ''strec_helper'', ''failure''}"
      and y: "lookup_field [''configuration'', ''materialization'', n] w = Some y" "t \<in> set (json_texts y)"
    using cases
  proof cases
    case yes
    from y(1) have "aget (entries (fold (sanitize_field c ps') ?names
        (fst (remove_nested_field [''source_directory''] ?mat)))) (lit n) = Some y"
      unfolding yes(4) by (simp add: lookup_entries del: fold.simps split: option.splits)
    from fold_sanitized_text [OF _ this y(2)] n show ?thesis by auto
  next
    case no
    then show ?thesis using look y by auto
  qed
qed

text \<open>Where a provenance object holds diagnostics.\<close>

definition diagnostic_field :: "string list \<Rightarrow> bool" where
  "diagnostic_field f \<longleftrightarrow> (\<exists>n \<in> {''warnings'', ''failure''}. f = [n])
     \<or> (\<exists>n \<in> {''profile_helper'', ''strec_helper'', ''failure''}. f = [''configuration'', ''materialization'', n])"

text \<open>
  C26: The published provenance of a calculation carries no private path: the private fields of its
  software identity and the source directory of its materialization are absent, and no text of its
  warnings, its failure or its materialization diagnostics names a private root, a removed identity
  value or the source directory.
\<close>

theorem public_provenance_is_private:
  assumes "public_provenance_projection c provenance = Inr projected"
  shows "(\<forall>p \<in> set PRIVATE_IDENTITY_FIELDS. lookup_field (''software_identity'' # p) projected = None)
    \<and> lookup_field [''configuration'', ''materialization'', ''source_directory''] projected = None
    \<and> (\<forall>f y t x p. lookup_field f projected = Some y \<longrightarrow> t \<in> set (json_texts y) \<longrightarrow> foreign PRIVATE_PATH x \<longrightarrow>
         diagnostic_field f \<longrightarrow>
         x \<in> set (private_roots c)
         \<or> (p \<in> set PRIVATE_IDENTITY_FIELDS \<and> lookup_field (''software_identity'' # p) provenance = Some (JStr x))
         \<or> lookup_field [''configuration'', ''materialization'', ''source_directory''] provenance = Some (JStr x) \<longrightarrow>
         \<not> sublist x t)"
proof -
  obtain p1 ps1 p3 ps2 where one: "project_software_identity c provenance = Inr (p1, ps1)"
    and two: "project_materialization c ps1 (project_command p1) = (p3, ps2)"
    and four: "projected = fold (sanitize_field c ps2) [''warnings'', ''failure''] p3"
    using assms
    by (cases "project_materialization c (snd (projr (project_software_identity c provenance)))
          (project_command (fst (projr (project_software_identity c provenance))))")
       (auto simp: public_provenance_projection_def result_simps Let_def case_prod_beta)
  note mat = materialization_source [OF two]
  have projected_entries: "aget (entries projected) (lit n) = aget (entries p3) (lit n)"
    if "n \<noteq> ''warnings''" "n \<noteq> ''failure''" for n
    using that by (simp add: four kept_entries)
  have middle: "aget (entries p3) (lit n) = aget (entries p1) (lit n)"
    if "n \<noteq> ''native_execution''" "n \<noteq> ''configuration''" for n
    using kept_entries(2) [OF that(2), of c ps1 "project_command p1"] kept_entries(1) [OF that(1)] by (simp add: two)
  have first: "aget (entries p1) (lit n) = aget (entries provenance) (lit n)" if "n \<noteq> ''software_identity''" for n
    using one that by (auto simp: project_software_identity_def result_simps split: option.splits)
  have gone: "lookup_field (''software_identity'' # p) projected = None" if "p \<in> set PRIVATE_IDENTITY_FIELDS" for p
  proof (cases "aget (entries provenance) (lit ''software_identity'')")
    case None
    then have "p1 = provenance" using one by (simp add: project_software_identity_def)
    with None show ?thesis by (simp add: lookup_entries projected_entries middle)
  next
    case (Some identity)
    then obtain proj where "project_identity c identity = Inr (proj, ps1)" "p1 = jput ''software_identity'' proj provenance"
      using one by (auto simp: project_software_identity_def result_simps)
    with projected_identity(3) [OF this(1) that] show ?thesis
      by (simp add: lookup_entries projected_entries middle)
  qed
  have collected: "x \<in> set ps2"
    if p: "p \<in> set PRIVATE_IDENTITY_FIELDS" and x: "lookup_field (''software_identity'' # p) provenance = Some (JStr x)" "x \<noteq> []" for p x
  proof -
    obtain identity where i: "aget (entries provenance) (lit ''software_identity'') = Some identity" "lookup_field p identity = Some (JStr x)"
      using x by (auto simp: lookup_entries split: option.splits)
    then obtain proj where "project_identity c identity = Inr (proj, ps1)"
      using one by (auto simp: project_software_identity_def result_simps)
    from projected_identity(2) [OF this] have "x \<in> set ps1"
      using removed_values [OF p private_fields_shape(1) [OF p] _ i(2) x(2)] private_fields_apart p by metis
    then show ?thesis using mat(1) by blast
  qed
  have source: "x \<in> set ps2"
    if "lookup_field [''configuration'', ''materialization'', ''source_directory''] provenance = Some (JStr x)" "x \<noteq> []" for x
    using that mat(3) [of x] first kept_entries(1) [of "''configuration''" p1] by (simp add: lookup_entries)
  have lost: "lookup_field [''configuration'', ''materialization'', ''source_directory''] projected = None"
    using mat(2) projected_entries [of "''configuration''"] by (simp add: lookup_entries)
  have texts: "\<exists>s. t = sanitize_diagnostic_text c ps2 s"
    if f: "diagnostic_field f" and y: "lookup_field f projected = Some y" "t \<in> set (json_texts y)" for f y t
    using f unfolding diagnostic_field_def
  proof (elim disjE bexE)
    fix n assume n: "n \<in> {''warnings'', ''failure''}" "f = [n]"
    have m: "n \<in> set [''warnings'', ''failure'']" using n(1) by simp
    from y(1) n(2) have "aget (entries projected) (lit n) = Some y" by (simp add: lookup_entries split: option.splits)
    from fold_sanitized_text [OF m this [unfolded four] y(2)] show ?thesis .
  next
    fix n assume n: "n \<in> {''profile_helper'', ''strec_helper'', ''failure''}" "f = [''configuration'', ''materialization'', n]"
    have "lookup_field f p3 = Some y"
      using y(1) projected_entries [of "''configuration''"] by (simp add: n(2) lookup_entries)
    from mat(4) [OF n(1) this [unfolded n(2)] y(2)] show ?thesis .
  qed
  have hidden: "\<not> sublist x (sanitize_diagnostic_text c ps2 s)"
    if "foreign PRIVATE_PATH x" "x \<in> set (private_roots c)
      \<or> (p \<in> set PRIVATE_IDENTITY_FIELDS \<and> lookup_field (''software_identity'' # p) provenance = Some (JStr x))
      \<or> lookup_field [''configuration'', ''materialization'', ''source_directory''] provenance = Some (JStr x)" for x p s
  proof (rule sanitized_text [OF that(1)])
    have "x \<noteq> []" using that(1) by (simp add: foreign_def)
    then show "x \<in> set ps2 \<or> x \<in> set (private_roots c)" using that(2) collected source by blast
  qed
  show ?thesis
  proof (intro conjI ballI allI impI)
    fix f y t x p
    assume look: "lookup_field f projected = Some y" "t \<in> set (json_texts y)" and x: "foreign PRIVATE_PATH x"
      and f: "diagnostic_field f"
      and private_x: "x \<in> set (private_roots c)
      \<or> (p \<in> set PRIVATE_IDENTITY_FIELDS \<and> lookup_field (''software_identity'' # p) provenance = Some (JStr x))
      \<or> lookup_field [''configuration'', ''materialization'', ''source_directory''] provenance = Some (JStr x)"
    obtain s where "t = sanitize_diagnostic_text c ps2 s" using texts [OF f look] by blast
    with hidden [OF x private_x] show "\<not> sublist x t" by simp
  qed (use gone lost in simp_all)
qed

section \<open>Instances\<close>

definition sample_identity :: json where
  "sample_identity = jobj [(''immutable_image'', jobj
     [(''manifest_path'', jstr ''/x/m''), (''reason'', jstr ''cannot read /x/m'')])]"

lemma sample_foreign: "foreign PRIVATE_PATH (lit ''/x/m'')"
  by code_simp

lemma sample_private_field: "[''immutable_image'', ''manifest_path''] \<in> set PRIVATE_IDENTITY_FIELDS"
  by (simp add: PRIVATE_IDENTITY_FIELDS_def)

lemma sample_removed:
  "fst (remove_fields PRIVATE_IDENTITY_FIELDS sample_identity)
     = jobj [(''immutable_image'', jobj [(''reason'', jstr ''cannot read /x/m'')])]"
  by code_simp

lemma sample_projected:
  "\<exists>p t. project_identity sample_cfg sample_identity = Inr (p, snd (remove_fields PRIVATE_IDENTITY_FIELDS sample_identity))
     \<and> lookup_field [''immutable_image'', ''reason''] p = Some (JStr t)"
proof -
  obtain ps where r: "remove_fields PRIVATE_IDENTITY_FIELDS sample_identity
      = (jobj [(''immutable_image'', jobj [(''reason'', jstr ''cannot read /x/m'')])], ps)"
    using sample_removed by (metis prod.collapse)
  have none: "aget (entries (jobj [(''reason'', jstr ''cannot read /x/m'')])) (lit ''built_at_utc'') = None"
    by (simp add: jobj_def)
  show ?thesis
    by (simp add: project_identity_def r none Let_def lookup_entries) (simp add: sample_identity_def lookup_entries)
qed

theorem public_identity_is_private_witness:
  "\<exists>p t. public_identity_projection sample_cfg sample_identity = Inr p
     \<and> lookup_field [''immutable_image'', ''manifest_path''] p = None
     \<and> lookup_field [''immutable_image'', ''reason''] p = Some (JStr t) \<and> \<not> sublist (lit ''/x/m'') t"
proof -
  obtain p t where p: "public_identity_projection sample_cfg sample_identity = Inr p"
      "lookup_field [''immutable_image'', ''reason''] p = Some (JStr t)"
    using sample_projected by (auto simp: public_identity_projection_def)
  have "lookup_field [''immutable_image'', ''manifest_path''] sample_identity = Some (JStr (lit ''/x/m''))"
    by (simp add: sample_identity_def lookup_entries jobj_def)
  with public_identity_is_private [OF p(1)] p sample_foreign sample_private_field show ?thesis by blast
qed

definition sample_provenance :: json where
  "sample_provenance = jobj [(''software_identity'', sample_identity), (''failure'', jstr ''at /x/m'')]"

theorem public_provenance_is_private_witness:
  "\<exists>p t. public_provenance_projection sample_cfg sample_provenance = Inr p
     \<and> lookup_field [''failure''] p = Some (JStr t) \<and> \<not> sublist (lit ''/x/m'') t"
proof -
  obtain i where i: "project_identity sample_cfg sample_identity
      = Inr (i, snd (remove_fields PRIVATE_IDENTITY_FIELDS sample_identity))"
    using sample_projected by blast
  obtain p t where p: "public_provenance_projection sample_cfg sample_provenance = Inr p" "lookup_field [''failure''] p = Some (JStr t)"
    using i
    by (simp add: public_provenance_projection_def project_software_identity_def project_command_def
        project_materialization_def sanitize_field_def validate_provenance_timestamps_def sample_provenance_def
        jobj_def jput_def jget_def aput_def lookup_entries Let_def)
  have x: "lookup_field (''software_identity'' # [''immutable_image'', ''manifest_path'']) sample_provenance = Some (JStr (lit ''/x/m''))"
    by (simp add: sample_provenance_def sample_identity_def lookup_entries jobj_def)
  have field: "diagnostic_field [''failure'']" by (simp add: diagnostic_field_def)
  have "\<not> sublist (lit ''/x/m'') t"
    using public_provenance_is_private [OF p(1)] p(2) field x sample_foreign sample_private_field json_texts.simps(1) [of t]
    by (metis list.set_intros(1))
  with p show ?thesis by blast
qed

end
