(* ===== verification/Views.thy ===== *)
theory Views
  imports Reconcile Projections
begin

text \<open>
  \<open>public_views.py\<close>: the read-only views of the durable state. Rows are the JSON objects the service
  answers with. A view reads the store once; nothing here writes.
\<close>

section \<open>Problems\<close>

definition problem :: "string \<Rightarrow> ustr \<Rightarrow> string \<Rightarrow> exn" where
  "problem source entry message =
     Exn (DurableStateError [(source, entry, message)]) ''durable calculation state is malformed''"

definition as_problem :: "string \<Rightarrow> ustr \<Rightarrow> exn + 'a \<Rightarrow> exn + 'a" where
  "as_problem source entry r =
     (case r of
        Inl e \<Rightarrow> if is_os_error e \<or> is_type_error e \<or> is_value_error e
                  then Inl (problem source entry (exn_message e)) else Inl e
      | Inr x \<Rightarrow> Inr x)"

definition scan_problems :: "string \<Rightarrow> (ustr \<times> exn) list \<Rightarrow> (string \<times> ustr \<times> string) list" where
  "scan_problems source errors = map (\<lambda>(entry, e). (source, entry, exn_message e)) errors"

section \<open>Merging the queue and the current records\<close>

text \<open>The table from sequences to records, with where each was found.\<close>

type_synonym record_table = "(int \<times> string \<times> calculation_record) list"

fun merge_into ::
  "string \<Rightarrow> calculation_record list \<Rightarrow> record_table \<Rightarrow> exn + record_table" where
  "merge_into source [] table = Inr table"
| "merge_into source (r # rs) table =
     (case aget table (sequence_of r) of
        Some (location, existing) \<Rightarrow>
          if r_event_id existing \<noteq> r_event_id r
          then Inl (problem (location @ ''/'' @ source) (decimal (nat (sequence_of r)))
                 ''the same internal sequence has conflicting calculation identities'')
          else merge_into source rs
                 (if source = ''current'' then aput (sequence_of r) (source, r) table else table)
      | None \<Rightarrow> merge_into source rs (aput (sequence_of r) (source, r) table))"

definition merge_records ::
  "calculation_record list \<Rightarrow> calculation_record list \<Rightarrow> exn + record_table" where
  "merge_records queue_records current_records =
     bindE (merge_into ''queue'' queue_records []) (merge_into ''current'' current_records)"

section \<open>The operational snapshot\<close>

record operational_snapshot =
  v_records :: "calculation_record list"
  v_current_by_event :: "(ustr \<times> calculation_record) list"
  v_current_sequences :: "int list"
  v_queue_progress :: "(int \<times> int \<times> string) list"
  v_maximum_running :: int
  v_running :: int
  v_queued :: int

definition in_state :: "string \<Rightarrow> calculation_record \<Rightarrow> bool" where
  "in_state state r \<longleftrightarrow> r_status r = jstr state"

text \<open>\<open>{record.internal_sequence: record for ...}\<close>: a later record replaces an earlier one.\<close>

definition table_of :: "('a \<Rightarrow> 'k) \<Rightarrow> 'a list \<Rightarrow> ('k \<times> 'a) list" where
  "table_of key xs = fold (\<lambda>x t. aput (key x) x t) xs []"

fun events_with_transaction :: "ustr list \<Rightarrow> fsys \<Rightarrow> exn + ustr list" where
  "events_with_transaction [] s = Inr []"
| "events_with_transaction (e # es) s =
     bindE (current_transaction_present e s) (\<lambda>present.
     bindE (events_with_transaction es s) (\<lambda>rest.
     Inr (if present then e # rest else rest)))"

definition waiting_reason :: "ustr list \<Rightarrow> ustr list \<Rightarrow> bool \<Rightarrow> calculation_record \<Rightarrow> string" where
  "waiting_reason running_events transaction_events exhausted r =
     (if event_id_of r \<in> set running_events \<or> event_id_of r \<in> set transaction_events
      then ''same_event_active''
      else if exhausted then ''worker_capacity''
      else ''awaiting_scheduler'')"

fun queue_progress_from ::
  "int \<Rightarrow> (calculation_record \<Rightarrow> string) \<Rightarrow> calculation_record list \<Rightarrow> (int \<times> int \<times> string) list" where
  "queue_progress_from position reason [] = []"
| "queue_progress_from position reason (r # rs) =
     (sequence_of r, position, reason r) # queue_progress_from (position + 1) reason rs"

definition build_operational_snapshot :: "env \<Rightarrow> fsys \<Rightarrow> exn + operational_snapshot" where
  "build_operational_snapshot E s =
     (let (queue_records, queue_errors) = scan_queue_records E s;
          (current_records, current_errors) = scan_current_records E s;
          problems = scan_problems ''queue'' queue_errors @ scan_problems ''current'' current_errors in
      bindE (if problems \<noteq> [] then Inl (Exn (DurableStateError problems) ''durable calculation state is malformed'')
             else Inr ()) (\<lambda>_.
      let running = table_of sequence_of (filter (in_state ''RUNNING'') (queue_records @ current_records)) in
      bindE (merge_records queue_records current_records) (\<lambda>table.
      let records = map snd (map snd (sort_key fst table));
          running_events = map (event_id_of \<circ> snd) running;
          queued_records = filter (in_state ''QUEUED'') records in
      bindE (events_with_transaction (remdups (map event_id_of queued_records)) s) (\<lambda>transaction_events.
      let exhausted = max_concurrent (cfg E) \<le> int (length running) in
      Inr \<lparr>v_records = records,
           v_current_by_event = table_of event_id_of current_records,
           v_current_sequences = remdups (map sequence_of current_records),
           v_queue_progress =
             queue_progress_from 1 (waiting_reason running_events transaction_events exhausted) queued_records,
           v_maximum_running = max_concurrent (cfg E),
           v_running = int (length running),
           v_queued = int (length queued_records)\<rparr>))))"


section \<open>Rows\<close>

definition SERVICE_PATH_NAMES :: "string list" where
  "SERVICE_PATH_NAMES = [''provenance'', ''product_manifest'', ''service_log'', ''shake_log'']"

definition optional_int :: "int option \<Rightarrow> json" where
  "optional_int v = (case v of None \<Rightarrow> JNull | Some i \<Rightarrow> JInt i)"

definition optional_str :: "string option \<Rightarrow> json" where
  "optional_str v = (case v of None \<Rightarrow> JNull | Some t \<Rightarrow> jstr t)"

definition base_job_row :: "(int \<times> int \<times> string) list \<Rightarrow> calculation_record \<Rightarrow> json" where
  "base_job_row queue_progress r =
     (let progress = (if in_state ''QUEUED'' r then aget queue_progress (sequence_of r) else None) in
      jobj
       [(''event_id'', r_event_id r),
        (''internal_sequence'', r_internal_sequence r),
        (''status'', r_status r),
        (''job_completed'', JBool (in_state ''SUCCESS'' r \<or> in_state ''FAILED'' r)),
        (''products_ready'', JBool (in_state ''SUCCESS'' r)),
        (''queue_position'', optional_int (map_option fst progress)),
        (''waiting_reason'', optional_str (map_option snd progress)),
        (''phase'', jget (r_progress r) ''phase''),
        (''phase_started_at'', jget (r_progress r) ''phase_started_at''),
        (''timestamps'', r_timestamps r),
        (''configuration'', r_configuration r),
        (''overwrite'', r_overwrite r),
        (''native_outcome'', r_native_outcome r),
        (''failure'', r_failure r),
        (''warnings'', r_warnings r),
        (''shared_paths'',
           jobj (map (\<lambda>name. (name, jget (r_shared_paths r) name)) (''products'' # SERVICE_PATH_NAMES)))])"

definition event_row :: "(int \<times> int \<times> string) list \<Rightarrow> calculation_record \<Rightarrow> json" where
  "event_row queue_progress r =
     (let base = base_job_row queue_progress r; timestamps = jget base ''timestamps'' in
      jobj
       [(''event_id'', jget base ''event_id''),
        (''internal_sequence'', jget base ''internal_sequence''),
        (''status'', jget base ''status''),
        (''job_completed'', jget base ''job_completed''),
        (''products_ready'', jget base ''products_ready''),
        (''queue_position'', jget base ''queue_position''),
        (''waiting_reason'', jget base ''waiting_reason''),
        (''phase'', jget base ''phase''),
        (''submitted_at'', jget timestamps ''submitted_at''),
        (''started_at'', jget timestamps ''started_at''),
        (''completed_at'', jget timestamps ''completed_at''),
        (''shared_products_path'', jget (jget base ''shared_paths'') ''products'')])"

definition queue_row :: "(int \<times> int \<times> string) list \<Rightarrow> calculation_record \<Rightarrow> json" where
  "queue_row queue_progress r =
     (let progress = aget queue_progress (sequence_of r) in
      jobj
       [(''event_id'', r_event_id r),
        (''internal_sequence'', r_internal_sequence r),
        (''status'', r_status r),
        (''queue_position'', optional_int (map_option fst progress)),
        (''waiting_reason'', optional_str (map_option snd progress)),
        (''submitted_at'', jget (r_timestamps r) ''submitted_at'')])"

text \<open>The event collection and the queue view, in this order.\<close>

definition build_operational_views :: "env \<Rightarrow> fsys \<Rightarrow> exn + json \<times> json" where
  "build_operational_views E s =
     bindE (build_operational_snapshot E s) (\<lambda>v.
     Inr (jobj [(''jobs'', JList (map (event_row (v_queue_progress v)) (v_records v)))],
          jobj [(''capacity'', jobj
                   [(''maximum_running'', JInt (v_maximum_running v)),
                    (''running'', JInt (v_running v)),
                    (''available'', JInt (max (v_maximum_running v - v_running v) 0)),
                    (''queued'', JInt (v_queued v))]),
                (''jobs'', JList (map (queue_row (v_queue_progress v))
                                    (filter (in_state ''QUEUED'') (v_records v))))]))"

section \<open>Archive trees\<close>

definition ARCHIVE_TIMESTAMP_LENGTH :: nat where
  "ARCHIVE_TIMESTAMP_LENGTH = 23"

text \<open>
  \<open>strptime\<close> with \<open>%Y%m%dT%H%M%S.%fZ\<close> on 23 characters. Every group of its pattern must then take
  all the digits it may, a day may be written with a space, and letters match in both cases. Digits
  are ASCII digits here. The ranges of the groups and of the constructor are those of a date.
\<close>

definition strptime_archive :: "ustr \<Rightarrow> datetime option" where
  "strptime_archive s =
     (let spaced = (length s = 23 \<and> s ! 6 = 32 \<and> s ! 7 \<noteq> 48);
          plain = (if spaced then s[6 := 48] else s);
          upper = map (\<lambda>c. if c = 116 then 84 else if c = 122 then 90 else c) plain in
      case parse_archive_timestamp upper of Inl e \<Rightarrow> None | Inr t \<Rightarrow> Some t)"

definition parse_archive_name :: "ustr \<Rightarrow> exn + ustr \<times> datetime" where
  "parse_archive_name name =
     (let separator = int (length name) - int ARCHIVE_TIMESTAMP_LENGTH - 1;
          n = nat separator in
      bindE (guardE (1 \<le> separator \<and> name ! n = 45) ValueError
               ''archive name does not contain the fixed UTC timestamp suffix'') (\<lambda>_.
      bindE (validate_event_id (JStr (take n name))) (\<lambda>event_id.
      case strptime_archive (drop (n + 1) name) of
        None \<Rightarrow> Inl (Exn ValueError ''archive timestamp is invalid'')
      | Some t \<Rightarrow> Inr (event_id, t))))"

record archive_tree =
  at_name :: ustr
  at_event_id :: ustr
  at_timestamp :: datetime
  at_has_products :: bool
  at_has_service :: bool

definition archive_tree_at :: "fsys \<Rightarrow> ustr \<Rightarrow> exn + archive_tree" where
  "archive_tree_at s name =
     bindE (parse_archive_name name) (\<lambda>(event_id, timestamp).
     bindE (case aget (s Archive) name of
              Some (Dir d) \<Rightarrow> Inr d
            | _ \<Rightarrow> Inl (Exn OSError ''archive entry is not a directory'')) (\<lambda>components.
     bindE (guardE (components \<noteq> [] \<and> set (akeys components) \<subseteq> {lit ''products'', lit ''service''})
              ValueError ''archive components are invalid'') (\<lambda>_.
     bindE (guardE (list_all (\<lambda>(n, child). case child of Dir d \<Rightarrow> True | _ \<Rightarrow> False) components)
              OSError ''archive component is not a directory'') (\<lambda>_.
     Inr \<lparr>at_name = name, at_event_id = event_id, at_timestamp = timestamp,
          at_has_products = (lit ''products'' \<in> set (akeys components)),
          at_has_service = (lit ''service'' \<in> set (akeys components))\<rparr>))))"

text \<open>The order of \<open>os.listdir\<close> is that of the names here; a missing archive has no entry.\<close>

definition archive_trees :: "fsys \<Rightarrow> exn + archive_tree list" where
  "archive_trees s =
     (let (trees, problems) = collect (archive_tree_at s) (listing (s Archive)) in
      bindE (if problems = [] then Inr ()
             else Inl (Exn (DurableStateError (scan_problems ''archive'' problems))
                         ''durable calculation state is malformed'')) (\<lambda>_.
      Inr trees))"


section \<open>Optional evidence files\<close>

definition regular_file :: "string \<Rightarrow> ustr \<Rightarrow> dirc \<Rightarrow> string \<Rightarrow> exn + content option" where
  "regular_file source entry d filename =
     (case aget d (lit filename) of
        None \<Rightarrow> Inr None
      | Some (File c) \<Rightarrow> Inr (Some c)
      | Some (Dir d') \<Rightarrow> Inl (problem source entry (filename @ '' is not a regular file''))
      | Some Special \<Rightarrow> Inl (problem source entry (filename @ '' is unsafe'')))"

definition read_optional_json_object ::
  "path \<Rightarrow> string \<Rightarrow> string \<Rightarrow> ustr \<Rightarrow> json \<Rightarrow> json \<Rightarrow> fsys \<Rightarrow> exn + json option" where
  "read_optional_json_object p filename source entry event_id internal_sequence s =
     bindE (as_problem source entry (open_record_directory p s)) (\<lambda>access.
     bindE (case access of
              None \<Rightarrow> Inl (problem source entry ''directory is missing'') | Some d \<Rightarrow> Inr d) (\<lambda>d.
     bindE (regular_file source entry d filename) (\<lambda>found.
     case found of
       None \<Rightarrow> Inr None
     | Some (Bytes b) \<Rightarrow> Inl (problem source entry (filename @ '' is malformed''))
     | Some (Json payload) \<Rightarrow>
         if \<not> is_dict payload
         then Inl (problem source entry (filename @ '' is not a JSON object''))
         else if jget payload ''event_id'' \<noteq> event_id \<or> \<not> is_int (jget payload ''internal_sequence'')
                 \<or> jget payload ''internal_sequence'' \<noteq> internal_sequence
         then Inl (problem source entry (filename @ '' calculation identity does not match''))
         else Inr (Some payload))))"

definition optional_regular_file :: "path \<Rightarrow> string \<Rightarrow> string \<Rightarrow> ustr \<Rightarrow> fsys \<Rightarrow> exn + bool" where
  "optional_regular_file p filename source entry s =
     bindE (as_problem source entry (open_record_directory p s)) (\<lambda>access.
     case access of
       None \<Rightarrow> Inr False
     | Some d \<Rightarrow> bindE (regular_file source entry d filename) (\<lambda>found. Inr (found \<noteq> None)))"

definition projected_provenance ::
  "settings \<Rightarrow> string \<Rightarrow> ustr \<Rightarrow> json option \<Rightarrow> exn + json option" where
  "projected_provenance c source entry provenance =
     (case provenance of
        None \<Rightarrow> Inr None
      | Some payload \<Rightarrow>
          bindE (as_problem source entry (public_provenance_projection c payload)) (\<lambda>p. Inr (Some p)))"

definition SERVICE_FILES :: "(string \<times> string list \<times> string) list" where
  "SERVICE_FILES =
     [(''product_manifest'', [], ''product-manifest.json''),
      (''service_log'', [''logs''], ''service.log''),
      (''shake_log'', [''logs''], ''shake.log'')]"

text \<open>The shared paths of the regular files present among the three, added to \<open>paths\<close>.\<close>

fun add_service_paths ::
  "path \<Rightarrow> ustr \<Rightarrow> string \<Rightarrow> ustr \<Rightarrow> (string \<times> string list \<times> string) list \<Rightarrow> fsys \<Rightarrow> json \<Rightarrow> exn + json" where
  "add_service_paths service_directory shared source entry [] s paths = Inr paths"
| "add_service_paths service_directory shared source entry ((key, relative, filename) # rest) s paths =
     bindE (optional_regular_file (fst service_directory, snd service_directory @ map lit relative)
              filename source entry s) (\<lambda>present.
     add_service_paths service_directory shared source entry rest s
       (if present
        then jput key (JStr (foldl path_join shared (map lit (relative @ [filename])))) paths
        else paths))"

section \<open>Archive rows\<close>

definition shared_archive_dir :: "settings \<Rightarrow> ustr \<Rightarrow> ustr" where
  "shared_archive_dir c name = shared_service_root c @ lit ''/.service/archive/'' @ name"

definition optional_json :: "json option \<Rightarrow> json" where
  "optional_json v = (case v of None \<Rightarrow> JNull | Some j \<Rightarrow> j)"

text \<open>What the service component of an archive shows: its record, provenance and paths.\<close>

definition archived_service ::
  "settings \<Rightarrow> archive_tree \<Rightarrow> fsys \<Rightarrow> exn + calculation_record option \<times> json option \<times> json" where
  "archived_service c tree s =
     (let absent = jobj (map (\<lambda>name. (name, JNull)) SERVICE_PATH_NAMES);
          service_directory = (Archive, [at_name tree, lit ''service'']);
          shared_service = path_join (shared_archive_dir c (at_name tree)) (lit ''service'') in
      if \<not> at_has_service tree then Inr (None, None, absent)
      else
        bindE (as_problem ''archive'' (at_name tree)
                 (read_archived_record c service_directory (at_event_id tree) s)) (\<lambda>found.
        case found of
          None \<Rightarrow> Inl (problem ''archive'' (at_name tree) ''service record is missing'')
        | Some r \<Rightarrow>
            if \<not> (in_state ''SUCCESS'' r \<or> in_state ''FAILED'' r)
            then Inl (problem ''archive'' (at_name tree) ''service record is not terminal'')
            else
              bindE (read_optional_json_object service_directory ''provenance.json'' ''archive''
                       (at_name tree) (r_event_id r) (r_internal_sequence r) s) (\<lambda>raw.
              bindE (projected_provenance c ''archive'' (at_name tree) raw) (\<lambda>provenance.
              bindE (add_service_paths service_directory shared_service ''archive'' (at_name tree)
                       SERVICE_FILES s
                       (if provenance = None then absent
                        else jput ''provenance'' (JStr (path_join shared_service (lit ''provenance.json'')))
                               absent)) (\<lambda>paths.
              Inr (Some r, provenance, paths))))))"

definition archive_row :: "settings \<Rightarrow> fsys \<Rightarrow> archive_tree \<Rightarrow> exn + json" where
  "archive_row c s tree =
     bindE (archived_service c tree s) (\<lambda>(r, provenance, service_paths).
     let shared = shared_archive_dir c (at_name tree) in
     Inr (jobj
       [(''archived_at'', JStr (now_iso (at_timestamp tree))),
        (''internal_sequence'', case r of None \<Rightarrow> JNull | Some r \<Rightarrow> r_internal_sequence r),
        (''status'', case r of None \<Rightarrow> JNull | Some r \<Rightarrow> r_status r),
        (''products_ready'', JBool (at_has_products tree
           \<and> (case r of None \<Rightarrow> False | Some r \<Rightarrow> in_state ''SUCCESS'' r))),
        (''shared_paths'', JObj
           ([(lit ''archive'', JStr shared),
             (lit ''products'', if at_has_products tree
                                then JStr (shared @ lit ''/products/current/products'') else JNull)]
            @ entries service_paths)),
        (''provenance'', optional_json provenance)]))"

definition archive_rows :: "settings \<Rightarrow> ustr \<Rightarrow> archive_tree list \<Rightarrow> fsys \<Rightarrow> exn + json list" where
  "archive_rows c event_id trees s =
     bindE (mapE (archive_row c s) (filter (\<lambda>tree. at_event_id tree = event_id) trees)) (\<lambda>rows.
     Inr (rev (sort_key (\<lambda>row. str_of (jget row ''archived_at'')) (rev rows))))"

section \<open>The event detail\<close>

definition detailed_job_row :: "settings \<Rightarrow> operational_snapshot \<Rightarrow> fsys \<Rightarrow> calculation_record \<Rightarrow> exn + json" where
  "detailed_job_row c v s r =
     (let base = base_job_row (v_queue_progress v) r;
          row = jput ''provenance'' JNull (JObj (adel (lit ''event_id'') (entries base)));
          p = event_service_dir (event_id_of r);
          shared_service = shared_service_root c @ lit ''/.service/events/'' @ event_id_of r in
      if sequence_of r \<notin> set (v_current_sequences v) then Inr row
      else
        bindE (read_optional_json_object p ''provenance.json'' ''current'' (event_id_of r)
                 (r_event_id r) (r_internal_sequence r) s) (\<lambda>raw.
        bindE (projected_provenance c ''current'' (event_id_of r) raw) (\<lambda>provenance.
        let paths = jget row ''shared_paths'' in
        bindE (add_service_paths p shared_service ''current'' (event_id_of r) SERVICE_FILES s
                 (if provenance = None then paths
                  else jput ''provenance'' (JStr (path_join shared_service (lit ''provenance.json'')))
                         paths)) (\<lambda>paths'.
        Inr (jput ''shared_paths'' paths' (jput ''provenance'' (optional_json provenance) row))))))"

definition build_event_detail :: "env \<Rightarrow> ustr \<Rightarrow> fsys \<Rightarrow> exn + json" where
  "build_event_detail E event_id s =
     bindE (build_operational_snapshot E s) (\<lambda>v.
     bindE (archive_trees s) (\<lambda>trees.
     let matching = filter (\<lambda>r. event_id_of r = event_id) (v_records v) in
     bindE (archive_rows (cfg E) event_id trees s) (\<lambda>archives.
     bindE (guardE (matching \<noteq> [] \<or> archives \<noteq> []) UnknownEventError ''event is unknown'') (\<lambda>_.
     bindE (mapE (detailed_job_row (cfg E) v s) matching) (\<lambda>jobs.
     Inr (jobj [(''event_id'', JStr event_id), (''jobs'', JList jobs), (''archives'', JList archives)]))))))"

section \<open>The product summary\<close>

definition validate_relative_product_path :: "json \<Rightarrow> string \<Rightarrow> exn + ustr" where
  "validate_relative_product_path v label =
     bindE (guardE (is_str v \<and> str_of v \<noteq> [] \<and> \<not> starts_with (lit ''/'') (str_of v)) ValueError
              (label @ '' is not a relative path'')) (\<lambda>_.
     bindE (guardE (list_all (\<lambda>p. p \<notin> {[], lit ''.'', lit ''..''}) (split_on 47 (str_of v))) ValueError
              (label @ '' is not a canonical relative path'')) (\<lambda>_.
     Inr (str_of v)))"

definition required_check_row :: "json \<Rightarrow> exn + json" where
  "required_check_row item =
     bindE (guardE (is_dict item) ValueError ''required-product check is invalid'') (\<lambda>_.
     bindE (validate_relative_product_path (jget item ''path'') ''required-product check path'') (\<lambda>p.
     bindE (guardE (is_bool (jget item ''passed'')
                    \<and> (jget item ''reason'' = JNull \<or> is_str (jget item ''reason''))) ValueError
              ''required-product check result is invalid'') (\<lambda>_.
     Inr (jobj [(''path'', JStr p), (''passed'', jget item ''passed''), (''reason'', jget item ''reason'')]))))"

definition product_row :: "json \<Rightarrow> exn + json" where
  "product_row item =
     bindE (guardE (is_dict item) ValueError ''product inventory entry is invalid'') (\<lambda>_.
     bindE (validate_relative_product_path (jget item ''path'') ''product inventory entry path'') (\<lambda>p.
     bindE (guardE (is_int (jget item ''size'') \<and> 0 \<le> int_of (jget item ''size'')) ValueError
              ''product inventory entry size is invalid'') (\<lambda>_.
     Inr (jobj [(''path'', JStr p), (''size_bytes'', jget item ''size'')]))))"

definition manifest_summary :: "json \<Rightarrow> exn + string \<times> json list \<times> json list" where
  "manifest_summary payload =
     bindE (guardE (is_bool (jget payload ''partial'')) ValueError
              ''product manifest partial flag is invalid'') (\<lambda>_.
     let partial = bool_of (jget payload ''partial''); required = jget payload ''required_products'' in
     bindE (if required = JNull
            then bindE (guardE partial ValueError
                   ''complete product manifest lacks required-product checks'') (\<lambda>_. Inr [])
            else bindE (guardE (is_dict required \<and> is_list (jget required ''checks'')) ValueError
                   ''product manifest required-product checks are invalid'') (\<lambda>_.
                 mapE required_check_row (list_of (jget required ''checks'')))) (\<lambda>required_rows.
     bindE (guardE (is_list (jget payload ''products'')) ValueError
              ''product manifest inventory is invalid'') (\<lambda>_.
     bindE (mapE product_row (list_of (jget payload ''products''))) (\<lambda>product_rows.
     Inr (if partial then ''partial'' else ''complete'', required_rows, product_rows)))))"

definition current_summary :: "env \<Rightarrow> calculation_record \<Rightarrow> fsys \<Rightarrow> exn + json" where
  "current_summary E r s =
     bindE (read_optional_json_object (event_service_dir (event_id_of r)) ''product-manifest.json''
              ''current'' (event_id_of r) (r_event_id r) (r_internal_sequence r) s) (\<lambda>manifest.
     bindE (case manifest of
              None \<Rightarrow> Inr (''unavailable'', [], [])
            | Some m \<Rightarrow> as_problem ''current'' (event_id_of r) (manifest_summary m))
       (\<lambda>(manifest_state, required, products).
     Inr (jobj
       [(''internal_sequence'', r_internal_sequence r),
        (''status'', r_status r),
        (''products_ready'', JBool (in_state ''SUCCESS'' r)),
        (''manifest_state'', jstr manifest_state),
        (''required_products'', JList required),
        (''products'', JList products),
        (''shared_paths'', jobj
           [(''products'', jget (r_shared_paths r) ''products''),
            (''product_manifest'',
               if manifest = None then JNull
               else JStr (shared_event_service_path (cfg E) (event_id_of r) ''product-manifest.json''))])])))"

definition build_current_product_summary :: "env \<Rightarrow> ustr \<Rightarrow> fsys \<Rightarrow> exn + json" where
  "build_current_product_summary E event_id s =
     bindE (build_operational_snapshot E s) (\<lambda>v.
     bindE (archive_trees s) (\<lambda>trees.
     let current = aget (v_current_by_event v) event_id in
     bindE (guardE (current \<noteq> None \<or> (\<exists>r\<in>set (v_records v). event_id_of r = event_id)
                    \<or> (\<exists>tree\<in>set trees. at_event_id tree = event_id)) UnknownEventError
              ''event is unknown'') (\<lambda>_.
     bindE (case current of None \<Rightarrow> Inr JNull | Some r \<Rightarrow> current_summary E r s) (\<lambda>summary.
     Inr (jobj [(''event_id'', JStr event_id), (''current'', summary)])))))"

end
