(* ===== verification/View_Lemmas.thy ===== *)
theory View_Lemmas
  imports Views Queue_Scan
begin

text \<open>
  What the merge of the queue and the current records keeps, and what a snapshot is made of.
\<close>

section \<open>The merged table\<close>

definition table_ok :: "record_table \<Rightarrow> bool" where
  "table_ok t \<longleftrightarrow> distinct (akeys t) \<and> (\<forall>q l r. aget t q = Some (l, r) \<longrightarrow> sequence_of r = q)"

lemma table_ok_aput: "table_ok t \<Longrightarrow> table_ok (aput (sequence_of r) (l, r) t)"
  by (simp add: table_ok_def)

lemma merge_into_keeps:
  "merge_into source rs t = Inr t' \<Longrightarrow> table_ok t \<Longrightarrow> table_ok t'"
  by (induction source rs t rule: merge_into.induct)
     (auto simp: table_ok_aput split: option.splits if_splits)

lemma merge_into_values:
  "merge_into source rs t = Inr t' \<Longrightarrow> aget t' q = Some (l, r)
    \<Longrightarrow> aget t q = Some (l, r) \<or> l = source \<and> r \<in> set rs"
  by (induction source rs t rule: merge_into.induct)
     (fastforce split: option.splits if_splits)+

lemma merge_into_extends:
  "merge_into source rs t = Inr t' \<Longrightarrow> aget t q = Some (l, r) \<Longrightarrow> table_ok t
    \<Longrightarrow> \<exists>l' r'. aget t' q = Some (l', r') \<and> r_event_id r' = r_event_id r"
proof (induction rs arbitrary: t l r)
  case (Cons x xs)
  show ?case
  proof (cases "aget t (sequence_of x)")
    case None
    then have "q \<noteq> sequence_of x" using Cons.prems(2) by auto
    with None show ?thesis
      using Cons.prems Cons.IH [of "aput (sequence_of x) (source, x) t" l r]
      by (auto simp: table_ok_aput split: if_splits)
  next
    case (Some y)
    obtain l0 r0 where y: "y = (l0, r0)" by fastforce
    let ?t = "if source = ''current'' then aput (sequence_of x) (source, x) t else t"
    have same: "r_event_id r0 = r_event_id x" and run: "merge_into source xs ?t = Inr t'"
      using Cons.prems(1) Some y by (auto split: if_splits)
    have "\<exists>l' r'. aget ?t q = Some (l', r') \<and> r_event_id r' = r_event_id r"
      using Cons.prems(2) Some y same by auto
    moreover have "table_ok ?t" using Cons.prems(3) by (simp add: table_ok_aput)
    ultimately show ?thesis
      using Cons.IH [OF run] by metis
  qed
qed simp

lemma merge_into_covers:
  "merge_into source rs t = Inr t' \<Longrightarrow> table_ok t \<Longrightarrow> x \<in> set rs
    \<Longrightarrow> \<exists>l r. aget t' (sequence_of x) = Some (l, r) \<and> r_event_id r = r_event_id x"
proof (induction rs arbitrary: t)
  case (Cons y ys)
  let ?put = "aput (sequence_of y) (source, y) t"
  obtain t1 l r where run: "merge_into source ys t1 = Inr t'" and ok: "table_ok t1"
    and here: "aget t1 (sequence_of y) = Some (l, r)" "r_event_id r = r_event_id y"
  proof (cases "aget t (sequence_of y)")
    case None
    then show ?thesis
      using Cons.prems that [of ?put source y] by (simp add: table_ok_aput)
  next
    case (Some z)
    obtain l0 r0 where z: "z = (l0, r0)" by fastforce
    then have "r_event_id r0 = r_event_id y"
      and "merge_into source ys (if source = ''current'' then ?put else t) = Inr t'"
      using Cons.prems(1) Some by (auto split: if_splits)
    then show ?thesis
      using Cons.prems(2) Some z that [of ?put source y] that [of t l0 r0]
      by (auto simp: table_ok_aput split: if_splits)
  qed
  show ?case
  proof (cases "x = y")
    case True
    then show ?thesis
      using merge_into_extends [OF run here(1) ok] here(2) by simp
  next
    case False
    then show ?thesis
      using Cons.IH [OF run ok] Cons.prems(3) by simp
  qed
qed simp

lemma merge_into_current:
  "merge_into ''current'' rs t = Inr t' \<Longrightarrow> x \<in> set rs \<or> aget t (sequence_of x) = Some (''current'', x)
    \<Longrightarrow> (\<And>y. y \<in> set rs \<Longrightarrow> r_event_id y = r_event_id x \<Longrightarrow> y = x)
    \<Longrightarrow> aget t' (sequence_of x) = Some (''current'', x)"
proof (induction rs arbitrary: t)
  case (Cons y ys)
  let ?put = "aput (sequence_of y) (''current'', y) t"
  have run: "merge_into ''current'' ys ?put = Inr t'"
    using Cons.prems(1) by (auto split: option.splits if_splits)
  have "x \<in> set ys \<or> aget ?put (sequence_of x) = Some (''current'', x)"
  proof (cases "x = y")
    case False
    have "sequence_of y \<noteq> sequence_of x" if "aget t (sequence_of x) = Some (''current'', x)"
    proof
      assume "sequence_of y = sequence_of x"
      then have "r_event_id y = r_event_id x"
        using Cons.prems(1) that by (auto split: if_splits)
      then show False using Cons.prems(3) [of y] False by simp
    qed
    then show ?thesis using Cons.prems(2) False by auto
  qed simp
  from Cons.IH [OF run this] Cons.prems(3) show ?case by simp
qed simp

lemma table_ok_Nil: "table_ok []"
  by (simp add: table_ok_def)

section \<open>The current records\<close>

lemma scan_current_entry_event:
  "scan_current_entry E s e = Inr r \<Longrightarrow> r_event_id r = JStr e"
  by (auto simp: scan_current_entry_def result_simps load_record_iff dest: dict_to_record_valid valid_record_identity(1))

lemma scan_current_distinct:
  assumes "scan_current_records E s = (cs, ce)"
  shows "inj_on r_event_id (set cs)"
proof -
  obtain xs where xs: "collect (scan_current_entry E s) (listing (s Events)) = (xs, ce)" "cs = sort_key sequence_of xs"
    using assms by (auto simp: scan_current_records_def split: prod.splits)
  then have "set cs = {r. \<exists>e\<in>set (listing (s Events)). scan_current_entry E s e = Inr r}"
    using collect_good [of "scan_current_entry E s" "listing (s Events)"] by simp
  then show ?thesis
    by (auto intro!: inj_onI) (metis Inr_inject json.inject(4) scan_current_entry_event)
qed

section \<open>The parts of a snapshot\<close>

definition running_table :: "calculation_record list \<Rightarrow> (int \<times> calculation_record) list" where
  "running_table rs = table_of sequence_of (filter (in_state ''RUNNING'') rs)"

lemma snapshot_Inr:
  assumes "build_operational_snapshot E s = Inr v" "scan_queue_records E s = (qs, qe)"
    "scan_current_records E s = (cs, ce)"
  obtains t tx where "qe = []" "ce = []" "merge_records qs cs = Inr t"
    "v_records v = map (snd \<circ> snd) (sort_key fst t)"
    "events_with_transaction (remdups (map event_id_of (filter (in_state ''QUEUED'') (v_records v)))) s = Inr tx"
    "v_queue_progress v = queue_progress_from 1
       (waiting_reason (map (event_id_of \<circ> snd) (running_table (qs @ cs))) tx
          (max_concurrent (cfg E) \<le> int (length (running_table (qs @ cs)))))
       (filter (in_state ''QUEUED'') (v_records v))"
    "v_current_by_event v = table_of event_id_of cs"
    "v_current_sequences v = remdups (map sequence_of cs)"
    "v_running v = int (length (running_table (qs @ cs)))"
    "v_maximum_running v = max_concurrent (cfg E)"
proof -
  have none: "qe = []" "ce = []"
    using assms by (auto simp: build_operational_snapshot_def scan_problems_def split: if_splits)
  obtain t where t: "merge_records qs cs = Inr t"
    using assms none by (auto simp: build_operational_snapshot_def scan_problems_def result_simps Let_def)
  let ?rs = "map snd (map snd (sort_key fst t))"
  obtain tx where tx: "events_with_transaction (remdups (map event_id_of (filter (in_state ''QUEUED'') ?rs))) s = Inr tx"
    using assms none t by (auto simp: build_operational_snapshot_def scan_problems_def result_simps Let_def)
  have "v = \<lparr>v_records = ?rs,
           v_current_by_event = table_of event_id_of cs,
           v_current_sequences = remdups (map sequence_of cs),
           v_queue_progress = queue_progress_from 1
             (waiting_reason (map (event_id_of \<circ> snd) (running_table (qs @ cs))) tx
                (max_concurrent (cfg E) \<le> int (length (running_table (qs @ cs)))))
             (filter (in_state ''QUEUED'') ?rs),
           v_maximum_running = max_concurrent (cfg E),
           v_running = int (length (running_table (qs @ cs))),
           v_queued = int (length (filter (in_state ''QUEUED'') ?rs))\<rparr>"
    using assms none t tx
    by (simp add: build_operational_snapshot_def scan_problems_def Let_def running_table_def)
  then show ?thesis
    using that [OF none t] tx by simp
qed

lemma merge_records_ok:
  assumes "merge_records qs cs = Inr t"
  shows "table_ok t"
    and "aget t q = Some (l, r) \<Longrightarrow> r \<in> set qs \<union> set cs"
    and "x \<in> set qs \<Longrightarrow> \<exists>l r. aget t (sequence_of x) = Some (l, r) \<and> r_event_id r = r_event_id x
           \<and> (r = x \<or> r \<in> set cs \<or> r \<in> set qs)"
    and "inj_on r_event_id (set cs) \<Longrightarrow> x \<in> set cs \<Longrightarrow> aget t (sequence_of x) = Some (''current'', x)"
proof -
  obtain t0 where t0: "merge_into ''queue'' qs [] = Inr t0" and t1: "merge_into ''current'' cs t0 = Inr t"
    using assms by (auto simp: merge_records_def result_simps)
  have ok: "table_ok t0" by (rule merge_into_keeps [OF t0 table_ok_Nil])
  show "table_ok t" by (rule merge_into_keeps [OF t1 ok])
  show mem: "r \<in> set qs \<union> set cs" if "aget t q = Some (l, r)" for q l r
    using merge_into_values [OF t1 that] merge_into_values [OF t0] by fastforce
  show "\<exists>l r. aget t (sequence_of x) = Some (l, r) \<and> r_event_id r = r_event_id x
      \<and> (r = x \<or> r \<in> set cs \<or> r \<in> set qs)" if x: "x \<in> set qs"
  proof -
    obtain l0 r0 where a: "aget t0 (sequence_of x) = Some (l0, r0)" "r_event_id r0 = r_event_id x"
      using merge_into_covers [OF t0 table_ok_Nil x] by blast
    obtain l r where "aget t (sequence_of x) = Some (l, r)" "r_event_id r = r_event_id x"
      using merge_into_extends [OF t1 a(1) ok] a(2) by auto
    then show ?thesis using mem by blast
  qed
  show "aget t (sequence_of x) = Some (''current'', x)" if "inj_on r_event_id (set cs)" "x \<in> set cs"
    by (rule merge_into_current [OF t1]) (use that in \<open>auto simp: inj_on_def\<close>)
qed

text \<open>The records of a snapshot are the values of the table, in the order of its keys.\<close>

lemma aget_in_set: "distinct (akeys t) \<Longrightarrow> aget t q = Some x \<longleftrightarrow> (q, x) \<in> set t"
  by (simp add: aget_def akeys_def)

lemma table_records:
  assumes "table_ok t"
  shows "map sequence_of (map (snd \<circ> snd) (sort_key fst t)) = sort (akeys t)"
    and "r \<in> set (map (snd \<circ> snd) (sort_key fst t)) \<longleftrightarrow> (\<exists>l. aget t (sequence_of r) = Some (l, r))"
proof -
  have key: "sequence_of r = q" if "(q, l, r) \<in> set t" for q l r
    using that assms aget_in_set [of t q "(l, r)"] by (simp add: table_ok_def)
  then have "map sequence_of (map (snd \<circ> snd) (sort_key fst t)) = map fst (sort_key fst t)"
    by auto
  also have "\<dots> = sort (akeys t)"
    unfolding akeys_def by (rule properties_for_sort [symmetric]) simp_all
  finally show "map sequence_of (map (snd \<circ> snd) (sort_key fst t)) = sort (akeys t)" .
  show "r \<in> set (map (snd \<circ> snd) (sort_key fst t)) \<longleftrightarrow> (\<exists>l. aget t (sequence_of r) = Some (l, r))"
    using assms key by (force simp: table_ok_def aget_in_set)
qed

section \<open>Queue positions\<close>

lemma queue_progress_at:
  "sequence_of r \<notin> sequence_of ` set pre
    \<Longrightarrow> aget (queue_progress_from p f (pre @ r # post)) (sequence_of r) = Some (p + int (length pre), f r)"
  by (induction pre arbitrary: p) auto

end
