(* ===== verification/View_Properties.thy ===== *)
theory View_Properties
  imports View_Lemmas Scheduler_Properties
begin

text \<open>
  The properties of the read-only views: no durable entry is hidden, the listed records and queue
  positions, agreement with the scheduler, archive names, and the product summary.
\<close>

section \<open>Records and problems\<close>

lemma merge_queue_record:
  assumes "scan_queue_records E s = (qs, qe)" "merge_records qs cs = Inr t" "x \<in> set qs"
  shows "\<exists>l r. aget t (sequence_of x) = Some (l, r) \<and> r_event_id r = r_event_id x \<and> (r = x \<or> r \<in> set cs)"
proof -
  obtain l r where r: "aget t (sequence_of x) = Some (l, r)" "r_event_id r = r_event_id x"
      "r = x \<or> r \<in> set cs \<or> r \<in> set qs"
    using merge_records_ok(3) [OF assms(2,3)] by blast
  have "sequence_of r = sequence_of x"
    using merge_records_ok(1) [OF assms(2)] r(1) by (simp add: table_ok_def)
  moreover have "inj_on sequence_of (set qs)"
    using scan_queue_sound(2) [of E s] assms(1) by (simp add: distinct_map)
  ultimately have "r = x \<or> r \<in> set cs" using r(3) assms(3) by (auto dest: inj_onD)
  with r show ?thesis by blast
qed

text \<open>
  C22: a snapshot lists the durable records once each, in the order of their sequences: every current
  record as it is, and every queue entry, unless a current record of the same calculation has
  replaced it. It is only built when neither scan found a malformed entry.
\<close>

theorem snapshot_lists_every_record:
  assumes "build_operational_snapshot E s = Inr v"
    and "scan_queue_records E s = (qs, qe)" "scan_current_records E s = (cs, ce)"
  shows "qe = [] \<and> ce = []
    \<and> sorted_wrt (<) (map sequence_of (v_records v))
    \<and> set cs \<subseteq> set (v_records v) \<and> set (v_records v) \<subseteq> set qs \<union> set cs
    \<and> (\<forall>x\<in>set qs. \<exists>r\<in>set (v_records v). sequence_of r = sequence_of x
         \<and> r_event_id r = r_event_id x \<and> (r = x \<or> r \<in> set cs))"
proof -
  obtain t where none: "qe = []" "ce = []" and t: "merge_records qs cs = Inr t"
    and records: "v_records v = map (snd \<circ> snd) (sort_key fst t)"
    using snapshot_Inr [OF assms] by metis
  note ok = merge_records_ok(1) [OF t]
  note recs = table_records [OF ok, folded records]
  have strict: "sorted_wrt (<) (map sequence_of (v_records v))"
    using ok unfolding recs(1) by (simp add: table_ok_def strict_sorted_iff)
  have current: "set cs \<subseteq> set (v_records v)"
    using merge_records_ok(4) [OF t scan_current_distinct [OF assms(3)]] recs(2) by blast
  have listed: "set (v_records v) \<subseteq> set qs \<union> set cs"
    using merge_records_ok(2) [OF t] recs(2) by blast
  have queue: "\<exists>r\<in>set (v_records v). sequence_of r = sequence_of x
         \<and> r_event_id r = r_event_id x \<and> (r = x \<or> r \<in> set cs)" if x: "x \<in> set qs" for x
  proof -
    obtain l r where r: "aget t (sequence_of x) = Some (l, r)" "r_event_id r = r_event_id x" "r = x \<or> r \<in> set cs"
      using merge_queue_record [OF assms(2) t x] by blast
    have "sequence_of r = sequence_of x" using ok r(1) by (simp add: table_ok_def)
    then show ?thesis using r recs(2) by auto
  qed
  from none strict current listed queue show ?thesis by blast
qed

lemma sample_no_current: "scan_current_records sample_env (sample_store r) = ([], [])"
  by (simp add: scan_current_records_def sample_store_def)

lemma sample_snapshot:
  "\<exists>v. build_operational_snapshot sample_env (sample_store (sample_queued ow)) = Inr v
     \<and> v_records v = [sample_queued ow] \<and> v_queue_progress v = [(7, 1, ''awaiting_scheduler'')]"
proof -
  have "merge_records [sample_queued ow] [] = Inr [(7, ''queue'', sample_queued ow)]"
    by (simp add: merge_records_def sample_queued aput_def)
  moreover have "in_state ''QUEUED'' (sample_queued ow)" "\<not> in_state ''RUNNING'' (sample_queued ow)"
    using sample_queued(2) [of ow] by (simp_all add: in_state_def state_of_def parse_state_Some)
  moreover have "current_transaction_present sample_event (sample_store r) = Inr False" for r
    by (simp add: current_transaction_present_def sample_event_valid safe_directory_entry_def
        entry_at_def sample_store_def)
  ultimately show ?thesis
    by (simp add: build_operational_snapshot_def sample_scan sample_no_current scan_problems_def sample_queued
        table_of_def waiting_reason_def sample_cfg_def)
qed

theorem snapshot_lists_every_record_witness:
  "\<exists>v. build_operational_snapshot sample_env (sample_store (sample_queued True)) = Inr v
     \<and> sorted_wrt (<) (map sequence_of (v_records v))
     \<and> (\<exists>r\<in>set (v_records v). sequence_of r = 7)"
proof -
  obtain v where v: "build_operational_snapshot sample_env (sample_store (sample_queued True)) = Inr v"
    using sample_snapshot by blast
  have "\<exists>r\<in>set (v_records v). sequence_of r = 7"
    using snapshot_lists_every_record [OF v sample_scan sample_no_current] sample_queued(4) by auto
  with v snapshot_lists_every_record [OF v sample_scan sample_no_current] show ?thesis by blast
qed

lemma collect_complete: "x \<in> set xs \<Longrightarrow> (\<exists>y\<in>set (fst (collect f xs)). f x = Inr y) \<or> x \<in> fst ` set (snd (collect f xs))"
  by (induction xs) (auto split: prod.splits sum.splits)

lemma scan_queue_complete:
  assumes "scan_queue_records E s = (qs, qe)" "aget (s Queue) n \<noteq> None" "\<not> hidden n"
  shows "(\<exists>r\<in>set qs. n = queue_entry_name (sequence_of r)) \<or> n \<in> fst ` set qe"
proof -
  let ?f = "\<lambda>name. bindE (parse_queue_entry_name name) (\<lambda>q. validate_queue_entry E q name s)"
  let ?names = "filter (\<lambda>n. \<not> hidden n) (listing (s Queue))"
  obtain xs where xs: "collect ?f ?names = (xs, qe)" "qs = sort_key sequence_of xs"
    using assms(1) by (auto simp: scan_queue_records_def split: prod.splits)
  have "n \<in> set ?names" using assms(2,3) in_akeys by fastforce
  from collect_complete [OF this, of ?f] have "(\<exists>r\<in>set xs. ?f n = Inr r) \<or> n \<in> fst ` set qe"
    unfolding xs by simp
  then show ?thesis using scan_entry_reads xs(2) by fastforce
qed

lemma scan_current_complete:
  assumes "scan_current_records E s = (cs, ce)" "aget (s Events) e \<noteq> None"
  shows "(\<exists>r\<in>set cs. r_event_id r = JStr e) \<or> e \<in> fst ` set ce"
proof -
  obtain xs where xs: "collect (scan_current_entry E s) (listing (s Events)) = (xs, ce)" "cs = sort_key sequence_of xs"
    using assms(1) by (auto simp: scan_current_records_def split: prod.splits)
  have "e \<in> set (listing (s Events))" using assms(2) in_akeys by fastforce
  from collect_complete [OF this, of "scan_current_entry E s"]
  have "(\<exists>r\<in>set xs. scan_current_entry E s e = Inr r) \<or> e \<in> fst ` set ce" unfolding xs by simp
  then show ?thesis using scan_current_entry_event xs(2) by fastforce
qed

text \<open>
  C25: no durable entry is silently left out. When a scan finds malformed entries, all three views
  fail with \<open>DurableStateError\<close> naming exactly those entries; otherwise every visible queue entry and
  every current record's directory is among the entries the scans returned.
\<close>

theorem malformed_entries_are_reported:
  assumes "scan_queue_records E s = (qs, qe)" "scan_current_records E s = (cs, ce)"
  shows "if qe = [] \<and> ce = []
    then (\<forall>n. aget (s Queue) n \<noteq> None \<longrightarrow> hidden n \<or> (\<exists>r\<in>set qs. n = queue_entry_name (sequence_of r)))
      \<and> (\<forall>e. aget (s Events) e \<noteq> None \<longrightarrow> (\<exists>r\<in>set cs. r_event_id r = JStr e))
    else \<exists>m. let failure = Exn (DurableStateError
                 (map (\<lambda>(n, x). (''queue'', n, exn_message x)) qe @ map (\<lambda>(n, x). (''current'', n, exn_message x)) ce)) m in
      build_operational_views E s = Inl failure \<and> build_event_detail E e s = Inl failure
      \<and> build_current_product_summary E e s = Inl failure"
proof (cases "qe = [] \<and> ce = []")
  case True
  then show ?thesis
    using scan_queue_complete [OF assms(1)] scan_current_complete [OF assms(2)] by fastforce
next
  case False
  have "build_operational_snapshot E s = Inl (Exn (DurableStateError
      (map (\<lambda>(n, x). (''queue'', n, exn_message x)) qe @ map (\<lambda>(n, x). (''current'', n, exn_message x)) ce))
      ''durable calculation state is malformed'')"
    using False assms by (auto simp: build_operational_snapshot_def scan_problems_def)
  with False show ?thesis
    unfolding Let_def build_operational_views_def build_event_detail_def build_current_product_summary_def
    by (intro if_not_P [THEN iffD2]) auto
qed

theorem malformed_entries_are_reported_witness:
  "\<exists>m. build_operational_views sample_env ((\<lambda>_. [])(Queue := [(lit ''x'', Dir [])]))
     = Inl (Exn (DurableStateError [(''queue'', lit ''x'', ''queue entry name must be exactly 20 ASCII digits'')]) m)"
proof -
  let ?s = "(\<lambda>_. [])(Queue := [(lit ''x'', Dir [])])"
  have "scan_queue_records sample_env ?s
      = ([], [(lit ''x'', Exn ValueError ''queue entry name must be exactly 20 ASCII digits'')])"
    by (simp add: scan_queue_records_def hidden_def starts_with_def lit_Cons lit_Nil parse_queue_entry_name_def
        QUEUE_ENTRY_WIDTH_def)
  moreover have "scan_current_records sample_env ?s = ([], [])" by (simp add: scan_current_records_def)
  ultimately show ?thesis
    using malformed_entries_are_reported [of sample_env ?s _ _ _ _ "[]"] by (fastforce simp: Let_def)
qed

section \<open>Queue positions\<close>

lemma before_in_queue:
  assumes "sorted_wrt (<) (map f xs)" "xs = pre @ r # post"
  shows "pre = filter (\<lambda>x. f x < (f r :: int)) xs" "f r \<notin> f ` set pre"
  using assms by (auto simp: sorted_wrt_append filter_id_conv filter_empty_conv)

lemma events_with_transaction_Inr:
  "events_with_transaction es s = Inr tx \<Longrightarrow> set tx = {e \<in> set es. current_transaction_present e s = Inr True}
     \<and> (\<forall>e\<in>set es. \<exists>b. current_transaction_present e s = Inr b)"
  by (induction es arbitrary: tx) (auto simp: result_simps split: if_splits)

lemma current_transaction_present_True:
  assumes "current_transaction_present e s = Inr b"
  shows "b \<longleftrightarrow> holds_journal (event_service_dir e) s"
proof -
  have "b" if "holds_journal (event_service_dir e) s"
    using assms that current_transaction_present_False [of e s] by (cases b) auto
  moreover have "holds_journal (event_service_dir e) s" if "b"
    using assms that by (auto simp: current_transaction_present_def result_simps)
  ultimately show ?thesis by blast
qed

lemma table_of_events:
  "snd ` set (table_of f xs) \<subseteq> set xs" "fst ` set (table_of f xs) = f ` set xs"
  "(k, x) \<in> set (table_of f xs) \<Longrightarrow> f x = k"
proof -
  let ?step = "\<lambda>x t. aput (f x) x t"
  have put: "set (aput k v t) \<subseteq> insert (k, v) (set t)" for k and v :: 'a and t :: "('b \<times> 'a) list"
    by (induction t) (auto simp: aput_def)
  have "set (fold ?step xs t) \<subseteq> set t \<union> (\<lambda>x. (f x, x)) ` set xs" for t
  proof (induction xs arbitrary: t)
    case (Cons x xs)
    show ?case using Cons.IH [of "?step x t"] put [of "f x" x t] by auto
  qed simp
  from this [of "[]"] have sub: "set (table_of f xs) \<subseteq> (\<lambda>x. (f x, x)) ` set xs" by (simp add: table_of_def)
  then show "snd ` set (table_of f xs) \<subseteq> set xs" "(k, x) \<in> set (table_of f xs) \<Longrightarrow> f x = k" by auto
  have "set (akeys (fold ?step xs t)) = set (akeys t) \<union> f ` set xs" for t
    by (induction xs arbitrary: t) auto
  from this [of "[]"] show "fst ` set (table_of f xs) = f ` set xs"
    by (simp add: table_of_def akeys_def)
qed

lemma same_sequence_same_event:
  assumes "merge_records qs cs = Inr t" "scan_queue_records E s = (qs, qe)" "scan_current_records E s = (cs, ce)"
    and "x \<in> set (qs @ cs)" "y \<in> set (qs @ cs)" "sequence_of x = sequence_of y"
  shows "r_event_id x = r_event_id y"
proof -
  have "\<exists>l r. aget t (sequence_of z) = Some (l, r) \<and> r_event_id r = r_event_id z" if "z \<in> set (qs @ cs)" for z
    using that merge_queue_record [OF assms(2,1), of z]
      merge_records_ok(4) [OF assms(1) scan_current_distinct [OF assms(3)], of z] by auto
  from this [OF assms(4)] this [OF assms(5)] show ?thesis using assms(6) by auto
qed

lemma distinct_table: "distinct (akeys (table_of f xs))"
proof -
  have "distinct (akeys t) \<Longrightarrow> distinct (akeys (fold (\<lambda>x t. aput (f x) x t) xs t))" for t
    by (induction xs arbitrary: t) auto
  from this [of "[]"] show ?thesis by (simp add: table_of_def)
qed

lemma running_table_events:
  assumes "merge_records qs cs = Inr t" "scan_queue_records E s = (qs, qe)" "scan_current_records E s = (cs, ce)"
  shows "e \<in> set (map (event_id_of \<circ> snd) (running_table (qs @ cs)))
    \<longleftrightarrow> (\<exists>x\<in>set (qs @ cs). in_state ''RUNNING'' x \<and> event_id_of x = e)"
    and "length (running_table (qs @ cs)) = card (sequence_of ` {x \<in> set (qs @ cs). in_state ''RUNNING'' x})"
proof -
  let ?run = "filter (in_state ''RUNNING'') (qs @ cs)"
  note tab = table_of_events [of sequence_of ?run, folded running_table_def]
  have "\<exists>y \<in> snd ` set (running_table (qs @ cs)). event_id_of y = event_id_of x" if x: "x \<in> set ?run" for x
  proof -
    obtain y where y: "(sequence_of x, y) \<in> set (running_table (qs @ cs))"
      using x tab(2) by force
    have "r_event_id y = r_event_id x"
      by (rule same_sequence_same_event [OF assms]) (use y x tab(1) table_of_events(3) [OF y [unfolded running_table_def]] in auto)
    then show ?thesis using y by (force simp: event_id_of_def)
  qed
  note covers = this
  have "(\<exists>y\<in>snd ` set (running_table (qs @ cs)). event_id_of y = e) \<longleftrightarrow> (\<exists>x\<in>set ?run. event_id_of x = e)"
  proof
    assume "\<exists>y\<in>snd ` set (running_table (qs @ cs)). event_id_of y = e"
    then obtain y where "y \<in> snd ` set (running_table (qs @ cs))" "event_id_of y = e" by (elim bexE)
    then show "\<exists>x\<in>set ?run. event_id_of x = e" using subsetD [OF tab(1)] by (intro bexI)
  next
    assume "\<exists>x\<in>set ?run. event_id_of x = e"
    then obtain x where "x \<in> set ?run" "event_id_of x = e" by (elim bexE)
    then show "\<exists>y\<in>snd ` set (running_table (qs @ cs)). event_id_of y = e" using covers [of x] by simp
  qed
  moreover have "e \<in> set (map (event_id_of \<circ> snd) R) \<longleftrightarrow> (\<exists>y\<in>snd ` set R. event_id_of y = e)"
    for R :: "(int \<times> calculation_record) list"
    by (induction R) auto
  moreover have "(\<exists>x\<in>set (filter P xs). event_id_of x = e) \<longleftrightarrow> (\<exists>x\<in>set xs. P x \<and> event_id_of x = e)" for P xs
    by (induction xs) auto
  ultimately show "e \<in> set (map (event_id_of \<circ> snd) (running_table (qs @ cs)))
    \<longleftrightarrow> (\<exists>x\<in>set (qs @ cs). in_state ''RUNNING'' x \<and> event_id_of x = e)"
    by (simp only:)
  have "length (running_table (qs @ cs)) = card (set (akeys (running_table (qs @ cs))))"
    using distinct_card [OF distinct_table [of sequence_of ?run]] by (simp add: running_table_def akeys_def)
  also have "set (akeys (running_table (qs @ cs))) = sequence_of ` set ?run"
    using tab(2) by (simp add: akeys_def)
  finally show "length (running_table (qs @ cs)) = card (sequence_of ` {x \<in> set (qs @ cs). in_state ''RUNNING'' x})"
    by (simp only: set_filter)
qed

text \<open>What the view says of a waiting record.\<close>

lemma queue_progress_entry:
  assumes "build_operational_snapshot E s = Inr v"
    and "scan_queue_records E s = (qs, qe)" "scan_current_records E s = (cs, ce)"
    and "r \<in> set (v_records v)" "in_state ''QUEUED'' r"
  shows "aget (v_queue_progress v) (sequence_of r)
      = Some (1 + int (length (filter (\<lambda>x. in_state ''QUEUED'' x \<and> sequence_of x < sequence_of r) (v_records v))),
          if (\<exists>x\<in>set (qs @ cs). in_state ''RUNNING'' x \<and> event_id_of x = event_id_of r)
             \<or> holds_journal (event_service_dir (event_id_of r)) s then ''same_event_active''
          else if max_concurrent (cfg E) \<le> int (card (sequence_of ` {x \<in> set (qs @ cs). in_state ''RUNNING'' x}))
          then ''worker_capacity'' else ''awaiting_scheduler'')"
proof -
  obtain t tx where t: "merge_records qs cs = Inr t" and records: "v_records v = map (snd \<circ> snd) (sort_key fst t)"
    and tx: "events_with_transaction (remdups (map event_id_of (filter (in_state ''QUEUED'') (v_records v)))) s = Inr tx"
    and prog: "v_queue_progress v = queue_progress_from 1
       (waiting_reason (map (event_id_of \<circ> snd) (running_table (qs @ cs))) tx
          (max_concurrent (cfg E) \<le> int (length (running_table (qs @ cs)))))
       (filter (in_state ''QUEUED'') (v_records v))"
      (is "_ = queue_progress_from 1 ?reason _")
    using snapshot_Inr [OF assms(1-3)] by metis
  let ?queued = "filter (in_state ''QUEUED'') (v_records v)"
  have "r \<in> set ?queued" using assms(4,5) by simp
  then obtain pre post where split: "?queued = pre @ r # post"
    using split_list by metis
  have ok: "table_ok t" by (rule merge_records_ok(1) [OF t])
  have "sorted_wrt (<) (map sequence_of (v_records v))"
    using ok unfolding table_records(1) [OF ok, folded records] by (simp add: table_ok_def strict_sorted_iff)
  then have "sorted_wrt (<) (map sequence_of ?queued)"
    by (simp add: sorted_wrt_map sorted_wrt_filter)
  note before = before_in_queue [OF this split]
  have len: "length pre = length (filter (\<lambda>x. in_state ''QUEUED'' x \<and> sequence_of x < sequence_of r) (v_records v))"
    by (subst before(1)) (simp add: conj_commute)
  have "aget (v_queue_progress v) (sequence_of r) = Some (1 + int (length pre), ?reason r)"
    unfolding prog split by (rule queue_progress_at [OF before(2)])
  moreover have "event_id_of r \<in> set tx \<longleftrightarrow> holds_journal (event_service_dir (event_id_of r)) s"
  proof -
    have "event_id_of r \<in> set (remdups (map event_id_of ?queued))" using assms(4,5) by simp
    then show ?thesis using events_with_transaction_Inr [OF tx] current_transaction_present_True by auto
  qed
  ultimately show ?thesis
    by (simp only: waiting_reason_def len running_table_events [OF t assms(2,3)])
qed

text \<open>
  C23: a waiting job's queue position is one more than the number of waiting jobs with a smaller
  sequence. Its reason is \<open>same_event_active\<close> exactly when a \<open>RUNNING\<close> record or a transaction
  journal of its event exists, and otherwise \<open>worker_capacity\<close> exactly when at least
  \<open>max_concurrent\<close> sequences are \<open>RUNNING\<close>.
\<close>

theorem queue_position_and_reason:
  assumes "build_operational_snapshot E s = Inr v"
    and "scan_queue_records E s = (qs, qe)" "scan_current_records E s = (cs, ce)"
    and "r \<in> set (v_records v)" "in_state ''QUEUED'' r"
  shows "aget (v_queue_progress v) (sequence_of r) = Some
     (1 + int (length (filter (\<lambda>x. in_state ''QUEUED'' x \<and> sequence_of x < sequence_of r) (v_records v))),
      if (\<exists>x\<in>set (qs @ cs). in_state ''RUNNING'' x \<and> event_id_of x = event_id_of r)
         \<or> holds_journal (event_service_dir (event_id_of r)) s then ''same_event_active''
      else if max_concurrent (cfg E) \<le> int (card (sequence_of ` {x \<in> set (qs @ cs). in_state ''RUNNING'' x}))
      then ''worker_capacity'' else ''awaiting_scheduler'')"
  by (rule queue_progress_entry [OF assms])

theorem queue_position_and_reason_witness:
  "\<exists>v reason. build_operational_snapshot sample_env (sample_store (sample_queued True)) = Inr v
     \<and> aget (v_queue_progress v) 7 = Some (1, reason)"
proof -
  obtain v where v: "build_operational_snapshot sample_env (sample_store (sample_queued True)) = Inr v"
    "v_records v = [sample_queued True]"
    using sample_snapshot by blast
  have "in_state ''QUEUED'' (sample_queued True)"
    using sample_queued(2) [of True] by (simp add: in_state_def state_of_def parse_state_Some)
  from queue_position_and_reason [OF v(1) sample_scan sample_no_current _ this] v show ?thesis
    by (simp add: sample_queued)
qed



section \<open>Archive names\<close>

lemma archive_timestamp_upper:
  assumes "valid_datetime t"
  shows "strptime_archive (archive_timestamp t) = Some t"
proof -
  have digits: "list_all is_digit (pad w n)" for w n by simp
  have range: "c = 84 \<or> c = 46 \<or> c = 90 \<or> is_digit c" if "c \<in> set (archive_timestamp t)" for c
    using that digits unfolding archive_timestamp_def list_all_iff
    by (auto simp: lit_Cons lit_Nil simp del: digits_pad)
  have same: "map (\<lambda>c. if c = 116 then 84 else if c = 122 then 90 else c) (archive_timestamp t) = archive_timestamp t"
    by (intro map_idI) (use range in \<open>force simp: is_digit_def\<close>)
  have "archive_timestamp t ! 6 \<in> set (archive_timestamp t)" by (rule nth_mem) simp
  from range [OF this] have "archive_timestamp t ! 6 \<noteq> 32" by (auto simp: is_digit_def)
  then show ?thesis
    using parse_archive_timestamp_format [OF assms] by (simp add: strptime_archive_def Let_def same)
qed

text \<open>
  C29: the views read back the names the preparation gives to archives: the event and the instant.
  No archive made by the service is reported as malformed for its name.
\<close>

theorem archive_names_read_back:
  assumes "valid_event_id e" "valid_datetime t"
  shows "parse_archive_name (event_archive_name e (archive_timestamp t)) = Inr (e, t)"
proof -
  have name: "event_archive_name e (archive_timestamp t) = e @ 45 # archive_timestamp t"
    by (simp add: event_archive_name_def lit_Cons lit_Nil)
  have "e \<noteq> []" using assms(1) by (auto simp: valid_event_id_def safe_basename_def)
  then have "1 \<le> int (length e)" by (cases e) auto
  then show ?thesis
    using assms(1) archive_timestamp_upper [OF assms(2)]
    by (simp add: parse_archive_name_def name ARCHIVE_TIMESTAMP_LENGTH_def validate_event_id_Inr)
qed

theorem archive_names_read_back_witness:
  "parse_archive_name (event_archive_name sample_event (archive_timestamp sample_time)) = Inr (sample_event, sample_time)"
  by (rule archive_names_read_back [OF sample_event_valid sample_time_valid])

section \<open>The product summary\<close>

definition relative_product_path :: "ustr \<Rightarrow> bool" where
  "relative_product_path p \<longleftrightarrow> fst (path_parts p) = False \<and> split_on 47 p = snd (path_parts p)
     \<and> lit ''..'' \<notin> set (snd (path_parts p))"

lemma validate_relative_product_path_Inr:
  assumes "validate_relative_product_path v l = Inr p"
  shows "v = JStr p \<and> p \<noteq> [] \<and> relative_product_path p"
proof -
  from assms have v: "is_str v" "str_of v = p" "p \<noteq> []" "\<not> starts_with (lit ''/'') p"
    "\<forall>c\<in>set (split_on 47 p). c \<noteq> [] \<and> c \<noteq> lit ''.'' \<and> c \<noteq> lit ''..''"
    by (auto simp: validate_relative_product_path_def result_simps list_all_iff)
  then have "filter (\<lambda>c. c \<noteq> [] \<and> c \<noteq> lit ''.'') (split_on 47 p) = split_on 47 p"
    by (intro filter_True) auto
  with v show ?thesis
    using is_str_str_of [OF v(1)] by (auto simp: relative_product_path_def path_parts_def)
qed

lemma mapE_Inr_all: "mapE f xs = Inr ys \<Longrightarrow> y \<in> set ys \<Longrightarrow> \<exists>x\<in>set xs. f x = Inr y"
  by (induction xs arbitrary: ys) (auto simp: result_simps)

text \<open>
  C28: whatever the manifest file holds, a product summary that is returned names every product and
  every check by a relative path without empty, \<open>.\<close> or \<open>..\<close> components, with a size that is a
  nonnegative integer; it is complete only when the manifest records the required checks.
\<close>

theorem summary_paths_stay_below_the_product_tree:
  assumes "manifest_summary payload = Inr (state, required, products)"
  shows "(\<forall>row\<in>set products. \<exists>p n. row = jobj [(''path'', JStr p), (''size_bytes'', JInt n)]
        \<and> relative_product_path p \<and> 0 \<le> n)
    \<and> (\<forall>row\<in>set required. \<exists>p b. jget row ''path'' = JStr p \<and> relative_product_path p \<and> jget row ''passed'' = JBool b)
    \<and> length products = length (list_of (jget payload ''products''))
    \<and> (state = ''complete'' \<longrightarrow> jget payload ''partial'' = JBool False \<and> is_dict (jget payload ''required_products'')
         \<and> length required = length (list_of (jget (jget payload ''required_products'') ''checks'')))"
proof -
  let ?req = "jget payload ''required_products''"
  have m: "is_bool (jget payload ''partial'')" "mapE product_row (list_of (jget payload ''products'')) = Inr products"
    "state = (if bool_of (jget payload ''partial'') then ''partial'' else ''complete'')"
    "?req = JNull \<and> bool_of (jget payload ''partial'') \<and> required = []
      \<or> is_dict ?req \<and> mapE required_check_row (list_of (jget ?req ''checks'')) = Inr required"
    using assms by (auto simp: manifest_summary_def result_simps Let_def split: if_splits)
  have "\<exists>p n. row = jobj [(''path'', JStr p), (''size_bytes'', JInt n)] \<and> relative_product_path p \<and> 0 \<le> n"
    if "row \<in> set products" for row
    using mapE_Inr_all [OF m(2) that] validate_relative_product_path_Inr
    by (fastforce simp: product_row_def result_simps dest: is_intD)
  moreover have "\<exists>p b. jget row ''path'' = JStr p \<and> relative_product_path p \<and> jget row ''passed'' = JBool b"
    if "row \<in> set required" for row
    using m(4) mapE_Inr_all [of required_check_row _ required row] that validate_relative_product_path_Inr
    by (fastforce simp: required_check_row_def result_simps dest: is_boolD)
  moreover have "length products = length (list_of (jget payload ''products''))"
    by (rule mapE_Inr_length [OF m(2)])
  moreover have "jget payload ''partial'' = JBool False \<and> is_dict ?req
      \<and> length required = length (list_of (jget ?req ''checks''))" if "state = ''complete''"
    using m(1,3,4) that mapE_Inr_length [of required_check_row] by (auto dest!: is_boolD split: if_splits)
  ultimately show ?thesis by blast
qed

definition sample_product_manifest :: json where
  "sample_product_manifest = jobj
     [(''partial'', JBool False),
      (''required_products'', jobj [(''checks'', JList
         [jobj [(''path'', jstr ''grid.xml''), (''passed'', JBool True), (''reason'', JNull)]])]),
      (''products'', JList [jobj [(''path'', jstr ''pdl/grid.xml''), (''size'', JInt 12)]])]"

theorem summary_paths_stay_below_the_product_tree_witness:
  "\<exists>required. manifest_summary sample_product_manifest
     = Inr (''complete'', required, [jobj [(''path'', jstr ''pdl/grid.xml''), (''size_bytes'', JInt 12)]])
     \<and> length required = 1"
proof -
  obtain required where m: "manifest_summary sample_product_manifest
     = Inr (''complete'', required, [jobj [(''path'', jstr ''pdl/grid.xml''), (''size_bytes'', JInt 12)]])"
    by (simp add: manifest_summary_def sample_product_manifest_def product_row_def required_check_row_def
        validate_relative_product_path_def starts_with_def lit_Cons lit_Nil Let_def)
  from summary_paths_stay_below_the_product_tree [OF m] have "length required = 1"
    by (simp add: sample_product_manifest_def)
  with m show ?thesis by blast
qed

end
