(* ===== verification/Products.thy ===== *)
theory Products
  imports Evidence Projections
begin

text \<open>
  The products of a calculation: which paths are required (\<open>required_products.py\<close>), the check of each
  of them (\<open>product_validation.py\<close>), and the inventory that is published with the checks
  (\<open>product_manifest.py\<close>). The HDF reader and the IMT file names are those of the ShakeMap libraries
  and parameters here (\<open>hdf_library\<close>).
\<close>

definition products_path :: "ustr \<Rightarrow> path" where
  "products_path event_id = (Products, [event_id, lit ''current'', lit ''products''])"

section \<open>Required products\<close>

record resolution =
  q_paths :: "ustr list"
  q_source :: string

definition HDF_PRODUCT :: ustr where
  "HDF_PRODUCT = lit ''shake_result.hdf''"

definition product_path_ok :: "exn_kind \<Rightarrow> ustr \<Rightarrow> exn + ustr" where
  "product_path_ok k p =
     bindE (guardE (p \<noteq> []) k ''required product path must be a nonempty string'') (\<lambda>_.
     bindE (guardE (\<not> starts_with (lit ''/'') p) k ''required product path must be relative'') (\<lambda>_.
     bindE (guardE (\<not> list_ex is_control p) k ''required product path contains a control character'') (\<lambda>_.
     bindE (guardE (list_all (\<lambda>c. c \<notin> {[], lit ''.'', lit ''..''}) (split_on 47 p)) k
              ''required product path is not a canonical safe relative path'') (\<lambda>_.
     Inr p))))"

definition validate_relative_path :: "ustr \<Rightarrow> exn + ustr" where
  "validate_relative_path p = product_path_ok RequiredProductResolutionError p"

text \<open>What the libraries do with the HDF entry of the products directory; \<open>None\<close> is an exception.\<close>

record hdf_library =
  hdf_import :: bool
  hdf_open :: "node option \<Rightarrow> bool"
  hdf_construct :: "node option \<Rightarrow> bool"
  hdf_imts :: "node option \<Rightarrow> json list option"
  hdf_close_container :: bool
  hdf_close_file :: bool
  imt_import :: bool
  imt_stem :: "ustr \<Rightarrow> json option"

text \<open>The first failure of the reading, and the first of the closing that follows in any case.\<close>

definition hdf_primary :: "hdf_library \<Rightarrow> node option \<Rightarrow> string option" where
  "hdf_primary L n =
     (if \<not> hdf_open L n then Some ''could not open native HDF''
      else if \<not> hdf_construct L n then Some ''could not construct native HDF reader''
      else if hdf_imts L n = None then Some ''could not read native IMTs''
      else None)"

definition hdf_close :: "hdf_library \<Rightarrow> node option \<Rightarrow> string option" where
  "hdf_close L n =
     (let opened = hdf_open L n; constructed = (opened \<and> hdf_construct L n) in
      if constructed \<and> \<not> hdf_close_container L then Some ''could not close native HDF reader''
      else if opened \<and> \<not> hdf_close_file L then Some ''could not close native HDF file''
      else None)"

definition stripped :: "ustr \<Rightarrow> bool" where
  "stripped s \<longleftrightarrow> s = [] \<or> \<not> unicode_space (hd s) \<and> \<not> unicode_space (last s)"

text \<open>\<open>raw_imt.partition("/")\<close> and the conditions on its parts.\<close>

definition parse_imt :: "json \<Rightarrow> exn + ustr" where
  "parse_imt raw =
     bindE (guardE (is_str raw) RequiredProductResolutionError ''native HDF IMT entry is not a string'') (\<lambda>_.
     let component = takeWhile (\<lambda>c. c \<noteq> 47) (str_of raw);
         rest = dropWhile (\<lambda>c. c \<noteq> 47) (str_of raw);
         imt = tl rest in
     bindE (guardE (rest \<noteq> [] \<and> component \<noteq> [] \<and> imt \<noteq> [] \<and> 47 \<notin> set imt
                    \<and> stripped component \<and> stripped imt)
              RequiredProductResolutionError ''native HDF IMT entry is not an unambiguous component/IMT'') (\<lambda>_.
     Inr imt))"

definition read_native_imts :: "hdf_library \<Rightarrow> node option \<Rightarrow> exn + ustr list" where
  "read_native_imts L n =
     bindE (guardE (hdf_import L) RequiredProductResolutionError
              ''compatible ShakeMap HDF reader is unavailable'') (\<lambda>_.
     bindE (case hdf_primary L n of
              Some m \<Rightarrow> Inl (Exn RequiredProductResolutionError m)
            | None \<Rightarrow> (case hdf_close L n of
                         Some m \<Rightarrow> Inl (Exn RequiredProductResolutionError m)
                       | None \<Rightarrow> Inr (case hdf_imts L n of None \<Rightarrow> [] | Some raw \<Rightarrow> raw))) (\<lambda>raw.
     bindE (mapE parse_imt raw) (\<lambda>imts.
     bindE (guardE (imts \<noteq> []) RequiredProductResolutionError ''native HDF has no effective IMTs'') (\<lambda>_.
     Inr (sort (remdups imts))))))"

definition raster_path :: "hdf_library \<Rightarrow> ustr \<Rightarrow> exn + ustr" where
  "raster_path L imt =
     bindE (if imt = lit ''MMI'' then Inr (jstr ''intensity'')
            else case imt_stem L imt of
                   None \<Rightarrow> Inl (Exn RequiredProductResolutionError ''could not map native IMT to a raster filename'')
                 | Some stem \<Rightarrow> Inr stem) (\<lambda>stem.
     bindE (guardE (is_str stem \<and> str_of stem \<noteq> [] \<and> 47 \<notin> set (str_of stem))
              RequiredProductResolutionError ''native IMT has no unambiguous raster filename'') (\<lambda>_.
     validate_relative_path (str_of stem @ lit ''.jpg'')))"

fun raster_paths :: "hdf_library \<Rightarrow> ustr list \<Rightarrow> ustr list \<Rightarrow> exn + ustr list" where
  "raster_paths L found [] = Inr found"
| "raster_paths L found (imt # imts) =
     bindE (raster_path L imt) (\<lambda>p.
     bindE (guardE (p \<notin> set found) RequiredProductResolutionError ''native IMTs map ambiguously'') (\<lambda>_.
     raster_paths L (found @ [p]) imts))"

definition derive_required_products :: "hdf_library \<Rightarrow> node option \<Rightarrow> exn + ustr list" where
  "derive_required_products L n =
     bindE (read_native_imts L n) (\<lambda>imts.
     bindE (guardE (imt_import L) RequiredProductResolutionError
              ''compatible ShakeMap IMT filename converter is unavailable'') (\<lambda>_.
     bindE (raster_paths L [] imts) (\<lambda>rasters.
     Inr (HDF_PRODUCT # rasters))))"

definition resolve_required_products :: "settings \<Rightarrow> hdf_library \<Rightarrow> path \<Rightarrow> fsys \<Rightarrow> exn + resolution" where
  "resolve_required_products c L p s =
     (if required_products c \<noteq> []
      then bindE (mapE validate_relative_path (required_products c)) (\<lambda>paths.
           Inr \<lparr>q_paths = paths, q_source = ''configured''\<rparr>)
      else bindE (derive_required_products L (entry_at p HDF_PRODUCT s)) (\<lambda>paths.
           Inr \<lparr>q_paths = paths, q_source = ''derived''\<rparr>))"

section \<open>Validation\<close>

definition validate_input :: "resolution \<Rightarrow> exn + unit" where
  "validate_input q =
     bindE (guardE (q_source q \<in> {''configured'', ''derived''}) ProductValidationInputError
              ''required-product source is invalid'') (\<lambda>_.
     bindE (guardE (q_paths q \<noteq> []) ProductValidationInputError
              ''required-product resolution must not be empty'') (\<lambda>_.
     bindE (mapE (product_path_ok ProductValidationInputError) (q_paths q)) (\<lambda>_. Inr ())))"

text \<open>
  Where a product path leads. Below real directories the store says it; what lies behind a special
  entry (a symbolic link) and the size of an entry that is not a regular file are the
  environment's, given by \<open>special_entries\<close>.
\<close>

datatype product_lookup =
    Absent
  | Unresolvable string
  | Outside
  | Irregular int
  | Regular int

record special_entries =
  behind_special :: "ustr list \<Rightarrow> product_lookup"
  directory_size :: "ustr list \<Rightarrow> int"

fun product_entry :: "env \<Rightarrow> special_entries \<Rightarrow> ustr list \<Rightarrow> dirc \<Rightarrow> ustr list \<Rightarrow> product_lookup" where
  "product_entry E X whole d [] = Irregular (directory_size X whole)"
| "product_entry E X whole d (n # ns) =
     (case aget d n of
        None \<Rightarrow> Absent
      | Some (Dir d') \<Rightarrow> product_entry E X whole d' ns
      | Some Special \<Rightarrow> behind_special X whole
      | Some (File c) \<Rightarrow>
          if ns = [] then Regular (int (length (content_bytes E c)))
          else Unresolvable ''NotADirectoryError'')"

definition failed_check :: "ustr \<Rightarrow> int option \<Rightarrow> string \<Rightarrow> required_product_check" where
  "failed_check p n reason = \<lparr>c_path = p, c_size = n, c_passed = False, c_reason = lit reason\<rparr>"

definition check_product :: "env \<Rightarrow> special_entries \<Rightarrow> dirc \<Rightarrow> ustr \<Rightarrow> required_product_check" where
  "check_product E X d p =
     (case product_entry E X (split_on 47 p) d (split_on 47 p) of
        Absent \<Rightarrow> failed_check p None ''product is missing''
      | Unresolvable m \<Rightarrow> failed_check p None (''product could not be resolved: '' @ m)
      | Outside \<Rightarrow> failed_check p None ''product resolves outside products directory''
      | Irregular n \<Rightarrow> failed_check p (Some n) ''product is not a regular file''
      | Regular n \<Rightarrow>
          if n = 0 then failed_check p (Some n) ''product is empty''
          else \<lparr>c_path = p, c_size = Some n, c_passed = True, c_reason = lit ''generic checks passed''\<rparr>)"

text \<open>The products directory itself is reached through directories the service created.\<close>

definition validate_required_products ::
  "env \<Rightarrow> special_entries \<Rightarrow> path \<Rightarrow> resolution \<Rightarrow> fsys \<Rightarrow> exn + validation_result" where
  "validate_required_products E X p q s =
     bindE (validate_input q) (\<lambda>_.
     let checks = (case open_record_directory p s of
                     Inr (Some d) \<Rightarrow> map (check_product E X d) (q_paths q)
                   | Inr None \<Rightarrow> map (\<lambda>path. failed_check path None ''product is missing'') (q_paths q)
                   | Inl e \<Rightarrow> map (\<lambda>path. failed_check path None
                                 (''products directory could not be resolved: '' @ exn_message e)) (q_paths q))
     in Inr \<lparr>v_required_paths = q_paths q, v_source = q_source q, v_checks = checks,
             v_passed = list_all c_passed checks\<rparr>)"

section \<open>The inventory\<close>

text \<open>Every regular file below a directory, with its path; special entries are passed over.\<close>

fun node_files :: "ustr \<Rightarrow> node \<Rightarrow> (ustr \<times> content) list"
  and dir_files :: "ustr \<Rightarrow> dirc \<Rightarrow> (ustr \<times> content) list" where
  "node_files p (File c) = [(p, c)]"
| "node_files p (Dir d) = dir_files (p @ lit ''/'') d"
| "node_files p Special = []"
| "dir_files base [] = []"
| "dir_files base ((n, v) # d) = node_files (base @ n) v @ dir_files base d"

definition inventory_entry :: "env \<Rightarrow> ustr \<times> content \<Rightarrow> json" where
  "inventory_entry E f =
     jobj [(''path'', JStr (fst f)), (''size'', JInt (int (length (content_bytes E (snd f))))),
           (''sha256'', JStr (sha256 E (content_bytes E (snd f))))]"

text \<open>
  The inventory and its failures. Reads do not fail by themselves, so the only failure is that of
  the directory itself.
\<close>

definition inventory_products :: "env \<Rightarrow> path \<Rightarrow> bool \<Rightarrow> fsys \<Rightarrow> exn + json list \<times> json list" where
  "inventory_products E p best_effort s =
     (let failure = (\<lambda>reason. jobj [(''path'', jstr ''.''), (''reason'', jstr reason)]) in
      case open_record_directory p s of
        Inr (Some d) \<Rightarrow> Inr (map (inventory_entry E) (sort_key fst (dir_files [] d)), [])
      | Inr None \<Rightarrow>
          if best_effort then Inr ([], [failure ''FileNotFoundError''])
          else Inl (Exn ProductManifestError ''native products directory could not be inspected'')
      | Inl e \<Rightarrow>
          if best_effort then Inr ([], [failure ''NotADirectoryError''])
          else Inl (Exn ProductManifestError ''native products path is not a directory''))"

section \<open>Publishing the manifest\<close>

text \<open>\<open>json.dumps(..., ensure_ascii=False).encode("utf-8")\<close> refuses text with surrogates.\<close>

fun encodable :: "json \<Rightarrow> bool" where
  "encodable (JStr t) = (\<not> list_ex is_surrogate t)"
| "encodable (JList js) = list_all encodable js"
| "encodable (JObj kvs) = list_all (\<lambda>(k, v). \<not> list_ex is_surrogate k \<and> encodable v) kvs"
| "encodable j = True"

text \<open>
  The publication of an evidence file: a private temporary file, its rename, and the removal of
  the temporary file when the rename has not happened.
\<close>

definition publish_evidence :: "string \<Rightarrow> path \<Rightarrow> ustr \<Rightarrow> json \<Rightarrow> ('m, unit) io" where
  "publish_evidence label p target j =
     thenM (observe (\<lambda>E s. bindE (open_record_directory p s) (\<lambda>d.
              guardE (d \<noteq> None) FileNotFoundError ''service directory does not exist'')))
    (bindM read_uuid (\<lambda>u.
     let tmp = lit label @ u @ lit ''.tmp'' in
     thenM (catchM
              (thenM (create_private p tmp)
              (thenM (write_file p tmp (Json j))
              (thenM fsync (rename p tmp p target))))
              (\<lambda>e. thenM (catchM (unlink p tmp) (\<lambda>e'. if is_os_error e' then ret () else reraise e'))
                         (reraise e)))
           fsync))"

definition publish_manifest :: "ustr \<Rightarrow> json \<Rightarrow> ('m, unit) io" where
  "publish_manifest event_id payload =
     publish_evidence ''.product-manifest-'' (event_service_dir event_id) MANIFEST_NAME payload"

definition validation_facts :: "validation_result option \<Rightarrow> json" where
  "validation_facts validation =
     (case validation of
        None \<Rightarrow> JNull
      | Some v \<Rightarrow> jobj
          [(''paths'', JList (map JStr (v_required_paths v))),
           (''source'', jstr (v_source v)),
           (''passed'', JBool (v_passed v)),
           (''checks'', JList (map (\<lambda>ch. jobj
              [(''path'', JStr (c_path ch)), (''size'', opt_int (c_size ch)),
               (''passed'', JBool (c_passed ch)), (''reason'', JStr (c_reason ch))]) (v_checks v)))])"

definition manifest_payload ::
  "calculation_record \<Rightarrow> validation_result option \<Rightarrow> ustr option \<Rightarrow> json list \<Rightarrow> json list \<Rightarrow> json" where
  "manifest_payload r validation primary_reason products failures =
     jobj [(''event_id'', r_event_id r),
           (''internal_sequence'', r_internal_sequence r),
           (''partial'', JBool (primary_reason \<noteq> None)),
           (''primary_reason'', case primary_reason of None \<Rightarrow> JNull | Some m \<Rightarrow> JStr m),
           (''inventory_failures'', JList failures),
           (''required_products'', validation_facts validation),
           (''products'', JList products)]"

definition publish_product_manifest ::
  "calculation_record \<Rightarrow> validation_result option \<Rightarrow> ustr option \<Rightarrow> ('m, unit) io" where
  "publish_product_manifest r validation primary_reason =
     thenM (check (primary_reason \<noteq> Some []) ValueError ''primary_reason must be a nonempty string or None'')
    (thenM (check (primary_reason \<noteq> None \<or> (case validation of None \<Rightarrow> False | Some v \<Rightarrow> v_passed v)) ValueError
              ''a complete manifest requires an all-pass required-product result'')
    (bindM (observe (\<lambda>E s.
        bindE (require_matching_current (cfg E) r s) (\<lambda>_.
        bindE (inventory_products E (products_path (event_id_of r)) (primary_reason \<noteq> None) s)
          (\<lambda>(products, failures).
        let payload = manifest_payload r validation primary_reason products failures in
        bindE (guardE (encodable payload) ValueError ''surrogates not allowed'') (\<lambda>_.
        Inr payload))))) (publish_manifest (event_id_of r))))"

end
