(* ===== verification/Product_Lemmas.thy ===== *)
theory Product_Lemmas
  imports Products Status_Triples
begin

text \<open>
  Product paths and trees: joining names, looking a file up by its names, and the inventory as the
  set of all files that can be looked up; and what the publication of an evidence file does.
\<close>

section \<open>Paths as names\<close>

fun join_names :: "ustr list \<Rightarrow> ustr" where
  "join_names [] = []"
| "join_names [n] = n"
| "join_names (n # ns) = n @ 47 # join_names ns"

lemma split_join: "ns \<noteq> [] \<Longrightarrow> \<forall>n\<in>set ns. 47 \<notin> set n \<Longrightarrow> split_on 47 (join_names ns) = ns"
  by (induction ns rule: join_names.induct) (simp_all add: split_on_no_sep split_on_append)

lemma join_split: "join_names (split_on 47 p) = p"
proof (induction p)
  case (Cons c p)
  then show ?case
    by (cases "split_on 47 p" rule: join_names.cases) auto
qed simp

section \<open>Trees\<close>

text \<open>The names a directory can hold, each once.\<close>

definition file_name :: "ustr \<Rightarrow> bool" where
  "file_name n \<longleftrightarrow> n \<noteq> [] \<and> 47 \<notin> set n \<and> n \<noteq> lit ''.'' \<and> n \<noteq> lit ''..''"

fun node_names_ok :: "node \<Rightarrow> bool" and tree_names_ok :: "dirc \<Rightarrow> bool" where
  "node_names_ok (File c) = True"
| "node_names_ok (Dir d) = tree_names_ok d"
| "node_names_ok Special = True"
| "tree_names_ok [] = True"
| "tree_names_ok ((n, v) # d) = (file_name n \<and> n \<notin> set (akeys d) \<and> node_names_ok v \<and> tree_names_ok d)"

fun file_at :: "dirc \<Rightarrow> ustr list \<Rightarrow> content option" where
  "file_at d [] = None"
| "file_at d (n # ns) =
     (case aget d n of
        Some (File c) \<Rightarrow> if ns = [] then Some c else None
      | Some (Dir d') \<Rightarrow> file_at d' ns
      | _ \<Rightarrow> None)"

definition node_file_at :: "node \<Rightarrow> ustr list \<Rightarrow> content option" where
  "node_file_at v ns = (case v of File c \<Rightarrow> if ns = [] then Some c else None | Dir d \<Rightarrow> file_at d ns | Special \<Rightarrow> None)"

lemma file_at_Cons: "file_at d (n # ns) = (case aget d n of None \<Rightarrow> None | Some v \<Rightarrow> node_file_at v ns)"
  by (auto simp: node_file_at_def split: option.splits node.splits)

definition below :: "ustr \<Rightarrow> ustr list \<Rightarrow> ustr" where
  "below p ns = (if ns = [] then p else p @ 47 # join_names ns)"

lemma join_names_Cons: "join_names (n # ns) = below n ns"
  by (cases ns) (simp_all add: below_def)

lemma below_append: "q @ below n ns = below (q @ n) ns"
  by (simp add: below_def)

lemma files_iff:
  "node_names_ok v \<Longrightarrow> (p, c) \<in> set (node_files q v) \<longleftrightarrow> (\<exists>ns. p = below q ns \<and> node_file_at v ns = Some c)"
  "tree_names_ok d \<Longrightarrow> (p, c) \<in> set (dir_files base d)
     \<longleftrightarrow> (\<exists>n ns. p = below (base @ n) ns \<and> file_at d (n # ns) = Some c)"
proof (induction q v and base d rule: node_files_dir_files.induct)
  case (2 q d)
  have "node_file_at (Dir d) ns = Some c \<longleftrightarrow> (\<exists>n ms. ns = n # ms \<and> file_at d (n # ms) = Some c)" for ns
    by (cases ns) (simp_all add: node_file_at_def)
  moreover have "below (q @ lit ''/'' @ n) ms = below q (n # ms)" for n ms
    by (simp add: below_def lit_Cons lit_Nil join_names_Cons)
  ultimately show ?case using 2 by auto
next
  case (5 base n v d)
  have there: "file_at ((n, v) # d) (m # ns) = (if m = n then node_file_at v ns else file_at d (m # ns))" for m ns
    by (simp add: file_at_Cons del: file_at.simps)
  have absent: "file_at d (n # ns) = None" for ns
    using "5.prems" in_akeys [of n d] by (simp add: file_at_Cons)
  have head: "(p, c) \<in> set (node_files (base @ n) v)
      \<longleftrightarrow> (\<exists>ns. p = below (base @ n) ns \<and> node_file_at v ns = Some c)"
    and rest: "(p, c) \<in> set (dir_files base d) \<longleftrightarrow> (\<exists>m ns. p = below (base @ m) ns \<and> file_at d (m # ns) = Some c)"
    using 5 by simp_all
  have "m \<noteq> n" if "file_at d (m # ns) = Some c" for m ns
    using absent [of ns] that by auto
  then have "(\<exists>m ns. p = below (base @ m) ns \<and> (if m = n then node_file_at v ns else file_at d (m # ns)) = Some c)
      \<longleftrightarrow> (p, c) \<in> set (node_files (base @ n) v) \<or> (p, c) \<in> set (dir_files base d)"
    unfolding head rest by metis
  then show ?case unfolding there by simp
qed (auto simp: node_file_at_def below_def)

lemma file_at_names:
  "tree_names_ok d \<Longrightarrow> file_at d ns = Some c \<Longrightarrow> ns \<noteq> [] \<and> (\<forall>n\<in>set ns. file_name n)"
proof (induction d ns rule: file_at.induct)
  case (2 d n ns)
  have ok: "file_name n \<and> node_names_ok v" if "aget d n = Some v" for v
    using that "2.prems"(1) by (induction d) (auto split: if_splits)
  show ?case
    using "2.prems"(2) "2.IH" ok by (fastforce split: option.splits node.splits if_splits)
qed simp

text \<open>The inventory lists exactly the files that can be looked up, by their joined names.\<close>

lemma dir_files_iff:
  assumes "tree_names_ok d"
  shows "(p, c) \<in> set (dir_files [] d) \<longleftrightarrow> (\<exists>ns. p = join_names ns \<and> file_at d ns = Some c)"
proof -
  have "(p, c) \<in> set (dir_files [] d) \<longleftrightarrow> (\<exists>n ns. p = join_names (n # ns) \<and> file_at d (n # ns) = Some c)"
    using files_iff(2) [OF assms, of p c "[]"] by (simp add: join_names_Cons)
  also have "\<dots> \<longleftrightarrow> (\<exists>ns. p = join_names ns \<and> file_at d ns = Some c)"
    by (metis file_at.simps(1) list.exhaust option.distinct(1))
  finally show ?thesis .
qed

lemma dir_files_split:
  assumes "tree_names_ok d"
  shows "(p, c) \<in> set (dir_files [] d) \<longleftrightarrow> file_at d (split_on 47 p) = Some c"
proof -
  have "file_at d ns = Some c \<Longrightarrow> split_on 47 (join_names ns) = ns" for ns
    using file_at_names [OF assms] split_join [of ns] by (auto simp: file_name_def)
  then show ?thesis
    unfolding dir_files_iff [OF assms] using join_split by metis
qed

section \<open>Publishing evidence\<close>

lemma tmp_evidence:
  "tmp_name (lit ''.product-manifest-'' @ u @ lit ''.tmp'')" "tmp_name (lit ''.provenance-'' @ u @ lit ''.tmp'')"
  by (simp_all add: tmp_name_def starts_with_append)

text \<open>Removing a temporary name changes nothing but that name, be it there or not.\<close>

lemma unlink_temporary:
  assumes at: "dir_at p s0 = Some d" and t: "tmp_name t"
  shows "triple E (dir_in p s0 (agree d)) (catchM (unlink p t) (\<lambda>e'. if is_os_error e' then ret () else reraise e'))
     (\<lambda>_. dir_in p s0 (agree d)) (\<lambda>_. dir_in p s0 (agree d))"
proof (rule triple_catch [where R = "\<lambda>_. dir_in p s0 (agree d)"])
  have "triple E (dir_in p s0 (agree d)) (unlink p t) (\<lambda>_. dir_in p s0 (agree d)) (\<lambda>_. dir_in p s0 (agree d))"
    unfolding unlink_def
  proof (rule triple_sys)
    fix s s' assume "dir_in p s0 (agree d) s" and run: "unlink_effect p t s = Inr s'"
    then obtain d' where s: "s = put_dir p d' s0" and d': "agree d d'" by (blast elim: dir_inE)
    have "s' = put_dir p (adel t d') s0"
      using run by (auto simp: unlink_effect_def s update_put_dir [OF at] split: option.splits node.splits)
    then show "dir_in p s0 (agree d) s'" using d' by (auto intro!: dir_inI agree_adel_tmp t)
  qed (simp_all add: untouched_def)
  then show "triple E (dir_in p s0 (agree d)) (unlink p t) (\<lambda>_. dir_in p s0 (agree d))
      (\<lambda>e. case e of None \<Rightarrow> dir_in p s0 (agree d) | Some e' \<Rightarrow> dir_in p s0 (agree d))"
    by (rule triple_weaken) (auto split: option.splits)
qed (auto intro: triple_ret triple_reraise)

definition old_or_new :: "ustr \<Rightarrow> json \<Rightarrow> dirc \<Rightarrow> dirc \<Rightarrow> bool" where
  "old_or_new target j d d' \<longleftrightarrow> agree d d' \<or> agree (aput target (File (Json j)) d) d'"

lemma triple_publish_evidence:
  assumes at: "dir_at p s0 = Some d" and opened: "open_record_directory p s0 = Inr (Some d)"
    and tmp: "\<not> tmp_name target" "\<And>u. tmp_name (lit label @ u @ lit ''.tmp'')"
    and target: "\<And>d'. aget d target \<noteq> Some (Dir d')"
  shows "triple E (\<lambda>s. s = s0) (publish_evidence label p target j)
     (\<lambda>_. dir_in p s0 (agree (aput target (File (Json j)) d)))
     (\<lambda>_ s. \<not> quiet E \<and> dir_in p s0 (old_or_new target j d) s)"
    (is "triple E _ _ ?Q ?X")
proof -
  have start: "dir_in p s0 (agree d) s0" by (rule dir_in_start [OF at]) simp
  have run: "triple E (\<lambda>s. s = s0) (thenM (catchM
              (thenM (create_private p t) (thenM (write_file p t (Json j)) (thenM fsync (rename p t p target))))
              (\<lambda>e. thenM (catchM (unlink p t) (\<lambda>e'. if is_os_error e' then ret () else reraise e'))
                         (reraise e))) fsync) ?Q ?X" if t: "tmp_name t" for t
  proof (rule triple_then)
    show "triple E (\<lambda>s. s = s0) (catchM
              (thenM (create_private p t) (thenM (write_file p t (Json j)) (thenM fsync (rename p t p target))))
              (\<lambda>e. thenM (catchM (unlink p t) (\<lambda>e'. if is_os_error e' then ret () else reraise e'))
                         (reraise e))) ?Q ?X"
    proof (rule triple_catch [where R = "\<lambda>_ s. \<not> quiet E \<and> dir_in p s0 (agree d) s"])
      have made: "dir_in p s0 (tmp_made d t) s \<Longrightarrow> dir_in p s0 (agree d) s" for s
        by (auto elim: dir_in_mono simp: tmp_made_def)
      have old: "dir_in p s0 (agree d) s \<Longrightarrow> dir_in p s0 (old_or_new target j d) s" for s
        by (auto elim: dir_in_mono simp: old_or_new_def)
      show "triple E (\<lambda>s. s = s0)
          (thenM (create_private p t) (thenM (write_file p t (Json j)) (thenM fsync (rename p t p target)))) ?Q
          (\<lambda>e. case e of None \<Rightarrow> ?X None | Some e' \<Rightarrow> (\<lambda>s. \<not> quiet E \<and> dir_in p s0 (agree d) s))"
        by (rule triple_then [where R = "dir_in p s0 (tmp_made d t)"], rule triple_weaken [OF publish_create [OF at t]])
           (auto split: option.splits intro: old made old [OF made] made [OF dir_in_full_made] old [OF made [OF dir_in_full_made]]
             intro!: triple_then [where R = "dir_in p s0 (tmp_full d t j)"] triple_fsync
               triple_weaken [OF publish_write [OF at t]] triple_weaken [OF publish_rename [OF at t tmp(1) target]])
      show "triple E (\<lambda>s. \<not> quiet E \<and> dir_in p s0 (agree d) s)
          (thenM (catchM (unlink p t) (\<lambda>e'. if is_os_error e' then ret () else reraise e')) (reraise e)) ?Q ?X" for e
        by (rule triple_pure, rule triple_then [where R = "dir_in p s0 (agree d)"],
            rule triple_weaken [OF unlink_temporary [OF at t]])
           (auto intro: old intro!: triple_reraise)
    qed
  qed (rule triple_fsync, auto elim: dir_in_mono simp: old_or_new_def)
  show ?thesis
    unfolding publish_evidence_def Let_def
    using opened
    by (intro triple_then [where R = "\<lambda>s. s = s0"] triple_bind [where R = "\<lambda>_ s. s = s0"] triple_read_uuid
        triple_observe run [OF tmp(2)])
       (use start in \<open>auto elim: dir_in_mono simp: old_or_new_def\<close>)
qed

end
