(* ===== verification/Product_Properties.thy ===== *)
theory Product_Properties
  imports Product_Lemmas View_Lemmas Samples
begin

text \<open>
  The properties of the product checks: a resolution is accepted by the validation, a passed
  validation means every product is there, the inventory is exactly the files of the tree, and a
  published manifest is what finalization and the public summary accept.
\<close>

section \<open>Resolution\<close>

lemma product_path_ok_Inr:
  "product_path_ok k p = Inr q \<longleftrightarrow> q = p \<and> p \<noteq> [] \<and> \<not> starts_with (lit ''/'') p \<and> \<not> list_ex is_control p
     \<and> list_all (\<lambda>c. c \<notin> {[], lit ''.'', lit ''..''}) (split_on 47 p)"
  by (auto simp: product_path_ok_def result_simps)

lemma mapE_all: "list_all (\<lambda>x. f x = Inr x) xs \<Longrightarrow> mapE f xs = Inr xs"
  by (induction xs) auto

lemma raster_path_Inr: "raster_path L imt = Inr p \<Longrightarrow> product_path_ok k p = Inr p \<and> (\<exists>stem. p = stem @ lit ''.jpg'')"
  by (auto simp: raster_path_def result_simps validate_relative_path_def product_path_ok_Inr)

lemma raster_paths_Inr:
  "raster_paths L found imts = Inr ps \<Longrightarrow> \<exists>rs. ps = found @ rs \<and> length rs = length imts
     \<and> (distinct found \<longrightarrow> distinct ps) \<and> (\<forall>p\<in>set rs. product_path_ok k p = Inr p \<and> (\<exists>stem. p = stem @ lit ''.jpg''))"
proof (induction imts arbitrary: found)
  case (Cons imt imts)
  obtain p where p: "raster_path L imt = Inr p" "p \<notin> set found" and run: "raster_paths L (found @ [p]) imts = Inr ps"
    using Cons.prems by (auto simp: result_simps)
  from Cons.IH [OF run] obtain rs where "ps = (found @ [p]) @ rs" "length rs = length imts"
    "distinct (found @ [p]) \<longrightarrow> distinct ps"
    "\<forall>p\<in>set rs. product_path_ok k p = Inr p \<and> (\<exists>stem. p = stem @ lit ''.jpg'')"
    by blast
  then show ?case using p raster_path_Inr [OF p(1), of k] by (intro exI [of _ "p # rs"]) auto
qed simp

lemma hdf_product_ok: "product_path_ok k HDF_PRODUCT = Inr HDF_PRODUCT" "HDF_PRODUCT \<noteq> stem @ lit ''.jpg''"
proof -
  have "last (lit ''shake_result.hdf'') = 102" by (simp add: lit_Cons lit_Nil)
  moreover have "last (stem @ lit ''.jpg'') = 103" by (simp add: lit_Cons lit_Nil)
  ultimately show "HDF_PRODUCT \<noteq> stem @ lit ''.jpg''" unfolding HDF_PRODUCT_def by (metis numeral_eq_iff num.distinct semiring_norm(90) semiring_norm(83))
  show "product_path_ok k HDF_PRODUCT = Inr HDF_PRODUCT"
    by (simp add: product_path_ok_Inr HDF_PRODUCT_def starts_with_def lit_Cons lit_Nil is_control_def)
qed

text \<open>
  C33: every resolution is one the validation accepts. A derived one asks for the HDF file first and
  then for one raster per effective IMT, all different.
\<close>

theorem resolutions_are_valid:
  assumes "resolve_required_products c L p s = Inr q"
  shows "validate_input q = Inr () \<and> (q_source q = ''configured'' \<longrightarrow> q_paths q = required_products c)
    \<and> (q_source q = ''derived'' \<longrightarrow> required_products c = [] \<and> hd (q_paths q) = HDF_PRODUCT \<and> distinct (q_paths q)
         \<and> (\<exists>imts. read_native_imts L (entry_at p HDF_PRODUCT s) = Inr imts \<and> distinct imts
              \<and> length (q_paths q) = Suc (length imts)))"
proof (cases "required_products c = []")
  case False
  have "mapE validate_relative_path xs = Inr ys \<Longrightarrow> ys = xs \<and> mapE (product_path_ok k) xs = Inr xs" for xs ys k
    by (induction xs arbitrary: ys) (auto simp: result_simps validate_relative_path_def product_path_ok_Inr)
  from this [where k = ProductValidationInputError] show ?thesis
    using assms False by (fastforce simp: resolve_required_products_def result_simps validate_input_def)
next
  case True
  then obtain imts rasters where imts: "read_native_imts L (entry_at p HDF_PRODUCT s) = Inr imts"
    and rasters: "raster_paths L [] imts = Inr rasters"
    and q: "q = \<lparr>q_paths = HDF_PRODUCT # rasters, q_source = ''derived''\<rparr>"
    using assms by (auto simp: resolve_required_products_def derive_required_products_def result_simps)
  note r = raster_paths_Inr [OF rasters, of ProductValidationInputError, simplified]
  have "distinct imts" using imts by (auto simp: read_native_imts_def result_simps)
  moreover have "mapE (product_path_ok ProductValidationInputError) (q_paths q) = Inr (q_paths q)"
    using r by (intro mapE_all) (auto simp: q hdf_product_ok(1) list_all_iff)
  moreover have "HDF_PRODUCT \<notin> set rasters" using r hdf_product_ok(2) by blast
  ultimately show ?thesis
    using imts r True by (simp add: q validate_input_def)
qed

definition sample_library :: hdf_library where
  "sample_library = \<lparr>hdf_import = True, hdf_open = (\<lambda>n. case n of None \<Rightarrow> False | Some v \<Rightarrow> True), hdf_construct = (\<lambda>n. True),
     hdf_imts = (\<lambda>n. Some [jstr ''GREATER_OF_TWO_HORIZONTAL/PGA'', jstr ''GREATER_OF_TWO_HORIZONTAL/MMI'',
                          jstr ''ROTD50/PGA'']),
     hdf_close_container = True, hdf_close_file = True, imt_import = True, imt_stem = (\<lambda>i. Some (JStr i))\<rparr>"

definition sample_products :: dirc where
  "sample_products = [(HDF_PRODUCT, File (Bytes [1])), (lit ''PGA.jpg'', File (Bytes [2])),
     (lit ''pdl'', Dir [(lit ''intensity.jpg'', File (Bytes [4]))]), (lit ''intensity.jpg'', File (Bytes [3]))]"

definition sample_product_store :: fsys where
  "sample_product_store = (\<lambda>_. [])(Products := [(sample_event, Dir [(lit ''current'', Dir [(lit ''products'', Dir sample_products)])])])"

lemma sample_product_dir: "dir_at (products_path sample_event) sample_product_store = Some sample_products"
  by (simp add: products_path_def sample_product_store_def dir_at_def)

lemma sample_resolution:
  "resolve_required_products sample_cfg sample_library (products_path sample_event) sample_product_store
     = Inr \<lparr>q_paths = [HDF_PRODUCT, lit ''intensity.jpg'', lit ''PGA.jpg''], q_source = ''derived''\<rparr>"
proof -
  have "entry_at (products_path sample_event) HDF_PRODUCT sample_product_store = Some (File (Bytes [1]))"
    by (simp add: entry_at_def sample_product_dir) (simp add: sample_products_def)
  moreover have "read_native_imts sample_library (Some (File (Bytes [1]))) = Inr [lit ''MMI'', lit ''PGA'']"
    by (simp add: read_native_imts_def sample_library_def hdf_primary_def hdf_close_def parse_imt_def Let_def
        lit_Cons lit_Nil stripped_def unicode_space_def is_space_def)
  moreover have "raster_paths sample_library [] [lit ''MMI'', lit ''PGA''] = Inr [lit ''intensity.jpg'', lit ''PGA.jpg'']"
    by (simp add: raster_path_def sample_library_def validate_relative_path_def product_path_ok_def
        lit_Cons lit_Nil starts_with_def is_control_def)
  ultimately have "derive_required_products sample_library (Some (File (Bytes [1])))
      = Inr [HDF_PRODUCT, lit ''intensity.jpg'', lit ''PGA.jpg'']"
    by (simp add: derive_required_products_def) (simp add: sample_library_def)
  moreover note \<open>entry_at (products_path sample_event) HDF_PRODUCT sample_product_store = Some (File (Bytes [1]))\<close>
  ultimately show ?thesis
    by (simp add: resolve_required_products_def sample_cfg_def)
qed

theorem resolutions_are_valid_witness:
  "validate_input \<lparr>q_paths = [HDF_PRODUCT, lit ''intensity.jpg'', lit ''PGA.jpg''], q_source = ''derived''\<rparr> = Inr ()"
  using resolutions_are_valid [OF sample_resolution] by simp

section \<open>Validation and inventory\<close>

lemma product_entry_regular:
  assumes "\<And>ns n. behind_special X ns \<noteq> Regular n"
  shows "product_entry E X whole d ns = Regular k
    \<longleftrightarrow> (\<exists>c. file_at d ns = Some c \<and> k = int (length (content_bytes E c)))"
  by (induction ns arbitrary: d) (use assms in \<open>auto split: option.splits node.splits\<close>)

lemma check_product_passed:
  assumes "\<And>ns n. behind_special X ns \<noteq> Regular n"
  shows "c_passed (check_product E X d p) \<longleftrightarrow> (\<exists>c. file_at d (split_on 47 p) = Some c \<and> content_bytes E c \<noteq> [])"
proof -
  note regular = product_entry_regular [OF assms, of E "split_on 47 p" d "split_on 47 p"]
  show ?thesis
  proof (cases "product_entry E X (split_on 47 p) d (split_on 47 p)")
    case (Regular k)
    then show ?thesis using regular [of k] by (auto simp: check_product_def failed_check_def)
  qed (use regular in \<open>auto simp: check_product_def failed_check_def\<close>)
qed

lemma check_product_path [simp]: "c_path (check_product E X d p) = p"
  by (simp add: check_product_def failed_check_def split: product_lookup.splits)


definition no_links :: special_entries where
  "no_links = \<lparr>behind_special = (\<lambda>_. Outside), directory_size = (\<lambda>_. 0)\<rparr>"

definition sample_required :: resolution where
  "sample_required = \<lparr>q_paths = [HDF_PRODUCT, lit ''intensity.jpg'', lit ''PGA.jpg''], q_source = ''derived''\<rparr>"

lemma sample_opened: "open_record_directory (products_path sample_event) sample_product_store = Inr (Some sample_products)"
  by (simp add: open_record_directory_def products_path_def sample_product_store_def)

lemma sample_files:
  "file_at sample_products (split_on 47 HDF_PRODUCT) = Some (Bytes [1])"
  "file_at sample_products (split_on 47 (lit ''PGA.jpg'')) = Some (Bytes [2])"
  "file_at sample_products (split_on 47 (lit ''intensity.jpg'')) = Some (Bytes [3])"
  by (simp_all add: sample_products_def HDF_PRODUCT_def split_on_no_sep lit_Cons lit_Nil)


lemma inventory_present:
  assumes "open_record_directory p s = Inr (Some d)"
  shows "inventory_products E p b s = Inr (map (inventory_entry E) (sort_key fst (dir_files [] d)), [])"
  using assms by (simp add: inventory_products_def Let_def)

text \<open>
  C32: the inventory is the reference one: it lists, sorted by path, every path that looking up its
  names one by one leads to a regular file, with that file's size and digest, and nothing else.
\<close>

theorem inventory_lists_exactly_the_files:
  assumes "open_record_directory p s = Inr (Some d)" "tree_names_ok d"
  shows "\<exists>rows. inventory_products E p b s = Inr (rows, [])
    \<and> sorted (map (\<lambda>row. str_of (jget row ''path'')) rows)
    \<and> set rows = {inventory_entry E (path, c) |path c. file_at d (split_on 47 path) = Some c}"
proof -
  let ?rows = "map (inventory_entry E) (sort_key fst (dir_files [] d))"
  have "(\<lambda>row. str_of (jget row ''path'')) \<circ> inventory_entry E = fst"
    by (auto simp: inventory_entry_def)
  then have "sorted (map (\<lambda>row. str_of (jget row ''path'')) ?rows)" by simp
  moreover have "set ?rows = {inventory_entry E (path, c) |path c. file_at d (split_on 47 path) = Some c}"
    using dir_files_split [OF assms(2)] by (auto simp: image_iff)
  ultimately show ?thesis using inventory_present [OF assms(1)] by blast
qed

lemma sample_tree_ok: "tree_names_ok sample_products"
  by (simp add: sample_products_def HDF_PRODUCT_def file_name_def lit_Cons lit_Nil)

theorem inventory_lists_exactly_the_files_witness:
  "\<exists>rows. inventory_products sample_env (products_path sample_event) False sample_product_store = Inr (rows, [])
     \<and> inventory_entry sample_env (lit ''PGA.jpg'', Bytes [2]) \<in> set rows"
proof -
  from inventory_lists_exactly_the_files [OF sample_opened sample_tree_ok, of sample_env False]
  obtain rows where "inventory_products sample_env (products_path sample_event) False sample_product_store = Inr (rows, [])"
    and "set rows = {inventory_entry sample_env (path, c) |path c. file_at sample_products (split_on 47 path) = Some c}"
    by blast
  with sample_files(2) show ?thesis by auto
qed

section \<open>The published manifest\<close>

lemma jget_manifest [simp]:
  "jget (manifest_payload r v reason products failures) ''event_id'' = r_event_id r"
  "jget (manifest_payload r v reason products failures) ''internal_sequence'' = r_internal_sequence r"
  "jget (manifest_payload r v reason products failures) ''partial'' = JBool (reason \<noteq> None)"
  "jget (manifest_payload r v reason products failures) ''products'' = JList products"
  "jget (manifest_payload r v reason products failures) ''required_products'' = validation_facts v"
  "is_dict (manifest_payload r v reason products failures)"
  by (simp_all add: manifest_payload_def)

lemma published_payload:
  assumes "publish_product_manifest r v reason E w = (Val (), w')"
    and "aget (fs w Events) (event_id_of r) = Some (Dir d)" "\<And>d'. aget d MANIFEST_NAME \<noteq> Some (Dir d')"
  shows "\<exists>products failures. inventory_products E (products_path (event_id_of r)) (reason \<noteq> None) (fs w) = Inr (products, failures)
    \<and> entry_at (event_service_dir (event_id_of r)) MANIFEST_NAME (fs w')
        = Some (File (Json (manifest_payload r v reason products failures)))
    \<and> (reason = None \<longrightarrow> (\<exists>x. v = Some x \<and> v_passed x))"
proof -
  let ?p = "event_service_dir (event_id_of r)"
  have at: "dir_at ?p (fs w) = Some d" using assms(2) by (simp add: event_service_dir_def)
  then have opened: "open_record_directory ?p (fs w) = Inr (Some d)"
    unfolding event_service_dir_def by (rule open_record_dir)
  obtain products failures where inv: "inventory_products E (products_path (event_id_of r)) (reason \<noteq> None) (fs w) = Inr (products, failures)"
    and cur: "okE (require_matching_current (cfg E) r (fs w))"
    and passed: "reason \<noteq> None \<or> (case v of None \<Rightarrow> False | Some x \<Rightarrow> v_passed x)"
    and run: "publish_manifest (event_id_of r) (manifest_payload r v reason products failures) E w = (Val (), w')"
    using assms(1)
    by (auto simp: publish_product_manifest_def thenM_def bindM_def check_def ret_def raise_def observe_def okE_iff
        result_simps Let_def split: outcome.splits prod.splits sum.splits if_splits)
  have m: "\<not> tmp_name MANIFEST_NAME" by (simp add: MANIFEST_NAME_def tmp_name_lit)
  have "dir_in ?p (fs w) (agree (aput MANIFEST_NAME (File (Json (manifest_payload r v reason products failures))) d)) (fs w')"
    using tripleD(1) [OF triple_publish_evidence [OF at opened m tmp_evidence(1) assms(3)] refl run [unfolded publish_manifest_def]] .
  then obtain d' where "fs w' = put_dir ?p d' (fs w)"
    "agree (aput MANIFEST_NAME (File (Json (manifest_payload r v reason products failures))) d) d'"
    by (rule dir_inE)
  then have "entry_at ?p MANIFEST_NAME (fs w') = Some (File (Json (manifest_payload r v reason products failures)))"
    using agreeD [OF _ m] by (fastforce simp: entry_at_def dir_at_put_dir [OF at])
  then show ?thesis
    using inv cur passed by (intro exI [of _ products] exI [of _ failures]) (auto simp: okE_iff split: option.splits)
qed

lemma relative_path_ok:
  assumes "\<forall>n\<in>set (split_on 47 p). file_name n"
  shows "validate_relative_product_path (JStr p) l = Inr p"
proof -
  have "p \<noteq> []" using assms by (cases p) (auto simp: file_name_def)
  moreover have "\<not> starts_with (lit ''/'') p"
    using assms by (cases p) (auto simp: starts_with_slash file_name_def)
  ultimately show ?thesis
    using assms by (simp add: validate_relative_product_path_def file_name_def list_all_iff)
qed

text \<open>
  C30: the manifest that is published for a passed validation is the evidence the finalization asks
  for, and the public summary of it is complete: every required check, and every regular file of
  the products tree with its size.
\<close>

theorem published_manifest_is_accepted:
  assumes "publish_product_manifest r (Some v) None E w = (Val (), w')"
    and "aget (fs w Events) (event_id_of r) = Some (Dir d)" "\<And>d'. aget d MANIFEST_NAME \<noteq> Some (Dir d')"
    and "open_record_directory (products_path (event_id_of r)) (fs w) = Inr (Some tree)" "tree_names_ok tree"
    and "valid_record (cfg E) r" "\<And>j. encoded E j \<noteq> []"
    and "\<forall>ch\<in>set (v_checks v). \<forall>n\<in>set (split_on 47 (c_path ch)). file_name n"
  shows "require_product_manifest E r (fs w') = Inr () \<and> v_passed v
    \<and> (\<exists>payload required products. entry_at (event_service_dir (event_id_of r)) MANIFEST_NAME (fs w') = Some (File (Json payload))
        \<and> manifest_summary payload = Inr (''complete'', required, products)
        \<and> length required = length (v_checks v)
        \<and> set products = {jobj [(''path'', JStr p), (''size_bytes'', JInt (int (length (content_bytes E c))))] |p c.
             file_at tree (split_on 47 p) = Some c})"
proof -
  obtain products failures where inv: "inventory_products E (products_path (event_id_of r)) False (fs w) = Inr (products, failures)"
    and entry: "entry_at (event_service_dir (event_id_of r)) MANIFEST_NAME (fs w')
        = Some (File (Json (manifest_payload r (Some v) None products failures)))"
    and passed: "v_passed v"
    using published_payload [OF assms(1-3)] by auto
  let ?files = "sort_key fst (dir_files [] tree)"
  let ?payload = "manifest_payload r (Some v) None products failures"
  have products: "products = map (inventory_entry E) ?files"
    using inv inventory_present [OF assms(4), of E False] by simp
  note id = valid_record_identity [OF assms(6)]
  have req: "require_product_manifest E r (fs w') = Inr ()"
    using entry assms(7) id(3) by (simp add: require_product_manifest_def read_service_json_def content_bytes_def names_calculation_def)
  have row: "product_row (inventory_entry E (p, c)) = Inr (jobj [(''path'', JStr p), (''size_bytes'', JInt (int (length (content_bytes E c))))])"
    if "(p, c) \<in> set (dir_files [] tree)" for p c
  proof -
    have "\<forall>n\<in>set (split_on 47 p). file_name n"
      using that file_at_names [OF assms(5)] by (auto simp: dir_files_split [OF assms(5)])
    from relative_path_ok [OF this] show ?thesis by (simp add: product_row_def inventory_entry_def)
  qed
  let ?row = "\<lambda>f. jobj [(''path'', JStr (fst f)), (''size_bytes'', JInt (int (length (content_bytes E (snd f)))))]"
  have rows: "mapE product_row (map (inventory_entry E) fs) = Inr (map ?row fs)"
    if "set fs \<subseteq> set (dir_files [] tree)" for fs
    using that row by (induction fs) auto
  have one: "\<exists>row. required_check_row (jobj [(''path'', JStr (c_path ch)), (''size'', opt_int (c_size ch)),
      (''passed'', JBool (c_passed ch)), (''reason'', JStr (c_reason ch))]) = Inr row"
    if "ch \<in> set (v_checks v)" for ch
  proof -
    have "\<forall>n\<in>set (split_on 47 (c_path ch)). file_name n" using assms(8) that by simp
    from relative_path_ok [OF this] show ?thesis by (simp add: required_check_row_def)
  qed
  let ?check = "\<lambda>ch. jobj [(''path'', JStr (c_path ch)), (''size'', opt_int (c_size ch)),
      (''passed'', JBool (c_passed ch)), (''reason'', JStr (c_reason ch))]"
  have "\<exists>ys. mapE required_check_row (map ?check chs) = Inr ys" if "set chs \<subseteq> set (v_checks v)" for chs
    using that
  proof (induction chs)
    case (Cons ch chs)
    then obtain y ys where "required_check_row (?check ch) = Inr y" "mapE required_check_row (map ?check chs) = Inr ys"
      using one [of ch] by auto
    then show ?case by simp
  qed simp
  then obtain required where checks: "mapE required_check_row (map ?check (v_checks v)) = Inr required" by blast
  have facts: "jget (validation_facts (Some v)) ''checks'' = JList (map ?check (v_checks v))"
    "is_dict (validation_facts (Some v))" "validation_facts (Some v) \<noteq> JNull"
    by (simp_all add: validation_facts_def)
  have summary: "manifest_summary ?payload = Inr (''complete'', required, map ?row ?files)"
    using rows [of ?files] checks by (simp add: manifest_summary_def Let_def facts products)
  have "set (map ?row ?files) = {jobj [(''path'', JStr p), (''size_bytes'', JInt (int (length (content_bytes E c))))] |p c.
             file_at tree (split_on 47 p) = Some c}"
    (is "_ = ?rhs")
  proof -
    have "set (map ?row ?files) = (\<lambda>(p, c). ?row (p, c)) ` set (dir_files [] tree)" by (simp add: case_prod_beta)
    also have "\<dots> = ?rhs"
      using dir_files_split [OF assms(5)] by (force simp del: jobj_def)
    finally show ?thesis .
  qed
  moreover have "length required = length (v_checks v)"
    using mapE_Inr_length [OF checks] by simp
  ultimately show ?thesis using req passed entry summary by blast
qed

text \<open>An undisturbed publication returns.\<close>

lemma publish_manifest_returns:
  assumes "quiet E" "require_matching_current (cfg E) r (fs w) = Inr cur"
    and "inventory_products E (products_path (event_id_of r)) (reason \<noteq> None) (fs w) = Inr (products, failures)"
    and "encodable (manifest_payload r v reason products failures)"
    and "reason \<noteq> Some []" "reason \<noteq> None \<or> (\<exists>x. v = Some x \<and> v_passed x)"
    and "aget (fs w Events) (event_id_of r) = Some (Dir d)" "\<And>d'. aget d MANIFEST_NAME \<noteq> Some (Dir d')"
  shows "\<exists>w'. publish_product_manifest r v reason E w = (Val (), w')"
proof -
  let ?p = "event_service_dir (event_id_of r)" and ?j = "manifest_payload r v reason products failures"
  have at: "dir_at ?p (fs w) = Some d" using assms(7) by (simp add: event_service_dir_def)
  then have opened: "open_record_directory ?p (fs w) = Inr (Some d)"
    unfolding event_service_dir_def by (rule open_record_dir)
  have m: "\<not> tmp_name MANIFEST_NAME" by (simp add: MANIFEST_NAME_def tmp_name_lit)
  have "triple E (\<lambda>s. s = fs w) (publish_manifest (event_id_of r) ?j :: ('a, unit) io) (\<lambda>_ _. True) (\<lambda>_ _. False)"
    unfolding publish_manifest_def
    by (rule triple_weaken [OF triple_publish_evidence [OF at opened m tmp_evidence(1) assms(8)]]) (use assms(1) in auto)
  from triple_total [OF this, of w] obtain w' where "publish_manifest (event_id_of r) ?j E w = (Val (), w')" by auto
  then show ?thesis
    using assms(2-6)
    by (auto simp: publish_product_manifest_def thenM_def bindM_def check_def ret_def observe_def)
qed

definition evidence_env :: env where
  "evidence_env = sample_env\<lparr>encoded := \<lambda>_. [1]\<rparr>"

definition sample_validation :: validation_result where
  "sample_validation = \<lparr>v_required_paths = [HDF_PRODUCT], v_source = ''derived'',
     v_checks = [\<lparr>c_path = HDF_PRODUCT, c_size = Some 1, c_passed = True, c_reason = lit ''generic checks passed''\<rparr>],
     v_passed = True\<rparr>"

definition sample_calculation_store :: fsys where
  "sample_calculation_store = sample_product_store(Events := [(sample_event, Dir (sample_entry (sample_running True)))])"

lemma sample_matching_current:
  "require_matching_current sample_cfg (sample_running True) sample_calculation_store = Inr (sample_running True)"
proof -
  let ?r = "sample_running True" and ?s = sample_calculation_store
  have at: "dir_at (Events, [sample_event]) ?s = Some (sample_entry ?r)"
    "entry_at (Events, [sample_event]) n ?s = aget (sample_entry ?r) n" for n
    by (simp_all add: sample_calculation_store_def entry_at_def)
  have "load_record sample_cfg (Events, [sample_event]) None (Some sample_event) ?s = Inr ?r"
    by (rule load_stored) (simp_all add: at sample_running)
  then show ?thesis
    using sample_running(3) [of True] open_record_dir [OF at(1)]
    by (simp add: require_matching_current_def read_current_record_def read_record_directory_def event_service_dir_def
        sample_running sample_event_valid validate_event_id_Inr state_of_def parse_state_Some)
qed

theorem published_manifest_is_accepted_witness:
  "\<exists>w'. publish_product_manifest (sample_running True) (Some sample_validation) None evidence_env
      \<lparr>fs = sample_calculation_store, clock = 0, mem = ()\<rparr> = (Val (), w')
     \<and> require_product_manifest evidence_env (sample_running True) (fs w') = Inr ()"
proof -
  let ?r = "sample_running True" and ?w = "\<lparr>fs = sample_calculation_store, clock = 0, mem = ()\<rparr>"
  have env: "cfg evidence_env = sample_cfg" "quiet evidence_env" "encoded evidence_env j \<noteq> []" "content_bytes evidence_env (Bytes b) = b"
    "sha256 evidence_env b = replicate 64 48" for j b
    by (simp_all add: evidence_env_def quiet_def content_bytes_def)
  have opened: "open_record_directory (products_path sample_event) sample_calculation_store = Inr (Some sample_products)"
    using sample_opened by (simp add: open_record_directory_def sample_calculation_store_def products_path_def)
  note inv = inventory_present [OF opened, of evidence_env False]
  have d: "aget (sample_calculation_store Events) sample_event = Some (Dir (sample_entry ?r))"
    "aget (sample_entry ?r) MANIFEST_NAME \<noteq> Some (Dir d')" for d'
    by (simp_all add: sample_calculation_store_def sample_entry_def MANIFEST_NAME_def STATUS_FILE_def)
  have id: "r_event_id ?r = JStr sample_event" "r_internal_sequence ?r = JInt 7"
    using valid_record_identity [OF sample_running(2) [of True]] by (simp_all add: sample_running)
  have ascii: "\<not> list_ex is_surrogate (lit t)" for t
  proof (induction t)
    case (Cons c t)
    have "\<not> is_surrogate (of_char c)" using of_char_less_256 [of c] unfolding is_surrogate_def by linarith
    with Cons show ?case by (simp add: lit_Cons)
  qed (simp add: lit_Nil)
  have files: "sort_key fst (dir_files [] sample_products)
      = [(lit ''PGA.jpg'', Bytes [2]), (lit ''intensity.jpg'', Bytes [3]), (lit ''pdl/intensity.jpg'', Bytes [4]), (HDF_PRODUCT, Bytes [1])]"
    by (simp add: sample_products_def HDF_PRODUCT_def lit_Cons lit_Nil)
  have "encodable (manifest_payload ?r (Some sample_validation) None
      (map (inventory_entry evidence_env) (sort_key fst (dir_files [] sample_products))) [])"
    unfolding files using ascii
    by (simp add: manifest_payload_def inventory_entry_def validation_facts_def sample_validation_def jobj_def id
        env HDF_PRODUCT_def sample_event_def list_ex_iff is_surrogate_def)
  then have "\<exists>w'. publish_product_manifest ?r (Some sample_validation) None evidence_env ?w = (Val (), w')"
    by (intro publish_manifest_returns [OF env(2), of ?r ?w ?r None _ "[]" "Some sample_validation" "sample_entry ?r"])
       (use sample_matching_current inv d in \<open>simp_all add: env sample_running sample_validation_def\<close>)
  then obtain w' where run: "publish_product_manifest ?r (Some sample_validation) None evidence_env ?w = (Val (), w')"
    by blast
  have names: "\<forall>ch\<in>set (v_checks sample_validation). \<forall>n\<in>set (split_on 47 (c_path ch)). file_name n"
    by (simp add: sample_validation_def HDF_PRODUCT_def file_name_def lit_Cons lit_Nil)
  have "require_product_manifest evidence_env ?r (fs w') = Inr ()"
    using published_manifest_is_accepted [OF run _ _ _ sample_tree_ok _ env(3) names, of "sample_entry ?r"] d opened
    by (simp add: env sample_running)
  with run show ?thesis by blast
qed

text \<open>
  C34: the manifest is replaced atomically, and nothing else changes. Whatever call of the
  publication fails or kills the process, the service directory holds the manifest it held or the
  complete new one; when the publication returns, the new one.
\<close>

theorem manifest_publication_is_atomic:
  assumes "dir_at (event_service_dir e) s0 = Some d" "\<And>d'. aget d MANIFEST_NAME \<noteq> Some (Dir d')"
  shows "triple E (\<lambda>s. s = s0) (publish_manifest e payload)
     (\<lambda>_ s. \<exists>d'. s = put_dir (event_service_dir e) d' s0 \<and> agree (aput MANIFEST_NAME (File (Json payload)) d) d')
     (\<lambda>_ s. \<not> quiet E \<and> (\<exists>d'. s = put_dir (event_service_dir e) d' s0
        \<and> (agree d d' \<or> agree (aput MANIFEST_NAME (File (Json payload)) d) d')))"
proof -
  have opened: "open_record_directory (event_service_dir e) s0 = Inr (Some d)"
    using assms(1) unfolding event_service_dir_def by (rule open_record_dir)
  have m: "\<not> tmp_name MANIFEST_NAME" by (simp add: MANIFEST_NAME_def tmp_name_lit)
  show ?thesis
    unfolding publish_manifest_def
    by (rule triple_weaken [OF triple_publish_evidence [OF assms(1) opened m tmp_evidence(1) assms(2)]])
       (auto simp: dir_in_def old_or_new_def)
qed

theorem manifest_publication_is_atomic_witness:
  "triple sample_env (\<lambda>s. s = sample_calculation_store) (publish_manifest sample_event (jobj []) :: (unit, unit) io)
     (\<lambda>_ s. \<exists>d'. s = put_dir (event_service_dir sample_event) d' sample_calculation_store
        \<and> agree (aput MANIFEST_NAME (File (Json (jobj []))) (sample_entry (sample_running True))) d')
     (\<lambda>_ _. False)"
proof -
  have d: "dir_at (event_service_dir sample_event) sample_calculation_store = Some (sample_entry (sample_running True))"
    "aget (sample_entry (sample_running True)) MANIFEST_NAME \<noteq> Some (Dir d')" for d'
    by (simp_all add: event_service_dir_def sample_calculation_store_def sample_entry_def MANIFEST_NAME_def STATUS_FILE_def)
  show ?thesis
    by (rule triple_weaken [OF manifest_publication_is_atomic [OF d]]) (use sample_quiet in auto)
qed

end
