(* ===== verification/Service_Log.thy ===== *)
theory Service_Log
  imports Products
begin

text \<open>
  \<open>calculation_log.py\<close>: one line appended to the service log of the running calculation. \<open>line\<close> is
  the serialisation of an event, without the newline.
\<close>

section \<open>Appending to a file\<close>

definition append_effect :: "path \<Rightarrow> ustr \<Rightarrow> (content \<Rightarrow> nat list) \<Rightarrow> nat list \<Rightarrow> fsys \<Rightarrow> exn + fsys" where
  "append_effect p n bytes payload s =
     (case entry_at p n s of
        Some (File c) \<Rightarrow> Inr (update_at p (aput n (File (Bytes (bytes c @ payload)))) s)
      | _ \<Rightarrow> Inl not_found)"

definition append_part :: "path \<Rightarrow> ustr \<Rightarrow> (content \<Rightarrow> nat list) \<Rightarrow> nat list \<Rightarrow> nat \<Rightarrow> fsys \<Rightarrow> fsys" where
  "append_part p n bytes payload k s =
     (if k = 0 then s
      else case append_effect p n bytes (take k payload) s of Inl e \<Rightarrow> s | Inr s' \<Rightarrow> s')"

text \<open>\<open>_write_all\<close>: an error or a death may leave any part of the payload.\<close>

definition append_all :: "path \<Rightarrow> ustr \<Rightarrow> nat list \<Rightarrow> ('m, unit) io" where
  "append_all p n payload =
     (\<lambda>E. sys (append_effect p n (content_bytes E) payload) (append_part p n (content_bytes E) payload) E)"

section \<open>The service log\<close>

text \<open>\<open>open_service_directory(logs, create=True)\<close>: the record directory exists, its logs may not.\<close>

definition open_logs_directory :: "ustr \<Rightarrow> ('m, unit) io" where
  "open_logs_directory event_id =
     bindM (observe (\<lambda>E s.
        case entry_at (event_service_dir event_id) (lit ''logs'') s of
          None \<Rightarrow> Inr False
        | Some (Dir d) \<Rightarrow> Inr True
        | Some v \<Rightarrow> Inl (Exn ValueError ''unsafe service directory ancestry''))) (\<lambda>present.
     whenM (\<not> present) (thenM (mkdir (event_service_dir event_id) (lit ''logs'')) fsync))"

text \<open>\<open>_open_log_file\<close>: whether the file was created; anything but a regular file is refused.\<close>

definition open_log_file :: "path \<Rightarrow> ('m, bool) io" where
  "open_log_file p =
     catchM (thenM (create_file p SERVICE_LOG_NAME) (ret True))
       (\<lambda>e. if exn_kind_of e \<noteq> FileExistsError then reraise e
            else observe (\<lambda>E s. case entry_at p SERVICE_LOG_NAME s of
                   Some (File c) \<Rightarrow> Inr False
                 | Some (Dir d) \<Rightarrow> Inl (Exn OSError ''is a directory'')
                 | Some Special \<Rightarrow> Inl (Exn OSError ''unsafe log file'')
                 | None \<Rightarrow> Inl not_found))"

definition log_event :: "ustr \<Rightarrow> calculation_record \<Rightarrow> ustr \<Rightarrow> ustr \<Rightarrow> ustr \<Rightarrow> json" where
  "log_event recorded_at r phase severity message =
     jobj [(''recorded_at'', JStr recorded_at), (''event_id'', r_event_id r),
           (''internal_sequence'', r_internal_sequence r), (''phase'', JStr phase),
           (''severity'', JStr severity), (''message'', JStr message)]"

definition append_service_log ::
  "(json \<Rightarrow> nat list) \<Rightarrow> calculation_record \<Rightarrow> ustr \<Rightarrow> ustr \<Rightarrow> ustr \<Rightarrow> ('m, json) io" where
  "append_service_log line r phase severity message =
     thenM (check (phase \<noteq> []) ValueError ''phase must be a nonempty string'')
    (thenM (check (severity \<noteq> []) ValueError ''severity must be a nonempty string'')
    (thenM (check (message \<noteq> []) ValueError ''message must be a nonempty string'')
    (thenM (observe (\<lambda>E s. bindE (require_matching_current (cfg E) r s) (\<lambda>_. Inr ())))
    (bindM read_now (\<lambda>recorded_at.
     let event = log_event recorded_at r phase severity message;
         p = event_logs_dir (event_id_of r) in
     thenM (check (encodable event) ValueError ''surrogates not allowed'')
    (thenM (open_logs_directory (event_id_of r))
    (bindM (open_log_file p) (\<lambda>created.
     thenM (append_all p SERVICE_LOG_NAME (line event @ [10]))
    (thenM fsync
    (thenM (whenM created fsync)
           (ret event)))))))))))"

section \<open>What an append does\<close>

text \<open>
  Whatever happens, the log's bytes are the bytes it had followed by a part of the line; when the
  append returns, by the whole line.
\<close>

definition log_bytes :: "env \<Rightarrow> path \<Rightarrow> fsys \<Rightarrow> nat list" where
  "log_bytes E p s = (case entry_at p SERVICE_LOG_NAME s of Some (File c) \<Rightarrow> content_bytes E c | _ \<Rightarrow> [])"

end
