(* ===== verification/Provenance.thy ===== *)
theory Provenance
  imports Products
begin

text \<open>
  \<open>provenance.py\<close>: the observed facts of one calculation, assembled with what is on disk and
  published beside the record. The software identity (\<open>build_identity.py\<close>) and what lies behind a
  symbolic link of the profile are parameters.
\<close>

record provenance_facts =
  pf_materialization :: json
  pf_native_execution :: "json option"
  pf_required_products :: "resolution option"
  pf_native_outcome :: "json option"
  pf_service_outcome :: "json option"
  pf_warnings :: "json list"
  pf_failure :: "json option"
  pf_timestamps :: json

record provenance_sources =
  software_identity :: "exn + json"
  behind_profile_link :: "ustr list \<Rightarrow> exn + json"

section \<open>The retained request\<close>

definition read_request_manifest :: "calculation_record \<Rightarrow> fsys \<Rightarrow> exn + json list" where
  "read_request_manifest r s =
     bindE (read_json (event_service_dir (event_id_of r)) (lit ''request-manifest.json'') ProvenanceError s) (\<lambda>m.
     bindE (guardE (is_dict m \<and> py_eq_int (jget m ''schema_version'') 1
                    \<and> jget m ''event_id'' = r_event_id r
                    \<and> py_eq_int (jget m ''internal_sequence'') (sequence_of r)
                    \<and> is_list (jget m ''files'')) ProvenanceError
              ''retained request manifest identity is invalid'') (\<lambda>_.
     mapE (\<lambda>item. bindE (guardE (is_dict item \<and> has_exact_keys item [''basename'', ''size_bytes'', ''sha256''])
                          ProvenanceError ''retained request file identity is invalid'') (\<lambda>_. Inr item))
       (list_of (jget m ''files''))))"

section \<open>The profile files\<close>

definition BASE_CONFIGURATION_FILES :: "string list" where
  "BASE_CONFIGURATION_FILES =
     [''modules.conf'', ''gmpe_sets.conf'', ''model.conf'', ''select.conf'', ''products.conf'',
      ''shake.conf'', ''logging.conf'', ''transfer.conf'', ''migrate.conf'']"

definition PROFILE_FILES :: "string list list" where
  "PROFILE_FILES =
     [''home'', ''.shakemap'', ''profiles.conf'']
     # map (\<lambda>name. [''install'', ''config'', name]) BASE_CONFIGURATION_FILES
     @ [[''home'', ''.strec'', ''config.ini'']]"

definition joined :: "string list \<Rightarrow> ustr" where
  "joined names = (case names of [] \<Rightarrow> [] | n # ns \<Rightarrow> foldl path_join (lit n) (map lit ns))"

text \<open>Size and digest of a regular file; a missing one has no identity.\<close>

fun hash_regular_file :: "env \<Rightarrow> provenance_sources \<Rightarrow> ustr list \<Rightarrow> dirc \<Rightarrow> ustr list \<Rightarrow> exn + json" where
  "hash_regular_file E Z whole d [] = Inl (Exn ProvenanceError ''retained profile path is not a regular file'')"
| "hash_regular_file E Z whole d (n # ns) =
     (case aget d n of
        None \<Rightarrow> Inr JNull
      | Some (Dir d') \<Rightarrow> hash_regular_file E Z whole d' ns
      | Some (File c) \<Rightarrow>
          if ns = []
          then Inr (jobj [(''size'', JInt (int (length (content_bytes E c)))),
                          (''sha256'', JStr (sha256 E (content_bytes E c)))])
          else Inl (Exn ProvenanceError ''retained profile file is inaccessible'')
      | Some Special \<Rightarrow>
          if ns = [] then Inl (Exn ProvenanceError ''retained profile path is not a regular file'')
          else behind_profile_link Z whole)"

definition profile_file_identities :: "env \<Rightarrow> provenance_sources \<Rightarrow> ustr \<Rightarrow> fsys \<Rightarrow> exn + json list" where
  "profile_file_identities E Z event_id s =
     mapE (\<lambda>names.
       bindE (case dir_at (event_service_dir event_id) s of
                None \<Rightarrow> Inr JNull
              | Some d \<Rightarrow> hash_regular_file E Z (map lit names) d (lit ''profile'' # map lit names)) (\<lambda>identity.
       Inr (jobj [(''path'', JStr (joined names)), (''identity'', identity)]))) PROFILE_FILES"

section \<open>Declared facts\<close>

definition required_product_facts :: "resolution option \<Rightarrow> json" where
  "required_product_facts q =
     (case q of
        None \<Rightarrow> JNull
      | Some x \<Rightarrow> jobj [(''paths'', JList (map JStr (q_paths x))), (''source'', jstr (q_source x))])"

text \<open>The packaged \<open>data/global-assets.json\<close>.\<close>

definition GLOBAL_ASSETS :: json where
  "GLOBAL_ASSETS = jobj
     [(''schema_version'', JInt 1),
      (''assets'', jobj
        [(''vs30'', jobj
           [(''label'', jstr ''global Vs30 grid''),
            (''relative'', jstr ''global/vs30/global_vs30.grd''),
            (''url'', jstr ''https://apps.usgs.gov/shakemap_geodata/vs30/global_vs30.grd''),
            (''size'', JInt 610189275),
            (''sha256'', jstr ''b07944c5be332c5a261777d23b3390fe8d5638f25b388b82f5dc1e98c6356011''),
            (''checksum_authority'', jstr ''project-verified download pin; USGS publishes no checksum alongside the file'')]),
         (''topography'', jobj
           [(''label'', jstr ''global topography grid''),
            (''relative'', jstr ''global/topo/topo_30sec.grd''),
            (''url'', jstr ''https://apps.usgs.gov/shakemap_geodata/topo/topo_30sec.grd''),
            (''size'', JInt 249661705),
            (''sha256'', jstr ''3aa02a77d56d656deae9bf4539afdb3ce1dd1b7057a67a5c7bdd0573fc97bd4c''),
            (''checksum_authority'', jstr ''project-verified download pin; USGS publishes no checksum alongside the file'')])])]"

definition large_dataset_declarations :: "settings \<Rightarrow> json \<Rightarrow> json" where
  "large_dataset_declarations c selected =
     (let shared_data = shared_service_root c @ lit ''/data'';
          declared = (\<lambda>name. let a = jget (jget GLOBAL_ASSETS ''assets'') name in jobj
            [(''path'', JStr (path_join shared_data (str_of (jget a ''relative'')))),
             (''manifest_identity'', jobj
                [(''size'', jget a ''size''), (''sha256'', jget a ''sha256''),
                 (''source_url'', jget a ''url''), (''checksum_authority'', jget a ''checksum_authority'')]),
             (''calculation_validation'', jstr ''not_observed'')]);
          regional = (selected \<noteq> jstr ''global'') in
      jobj
       [(''global'', jobj [(''vs30'', declared ''vs30''), (''topography'', declared ''topography'')]),
        (''regional'', jobj
           [(''path'', if regional then JStr (path_join (shared_data @ lit ''/regional'') (str_of selected)) else JNull),
            (''manifest_identity'', JNull),
            (''identity_state'', jstr (if regional then ''manifest_identity_unavailable'' else ''not_applicable''))])])"

definition shared_locations :: "settings \<Rightarrow> ustr \<Rightarrow> json" where
  "shared_locations c event_id =
     (let service = (\<lambda>relative. JStr (shared_event_service_path c event_id relative)) in
      jobj
       [(''input'', JStr (shared_event_input_dir c event_id)),
        (''native_products'', JStr (shared_event_native_products_dir c event_id)),
        (''status'', service ''status.json''),
        (''profile'', service ''profile''),
        (''provenance'', service ''provenance.json''),
        (''product_manifest'', service ''product-manifest.json''),
        (''service_log'', service ''logs/service.log''),
        (''shake_log'', service ''logs/shake.log'')])"

section \<open>Publication\<close>

definition publish_provenance_file :: "ustr \<Rightarrow> json \<Rightarrow> ('m, unit) io" where
  "publish_provenance_file event_id payload =
     publish_evidence ''.provenance-'' (event_service_dir event_id) PROVENANCE_NAME payload"

definition or_null :: "json option \<Rightarrow> json" where
  "or_null v = (case v of None \<Rightarrow> JNull | Some j \<Rightarrow> j)"

definition provenance_payload ::
  "settings \<Rightarrow> calculation_record \<Rightarrow> provenance_facts \<Rightarrow> json list \<Rightarrow> json list \<Rightarrow> json \<Rightarrow> json" where
  "provenance_payload c r facts request_files profile_files identity =
     (let selected = jget (r_configuration r) ''selected'' in
      jobj
       [(''event_id'', r_event_id r),
        (''internal_sequence'', r_internal_sequence r),
        (''request'', jobj
           [(''configuration'', selected), (''overwrite'', r_overwrite r),
            (''input_mode'', jget (r_request r) ''input_mode''), (''files'', JList request_files)]),
        (''configuration'', jobj
           [(''selected'', selected), (''materialization'', pf_materialization facts),
            (''profile_files'', JList profile_files)]),
        (''software_identity'', identity),
        (''module_plan'', JList (map JStr (module_plan c))),
        (''native_execution'', or_null (pf_native_execution facts)),
        (''outcomes'', jobj
           [(''native'', or_null (pf_native_outcome facts)), (''service'', or_null (pf_service_outcome facts))]),
        (''warnings'', JList (pf_warnings facts)),
        (''failure'', or_null (pf_failure facts)),
        (''timestamps'', pf_timestamps facts),
        (''required_products'', required_product_facts (pf_required_products facts)),
        (''locations'', shared_locations c (event_id_of r)),
        (''large_datasets'', large_dataset_declarations c selected)])"

definition publish_provenance ::
  "provenance_sources \<Rightarrow> calculation_record \<Rightarrow> provenance_facts \<Rightarrow> ('m, unit) io" where
  "publish_provenance Z r facts =
     bindM (observe (\<lambda>E s.
        bindE (require_matching_current (cfg E) r s) (\<lambda>current.
        bindE (read_request_manifest current s) (\<lambda>request_files.
        bindE (profile_file_identities E Z (event_id_of current) s) (\<lambda>profile_files.
        bindE (software_identity Z) (\<lambda>identity.
        let payload = provenance_payload (cfg E) current facts request_files profile_files identity in
        bindE (guardE (encodable payload) ValueError ''surrogates not allowed'') (\<lambda>_.
        Inr payload)))))))
       (publish_provenance_file (event_id_of r))"

end
