(* ===== verification/Runner.thy ===== *)
theory Runner
  imports Evidence
begin

text \<open>
  \<open>runner.py\<close>: the table of native processes with its launch gate, and one native execution. The
  operating system's process calls are parameters (\<open>os_calls\<close>); what a native process does to the
  store while it runs is any effect. The table is the in-memory object; a process is named by its
  pid, which is unique among the tracked ones.
\<close>

section \<open>The process table\<close>

record tracked_process =
  k_service_terminated :: bool
  k_owner_active :: bool

record process_table =
  launch_open :: bool
  active :: "(int \<times> tracked_process) list"

record os_calls =
  os_spawn :: "ustr list \<Rightarrow> (ustr \<times> ustr) list \<Rightarrow> (unit, int) io"
  os_poll :: "int \<Rightarrow> (unit, bool) io"
  os_terminate :: "int \<Rightarrow> (unit, unit) io"
  os_kill :: "int \<Rightarrow> (unit, unit) io"
  os_wait :: "int \<Rightarrow> (unit, int) io"

text \<open>A computation with a memory of its own.\<close>

definition locally :: "'n \<Rightarrow> ('n, 'a) io \<Rightarrow> ('m, 'a) io" where
  "locally start m =
     (\<lambda>E w. case m E \<lparr>fs = fs w, clock = clock w, mem = start\<rparr> of
        (out, w') \<Rightarrow> (out, \<lparr>fs = fs w', clock = clock w', mem = mem w\<rparr>))"

text \<open>\<open>_prune_completed_locked\<close>: the completed pids; those without an owner leave the table.\<close>

fun prune_each :: "os_calls \<Rightarrow> (int \<times> tracked_process) list \<Rightarrow> (process_table, int list) io" where
  "prune_each X [] = ret []"
| "prune_each X ((pid, tracked) # rest) =
     bindM (attempt (locally () (os_poll X pid))) (\<lambda>polled.
     let completed = (case polled of Inl e \<Rightarrow> False | Inr b \<Rightarrow> b) in
     thenM (whenM (completed \<and> \<not> k_owner_active tracked)
              (modify_mem (\<lambda>t. t\<lparr>active := adel pid (active t)\<rparr>)))
    (bindM (prune_each X rest) (\<lambda>others.
     ret (if completed then pid # others else others))))"

definition prune_completed :: "os_calls \<Rightarrow> (process_table, int list) io" where
  "prune_completed X = bindM get_mem (\<lambda>t. prune_each X (active t))"

definition open_launch_gate :: "os_calls \<Rightarrow> (process_table, unit) io" where
  "open_launch_gate X =
     thenM (prune_completed X)
    (bindM get_mem (\<lambda>t.
     if active t \<noteq> []
     then thenM (modify_mem (\<lambda>t. t\<lparr>launch_open := False\<rparr>))
            (raise ServiceShutdownError ''native execution cannot reopen while a prior child is unresolved'')
     else modify_mem (\<lambda>t. t\<lparr>launch_open := True\<rparr>)))"

text \<open>The signalling loop that termination and killing share; a failed signal is passed over.\<close>

definition mark_terminated :: "int \<Rightarrow> process_table \<Rightarrow> process_table" where
  "mark_terminated pid t =
     t\<lparr>active := (case aget (active t) pid of
                   None \<Rightarrow> active t
                 | Some p \<Rightarrow> aput pid (p\<lparr>k_service_terminated := True\<rparr>) (active t))\<rparr>"

fun signal_each ::
  "(int \<Rightarrow> (unit, unit) io) \<Rightarrow> int list \<Rightarrow> int list \<Rightarrow> (process_table, int) io" where
  "signal_each send completed [] = ret 0"
| "signal_each send completed (pid # pids) =
     (if pid \<in> set completed then signal_each send completed pids
      else bindM (attempt (locally () (send pid))) (\<lambda>r.
           case r of
             Inl e \<Rightarrow> signal_each send completed pids
           | Inr u \<Rightarrow> thenM (modify_mem (mark_terminated pid))
                     (bindM (signal_each send completed pids) (\<lambda>n. ret (n + 1)))))"

definition close_and_terminate_active :: "os_calls \<Rightarrow> (process_table, int) io" where
  "close_and_terminate_active X =
     thenM (modify_mem (\<lambda>t. t\<lparr>launch_open := False\<rparr>))
    (bindM (prune_completed X) (\<lambda>completed.
     bindM get_mem (\<lambda>t. signal_each (os_terminate X) completed (akeys (active t)))))"

definition force_kill_active :: "os_calls \<Rightarrow> (process_table, int) io" where
  "force_kill_active X =
     bindM (prune_completed X) (\<lambda>completed.
     bindM get_mem (\<lambda>t. signal_each (os_kill X) completed (akeys (active t))))"

section \<open>One native execution\<close>

definition REPORT_ENV :: ustr where
  "REPORT_ENV = lit ''SHAKEMAP_NATIVE_FAILURE_REPORT''"

definition TOKEN_ENV :: ustr where
  "TOKEN_ENV = lit ''SHAKEMAP_NATIVE_FAILURE_TOKEN''"

definition NATIVE_FAILURE_FILE :: ustr where
  "NATIVE_FAILURE_FILE = lit ''native_failure.json''"

definition NATIVE_ERROR_ORIGINS :: "string list" where
  "NATIVE_ERROR_ORIGINS =
     [''native_config_validation'', ''native_model_reference'', ''native_configured_module'']"

text \<open>
  The configuration error a failed native process reported for this very invocation; anything
  missing, malformed or mismatched is none.
\<close>

definition reported_error :: "env \<Rightarrow> path \<Rightarrow> ustr \<Rightarrow> ustr \<Rightarrow> fsys \<Rightarrow> json" where
  "reported_error E p event_id token s =
     (case entry_at p NATIVE_FAILURE_FILE s of
        Some (File (Json report)) \<Rightarrow>
          let fact = jget report ''configuration_error'' in
          if length (encoded E report) \<le> 16384 \<and> is_dict report
             \<and> jget report ''event_id'' = JStr event_id \<and> jget report ''token'' = JStr token
             \<and> is_dict fact \<and> jget fact ''origin'' \<in> set (map jstr NATIVE_ERROR_ORIGINS)
             \<and> is_str (jget fact ''reference'') \<and> is_str (jget fact ''exception_type'')
          then fact else JNull
      | _ \<Rightarrow> JNull)"

definition set_owner_inactive :: "int \<Rightarrow> process_table \<Rightarrow> process_table" where
  "set_owner_inactive pid t =
     t\<lparr>active := (case aget (active t) pid of
                   None \<Rightarrow> active t
                 | Some p \<Rightarrow> aput pid (p\<lparr>k_owner_active := False\<rparr>) (active t))\<rparr>"

definition exit_code_of :: "int \<Rightarrow> int option" where
  "exit_code_of return_code = (if 0 \<le> return_code then Some return_code else None)"

definition signal_of :: "int \<Rightarrow> int option" where
  "signal_of return_code = (if return_code < 0 then Some (- return_code) else None)"

text \<open>Spawning and registration under one lock.\<close>

definition launch ::
  "os_calls \<Rightarrow> ustr list \<Rightarrow> (ustr \<times> ustr) list \<Rightarrow> (process_table, int) io" where
  "launch X command environment =
     bindM get_mem (\<lambda>t.
     thenM (check (launch_open t) ServiceShutdownError
              ''native execution is unavailable while the service is shutting down'')
    (bindM (locally () (os_spawn X command environment)) (\<lambda>pid.
     thenM (modify_mem (\<lambda>t. t\<lparr>active :=
              aput pid \<lparr>k_service_terminated = False, k_owner_active = True\<rparr> (active t)\<rparr>))
           (ret pid))))"

text \<open>After a failed \<open>on_started\<close>: the child is stopped, and stays tracked if that is uncertain.\<close>

definition abandon :: "os_calls \<Rightarrow> int \<Rightarrow> (process_table, unit) io" where
  "abandon X pid =
     bindM (attempt (locally () (os_terminate X pid))) (\<lambda>_.
     bindM (attempt (locally () (os_wait X pid))) (\<lambda>waited.
     case waited of
       Inl e \<Rightarrow> modify_mem (set_owner_inactive pid)
     | Inr code \<Rightarrow> modify_mem (\<lambda>t. t\<lparr>active := adel pid (active t)\<rparr>)))"

definition await :: "os_calls \<Rightarrow> int \<Rightarrow> (process_table, int \<times> bool) io" where
  "await X pid =
     bindM (catchM (locally () (os_wait X pid))
              (\<lambda>e. thenM (modify_mem (set_owner_inactive pid)) (reraise e))) (\<lambda>return_code.
     bindM get_mem (\<lambda>t.
     thenM (modify_mem (\<lambda>t. t\<lparr>active := adel pid (active t)\<rparr>))
           (ret (return_code,
                 case aget (active t) pid of None \<Rightarrow> False | Some p \<Rightarrow> k_service_terminated p))))"

definition shake_command :: "settings \<Rightarrow> ustr \<Rightarrow> ustr \<Rightarrow> ustr list" where
  "shake_command c executable event_id =
     [executable, lit ''-m'', lit ''shakemap_service.native_launcher'', event_id] @ module_plan c"

text \<open>
  \<open>run_shake\<close>. The callback's outcome comes back with the result, also when the execution fails
  after it: \<open>'k\<close> is the state the caller's closure assigns, \<open>k0\<close> its value before.
\<close>

definition run_shake ::
  "os_calls \<Rightarrow> ustr \<Rightarrow> ustr \<Rightarrow> (ustr \<times> ustr) list
     \<Rightarrow> (int \<Rightarrow> ustr list \<Rightarrow> ustr \<Rightarrow> (process_table, exn option \<times> 'k) io) \<Rightarrow> 'k
     \<Rightarrow> (process_table, (exn + execution_result) \<times> 'k) io"
where
  "run_shake X executable event_id environment on_started k0 =
     bindM (ask cfg) (\<lambda>c.
     let command = shake_command c executable event_id;
         p = event_logs_dir event_id;
         report = path_join (foldl path_join (service_root c)
                    [lit ''.service'', lit ''events'', event_id, lit ''logs'']) NATIVE_FAILURE_FILE in
     bindM (attempt
       (thenM (observe (\<lambda>E s. guardE (entry_at p NATIVE_FAILURE_FILE s = None) FileExistsError
                 ''native failure evidence already exists''))
       (bindM read_uuid (\<lambda>token.
        thenM (write_file p SHAKE_LOG_NAME (Bytes []))
       (bindM read_now (\<lambda>started_at.
        bindM (launch X command (aput TOKEN_ENV token (aput REPORT_ENV report environment))) (\<lambda>pid.
        ret (token, started_at, pid)))))))) (\<lambda>launched.
     case launched of
       Inl e \<Rightarrow> ret (Inl e, k0)
     | Inr (token, started_at, pid) \<Rightarrow>
         bindM (on_started pid command started_at) (\<lambda>(problem, k).
         case problem of
           Some e \<Rightarrow> thenM (abandon X pid) (ret (Inl e, k))
         | None \<Rightarrow>
             bindM (attempt (bindM (await X pid) (\<lambda>(return_code, service_terminated).
                    bindM read_now (\<lambda>completed_at.
                    observe (\<lambda>E s. Inr
                      \<lparr>x_command = command, x_exit_code = exit_code_of return_code,
                       x_signal = signal_of return_code, x_pid = pid,
                       x_started_at = started_at, x_completed_at = completed_at,
                       x_service_terminated = service_terminated,
                       x_configuration_error =
                         (if 0 < return_code \<and> \<not> service_terminated
                          then reported_error E p event_id token s else JNull)\<rparr>))))) (\<lambda>r.
             ret (r, k)))))"

end
