(* ===== verification/Native_Context.thy ===== *)
theory Native_Context
  imports Evidence
begin

text \<open>
  \<open>native_context.py\<close>: the private directories and the environment of one native calculation.
\<close>

record native_context =
  nc_event_id :: json
  nc_internal_sequence :: json
  nc_profile_directory :: ustr
  nc_home_directory :: ustr
  nc_install_directory :: ustr
  nc_data_directory :: ustr
  nc_environment :: "(ustr \<times> ustr) list"

definition CARTOPY_DATA_DIRECTORY :: ustr where
  "CARTOPY_DATA_DIRECTORY = lit ''/opt/shakemap-support/cartopy''"

definition local_event_dir :: "settings \<Rightarrow> ustr \<Rightarrow> ustr" where
  "local_event_dir c event_id = service_root c @ lit ''/.service/events/'' @ event_id"

definition products_dir :: "settings \<Rightarrow> ustr" where
  "products_dir c = service_root c @ lit ''/products''"

definition native_context_for :: "settings \<Rightarrow> calculation_record \<Rightarrow> (ustr \<times> ustr) list \<Rightarrow> native_context" where
  "native_context_for c r base_environment =
     (let profile = local_event_dir c (event_id_of r) @ lit ''/profile'';
          home = profile @ lit ''/home'';
          cache = profile @ lit ''/cache'';
          cleared = adel (lit ''CALLED_FROM_MAIN'') (adel (lit ''CALLED_FROM_PYTEST'') base_environment) in
      \<lparr>nc_event_id = r_event_id r, nc_internal_sequence = r_internal_sequence r,
       nc_profile_directory = profile, nc_home_directory = home,
       nc_install_directory = profile @ lit ''/install'', nc_data_directory = products_dir c,
       nc_environment =
         foldl (\<lambda>env (name, v). aput (lit name) v env) cleared
           [(''HOME'', home),
            (''XDG_CACHE_HOME'', cache @ lit ''/xdg''),
            (''XDG_CONFIG_HOME'', cache @ lit ''/xdg-config''),
            (''MPLCONFIGDIR'', cache @ lit ''/matplotlib''),
            (''NUMBA_CACHE_DIR'', cache @ lit ''/numba''),
            (''TMPDIR'', profile @ lit ''/tmp''),
            (''CARTOPY_DATA_DIR'', CARTOPY_DATA_DIRECTORY)]\<rparr>)"

text \<open>The directories below the record's, parents first.\<close>

definition PRIVATE_DIRECTORIES :: "(string list \<times> string) list" where
  "PRIVATE_DIRECTORIES =
     [([], ''profile''), ([''profile''], ''home''), ([''profile''], ''cache''),
      ([''profile'', ''cache''], ''xdg''), ([''profile'', ''cache''], ''xdg-config''),
      ([''profile'', ''cache''], ''matplotlib''), ([''profile'', ''cache''], ''numba''),
      ([''profile''], ''tmp'')]"

definition prepare_native_context ::
  "calculation_record \<Rightarrow> (ustr \<times> ustr) list \<Rightarrow> ('m, native_context) io" where
  "prepare_native_context r base_environment =
     thenM (observe (\<lambda>E s.
        bindE (require_matching_current (cfg E) r s) (\<lambda>_.
        case entry_at (Products, [event_id_of r]) (lit ''current'') s of
          None \<Rightarrow> Inl (Exn FileNotFoundError ''native current directory does not exist'')
        | Some (Dir d) \<Rightarrow> Inr ()
        | Some v \<Rightarrow> Inl (Exn OSError ''native current path is not a directory''))))
    (thenM (forM PRIVATE_DIRECTORIES (\<lambda>(parents, name).
              mkdir (Events, event_id_of r # map lit parents) (lit name)))
           (ask (\<lambda>E. native_context_for (cfg E) r base_environment)))"

end
