(* ===== verification/Native_Profile.thy ===== *)
theory Native_Profile
  imports Native_Context Provenance
begin

text \<open>
  \<open>native_profile.py\<close>: the private ShakeMap profile of one calculation. The two helper programs are
  parameters with any effect on the store, as are the installed mapping tree and the regional
  configuration files (\<open>profile_sources\<close>). The helpers put no symbolic links into the profile.
\<close>

record helper_execution =
  h_command :: "ustr list"
  h_output :: ustr
  h_return_code :: int

record materialization =
  mz_selected :: json
  mz_source_directory :: "ustr option"
  mz_selector_file :: ustr
  mz_configuration_directory :: ustr
  mz_mapping_directory :: ustr
  mz_strec_configuration_file :: ustr
  mz_profile_helper :: helper_execution
  mz_strec_helper :: helper_execution

record profile_sources =
  run_program :: "ustr list \<Rightarrow> (ustr \<times> ustr) list \<Rightarrow> ustr option \<Rightarrow> (unit, ustr \<times> int) io"
  regional_tree :: "ustr \<Rightarrow> dirc option"
  installed_mapping :: "dirc option"

definition PROFILE_NAME :: ustr where
  "PROFILE_NAME = lit ''calculation''"

definition REGIONAL_CONFIGURATION_FILES :: "string list" where
  "REGIONAL_CONFIGURATION_FILES =
     [''gmpe_sets.conf'', ''model.conf'', ''modules.conf'', ''products.conf'', ''select.conf'']"

definition profile_failure :: "string \<Rightarrow> string \<Rightarrow> exn" where
  "profile_failure stage message = Exn (NativeProfileError stage None None) message"

definition profile_dir :: "json \<Rightarrow> string list \<Rightarrow> path" where
  "profile_dir event_id names = (Events, str_of event_id # lit ''profile'' # map lit names)"

definition profile_has :: "json \<Rightarrow> string list \<Rightarrow> string \<Rightarrow> fsys \<Rightarrow> bool" where
  "profile_has event_id names name s \<longleftrightarrow> entry_at (profile_dir event_id names) (lit name) s \<noteq> None"

section \<open>Preconditions\<close>

definition current_configuration :: "native_context \<Rightarrow> settings \<Rightarrow> fsys \<Rightarrow> exn + json" where
  "current_configuration ctx c s =
     bindE (read_current_record c (str_of (nc_event_id ctx)) s) (\<lambda>found.
     case found of
       None \<Rightarrow> Inl (profile_failure ''current_record'' ''current calculation record does not exist'')
     | Some current \<Rightarrow>
         let expected = local_event_dir c (str_of (nc_event_id ctx)) @ lit ''/profile'' in
         bindE (if nc_profile_directory ctx = expected \<and> nc_home_directory ctx = expected @ lit ''/home''
                   \<and> nc_install_directory ctx = expected @ lit ''/install''
                   \<and> nc_data_directory ctx = products_dir c
                then Inr () else Inl (profile_failure ''current_record''
                  ''native context paths do not match the current calculation'')) (\<lambda>_.
         bindE (if r_event_id current = nc_event_id ctx \<and> r_internal_sequence current = nc_internal_sequence ctx
                then Inr () else Inl (profile_failure ''current_record''
                  ''current calculation record identity does not match the native context'')) (\<lambda>_.
         bindE (if r_status current = jstr ''RUNNING''
                then Inr () else Inl (profile_failure ''current_record''
                  ''current calculation record must be RUNNING'')) (\<lambda>_.
         Inr (jget (r_configuration current) ''selected'')))))"

definition require_unused_native_outputs :: "native_context \<Rightarrow> fsys \<Rightarrow> exn + unit" where
  "require_unused_native_outputs ctx s =
     (if profile_has (nc_event_id ctx) [] ''install'' s \<or> profile_has (nc_event_id ctx) [''home''] ''.shakemap'' s
         \<or> profile_has (nc_event_id ctx) [''home''] ''.strec'' s
      then Inl (profile_failure ''profile_precondition'' ''native profile output already exists'') else Inr ())"

definition regional_source_directory :: "profile_sources \<Rightarrow> settings \<Rightarrow> json \<Rightarrow> exn + ustr option" where
  "regional_source_directory Y c selected =
     (if selected = jstr ''global'' then Inr None
      else if (case regional_tree Y (str_of selected) of
                 None \<Rightarrow> False
               | Some d \<Rightarrow> list_all (\<lambda>name. case aget d (lit name) of Some (File f) \<Rightarrow> True | _ \<Rightarrow> False)
                            REGIONAL_CONFIGURATION_FILES)
      then Inr (Some (service_root c @ lit ''/data/regional/'' @ str_of selected))
      else Inl (profile_failure ''regional_sources'' ''required readable regional file is missing''))"

definition run_helper ::
  "profile_sources \<Rightarrow> ustr list \<Rightarrow> native_context \<Rightarrow> string \<Rightarrow> ustr option \<Rightarrow> (unit, helper_execution) io" where
  "run_helper Y command ctx stage helper_input =
     bindM (catchM (run_program Y command (nc_environment ctx) helper_input)
              (\<lambda>e. if is_os_error e
                   then reraise (Exn (NativeProfileError (stage @ ''_spawn'') (Some command) None) (exn_message e))
                   else reraise e)) (\<lambda>(output, return_code).
     if return_code \<noteq> 0
     then reraise (Exn (NativeProfileError stage (Some command) (Some (command, output, return_code)))
                     ''helper exited with a nonzero code'')
     else ret \<lparr>h_command = command, h_output = output, h_return_code = return_code\<rparr>)"

definition run_profile_helper :: "profile_sources \<Rightarrow> native_context \<Rightarrow> (unit, helper_execution) io" where
  "run_profile_helper Y ctx =
     run_helper Y [lit ''sm_profile'', lit ''-c'', PROFILE_NAME, lit ''-n''] ctx ''sm_profile''
       (Some (nc_install_directory ctx @ [10] @ nc_data_directory ctx @ [10]))"

definition run_strec_helper :: "profile_sources \<Rightarrow> native_context \<Rightarrow> (unit, helper_execution) io" where
  "run_strec_helper Y ctx =
     run_helper Y [lit ''strec_cfg'', lit ''update'', lit ''--datafolder'', lit ''/opt/shakemap-support/strec'']
       ctx ''strec_cfg'' None"

section \<open>Reading the profile selector\<close>

definition continuation :: "nat \<Rightarrow> bool" where
  "continuation b \<longleftrightarrow> 128 \<le> b \<and> b < 192"

text \<open>The code point that starts a text in strict UTF-8, and how many bytes it takes.\<close>

definition utf8_head :: "nat list \<Rightarrow> (nat \<times> nat) option" where
  "utf8_head bs =
     (let b = hd bs; tail = tl bs; c1 = tail ! 0; c2 = tail ! 1; c3 = tail ! 2 in
      if b < 128 then Some (b, 1)
      else if 194 \<le> b \<and> b < 224 \<and> 1 \<le> length tail \<and> continuation c1
      then Some ((b - 192) * 64 + (c1 - 128), 2)
      else if 224 \<le> b \<and> b < 240 \<and> 2 \<le> length tail \<and> continuation c1 \<and> continuation c2
      then let c = (b - 224) * 4096 + (c1 - 128) * 64 + (c2 - 128) in
           if 2048 \<le> c \<and> \<not> is_surrogate c then Some (c, 3) else None
      else if 240 \<le> b \<and> b < 245 \<and> 3 \<le> length tail \<and> continuation c1 \<and> continuation c2 \<and> continuation c3
      then let c = (b - 240) * 262144 + (c1 - 128) * 4096 + (c2 - 128) * 64 + (c3 - 128) in
           if 65536 \<le> c \<and> c < 1114112 then Some (c, 4) else None
      else None)"

function utf8_decode :: "nat list \<Rightarrow> ustr option" where
  "utf8_decode [] = Some []"
| "utf8_decode (b # bs) =
     (case utf8_head (b # bs) of
        None \<Rightarrow> None
      | Some (c, n) \<Rightarrow> map_option (\<lambda>s. c # s) (utf8_decode (drop (n - 1) bs)))"
  by pat_completeness auto
termination
  by (relation "measure length") auto

text \<open>\<open>text.splitlines()\<close>.\<close>

definition line_boundary :: "nat \<Rightarrow> bool" where
  "line_boundary c \<longleftrightarrow> (10 \<le> c \<and> c \<le> 13) \<or> (28 \<le> c \<and> c \<le> 30) \<or> c \<in> {133, 8232, 8233}"

fun split_lines :: "ustr \<Rightarrow> ustr \<Rightarrow> ustr list" where
  "split_lines acc [] = (if acc = [] then [] else [acc])"
| "split_lines acc (c # s) =
     (if c = 13 \<and> s \<noteq> [] \<and> hd s = 10 then split_lines acc s
      else if line_boundary c then acc # split_lines [] s
      else split_lines (acc @ [c]) s)"

definition strip_text :: "ustr \<Rightarrow> ustr" where
  "strip_text s = rev (dropWhile unicode_space (rev (dropWhile unicode_space s)))"

record selector_state =
  sl_selected :: "ustr list"
  sl_sections :: nat
  sl_inside :: bool
  sl_install :: "ustr list"
  sl_data :: "ustr list"
  sl_profiles :: bool

definition empty_selector :: selector_state where
  "empty_selector = \<lparr>sl_selected = [], sl_sections = 0, sl_inside = False, sl_install = [], sl_data = [],
     sl_profiles = False\<rparr>"

definition selector_line :: "ustr \<Rightarrow> selector_state \<Rightarrow> selector_state" where
  "selector_line raw t =
     (let line = strip_text raw;
          t1 = (if line = lit ''[profiles]'' then t\<lparr>sl_profiles := True\<rparr> else t) in
      if starts_with (lit ''[['') line \<and> drop (length line - 2) line = lit '']]''
      then (let inside = (line = lit ''[['' @ PROFILE_NAME @ lit '']]'') in
            t1\<lparr>sl_inside := inside, sl_sections := sl_sections t1 + (if inside then 1 else 0)\<rparr>)
      else if 61 \<notin> set line then t1
      else (let name = strip_text (takeWhile (\<lambda>c. c \<noteq> 61) line);
                v = strip_text (tl (dropWhile (\<lambda>c. c \<noteq> 61) line)) in
            if sl_inside t1
            then (if name = lit ''install_path'' then t1\<lparr>sl_install := sl_install t1 @ [v]\<rparr>
                  else if name = lit ''data_path'' then t1\<lparr>sl_data := sl_data t1 @ [v]\<rparr> else t1)
            else if name = lit ''profile'' then t1\<lparr>sl_selected := sl_selected t1 @ [v]\<rparr> else t1))"

definition read_selector :: "ustr \<Rightarrow> selector_state" where
  "read_selector contents = fold selector_line (split_lines [] contents) empty_selector"

definition selector_ok :: "native_context \<Rightarrow> ustr \<Rightarrow> bool" where
  "selector_ok ctx contents \<longleftrightarrow>
     (let t = read_selector contents in
      sl_selected t = [PROFILE_NAME] \<and> sl_profiles t \<and> sl_sections t = 1
      \<and> sl_install t = [nc_install_directory ctx] \<and> sl_data t = [nc_data_directory ctx])"

definition without_bom :: "nat list \<Rightarrow> nat list" where
  "without_bom bs = (if take 3 bs = [239, 187, 191] then drop 3 bs else bs)"

definition is_profile_file :: "json \<Rightarrow> string list \<Rightarrow> string \<Rightarrow> fsys \<Rightarrow> bool" where
  "is_profile_file event_id names name s =
     (case entry_at (profile_dir event_id names) (lit name) s of Some (File c) \<Rightarrow> True | _ \<Rightarrow> False)"

definition require_profile_structure :: "native_context \<Rightarrow> env \<Rightarrow> fsys \<Rightarrow> exn + unit" where
  "require_profile_structure ctx E s =
     bindE (case entry_at (profile_dir (nc_event_id ctx) [''home'', ''.shakemap'']) (lit ''profiles.conf'') s of
              Some (File c) \<Rightarrow> (case utf8_decode (without_bom (content_bytes E c)) of
                                 None \<Rightarrow> Inl (Exn ValueError ''invalid UTF-8'') | Some contents \<Rightarrow> Inr contents)
            | _ \<Rightarrow> Inl (profile_failure ''profile_structure'' ''profile selector is unreadable'')) (\<lambda>contents.
     bindE (if selector_ok ctx contents then Inr ()
            else Inl (profile_failure ''profile_structure''
                        ''native profile selector or install/data paths are invalid'')) (\<lambda>_.
     bindE (if list_all (\<lambda>name. is_profile_file (nc_event_id ctx) [''install'', ''config''] name s)
                  BASE_CONFIGURATION_FILES then Inr ()
            else Inl (profile_failure ''profile_structure''
                        ''required readable base configuration is missing'')) (\<lambda>_.
     case entry_at (profile_dir (nc_event_id ctx) [''install'', ''data'']) (lit ''mapping'') s of
       Some (Dir d) \<Rightarrow>
         if d = [] then Inr ()
         else Inl (profile_failure ''profile_structure'' ''native mapping directory is not empty'')
     | _ \<Rightarrow> Inl (profile_failure ''profile_structure'' ''native mapping directory is missing''))))"

section \<open>Assignments in configuration files\<close>

text \<open>
  \<open>_replace_single_assignment\<close>. Its pattern never crosses a line break, so the file is taken line
  by line: a line is its bytes up to a line feed or the end. A line is an assignment of \<open>name\<close> if
  blanks, the name, blanks, an equals sign and blanks come first, and no carriage return but one
  right before the line feed.
\<close>

definition blank :: "nat \<Rightarrow> bool" where
  "blank b \<longleftrightarrow> b = 32 \<or> b = 9"

fun byte_lines :: "nat list \<Rightarrow> nat list \<Rightarrow> (nat list \<times> bool) list" where
  "byte_lines acc [] = [(acc, False)]"
| "byte_lines acc (b # bs) = (if b = 10 then (acc, True) # byte_lines [] bs else byte_lines (acc @ [b]) bs)"

fun unlines :: "(nat list \<times> bool) list \<Rightarrow> nat list" where
  "unlines [] = []"
| "unlines ((l, broken) # ls) = l @ (if broken then [10] else []) @ unlines ls"

text \<open>What stands before the value of an assignment, and what ends the line.\<close>

definition assignment_head :: "ustr \<Rightarrow> nat list \<Rightarrow> nat list option" where
  "assignment_head name l =
     (let b1 = takeWhile blank l; r1 = dropWhile blank l in
      if \<not> starts_with name r1 then None
      else let r2 = drop (length name) r1; b2 = takeWhile blank r2; r3 = dropWhile blank r2 in
           if r3 = [] \<or> hd r3 \<noteq> 61 then None
           else Some (b1 @ name @ b2 @ [61] @ takeWhile blank (tl r3)))"

definition assignment_tail :: "nat list \<Rightarrow> bool \<Rightarrow> nat list option" where
  "assignment_tail v broken =
     (if 13 \<notin> set v then Some []
      else if broken \<and> last v = 13 \<and> 13 \<notin> set (butlast v) then Some [13] else None)"

definition replaced_line :: "ustr \<Rightarrow> nat list \<Rightarrow> nat list \<times> bool \<Rightarrow> (nat list \<times> bool) option" where
  "replaced_line name replacement line =
     (case assignment_head name (fst line) of
        None \<Rightarrow> None
      | Some h \<Rightarrow> (case assignment_tail (drop (length h) (fst line)) (snd line) of
                    None \<Rightarrow> None
                  | Some e \<Rightarrow> Some (h @ replacement @ e, snd line)))"

definition substitute_assignment :: "ustr \<Rightarrow> nat list \<Rightarrow> nat list \<Rightarrow> nat list \<times> nat" where
  "substitute_assignment name replacement original =
     (let ls = byte_lines [] original in
      (unlines (map (\<lambda>l. case replaced_line name replacement l of None \<Rightarrow> l | Some l' \<Rightarrow> l') ls),
       length (filter (\<lambda>l. replaced_line name replacement l \<noteq> None) ls)))"

text \<open>\<open>path.write_bytes\<close>: truncation, then the bytes; an error may leave any part.\<close>

definition rewrite_file :: "path \<Rightarrow> ustr \<Rightarrow> nat list \<Rightarrow> ('m, unit) io" where
  "rewrite_file p n payload =
     sys (write_effect p n (Bytes payload))
         (\<lambda>k s. if k = 0 then s else update_at p (aput n (File (Bytes (take (k - 1) payload)))) s)"

definition replace_single_assignment ::
  "path \<Rightarrow> ustr \<Rightarrow> ustr \<Rightarrow> ustr \<Rightarrow> string \<Rightarrow> ('m, unit) io" where
  "replace_single_assignment p n name replacement stage =
     catchM (bindM (observe (\<lambda>E s.
               case entry_at p n s of
                 Some (File c) \<Rightarrow>
                   let (updated, count) = substitute_assignment name (utf8 replacement) (content_bytes E c) in
                   bindE (guardE (count = 1) ValueError ''expected exactly one assignment'') (\<lambda>_. Inr updated)
               | _ \<Rightarrow> Inl not_found)) (rewrite_file p n))
       (\<lambda>e. if is_os_error e \<or> is_value_error e
            then reraise (profile_failure stage (exn_message e)) else reraise e)"

section \<open>Copying the mapping tree and the selected configuration\<close>

text \<open>\<open>copytree(..., dirs_exist_ok=True)\<close> into the empty mapping directory; an error may leave a part.\<close>

definition copy_mapping_tree :: "profile_sources \<Rightarrow> native_context \<Rightarrow> (unit, unit) io" where
  "copy_mapping_tree Y ctx =
     (let p = profile_dir (nc_event_id ctx) [''install'', ''data'', ''mapping''] in
      catchM (case installed_mapping Y of
                None \<Rightarrow> raise FileNotFoundError ''installed mapping directory is missing''
              | Some tree \<Rightarrow> sys (\<lambda>s. Inr (update_at p (\<lambda>_. tree) s)) (\<lambda>k. update_at p (\<lambda>_. take k tree)))
        (\<lambda>e. if is_os_error e then reraise (profile_failure ''mapping_copy'' (exn_message e)) else reraise e))"

definition copy_regional_file :: "profile_sources \<Rightarrow> native_context \<Rightarrow> json \<Rightarrow> string \<Rightarrow> (unit, unit) io" where
  "copy_regional_file Y ctx selected name =
     (let p = profile_dir (nc_event_id ctx) [''install'', ''config''] in
      catchM (case (case regional_tree Y (str_of selected) of None \<Rightarrow> None | Some d \<Rightarrow> aget d (lit name)) of
                Some (File c) \<Rightarrow>
                  bindM (ask (\<lambda>E. content_bytes E c)) (\<lambda>source.
                  thenM (rewrite_file p (lit name) source)
                        (observe (\<lambda>E s. case entry_at p (lit name) s of
                           Some (File c') \<Rightarrow>
                             bindE (guardE (length (content_bytes E c') = length source) OSError
                                      ''destination size differs from selected source'') (\<lambda>_.
                             guardE (sha256 E (content_bytes E c') = sha256 E source) OSError
                               ''destination hash differs from selected source'')
                         | _ \<Rightarrow> Inl not_found)))
              | _ \<Rightarrow> reraise not_found)
        (\<lambda>e. if is_os_error e then reraise (profile_failure ''regional_overlay'' (exn_message e)) else reraise e))"

definition apply_selected_configuration ::
  "profile_sources \<Rightarrow> native_context \<Rightarrow> json \<Rightarrow> ustr option \<Rightarrow> (unit, unit) io" where
  "apply_selected_configuration Y ctx selected source_directory =
     (let p = profile_dir (nc_event_id ctx) [''install'', ''config''] in
      if selected = jstr ''global''
      then bindM (ask cfg) (\<lambda>c.
           thenM (replace_single_assignment p (lit ''model.conf'') (lit ''vs30file'')
                    (service_root c @ lit ''/data/global/vs30/global_vs30.grd'') ''global_configuration'')
                 (replace_single_assignment p (lit ''products.conf'') (lit ''topography'')
                    (service_root c @ lit ''/data/global/topo/topo_30sec.grd'') ''global_configuration''))
      else if source_directory = None
      then reraise (profile_failure ''regional_overlay'' ''source directory is missing'')
      else forM REGIONAL_CONFIGURATION_FILES (copy_regional_file Y ctx selected))"

section \<open>The materialization\<close>

definition materialize_native_profile ::
  "profile_sources \<Rightarrow> native_context \<Rightarrow> (unit, materialization) io" where
  "materialize_native_profile Y ctx =
     bindM (observe (\<lambda>E. current_configuration ctx (cfg E))) (\<lambda>selected.
     bindM (bindM (ask cfg) (\<lambda>c. liftE (regional_source_directory Y c selected))) (\<lambda>source_directory.
     thenM (observe (\<lambda>E. require_unused_native_outputs ctx))
    (bindM (run_profile_helper Y ctx) (\<lambda>profile_helper.
     thenM (observe (require_profile_structure ctx))
    (thenM (copy_mapping_tree Y ctx)
    (thenM (apply_selected_configuration Y ctx selected source_directory)
    (bindM (run_strec_helper Y ctx) (\<lambda>strec_helper.
     thenM (replace_single_assignment (profile_dir (nc_event_id ctx) [''home'', ''.strec'']) (lit ''config.ini'')
              (lit ''slabfolder'') (lit ''/opt/shakemap-support/slab2/slabs'') ''strec_configuration'')
           (ret \<lparr>mz_selected = selected, mz_source_directory = source_directory,
              mz_selector_file = nc_home_directory ctx @ lit ''/.shakemap/profiles.conf'',
              mz_configuration_directory = nc_install_directory ctx @ lit ''/config'',
              mz_mapping_directory = nc_install_directory ctx @ lit ''/data/mapping'',
              mz_strec_configuration_file = nc_home_directory ctx @ lit ''/.strec/config.ini'',
              mz_profile_helper = profile_helper, mz_strec_helper = strec_helper\<rparr>)))))))))"

end
