(* ===== verification/Calculation.thy ===== *)
theory Calculation
  imports Service_Log Provenance Runner Native_Profile Reconcile Submission
begin

text \<open>
  \<open>calculation.py\<close> and \<open>worker.py\<close>: one promoted calculation from its preparation to its terminal
  record. Each \<open>try\<close> block of the source is a \<open>guarded\<close> step whose handler ends the calculation as
  failed; the function's local variables are the record \<open>calculation_locals\<close>. The environment, the
  helper programs, the native process and the file libraries are \<open>collaborators\<close>.
\<close>

record collaborators =
  processes :: os_calls
  python_executable :: ustr
  profile_side :: profile_sources
  provenance_side :: provenance_sources
  hdf_side :: hdf_library
  product_side :: special_entries
  log_line :: "json \<Rightarrow> nat list"

record calculation_locals =
  l_current :: calculation_record
  l_configuration :: json
  l_execution :: "execution_result option"
  l_started :: "json option"
  l_resolution :: "resolution option"
  l_validation :: "validation_result option"
  l_validated_at :: "ustr option"

section \<open>Facts\<close>

definition error_text :: "exn \<Rightarrow> ustr" where
  "error_text e = lit (if exn_message e \<noteq> [] then exn_message e else exn_name (exn_kind_of e))"

definition current_promoted_record :: "settings \<Rightarrow> calculation_record \<Rightarrow> fsys \<Rightarrow> exn + calculation_record" where
  "current_promoted_record c supplied s =
     bindE (read_current_record c (event_id_of supplied) s) (\<lambda>found.
     case found of
       None \<Rightarrow> Inl (Exn FileNotFoundError ''current calculation record does not exist'')
     | Some current \<Rightarrow>
         bindE (guardE (event_id_of current = event_id_of supplied \<and> sequence_of current = sequence_of supplied)
                  ValueError ''promoted calculation record identity does not match'') (\<lambda>_.
         bindE (guardE (r_status current = jstr ''RUNNING'') ValueError
                  ''promoted calculation record must be RUNNING'') (\<lambda>_.
         Inr current)))"

definition progress_at :: "json \<Rightarrow> ustr \<Rightarrow> ustr \<Rightarrow> json" where
  "progress_at progress phase now =
     jput ''completed_modules'' (JList []) (jput ''current_module'' JNull
       (jput ''phase_started_at'' (JStr now) (jput ''phase'' (JStr phase) progress)))"

definition set_phase :: "calculation_record \<Rightarrow> ustr \<Rightarrow> ('m, calculation_record) io" where
  "set_phase r phase =
     bindM read_now (\<lambda>now.
     update_current_record (event_id_of r) [(''progress'', progress_at (r_progress r) phase now)])"

definition precreate_shake_log :: "calculation_record \<Rightarrow> ('m, unit) io" where
  "precreate_shake_log r =
     thenM (observe (\<lambda>E s. bindE (open_record_directory (event_logs_dir (event_id_of r)) s) (\<lambda>d.
              guardE (d \<noteq> None) FileNotFoundError ''service directory does not exist'')))
    (thenM (create_file (event_logs_dir (event_id_of r)) SHAKE_LOG_NAME)
    (thenM fsync fsync))"

definition helper_facts :: "ustr list \<Rightarrow> ustr \<Rightarrow> int \<Rightarrow> json" where
  "helper_facts command output return_code =
     jobj [(''command'', JList (map JStr command)), (''output'', JStr output), (''return_code'', JInt return_code)]"

definition helper_execution_facts :: "helper_execution \<Rightarrow> json" where
  "helper_execution_facts h = helper_facts (h_command h) (h_output h) (h_return_code h)"

definition profile_facts :: "materialization \<Rightarrow> json" where
  "profile_facts m =
     jobj [(''materialized'', JBool True), (''selected_configuration'', mz_selected m),
           (''profile_name'', JStr PROFILE_NAME),
           (''source_directory'', case mz_source_directory m of None \<Rightarrow> JNull | Some d \<Rightarrow> JStr d),
           (''profile_helper'', helper_execution_facts (mz_profile_helper m)),
           (''strec_helper'', helper_execution_facts (mz_strec_helper m))]"

fun profile_error_facts :: "exn_kind \<Rightarrow> (string \<times> json) list" where
  "profile_error_facts (NativeProfileError stage command helper) =
     [(''stage'', jstr stage),
      (''command'', case command of None \<Rightarrow> JNull | Some names \<Rightarrow> JList (map JStr names)),
      (''helper'', case helper of None \<Rightarrow> JNull | Some (names, output, code) \<Rightarrow> helper_facts names output code)]"
| "profile_error_facts k = []"

definition profile_failure_facts :: "json \<Rightarrow> exn \<Rightarrow> json" where
  "profile_failure_facts selected e =
     jobj [(''materialized'', JBool False), (''selected_configuration'', selected),
           (''failure'', jobj ([(''type'', jstr (exn_name (exn_kind_of e))), (''message'', JStr (error_text e))]
              @ profile_error_facts (exn_kind_of e)))]"

definition execution_facts :: "execution_result option \<Rightarrow> json option \<Rightarrow> json option" where
  "execution_facts execution started =
     (case execution of
        None \<Rightarrow> started
      | Some x \<Rightarrow> Some (jobj
          [(''command'', JList (map JStr (x_command x))), (''pid'', JInt (x_pid x)),
           (''started_at'', JStr (x_started_at x)), (''completed_at'', JStr (x_completed_at x)),
           (''exit_code'', opt_int (x_exit_code x)), (''signal'', opt_int (x_signal x))]))"

definition outcome_facts :: "execution_result option \<Rightarrow> json option" where
  "outcome_facts execution = map_option (\<lambda>x. native_outcome_of (Some x)) execution"

definition timestamps_of :: "calculation_locals \<Rightarrow> ustr \<Rightarrow> json" where
  "timestamps_of l terminal_at =
     jobj [(''accepted_at'', jget (r_timestamps (l_current l)) ''submitted_at''),
           (''started_at'', jget (r_timestamps (l_current l)) ''started_at''),
           (''native_completed_at'', case l_execution l of None \<Rightarrow> JNull | Some x \<Rightarrow> JStr (x_completed_at x)),
           (''validated_at'', case l_validated_at l of None \<Rightarrow> JNull | Some t \<Rightarrow> JStr t),
           (''terminal_at'', JStr terminal_at)]"

definition observed_facts :: "calculation_locals \<Rightarrow> ustr \<Rightarrow> json option \<Rightarrow> provenance_facts" where
  "observed_facts l terminal_at failure =
     \<lparr>pf_materialization = l_configuration l,
      pf_native_execution = execution_facts (l_execution l) (l_started l),
      pf_required_products = l_resolution l,
      pf_native_outcome = outcome_facts (l_execution l),
      pf_service_outcome = Some (jobj [(''completed'', JBool True), (''successful'', JBool (failure = None))]),
      pf_warnings = list_of (r_warnings (l_current l)),
      pf_failure = failure,
      pf_timestamps = timestamps_of l terminal_at\<rparr>"

definition secondary_fact :: "string \<Rightarrow> exn \<Rightarrow> json" where
  "secondary_fact code e =
     jobj [(''phase'', jstr ''record_finalization''), (''code'', jstr code), (''message'', JStr (error_text e))]"

section \<open>Ending a calculation as failed\<close>

text \<open>\<open>try: m except Exception as e: return h(e)\<close>, followed by the rest of the function.\<close>

definition guarded :: "('m, 'a) io \<Rightarrow> (exn \<Rightarrow> ('m, 'b) io) \<Rightarrow> ('a \<Rightarrow> ('m, 'b) io) \<Rightarrow> ('m, 'b) io" where
  "guarded m h f = bindM (attempt m) (\<lambda>r. case r of Inl e \<Rightarrow> h e | Inr x \<Rightarrow> f x)"

text \<open>A piece of evidence that may fail: the secondary facts it adds.\<close>

definition noted :: "string \<Rightarrow> ('m, 'a) io \<Rightarrow> ('m, json list) io" where
  "noted code m = guarded m (\<lambda>e. ret [secondary_fact code e]) (\<lambda>_. ret [])"

definition primary_failure :: "string \<Rightarrow> string \<Rightarrow> ustr \<Rightarrow> json option \<Rightarrow> (string \<times> json) list" where
  "primary_failure phase code message configuration_error =
     [(''phase'', jstr phase), (''code'', jstr code), (''message'', JStr message)]
     @ (case configuration_error of None \<Rightarrow> [] | Some e \<Rightarrow> [(''configuration_error'', e)])"

definition finish_failed ::
  "collaborators \<Rightarrow> calculation_locals \<Rightarrow> string \<Rightarrow> string \<Rightarrow> ustr \<Rightarrow> ustr option \<Rightarrow> bool \<Rightarrow> json option
     \<Rightarrow> ('m, json) io"
where
  "finish_failed Z l phase code message terminal_given record_failure_log configuration_error =
     bindM (case terminal_given of None \<Rightarrow> read_now | Some t \<Rightarrow> ret t) (\<lambda>terminal_at.
     bindM (if record_failure_log
            then noted ''service_log_recording_failed''
                   (append_service_log (log_line Z) (l_current l) (lit phase) (lit ''ERROR'') message)
            else ret []) (\<lambda>log_problem.
     bindM (noted ''partial_manifest_failed''
              (publish_product_manifest (l_current l) (l_validation l) (Some message))) (\<lambda>manifest_problem.
     let known = log_problem @ manifest_problem;
         failure = jobj (primary_failure phase code message configuration_error
                         @ [(''secondary_evidence'', JList known)]) in
     bindM (noted ''provenance_recording_failed''
              (publish_provenance (provenance_side Z) (l_current l)
                 (observed_facts l terminal_at (Some failure)))) (\<lambda>provenance_problem.
     bindM (finalize_failure (l_current l) terminal_at (lit phase) (lit code) message (l_execution l)
              (known @ provenance_problem) configuration_error) (\<lambda>terminal.
     bindM (finalize_transaction (event_id_of (l_current l))) (\<lambda>_.
     ret (r_status terminal)))))))"

definition fail_with ::
  "collaborators \<Rightarrow> calculation_locals \<Rightarrow> string \<Rightarrow> string \<Rightarrow> exn \<Rightarrow> ('m, json) io" where
  "fail_with Z l phase code e = finish_failed Z l phase code (error_text e) None True None"

text \<open>The three steps that every phase repeats.\<close>

definition logged ::
  "collaborators \<Rightarrow> calculation_locals \<Rightarrow> string \<Rightarrow> string \<Rightarrow> ustr \<Rightarrow> ('m, json) io \<Rightarrow> ('m, json) io" where
  "logged Z l phase severity message rest =
     guarded (append_service_log (log_line Z) (l_current l) (lit phase) (lit severity) message)
       (\<lambda>e. finish_failed Z l phase ''service_log_failed'' (error_text e) None False None) (\<lambda>_. rest)"

definition phase_set ::
  "collaborators \<Rightarrow> calculation_locals \<Rightarrow> string \<Rightarrow> (calculation_locals \<Rightarrow> ('m, json) io) \<Rightarrow> ('m, json) io" where
  "phase_set Z l phase rest =
     guarded (set_phase (l_current l) (lit phase)) (fail_with Z l phase ''phase_recording_failed'')
       (\<lambda>r. rest (l\<lparr>l_current := r\<rparr>))"

fun warnings_logged ::
  "collaborators \<Rightarrow> calculation_locals \<Rightarrow> ustr list \<Rightarrow> ('m, json) io \<Rightarrow> ('m, json) io" where
  "warnings_logged Z l [] rest = rest"
| "warnings_logged Z l (w # ws) rest =
     logged Z l ''calculation_preparation'' ''WARNING'' w (warnings_logged Z l ws rest)"

section \<open>The phases\<close>

text \<open>From the last phase backwards: each phase ends in the next one.\<close>

definition record_finalization :: "collaborators \<Rightarrow> calculation_locals \<Rightarrow> execution_result \<Rightarrow> validation_result
     \<Rightarrow> ('m, json) io" where
  "record_finalization Z l0 execution validation =
     phase_set Z l0 ''record_finalization'' (\<lambda>l.
     logged Z l ''record_finalization'' ''INFO'' (lit ''publishing terminal calculation evidence'')
    (guarded (publish_product_manifest (l_current l) (Some validation) None)
       (fail_with Z l ''record_finalization'' ''product_manifest_failed'') (\<lambda>_.
     bindM read_now (\<lambda>terminal_at.
     let failed = (\<lambda>code e. finish_failed Z l ''record_finalization'' code (error_text e) (Some terminal_at) True None) in
     guarded (publish_provenance (provenance_side Z) (l_current l) (observed_facts l terminal_at None))
       (failed ''provenance_failed'') (\<lambda>_.
     guarded (finalize_success (l_current l) execution validation terminal_at)
       (failed ''success_finalization_failed'') (\<lambda>terminal.
     bindM (finalize_transaction (event_id_of (l_current l))) (\<lambda>_.
     ret (r_status terminal))))))))"

definition joined_failures :: "required_product_check list \<Rightarrow> ustr" where
  "joined_failures checks =
     concat (case map (\<lambda>k. c_path k @ lit '': '' @ c_reason k) (filter (\<lambda>k. \<not> c_passed k) checks) of
               [] \<Rightarrow> [] | m # ms \<Rightarrow> m # map (\<lambda>x. lit ''; '' @ x) ms)"

definition product_validation :: "collaborators \<Rightarrow> calculation_locals \<Rightarrow> execution_result \<Rightarrow> ('m, json) io" where
  "product_validation Z l0 execution =
     phase_set Z l0 ''product_validation'' (\<lambda>l.
     logged Z l ''product_validation'' ''INFO'' (lit ''resolving and validating required native products'')
    (let p = products_path (event_id_of (l_current l)) in
     guarded (observe (\<lambda>E. resolve_required_products (cfg E) (hdf_side Z) p))
       (fail_with Z l ''product_validation'' ''required_product_resolution_failed'') (\<lambda>resolution.
     let l1 = l\<lparr>l_resolution := Some resolution\<rparr> in
     guarded (observe (\<lambda>E. validate_required_products E (product_side Z) p resolution))
       (fail_with Z l1 ''product_validation'' ''required_product_validation_failed'') (\<lambda>validation.
     bindM read_now (\<lambda>validated_at.
     let l2 = l1\<lparr>l_validation := Some validation, l_validated_at := Some validated_at\<rparr> in
     if \<not> v_passed validation
     then finish_failed Z l2 ''product_validation'' ''required_product_validation_failed''
            (lit ''required product validation failed: '' @ joined_failures (v_checks validation)) None True None
     else logged Z l2 ''product_validation'' ''INFO'' (lit ''required product validation passed'')
            (record_finalization Z l2 execution validation))))))"

text \<open>\<open>str\<close> of an integer, and \<open>repr\<close> of an optional one.\<close>

definition int_text :: "int \<Rightarrow> ustr" where
  "int_text i = (if i < 0 then lit ''-'' else []) @ decimal (nat \<bar>i\<bar>)"

fun opt_text :: "int option \<Rightarrow> ustr" where
  "opt_text None = lit ''None''"
| "opt_text (Some i) = int_text i"

text \<open>The callback of the native launch: it records the start, and assigns the two locals.\<close>

definition started_facts :: "int \<Rightarrow> ustr list \<Rightarrow> ustr \<Rightarrow> json" where
  "started_facts pid command started_at =
     jobj [(''command'', JList (map JStr command)), (''pid'', JInt pid), (''started_at'', JStr started_at),
           (''completed_at'', JNull), (''exit_code'', JNull), (''signal'', JNull)]"

definition on_started ::
  "calculation_locals \<Rightarrow> int \<Rightarrow> ustr list \<Rightarrow> ustr \<Rightarrow> ('m, exn option \<times> calculation_locals) io" where
  "on_started l pid command started_at =
     (let l1 = l\<lparr>l_started := Some (started_facts pid command started_at)\<rparr> in
     bindM (attempt (update_current_record (event_id_of (l_current l))
       [(''timestamps'', jput ''native_started_at'' (JStr started_at) (r_timestamps (l_current l))),
        (''native_outcome'', jobj [(''started'', JBool True), (''exit_code'', JNull), (''signal'', JNull)])])) (\<lambda>r.
     ret (case r of Inl e \<Rightarrow> (Some e, l1) | Inr current \<Rightarrow> (None, l1\<lparr>l_current := current\<rparr>))))"

definition SHUTDOWN_MESSAGE :: ustr where
  "SHUTDOWN_MESSAGE = lit ''native execution stopped because the service is shutting down''"

text \<open>The classification of a native result.\<close>

definition native_ended :: "collaborators \<Rightarrow> calculation_locals \<Rightarrow> execution_result \<Rightarrow> ('m, json) io" where
  "native_ended Z l execution =
     (if x_service_terminated execution
      then finish_failed Z l ''native_execution'' ''service_shutdown'' SHUTDOWN_MESSAGE None True None
      else case x_signal execution of
        Some n \<Rightarrow> finish_failed Z l ''native_execution'' ''native_signal''
                    (lit ''ShakeMap terminated by signal '' @ int_text n) None True None
      | None \<Rightarrow>
          if x_exit_code execution \<noteq> Some 0
          then finish_failed Z l ''native_execution''
                 (if x_configuration_error execution \<noteq> JNull then ''native_configuration_failed'' else ''native_exit'')
                 (lit ''ShakeMap exited with code '' @ opt_text (x_exit_code execution)) None True
                 (if x_configuration_error execution \<noteq> JNull then Some (x_configuration_error execution) else None)
          else product_validation Z l execution)"

definition native_recorded :: "collaborators \<Rightarrow> calculation_locals \<Rightarrow> execution_result \<Rightarrow> ('m, json) io" where
  "native_recorded Z l execution =
     guarded (update_current_record (event_id_of (l_current l))
         [(''timestamps'', jput ''native_finished_at'' (JStr (x_completed_at execution)) (r_timestamps (l_current l))),
          (''native_outcome'', native_outcome_of (Some execution))])
       (fail_with Z l ''native_execution'' ''native_result_recording_failed'') (\<lambda>current.
     let l1 = l\<lparr>l_current := current\<rparr> in
     logged Z l1 ''native_execution'' ''INFO''
       (lit ''native command completed with exit_code='' @ opt_text (x_exit_code execution)
        @ lit '', signal='' @ opt_text (x_signal execution))
       (native_ended Z l1 execution))"

definition native_execution ::
  "collaborators \<Rightarrow> calculation_locals \<Rightarrow> (ustr \<times> ustr) list \<Rightarrow> (process_table, json) io" where
  "native_execution Z l0 environment =
     phase_set Z l0 ''native_execution'' (\<lambda>l.
     logged Z l ''native_execution'' ''INFO'' (lit ''starting the fixed native ShakeMap command'')
    (bindM (run_shake (processes Z) (python_executable Z) (event_id_of (l_current l)) environment
              (on_started l) l) (\<lambda>(result, l1).
     case result of
       Inl e \<Rightarrow>
         if exn_kind_of e = ServiceShutdownError
         then finish_failed Z l1 ''native_execution'' ''service_shutdown'' SHUTDOWN_MESSAGE None True None
         else fail_with Z l1 ''native_execution'' ''native_invocation_failed'' e
     | Inr execution \<Rightarrow> native_recorded Z (l1\<lparr>l_execution := Some execution\<rparr>) execution)))"

definition calculation_preparation ::
  "collaborators \<Rightarrow> calculation_locals \<Rightarrow> (ustr \<times> ustr) list \<Rightarrow> (process_table, json) io" where
  "calculation_preparation Z l0 environment =
     (let selected = jget (r_configuration (l_current l0)) ''selected'' in
     phase_set Z l0 ''calculation_preparation'' (\<lambda>l.
     logged Z l ''calculation_preparation'' ''INFO'' (lit ''current calculation trees are prepared'')
    (warnings_logged Z l (map str_of (list_of (r_warnings (l_current l))))
    (guarded (precreate_shake_log (l_current l))
       (fail_with Z l ''calculation_preparation'' ''shake_log_failed'') (\<lambda>_.
     guarded (prepare_native_context (l_current l) environment)
       (fail_with Z l ''calculation_preparation'' ''native_context_failed'') (\<lambda>context.
     guarded (locally () (materialize_native_profile (profile_side Z) context))
       (\<lambda>e. fail_with Z (l\<lparr>l_configuration := profile_failure_facts selected e\<rparr>)
               ''calculation_preparation'' ''configuration_materialization_failed'' e) (\<lambda>materialization.
     let l1 = l\<lparr>l_configuration := profile_facts materialization\<rparr> in
     bindM (ask printable) (\<lambda>is_printable.
     logged Z l1 ''calculation_preparation'' ''INFO''
       (lit ''selected configuration '' @ py_repr is_printable (str_of selected) @ lit '' is materialized'')
       (native_execution Z l1 (nc_environment context)))))))))) "

section \<open>The whole calculation\<close>

definition initial_locals :: "calculation_record \<Rightarrow> calculation_locals" where
  "initial_locals current =
     \<lparr>l_current = current,
      l_configuration = jobj [(''materialized'', JBool False),
        (''selected_configuration'', jget (r_configuration current) ''selected''), (''state'', jstr ''not_attempted'')],
      l_execution = None, l_started = None, l_resolution = None, l_validation = None, l_validated_at = None\<rparr>"

text \<open>Everything after the preparation of the trees.\<close>

definition execute_prepared ::
  "collaborators \<Rightarrow> calculation_record \<Rightarrow> (ustr \<times> ustr) list \<Rightarrow> (process_table, json) io" where
  "execute_prepared Z r environment =
     bindM (observe (\<lambda>E. current_promoted_record (cfg E) r)) (\<lambda>current.
     calculation_preparation Z (initial_locals current) environment)"

text \<open>The transaction object before \<open>prepare_calculation\<close> constructs it; every field is overwritten.\<close>

definition unopened :: "calculation_record \<Rightarrow> transaction" where
  "unopened r =
     \<lparr>t_record = r, in_events = False,
      t_journal = \<lparr>j_event_id = event_id_of r, j_sequence = sequence_of r, j_overwrite = bool_of (r_overwrite r),
        j_products = False, j_service = False, j_archive_path = None, j_completed = [],
        j_stage_removal = False, j_candidate_removal = False, j_recovery_failure = JNull\<rparr>\<rparr>"

definition execute_calculation ::
  "collaborators \<Rightarrow> calculation_record \<Rightarrow> (ustr \<times> ustr) list \<Rightarrow> (process_table, json) io" where
  "execute_calculation Z r base_environment =
     thenM (locally (unopened r) (prepare_calculation (sequence_of r)))
           (execute_prepared Z r base_environment)"

definition execute_shakemap ::
  "collaborators \<Rightarrow> (ustr \<times> ustr) list \<Rightarrow> calculation_record \<Rightarrow> (process_table, json) io" where
  "execute_shakemap Z os_environ r = execute_calculation Z r os_environ"

end
