(* ===== verification/Record_Frames.thy ===== *)
theory Record_Frames
  imports Stable Frames Calculation
begin

text \<open>
  Computations that leave a record's \<open>status.json\<close> and \<open>transaction.json\<close> alone. \<open>kept E I m\<close> is
  \<open>stable\<close> for a process that does not die: \<open>I\<close> holds at the end of \<open>m\<close>, and \<open>m\<close> ends with a value
  or an exception. Without faults every computation that only names other entries is \<open>kept\<close>.
\<close>

section \<open>Kept properties\<close>

definition kept :: "env \<Rightarrow> (fsys \<Rightarrow> bool) \<Rightarrow> ('m, 'a) io \<Rightarrow> bool" where
  "kept E I m \<longleftrightarrow> triple E I m (\<lambda>_. I) (\<lambda>x s. x \<noteq> None \<and> I s)"

named_theorems kept \<open>computations that keep a property and do not die\<close>

lemma kept_basic [kept]:
  "kept E I (ret x)" "kept E I (raise k msg)" "kept E I (reraise e)" "kept E I (check b k msg)"
  "kept E I (liftE r)" "kept E I (ask f)" "kept E I (observe g)" "kept E I read_uuid"
  "kept E I read_now" "kept E I read_datetime"
  unfolding kept_def
  by (auto intro: triple_ret triple_raise triple_reraise triple_check triple_liftE triple_ask
      triple_observe triple_read_uuid triple_read_now triple_read_datetime)

lemma kept_memory [kept]: "kept E I get_mem" "kept E I (modify_mem f)"
  by (simp_all add: kept_def triple_def get_mem_def modify_mem_def)

lemma kept_bind [kept]: "kept E I m \<Longrightarrow> (\<And>x. kept E I (f x)) \<Longrightarrow> kept E I (bindM m f)"
  unfolding kept_def by (rule triple_bind)

lemma kept_then [kept]: "kept E I m \<Longrightarrow> kept E I n \<Longrightarrow> kept E I (thenM m n)"
  unfolding kept_def by (rule triple_then)

lemma kept_catch [kept]: "kept E I m \<Longrightarrow> (\<And>e. kept E I (h e)) \<Longrightarrow> kept E I (catchM m h)"
  unfolding kept_def
  by (rule triple_catch [where R = "\<lambda>_. I"]) (auto elim: triple_weaken split: option.splits)

lemma kept_when [kept]: "kept E I m \<Longrightarrow> kept E I (whenM b m)"
  by (simp add: whenM_def kept_basic)

lemma kept_if [kept]: "kept E I m \<Longrightarrow> kept E I n \<Longrightarrow> kept E I (if b then m else n)"
  by simp

lemma kept_option [kept]:
  "kept E I m \<Longrightarrow> (\<And>x. kept E I (f x)) \<Longrightarrow> kept E I (case v of None \<Rightarrow> m | Some x \<Rightarrow> f x)"
  by (cases v) auto

lemma kept_prod [kept]: "(\<And>x y. kept E I (f x y)) \<Longrightarrow> kept E I (case v of (x, y) \<Rightarrow> f x y)"
  by (cases v) auto

lemma kept_sum [kept]:
  "(\<And>x. kept E I (f x)) \<Longrightarrow> (\<And>y. kept E I (g y)) \<Longrightarrow> kept E I (case v of Inl x \<Rightarrow> f x | Inr y \<Rightarrow> g y)"
  by (cases v) auto

lemma kept_node [kept]:
  "(\<And>c. kept E I (f c)) \<Longrightarrow> (\<And>d. kept E I (g d)) \<Longrightarrow> kept E I m \<Longrightarrow>
    kept E I (case v of File c \<Rightarrow> f c | Dir d \<Rightarrow> g d | Special \<Rightarrow> m)"
  by (cases v) auto

lemma kept_attempt [kept]: "kept E I m \<Longrightarrow> kept E I (attempt m)"
  unfolding attempt_def by (intro kept)

lemma kept_forM [kept]: "(\<And>x. x \<in> set xs \<Longrightarrow> kept E I (f x)) \<Longrightarrow> kept E I (forM xs f)"
  by (induction xs) (auto intro: kept)

lemma kept_ex:
  assumes "\<And>a. kept E (I a) m"
  shows "kept E (\<lambda>s. \<exists>a. I a s) m"
  unfolding kept_def
  by (rule triple_ex, rule triple_weaken [OF assms [unfolded kept_def]]) auto

lemma kept_conj: "kept E I m \<Longrightarrow> kept E (\<lambda>s. b \<and> I s) m"
  by (auto simp: kept_def intro: triple_pure elim: triple_weaken)

lemma kept_sys:
  assumes "quiet E" "\<And>s s'. I s \<Longrightarrow> op s = Inr s' \<Longrightarrow> I s'"
  shows "kept E I (sys op part)"
  unfolding kept_def by (rule triple_sys) (use assms in auto)

lemma kept_fsync [kept]: "quiet E \<Longrightarrow> kept E I fsync"
  unfolding fsync_def by (rule kept_sys) auto

section \<open>A memory of its own\<close>

lemma triple_locally:
  fixes m :: "('n, 'a) io"
  assumes "triple E P m Q X"
  shows "triple E P (locally t m) Q X"
proof (rule tripleI)
  fix w :: "'m world" assume P: "P (fs w)"
  obtain out w1 where m: "m E \<lparr>fs = fs w, clock = clock w, mem = t\<rparr> = (out, w1)" by fastforce
  show "case locally t m E w of (Val x, w') \<Rightarrow> Q x (fs w')
      | (Exc e, w') \<Rightarrow> X (Some e) (fs w') | (Dead, w') \<Rightarrow> X None (fs w')"
    using tripleD [OF assms, of "\<lparr>fs = fs w, clock = clock w, mem = t\<rparr>"] P m
    by (cases out) (auto simp: locally_def)
qed

lemma kept_locally [kept]: "kept E I m \<Longrightarrow> kept E I (locally t m)"
  unfolding kept_def by (rule triple_locally)

section \<open>The two files of a record\<close>

definition slots :: "ustr \<Rightarrow> node option \<Rightarrow> node option \<Rightarrow> fsys \<Rightarrow> bool" where
  "slots e v u s \<longleftrightarrow> entry_at (Events, [e]) STATUS_FILE s = v \<and> entry_at (Events, [e]) TRANSACTION_FILE s = u"

text \<open>An entry that is not one of the two files of any record.\<close>

fun spares :: "path \<Rightarrow> ustr \<Rightarrow> bool" where
  "spares (k, []) n \<longleftrightarrow> k \<noteq> Events"
| "spares (k, [m]) n \<longleftrightarrow> k \<noteq> Events \<or> n \<noteq> STATUS_FILE \<and> n \<noteq> TRANSACTION_FILE"
| "spares (k, m # n' # p) n \<longleftrightarrow> k \<noteq> Events \<or> n' \<noteq> STATUS_FILE \<and> n' \<noteq> TRANSACTION_FILE"

definition beneath :: "path \<Rightarrow> bool" where
  "beneath p \<longleftrightarrow> fst p \<noteq> Events \<or> (\<exists>m n p'. snd p = m # n # p' \<and> n \<noteq> STATUS_FILE \<and> n \<noteq> TRANSACTION_FILE)"

lemma entry_change_beneath:
  assumes "beneath p" "m = STATUS_FILE \<or> m = TRANSACTION_FILE"
  shows "entry_at (Events, [e]) m (update_at p f s) = entry_at (Events, [e]) m s"
proof (cases "fst p = Events")
  case False
  then show ?thesis by (simp add: entry_at_def update_at_def)
next
  case True
  then obtain a x p' where p: "snd p = a # x # p'" "x \<noteq> m"
    using assms by (auto simp: beneath_def)
  with True show ?thesis
    by (auto simp: entry_at_def update_at_def split: option.splits node.splits)
qed

lemma entry_change_spared:
  assumes "spares p n" "m = STATUS_FILE \<or> m = TRANSACTION_FILE" "\<And>d k. k \<noteq> n \<Longrightarrow> aget (f d) k = aget d k"
  shows "entry_at (Events, [e]) m (update_at p f s) = entry_at (Events, [e]) m s"
proof (cases "beneath p")
  case True
  then show ?thesis using assms(2) by (rule entry_change_beneath)
next
  case False
  with assms(1) obtain a where p: "p = (Events, [a])" "n \<noteq> m"
    using assms(2) by (cases p; cases "snd p"; cases "tl (snd p)") (auto simp: beneath_def)
  then show ?thesis
    unfolding p(1) by (intro entry_update_other assms(3)) auto
qed

lemma slots_spared:
  "spares p n \<Longrightarrow> (\<And>d k. k \<noteq> n \<Longrightarrow> aget (f d) k = aget d k) \<Longrightarrow> slots e v u (update_at p f s) = slots e v u s"
  by (simp add: slots_def entry_change_spared)

lemma slots_beneath: "beneath p \<Longrightarrow> slots e v u (update_at p f s) = slots e v u s"
  by (simp add: slots_def entry_change_beneath)

lemma slots_aput: "spares p n \<Longrightarrow> slots e v u (update_at p (aput n x) s) = slots e v u s"
  and slots_adel: "spares p n \<Longrightarrow> slots e v u (update_at p (adel n) s) = slots e v u s"
  by (erule slots_spared, simp)+

lemma effects_spare:
  assumes "spares p n"
  shows "mkdir_effect p n s = Inr s' \<Longrightarrow> slots e v u s' = slots e v u s"
    "create_effect p n s = Inr s' \<Longrightarrow> slots e v u s' = slots e v u s"
    "create_private_effect p n s = Inr s' \<Longrightarrow> slots e v u s' = slots e v u s"
    "write_effect p n c s = Inr s' \<Longrightarrow> slots e v u s' = slots e v u s"
    "unlink_effect p n s = Inr s' \<Longrightarrow> slots e v u s' = slots e v u s"
    "append_effect p n bytes b s = Inr s' \<Longrightarrow> slots e v u s' = slots e v u s"
  using slots_aput [OF assms, of e v u] slots_adel [OF assms, of e v u]
  by (auto simp: mkdir_effect_def create_effect_def create_private_effect_def write_effect_def
      unlink_effect_def append_effect_def split: option.splits node.splits if_splits)

lemma kept_effect:
  assumes "quiet E" "\<And>s s'. op s = Inr s' \<Longrightarrow> slots e v u s' = slots e v u s"
  shows "kept E (slots e v u) (sys op part)"
  using assms by (intro kept_sys) auto

lemma kept_calls [kept]:
  assumes "quiet E" "spares p n"
  shows "kept E (slots e v u) (mkdir p n)" "kept E (slots e v u) (create_file p n)"
    "kept E (slots e v u) (create_private p n)" "kept E (slots e v u) (write_file p n c)"
    "kept E (slots e v u) (unlink p n)" "kept E (slots e v u) (rewrite_file p n b)"
  unfolding mkdir_def create_file_def create_private_def write_file_def unlink_def rewrite_file_def
  by (rule kept_effect [OF assms(1)], erule effects_spare [OF assms(2)])+

lemma kept_append [kept]:
  assumes "quiet E" "spares p n"
  shows "kept E (slots e v u) (append_all p n b)"
proof -
  have "kept E (slots e v u) (sys (append_effect p n (content_bytes E) b) (append_part p n (content_bytes E) b)
      :: ('m, unit) io)"
    by (rule kept_effect [OF assms(1)], erule effects_spare [OF assms(2)])
  then show ?thesis
    unfolding kept_def triple_def append_all_def by blast
qed

lemma kept_rename:
  assumes "quiet E" "spares p n" "spares p n'"
  shows "kept E (slots e v u) (rename p n p n')"
proof -
  have "slots e v u s' = slots e v u s" if "rename_effect p n p n' s = Inr s'" for s s'
    using that slots_aput [OF assms(3), of e v u] slots_adel [OF assms(2), of e v u]
    by (auto simp: rename_effect_def split: option.splits if_splits)
  then show ?thesis
    unfolding rename_def by (intro kept_effect [OF assms(1)])
qed

end
