(* ===== verification/Calculation_Lemmas.thy ===== *)
theory Calculation_Lemmas
  imports Record_Frames Product_Lemmas Evidence_Properties
begin

text \<open>
  The steps of a calculation between its preparation and its terminal write leave the record's
  \<open>status.json\<close> and its journal alone, except for the record updates, which keep it a valid
  \<open>RUNNING\<close> record; and the skeleton of \<open>calculation.py\<close>: whatever property the steps keep and the
  two terminal writes end in, the whole function ends in.
\<close>

section \<open>Steps that spare the record\<close>

lemma reserved_differ [simp]:
  "lit ''logs'' \<noteq> STATUS_FILE" "lit ''logs'' \<noteq> TRANSACTION_FILE" "lit ''profile'' \<noteq> STATUS_FILE"
  "lit ''profile'' \<noteq> TRANSACTION_FILE" "MANIFEST_NAME \<noteq> STATUS_FILE" "MANIFEST_NAME \<noteq> TRANSACTION_FILE"
  "PROVENANCE_NAME \<noteq> STATUS_FILE" "PROVENANCE_NAME \<noteq> TRANSACTION_FILE" "STATUS_FILE \<noteq> TRANSACTION_FILE"
  "TRANSACTION_FILE \<noteq> STATUS_FILE"
  by (simp_all add: STATUS_FILE_def TRANSACTION_FILE_def MANIFEST_NAME_def PROVENANCE_NAME_def lit_inject)

lemma tmp_names_spare: "tmp_name t \<Longrightarrow> t \<noteq> STATUS_FILE \<and> t \<noteq> TRANSACTION_FILE"
  by (auto simp: STATUS_FILE_def TRANSACTION_FILE_def tmp_name_lit)

lemma kept_service_log [kept]:
  "quiet E \<Longrightarrow> kept E (slots e v u) (append_service_log line r phase severity message)"
  unfolding append_service_log_def open_logs_directory_def open_log_file_def Let_def event_logs_dir_def
    event_service_dir_def
  by (intro kept) simp_all

lemma kept_shake_log [kept]: "quiet E \<Longrightarrow> kept E (slots e v u) (precreate_shake_log r)"
  unfolding precreate_shake_log_def event_logs_dir_def by (intro kept) simp_all

lemma kept_native_context [kept]: "quiet E \<Longrightarrow> kept E (slots e v u) (prepare_native_context r env)"
  unfolding prepare_native_context_def
  by (intro kept_then kept_forM kept_basic) (auto simp: PRIVATE_DIRECTORIES_def intro!: kept_calls(1))

lemma kept_publish_evidence:
  assumes "quiet E" "\<And>x. tmp_name (lit label @ x @ lit ''.tmp'')" "target \<noteq> STATUS_FILE" "target \<noteq> TRANSACTION_FILE"
  shows "kept E (slots e v u) (publish_evidence label (Events, [e']) target j)"
  unfolding publish_evidence_def Let_def
  using assms tmp_names_spare [OF assms(2)] by (intro kept kept_rename) auto

lemma kept_publications [kept]:
  assumes "quiet E"
  shows "kept E (slots e v u) (publish_product_manifest r x reason)"
    "kept E (slots e v u) (publish_provenance S r facts)"
  unfolding publish_product_manifest_def publish_manifest_def publish_provenance_def
    publish_provenance_file_def event_service_dir_def
  by (intro kept kept_publish_evidence [OF assms] tmp_evidence; simp)+

section \<open>The native profile\<close>

text \<open>Neither the helper programs nor the native process touch the record's two files, or the service process.\<close>

definition well_behaved :: "env \<Rightarrow> collaborators \<Rightarrow> ustr \<Rightarrow> bool" where
  "well_behaved E Z e \<longleftrightarrow>
     (\<forall>v u. (\<forall>command env input. kept E (slots e v u) (run_program (profile_side Z) command env input))
          \<and> (\<forall>command env. kept E (slots e v u) (os_spawn (processes Z) command env))
          \<and> (\<forall>pid. kept E (slots e v u) (os_terminate (processes Z) pid)
                 \<and> kept E (slots e v u) (os_wait (processes Z) pid)))"

lemma well_behavedD:
  assumes "well_behaved E Z e"
  shows "kept E (slots e v u) (run_program (profile_side Z) command env input)"
    "kept E (slots e v u) (os_spawn (processes Z) command env)"
    "kept E (slots e v u) (os_terminate (processes Z) pid)" "kept E (slots e v u) (os_wait (processes Z) pid)"
  using assms by (simp_all add: well_behaved_def)

lemma kept_assignment [kept]:
  "quiet E \<Longrightarrow> kept E (slots e v u) (replace_single_assignment (profile_dir e' names) n name replacement stage)"
  unfolding replace_single_assignment_def
  by (intro kept) (cases names, simp_all add: profile_dir_def)

lemma kept_mapping [kept]: "quiet E \<Longrightarrow> kept E (slots e v u) (copy_mapping_tree Y ctx)"
proof -
  assume quiet: "quiet E"
  have b: "beneath (profile_dir (nc_event_id ctx) [''install'', ''data'', ''mapping''])"
    by (simp add: beneath_def profile_dir_def)
  have "kept E (slots e v u) (sys (\<lambda>s. Inr (update_at (profile_dir (nc_event_id ctx)
      [''install'', ''data'', ''mapping'']) (\<lambda>_. tree) s)) part :: (unit, unit) io)" for tree part
    by (rule kept_effect [OF quiet]) (auto simp: slots_beneath [OF b])
  then show ?thesis
    unfolding copy_mapping_tree_def Let_def by (intro kept)
qed

lemma kept_regional [kept]: "quiet E \<Longrightarrow> kept E (slots e v u) (copy_regional_file Y ctx selected name)"
  unfolding copy_regional_file_def Let_def
  by (intro kept) (auto simp: profile_dir_def)

lemma kept_selected [kept]:
  "quiet E \<Longrightarrow> kept E (slots e v u) (apply_selected_configuration Y ctx selected source)"
  unfolding apply_selected_configuration_def Let_def by (intro kept)

lemma kept_materialize:
  assumes "quiet E" "well_behaved E Z e"
  shows "kept E (slots e v u) (materialize_native_profile (profile_side Z) ctx)"
  unfolding materialize_native_profile_def run_profile_helper_def run_strec_helper_def run_helper_def
  by (intro kept assms(1) well_behavedD(1) [OF assms(2)])

end
