(* ===== verification/Calculation_Skeleton.thy ===== *)
theory Calculation_Skeleton
  imports Calculation_Lemmas
begin

text \<open>
  The skeleton of \<open>calculation.py\<close>, as a contract: if every step between the preparation and the
  terminal write keeps \<open>J\<close>, whether it returns or raises, and the terminal writes lead from \<open>J\<close> by
  \<open>D\<close> to \<open>R\<close>, then the whole function leads from \<open>J\<close> to \<open>R\<close>; \<open>X\<close> is where a process death, or an
  exception that no handler catches, may leave the store.
\<close>

definition exits :: "(fsys \<Rightarrow> bool) \<Rightarrow> (exn option \<Rightarrow> fsys \<Rightarrow> bool) \<Rightarrow> exn option \<Rightarrow> fsys \<Rightarrow> bool" where
  "exits J X x = (case x of None \<Rightarrow> X None | Some e \<Rightarrow> J)"

lemma exits_simps [simp]: "exits J X None = X None" "exits J X (Some e) = J"
  by (simp_all add: exits_def)

definition tries :: "env \<Rightarrow> (fsys \<Rightarrow> bool) \<Rightarrow> (exn option \<Rightarrow> fsys \<Rightarrow> bool) \<Rightarrow> ('m, 'a) io \<Rightarrow> bool" where
  "tries E J X m \<longleftrightarrow> triple E J m (\<lambda>_. J) (exits J X)"

lemma tries_triple: "tries E J X m \<Longrightarrow> triple E J m (\<lambda>_. J) (exits J X)"
  by (simp add: tries_def)

lemma tries_basic:
  "tries E J X (ret x)" "tries E J X (observe g)" "tries E J X read_now" "tries E J X read_uuid" "tries E J X (ask h)"
  unfolding tries_def
  by (auto intro: triple_ret triple_observe triple_read_now triple_read_uuid triple_ask)

lemma tries_bind: "tries E J X m \<Longrightarrow> (\<And>x. tries E J X (f x)) \<Longrightarrow> tries E J X (bindM m f)"
  unfolding tries_def by (rule triple_bind)

lemma tries_then: "tries E J X m \<Longrightarrow> tries E J X n \<Longrightarrow> tries E J X (thenM m n)"
  unfolding tries_def by (rule triple_then)

lemma tries_prod: "(\<And>a b. tries E J X (f a b)) \<Longrightarrow> tries E J X (case v of (a, b) \<Rightarrow> f a b)"
  by (cases v) auto

lemmas tries_rules = tries_basic tries_bind tries_then tries_prod

lemma triple_guarded:
  fixes m :: "('m, 'a) io"
  assumes "triple E P m Q (exits H X)" "\<And>e. triple E H (h e) R X" "\<And>x. triple E (Q x) (f x) R X"
  shows "triple E P (guarded m h f) R X"
proof (rule tripleI)
  fix w :: "'m world" assume P: "P (fs w)"
  obtain out w1 where m: "m E w = (out, w1)" by fastforce
  note d = tripleD [OF assms(1) P, unfolded exits_def]
  show "case guarded m h f E w of (Val x, w') \<Rightarrow> R x (fs w')
      | (Exc e, w') \<Rightarrow> X (Some e) (fs w') | (Dead, w') \<Rightarrow> X None (fs w')"
  proof (cases out)
    case (Val x)
    then show ?thesis
      using d(1) m assms(3) [of x] by (simp add: guarded_def attempt_def bindM_def catchM_def ret_def triple_def)
  next
    case (Exc x)
    then show ?thesis
      using d(2) m assms(2) [of x] by (simp add: guarded_def attempt_def bindM_def catchM_def ret_def triple_def)
  next
    case Dead
    then show ?thesis
      using d(3) m by (simp add: guarded_def attempt_def bindM_def catchM_def)
  qed
qed

lemma triple_tried:
  fixes m :: "('m, 'a) io"
  assumes "triple E P m Q (exits H X)"
  shows "triple E P (attempt m) (\<lambda>r. case r of Inl e \<Rightarrow> H | Inr x \<Rightarrow> Q x) X"
proof -
  have "triple E P (guarded m (\<lambda>e. ret (Inl e)) (\<lambda>x. ret (Inr x))) (\<lambda>r. case r of Inl e \<Rightarrow> H | Inr x \<Rightarrow> Q x) X"
    by (rule triple_guarded [OF assms]) (simp_all add: triple_ret)
  moreover have "attempt m = guarded m (\<lambda>e. ret (Inl e)) (\<lambda>x. ret (Inr x))"
    by (auto simp: guarded_def attempt_def bindM_def catchM_def ret_def fun_eq_iff
        split: outcome.splits prod.splits)
  ultimately show ?thesis by simp
qed

definition reading :: "env \<Rightarrow> ustr \<Rightarrow> bool" where
  "reading E t \<longleftrightarrow> (\<exists>k. t = now_iso (time_at E k))"

lemma error_text_nonempty [simp]: "error_text e \<noteq> []"
proof -
  have "exn_name k \<noteq> []" for k by (cases k) simp_all
  then show ?thesis by (simp add: error_text_def lit_def)
qed

lemma int_text_nonempty [simp]: "lit (c # cs) @ s \<noteq> []"
  by (simp add: lit_def)

definition CALCULATION_PHASES :: "string list" where
  "CALCULATION_PHASES =
     [''calculation_preparation'', ''native_execution'', ''product_validation'', ''record_finalization'']"

definition UPDATED_FIELDS :: "string list" where
  "UPDATED_FIELDS = [''progress'', ''timestamps'', ''native_outcome'']"

section \<open>The contract\<close>

locale calculation_run =
  fixes E :: env and Z :: collaborators and e :: ustr
    and F :: "calculation_record \<Rightarrow> bool" and J :: "fsys \<Rightarrow> bool" and X :: "exn option \<Rightarrow> fsys \<Rightarrow> bool"
    and D :: "calculation_record \<Rightarrow> fsys \<Rightarrow> bool" and R :: "json \<Rightarrow> fsys \<Rightarrow> bool"
  assumes log: "tries E J X (append_service_log (log_line Z) r ph severity msg :: (process_table, json) io)"
    and manifest: "tries E J X (publish_product_manifest r vr reason :: (process_table, unit) io)"
    and provenance: "tries E J X (publish_provenance (provenance_side Z) r facts :: (process_table, unit) io)"
    and shake_log: "tries E J X (precreate_shake_log r :: (process_table, unit) io)"
    and native_context: "tries E J X (prepare_native_context r env :: (process_table, native_context) io)"
    and profile: "tries E J X (locally () (materialize_native_profile (profile_side Z) ctx) :: (process_table, materialization) io)"
    and update: "set (map fst changes) \<subseteq> set UPDATED_FIELDS \<Longrightarrow>
      triple E J (update_current_record e changes :: (process_table, calculation_record) io)
        (\<lambda>r s. F r \<and> J s) (exits J X)"
    and named: "F r \<Longrightarrow> event_id_of r = e"
    and launched: "tries E J X (launch (processes Z) command env)"
    and awaited: "tries E J X (await (processes Z) pid)"
    and abandoned: "triple E J (abandon (processes Z) pid) (\<lambda>_. J) X"
    and emptied: "tries E J X (write_file (event_logs_dir e) SHAKE_LOG_NAME c :: (process_table, unit) io)"
    and failure: "F r \<Longrightarrow> reading E t \<Longrightarrow> phase \<in> set CALCULATION_PHASES \<Longrightarrow> code \<noteq> [] \<Longrightarrow>
      message \<noteq> [] \<Longrightarrow> triple E J (finalize_failure r t (lit phase) (lit code) message ex secondary problem
        :: (process_table, calculation_record) io) D X"
    and success: "F r \<Longrightarrow> reading E t \<Longrightarrow>
      triple E J (finalize_success r x v t :: (process_table, calculation_record) io) D (exits J X)"
    and closing: "triple E (D r') (finalize_transaction e :: (process_table, bool) io) (\<lambda>_. R (r_status r')) X"
begin

lemma noted_keeps: "tries E J X m \<Longrightarrow> triple E J (noted code m :: (process_table, json list) io) (\<lambda>_. J) X"
  unfolding noted_def by (rule triple_guarded, erule tries_triple) (simp_all add: triple_ret)

lemma failed:
  assumes "F (l_current l)" "phase \<in> set CALCULATION_PHASES" "code \<noteq> []" "message \<noteq> []"
    and "\<And>t. given = Some t \<Longrightarrow> reading E t"
  shows "triple E J (finish_failed Z l phase code message given log_it problem :: (process_table, json) io) R X"
proof -
  let ?clock = "case given of None \<Rightarrow> read_now | Some t \<Rightarrow> ret t"
  have clock: "triple E J (?clock :: (process_table, ustr) io) (\<lambda>t s. reading E t \<and> J s) X"
    using assms(5)
    by (cases given) (auto simp: reading_def intro!: triple_read_now triple_ret)
  show ?thesis
    unfolding finish_failed_def Let_def
  proof (rule triple_bind [OF clock], rule triple_pure)
    fix t assume t: "reading E t"
    show "triple E J (bindM (if log_it
            then noted ''service_log_recording_failed''
                   (append_service_log (log_line Z) (l_current l) (lit phase) (lit ''ERROR'') message)
            else ret []) (\<lambda>log_problem.
       bindM (noted ''partial_manifest_failed''
              (publish_product_manifest (l_current l) (l_validation l) (Some message))) (\<lambda>manifest_problem.
       bindM (noted ''provenance_recording_failed''
              (publish_provenance (provenance_side Z) (l_current l)
                 (observed_facts l t (Some (jobj (primary_failure phase code message problem
                         @ [(''secondary_evidence'', JList (log_problem @ manifest_problem))])))))) (\<lambda>provenance_problem.
       bindM (finalize_failure (l_current l) t (lit phase) (lit code) message (l_execution l)
              ((log_problem @ manifest_problem) @ provenance_problem) problem) (\<lambda>terminal.
       bindM (finalize_transaction (event_id_of (l_current l))) (\<lambda>_.
       ret (r_status terminal)))))) :: (process_table, json) io) R X"
      by (rule triple_bind [where R = "\<lambda>_. J"], rule triple_if, rule noted_keeps [OF log], rule triple_ret, assumption,
          rule triple_bind [OF noted_keeps [OF manifest]], rule triple_bind [OF noted_keeps [OF provenance]],
          rule triple_bind [OF failure [OF assms(1) t assms(2-4)]], unfold named [OF assms(1)],
          rule triple_bind [OF closing], rule triple_ret)
  qed
qed

lemma failed_with:
  assumes "F (l_current l)" "phase \<in> set CALCULATION_PHASES" "code \<noteq> []"
  shows "triple E J (fail_with Z l phase code x :: (process_table, json) io) R X"
  unfolding fail_with_def by (rule failed [OF assms]) simp_all

lemma logged_leads:
  fixes rest :: "(process_table, json) io"
  assumes "F (l_current l)" "phase \<in> set CALCULATION_PHASES" "triple E J rest R X"
  shows "triple E J (logged Z l phase severity message rest) R X"
  unfolding logged_def
  by (rule triple_guarded [OF tries_triple [OF log] failed [OF assms(1,2)] assms(3)]) simp_all

lemma phase_leads:
  fixes rest :: "calculation_locals \<Rightarrow> (process_table, json) io"
  assumes "F (l_current l)" "phase \<in> set CALCULATION_PHASES"
    and "\<And>r. F r \<Longrightarrow> triple E J (rest (l\<lparr>l_current := r\<rparr>)) R X"
  shows "triple E J (phase_set Z l phase rest) R X"
  unfolding phase_set_def
proof (rule triple_guarded [OF _ failed_with [OF assms(1,2)]])
  show "triple E J (set_phase (l_current l) (lit phase) :: (process_table, calculation_record) io)
      (\<lambda>r s. F r \<and> J s) (exits J X)"
    unfolding set_phase_def named [OF assms(1)]
    by (rule triple_bind [where R = "\<lambda>_. J"], rule triple_read_now, assumption, rule update)
       (simp add: UPDATED_FIELDS_def)
  show "triple E (\<lambda>s. F r \<and> J s) (rest (l\<lparr>l_current := r\<rparr>)) R X" for r
    by (rule triple_pure) (rule assms(3))
qed simp

lemma warnings_lead:
  fixes rest :: "(process_table, json) io"
  assumes "F (l_current l)" "triple E J rest R X"
  shows "triple E J (warnings_logged Z l ws rest) R X"
  by (induction ws) (simp_all add: assms(2) logged_leads [OF assms(1)] CALCULATION_PHASES_def)

lemma finalization_leads:
  assumes "F (l_current l)"
  shows "triple E J (record_finalization Z l x v :: (process_table, json) io) R X"
  unfolding record_finalization_def Let_def
proof (rule phase_leads [OF assms], simp add: CALCULATION_PHASES_def, rule logged_leads)
  fix r assume r: "F r"
  let ?l = "l\<lparr>l_current := r\<rparr>"
  have l: "F (l_current ?l)" using r by simp
  have ph: "''record_finalization'' \<in> set CALCULATION_PHASES" by (simp add: CALCULATION_PHASES_def)
  have fail: "triple E J (finish_failed Z ?l ''record_finalization'' code (error_text q) (Some t) True None
      :: (process_table, json) io) R X" if "reading E t" "code \<noteq> []" for t code q
    by (rule failed [OF l ph that(2)]) (use that(1) in simp_all)
  have rest: "triple E (\<lambda>s. reading E t \<and> J s)
      (guarded (publish_provenance (provenance_side Z) (l_current ?l) (observed_facts ?l t None))
        (\<lambda>q. finish_failed Z ?l ''record_finalization'' ''provenance_failed'' (error_text q) (Some t) True None)
        (\<lambda>_. guarded (finalize_success (l_current ?l) x v t)
          (\<lambda>q. finish_failed Z ?l ''record_finalization'' ''success_finalization_failed'' (error_text q) (Some t) True None)
          (\<lambda>terminal. bindM (finalize_transaction (event_id_of (l_current ?l))) (\<lambda>_. ret (r_status terminal)))) :: (process_table, json) io) R X"
    for t
  proof (rule triple_pure, rule triple_guarded [OF tries_triple [OF provenance] fail], assumption, simp)
    assume t: "reading E t"
    show "triple E J (guarded (finalize_success (l_current ?l) x v t)
          (\<lambda>q. finish_failed Z ?l ''record_finalization'' ''success_finalization_failed'' (error_text q) (Some t) True None)
          (\<lambda>terminal. bindM (finalize_transaction (event_id_of (l_current ?l))) (\<lambda>_. ret (r_status terminal))) :: (process_table, json) io) R X"
      unfolding named [OF l]
      by (rule triple_guarded [OF success [OF l t] fail [OF t]], simp, rule triple_bind [OF closing], rule triple_ret)
  qed
  show "triple E J (guarded (publish_product_manifest (l_current ?l) (Some v) None)
       (fail_with Z ?l ''record_finalization'' ''product_manifest_failed'') (\<lambda>_.
     bindM read_now (\<lambda>t.
       guarded (publish_provenance (provenance_side Z) (l_current ?l) (observed_facts ?l t None))
        (\<lambda>q. finish_failed Z ?l ''record_finalization'' ''provenance_failed'' (error_text q) (Some t) True None)
        (\<lambda>_. guarded (finalize_success (l_current ?l) x v t)
          (\<lambda>q. finish_failed Z ?l ''record_finalization'' ''success_finalization_failed'' (error_text q) (Some t) True None)
          (\<lambda>terminal. bindM (finalize_transaction (event_id_of (l_current ?l))) (\<lambda>_. ret (r_status terminal)))))) :: (process_table, json) io) R X"
    by (rule triple_guarded [OF tries_triple [OF manifest] failed_with [OF l ph]], simp,
        rule triple_bind [OF _ rest], rule triple_read_now) (auto simp: reading_def)
qed (simp_all add: CALCULATION_PHASES_def)

lemma validation_leads:
  assumes "F (l_current l)"
  shows "triple E J (product_validation Z l x :: (process_table, json) io) R X"
  unfolding product_validation_def Let_def
proof (rule phase_leads [OF assms], simp add: CALCULATION_PHASES_def, rule logged_leads)
  fix r assume r: "F r"
  let ?l = "l\<lparr>l_current := r\<rparr>"
  have ph: "''product_validation'' \<in> set CALCULATION_PHASES" by (simp add: CALCULATION_PHASES_def)
  have fail: "triple E J (fail_with Z k ''product_validation'' code q :: (process_table, json) io) R X"
    if "F (l_current k)" "code \<noteq> []" for k code q
    by (rule failed_with [OF that(1) ph that(2)])
  have checked: "triple E J (if \<not> v_passed v
      then finish_failed Z k ''product_validation'' ''required_product_validation_failed''
            (lit ''required product validation failed: '' @ joined_failures (v_checks v)) None True None
      else logged Z k ''product_validation'' ''INFO'' (lit ''required product validation passed'')
            (record_finalization Z k x v) :: (process_table, json) io) R X"
    if k: "F (l_current k)" for k v
    by (rule triple_if, rule failed [OF k ph], simp, simp, simp,
        rule logged_leads [OF k ph finalization_leads [OF k]])
  show "triple E J (guarded (observe (\<lambda>E. resolve_required_products (cfg E) (hdf_side Z)
         (products_path (event_id_of (l_current ?l)))))
       (fail_with Z ?l ''product_validation'' ''required_product_resolution_failed'') (\<lambda>q.
     guarded (observe (\<lambda>E. validate_required_products E (product_side Z)
         (products_path (event_id_of (l_current ?l))) q))
       (fail_with Z (?l\<lparr>l_resolution := Some q\<rparr>) ''product_validation'' ''required_product_validation_failed'') (\<lambda>v.
     bindM read_now (\<lambda>t.
     if \<not> v_passed v
     then finish_failed Z (?l\<lparr>l_resolution := Some q, l_validation := Some v, l_validated_at := Some t\<rparr>)
            ''product_validation'' ''required_product_validation_failed''
            (lit ''required product validation failed: '' @ joined_failures (v_checks v)) None True None
     else logged Z (?l\<lparr>l_resolution := Some q, l_validation := Some v, l_validated_at := Some t\<rparr>)
            ''product_validation'' ''INFO'' (lit ''required product validation passed'')
            (record_finalization Z (?l\<lparr>l_resolution := Some q, l_validation := Some v, l_validated_at := Some t\<rparr>) x v))))
       :: (process_table, json) io) R X"
    by (rule triple_guarded [OF tries_triple [OF tries_basic(2)] fail], use r in simp, simp,
        rule triple_guarded [OF tries_triple [OF tries_basic(2)] fail],
        use r in simp, simp, rule triple_bind [where R = "\<lambda>_. J"], rule triple_read_now, assumption,
        rule checked, use r in simp)
qed (simp_all add: CALCULATION_PHASES_def)

lemma native_ended_leads:
  assumes "F (l_current l)"
  shows "triple E J (native_ended Z l x :: (process_table, json) io) R X"
proof -
  have fail: "triple E J (finish_failed Z l ''native_execution'' code m None True p :: (process_table, json) io) R X"
    if "code \<noteq> []" "m \<noteq> []" for code m p
    by (rule failed [OF assms]) (use that in \<open>simp_all add: CALCULATION_PHASES_def\<close>)
  show ?thesis
    unfolding native_ended_def
    by (cases "x_signal x") (auto simp: SHUTDOWN_MESSAGE_def lit_def intro!: fail validation_leads [OF assms])
qed

lemma started_keeps:
  assumes "F (l_current l)"
  shows "triple E J (on_started l pid command t :: (process_table, exn option \<times> calculation_locals) io)
     (\<lambda>p s. F (l_current (snd p)) \<and> J s) X"
  unfolding on_started_def Let_def named [OF assms]
proof (rule triple_bind [OF triple_tried [OF update]])
  show "set (map fst [(''timestamps'', a), (''native_outcome'', b)]) \<subseteq> set UPDATED_FIELDS" for a b :: json
    by (simp add: UPDATED_FIELDS_def)
  show "triple E (case r of Inl q \<Rightarrow> J | Inr c \<Rightarrow> \<lambda>s. F c \<and> J s)
      (ret (case r of Inl q \<Rightarrow> (Some q, l\<lparr>l_started := f\<rparr>)
        | Inr c \<Rightarrow> (None, l\<lparr>l_started := f, l_current := c\<rparr>)) :: (process_table, _) io)
      (\<lambda>p s. F (l_current (snd p)) \<and> J s) X" for r f
    using assms by (cases r) (auto intro: triple_ret)
qed

lemma shake_keeps:
  assumes "F (l_current l)"
  shows "triple E J (run_shake (processes Z) py e env (on_started l) l)
     (\<lambda>p s. F (l_current (snd p)) \<and> J s) X"
proof -
  let ?Q = "\<lambda>p s. F (l_current (snd p)) \<and> J s"
  have after: "triple E (?Q pk) (case pk of (problem, k) \<Rightarrow>
       case problem of
         Some q \<Rightarrow> thenM (abandon (processes Z) pid) (ret (Inl q, k))
       | None \<Rightarrow> bindM (attempt (bindM (await (processes Z) pid) (\<lambda>(code, terminated).
             bindM read_now (\<lambda>t. observe (g code terminated t))))) (\<lambda>r. ret (r, k))) ?Q X" for pk pid g
  proof -
    obtain problem k where pk: "pk = (problem, k)" by (cases pk)
    have waited: "tries E J X (bindM (await (processes Z) pid) (\<lambda>(code, terminated).
        bindM read_now (\<lambda>t. observe (g code terminated t))))"
      by (intro tries_rules awaited)
    show ?thesis
      unfolding pk prod.case snd_conv
      by (rule triple_pure, cases problem)
         (auto intro!: triple_bind [OF triple_tried [OF tries_triple [OF waited]]] triple_then [OF abandoned] triple_ret
           split: sum.splits)
  qed
  have launch: "tries E J X (thenM (observe g) (bindM read_uuid (\<lambda>token.
        thenM (write_file (event_logs_dir e) SHAKE_LOG_NAME c) (bindM read_now (\<lambda>t.
        bindM (launch (processes Z) command (env' token)) (\<lambda>pid. ret (token, t, pid)))))))" for g c command env'
    by (intro tries_rules launched emptied)
  show ?thesis
    unfolding run_shake_def Let_def
    by (rule triple_bind [where R = "\<lambda>_. J"], rule triple_ask, assumption,
        rule triple_bind [OF triple_tried [OF tries_triple [OF launch]]])
       (auto simp: assms split: sum.splits intro!: triple_ret triple_bind [OF started_keeps [OF assms] after])
qed

lemma recorded_leads:
  assumes "F (l_current l)"
  shows "triple E J (native_recorded Z l x :: (process_table, json) io) R X"
  unfolding native_recorded_def Let_def named [OF assms]
proof (rule triple_guarded [OF update failed_with [OF assms]])
  show "triple E (\<lambda>s. F r \<and> J s) (logged Z (l\<lparr>l_current := r\<rparr>) ''native_execution'' ''INFO'' m
      (native_ended Z (l\<lparr>l_current := r\<rparr>) x) :: (process_table, json) io) R X" for r m
    by (rule triple_pure, rule logged_leads) (simp_all add: native_ended_leads CALCULATION_PHASES_def)
qed (simp_all add: UPDATED_FIELDS_def CALCULATION_PHASES_def)

lemma native_leads:
  assumes "F (l_current l)"
  shows "triple E J (native_execution Z l env) R X"
  unfolding native_execution_def
proof (rule phase_leads [OF assms], simp add: CALCULATION_PHASES_def, rule logged_leads)
  fix r assume r: "F r"
  let ?l = "l\<lparr>l_current := r\<rparr>"
  have l: "F (l_current ?l)" using r by simp
  have shutdown: "SHUTDOWN_MESSAGE \<noteq> []" by (simp add: SHUTDOWN_MESSAGE_def lit_def)
  have ph: "''native_execution'' \<in> set CALCULATION_PHASES" by (simp add: CALCULATION_PHASES_def)
  have inner: "triple E J (case p of (result, l1) \<Rightarrow> case result of
       Inl q \<Rightarrow>
         if exn_kind_of q = ServiceShutdownError
         then finish_failed Z l1 ''native_execution'' ''service_shutdown'' SHUTDOWN_MESSAGE None True None
         else fail_with Z l1 ''native_execution'' ''native_invocation_failed'' q
     | Inr x \<Rightarrow> (native_recorded Z (l1\<lparr>l_execution := Some x\<rparr>) x :: (process_table, json) io)) R X"
    if k: "F (l_current (snd p))" for p :: "(exn + execution_result) \<times> calculation_locals"
    using k failed_with [OF k ph] recorded_leads
      failed [OF k ph _ shutdown, where code = "''service_shutdown''" and given = None and log_it = True and problem = None]
    by (cases p; cases "fst p") simp_all
  note after = triple_pure [OF inner]
  show "triple E J (bindM (run_shake (processes Z) (python_executable Z) (event_id_of (l_current ?l)) env (on_started ?l) ?l)
      (\<lambda>(result, l1). case result of
       Inl q \<Rightarrow>
         if exn_kind_of q = ServiceShutdownError
         then finish_failed Z l1 ''native_execution'' ''service_shutdown'' SHUTDOWN_MESSAGE None True None
         else fail_with Z l1 ''native_execution'' ''native_invocation_failed'' q
     | Inr x \<Rightarrow> native_recorded Z (l1\<lparr>l_execution := Some x\<rparr>) x)) R X"
    unfolding named [OF l] by (rule triple_bind [OF shake_keeps [OF l] after])
qed (simp_all add: CALCULATION_PHASES_def)

lemma preparation_leads:
  assumes "F (l_current l)"
  shows "triple E J (calculation_preparation Z l env) R X"
proof -
  let ?p = "''calculation_preparation''"
  have ph: "?p \<in> set CALCULATION_PHASES" by (simp add: CALCULATION_PHASES_def)
  have fail: "triple E J (fail_with Z k ?p code q :: (process_table, json) io) R X"
    if "F (l_current k)" "code \<noteq> []" for k code q
    by (rule failed_with [OF that(1) ph that(2)])
  have named: "triple E J (bindM (ask printable) (\<lambda>f. logged Z k ?p ''INFO'' (m f) (native_execution Z k v))) R X"
    if "F (l_current k)" for k v m
    by (rule triple_bind [where R = "\<lambda>_. J"], rule triple_ask, assumption,
        rule logged_leads [OF that ph native_leads [OF that]])
  show ?thesis
    unfolding calculation_preparation_def Let_def
    by (intro phase_leads [OF assms ph] logged_leads warnings_lead
          triple_guarded [OF tries_triple [OF shake_log]] triple_guarded [OF tries_triple [OF native_context]]
          triple_guarded [OF tries_triple [OF profile]] fail named)
       (simp_all add: ph)
qed

text \<open>The whole function, once the record has been read back.\<close>

lemma prepared_leads:
  assumes "\<And>s current. J s \<Longrightarrow> current_promoted_record (cfg E) r s = Inr current \<Longrightarrow> F current"
    and "\<And>s q. J s \<Longrightarrow> current_promoted_record (cfg E) r s = Inl q \<Longrightarrow> X (Some q) s"
  shows "triple E J (execute_prepared Z r env) R X"
  unfolding execute_prepared_def
proof (rule triple_bind [where R = "\<lambda>current s. F current \<and> J s"], rule triple_observe)
  show "triple E (\<lambda>s. F current \<and> J s) (calculation_preparation Z (initial_locals current) env) R X"
    for current
    by (rule triple_pure, rule preparation_leads) (simp add: initial_locals_def)
qed (use assms in auto)

end

end
