(* ===== verification/Calculation_Outcomes.thy ===== *)
theory Calculation_Outcomes
  imports Calculation_Skeleton
begin

text \<open>
  What the two terminal writes of a calculation and the removal of its journal leave on disk, under
  any faults when they return, and that without faults they do return.
\<close>

section \<open>Terminal records on disk\<close>

definition status_holds :: "ustr \<Rightarrow> calculation_record \<Rightarrow> fsys \<Rightarrow> bool" where
  "status_holds e r s \<longleftrightarrow> entry_at (Events, [e]) STATUS_FILE s = Some (File (Json (record_to_dict r)))"

text \<open>A \<open>SUCCESS\<close> record with the evidence it stands for.\<close>

definition proven :: "env \<Rightarrow> ustr \<Rightarrow> calculation_record \<Rightarrow> fsys \<Rightarrow> bool" where
  "proven E e r s \<longleftrightarrow>
     (\<exists>x v ts. complete_evidence E e (sequence_of r) x v ts s
        \<and> r_native_outcome r = native_outcome_of (Some x) \<and> jget (r_timestamps r) ''completed_at'' = JStr ts)"

definition written :: "env \<Rightarrow> ustr \<Rightarrow> calculation_record \<Rightarrow> fsys \<Rightarrow> bool" where
  "written E e r s \<longleftrightarrow>
     status_holds e r s \<and> valid_record (cfg E) r \<and> event_id_of r = e
     \<and> (state_of r = Some FAILED \<or> state_of r = Some SUCCESS \<and> proven E e r s)"

definition ended_record :: "env \<Rightarrow> ustr \<Rightarrow> calculation_record \<Rightarrow> fsys \<Rightarrow> bool" where
  "ended_record E e r s \<longleftrightarrow> written E e r s \<and> entry_at (Events, [e]) TRANSACTION_FILE s = None"

definition ended_as :: "env \<Rightarrow> ustr \<Rightarrow> json \<Rightarrow> fsys \<Rightarrow> bool" where
  "ended_as E e st s \<longleftrightarrow>
     (\<exists>r. ended_record E e r s \<and> r_status r = st)"

lemma complete_evidence_cong:
  assumes "dir_at (Events, [e]) s = Some d" "dir_at (Events, [e]) s' = Some d'"
    and "\<And>m. m \<in> {MANIFEST_NAME, PROVENANCE_NAME, lit ''logs''} \<Longrightarrow> aget d' m = aget d m"
  shows "complete_evidence E e n x v ts s' = complete_evidence E e n x v ts s"
proof -
  have "dir_at (Events, [e, lit ''logs'']) u = (case aget du (lit ''logs'') of Some (Dir l) \<Rightarrow> Some l | _ \<Rightarrow> None)"
    if "dir_at (Events, [e]) u = Some du" for u du
    using that by (auto simp: dir_at_def split: option.splits node.splits)
  with assms show ?thesis
    by (simp add: complete_evidence_def json_at_def nonempty_file_def entry_at_def del: dir_at_simps)
qed

lemma not_tmp_evidence: "\<not> tmp_name MANIFEST_NAME" "\<not> tmp_name PROVENANCE_NAME" "\<not> tmp_name (lit ''logs'')"
  by (simp_all add: MANIFEST_NAME_def PROVENANCE_NAME_def tmp_name_lit)

lemma stored_elsewhere:
  "agree (stored r d) d' \<Longrightarrow> m \<noteq> STATUS_FILE \<Longrightarrow> \<not> tmp_name m \<Longrightarrow> aget d' m = aget d m"
  by (simp add: agree_def stored_def)

lemma written_stored:
  assumes "dir_at (Events, [e]) s0 = Some d" "dir_in (Events, [e]) s0 (agree (stored r d)) s"
  shows "status_holds e r s" "complete_evidence E e n x v ts s = complete_evidence E e n x v ts s0"
    "entry_at (Events, [e]) TRANSACTION_FILE s = entry_at (Events, [e]) TRANSACTION_FILE s0"
proof -
  obtain d' where d': "s = put_dir (Events, [e]) d' s0" "agree (stored r d) d'"
    using assms(2) by (blast elim: dir_inE)
  have at: "dir_at (Events, [e]) s = Some d'"
    using dir_at_put_dir [OF assms(1)] d'(1) by simp
  show "status_holds e r s"
    using agreeD [OF d'(2) not_tmp_status] at
    by (simp add: status_holds_def entry_at_def stored_def del: dir_at_simps)
  show "complete_evidence E e n x v ts s = complete_evidence E e n x v ts s0"
    by (rule complete_evidence_cong [OF assms(1) at]) (auto simp: not_tmp_evidence stored_elsewhere [OF d'(2)])
  show "entry_at (Events, [e]) TRANSACTION_FILE s = entry_at (Events, [e]) TRANSACTION_FILE s0"
    using stored_elsewhere [OF d'(2), of TRANSACTION_FILE] at assms(1)
    by (simp add: entry_at_def TRANSACTION_FILE_def tmp_name_lit STATUS_FILE_def lit_inject del: dir_at_simps)
qed

text \<open>A transition that returns has written the record it returns.\<close>

lemma triple_transition_writes:
  "triple E (\<lambda>s. s = s0) (transition_record_directory (k, [n]) target es ee args)
     (\<lambda>r' s. \<exists>d r now. dir_at (k, [n]) s0 = Some d \<and> transition_record now target args r = Inr r'
        \<and> valid_record (cfg E) r' \<and> (\<forall>x. ee = Some x \<longrightarrow> event_id_of r' = x) \<and> (\<forall>x. es = Some x \<longrightarrow> sequence_of r' = x)
        \<and> dir_in (k, [n]) s0 (agree (stored r' d)) s)
     (\<lambda>_ _. True)" (is "triple E _ _ ?Q _")
  unfolding transition_record_directory_def
proof (rule triple_bind)
  let ?A = "\<lambda>r d. dir_at (k, [n]) s0 = Some d \<and> (\<exists>c. aget d STATUS_FILE = Some (File c))"
  show "triple E (\<lambda>s. s = s0) (load_existing (k, [n]) es ee) (\<lambda>r s. (\<exists>d. ?A r d) \<and> s = s0) (\<lambda>_ _. True)"
    unfolding load_existing_def
    by (rule triple_observe)
       (auto simp: result_simps open_record_directory_def load_record_iff read_json_def open_regular_def entry_at_def
         split: option.splits node.splits content.splits)
  fix r
  have last: "triple E (\<lambda>s. s = s0) (thenM (replace_record (k, [n]) r' es ee) (ret r')) ?Q (\<lambda>_ _. True)"
    if d: "?A r d" and t: "transition_record now target args r = Inr r'" for d now r'
  proof (cases "validate_record (cfg E) r' es ee = Inr ()")
    case True
    show ?thesis
      by (rule triple_then [where R = "dir_in (k, [n]) s0 (agree (stored r' d))"], rule triple_weaken [OF triple_replace [OF _ _ True]])
         (use d t True in \<open>auto simp: validate_record_expected intro!: triple_ret simp del: dir_at_simps\<close>)
  next
    case False
    then obtain q where "validate_record (cfg E) r' es ee = Inl q" by (cases "validate_record (cfg E) r' es ee") auto
    then show ?thesis
      by (simp add: replace_record_def thenM_def bindM_def ask_def liftE_def reraise_def triple_def)
  qed
  have step: "triple E (\<lambda>s. s = s0) (bindM (liftE (transition_record now target args r)) (\<lambda>r'.
      thenM (replace_record (k, [n]) r' es ee) (ret r'))) ?Q (\<lambda>_ _. True)" if d: "?A r d" for d now
    by (rule triple_bind [where R = "\<lambda>r' s. transition_record now target args r = Inr r' \<and> s = s0"],
        rule triple_liftE, simp, simp, rule triple_pure, rule last [OF d], assumption)
  show "triple E (\<lambda>s. (\<exists>d. ?A r d) \<and> s = s0) (bindM read_now (\<lambda>now.
      bindM (liftE (transition_record now target args r)) (\<lambda>r'.
      thenM (replace_record (k, [n]) r' es ee) (ret r')))) ?Q (\<lambda>_ _. True)"
  proof (rule triple_pure)
    assume "\<exists>d. ?A r d"
    then obtain d where d: "?A r d" by blast
    show "triple E (\<lambda>s. s = s0) (bindM read_now (\<lambda>now.
      bindM (liftE (transition_record now target args r)) (\<lambda>r'.
      thenM (replace_record (k, [n]) r' es ee) (ret r')))) ?Q (\<lambda>_ _. True)"
      by (rule triple_bind [OF _ step [OF d]], rule triple_read_now)
  qed
qed

section \<open>The two finalizations\<close>

lemma success_written:
  "transition_record now SUCCESS (success_args x ts shared) r = Inr r' \<Longrightarrow>
    r_native_outcome r' = native_outcome_of (Some x) \<and> jget (r_timestamps r') ''completed_at'' = JStr ts"
  by (auto simp: transition_record_def success_args_def no_args_def result_simps Let_def split: option.splits)

lemma triple_accepted:
  assumes "\<And>w. fs w = s0 \<Longrightarrow> m E w = m' E w" "triple E (\<lambda>s. s = s0) m' Q X"
  shows "triple E (\<lambda>s. s = s0) m Q X"
  using assms by (simp add: triple_def)

lemma success_leaves:
  "triple E (\<lambda>s. s = s0) (finalize_success r x v ts)
     (\<lambda>r'. written E (event_id_of r) r') (\<lambda>_ _. True)"
proof (cases "success_evidence E r x v ts s0")
  case (Inl q)
  then show ?thesis by (simp add: triple_def finalize_success_refused)
next
  case (Inr cs)
  obtain current shared where "cs = (current, shared)" by (cases cs)
  with Inr have ev: "success_evidence E r x v ts s0 = Inr (current, shared)" by simp
  then have full: "complete_evidence E (event_id_of r) (sequence_of r) x v ts s0"
    by (simp add: success_evidence_Inr)
  show ?thesis
  proof (rule triple_accepted, rule finalize_success_accepted)
    show "success_evidence E r x v ts (fs w) = Inr (current, shared)" if "fs w = s0" for w :: "'b world"
      using ev that by simp
    show "triple E (\<lambda>s. s = s0) (transition_record_directory (Events, [event_id_of r]) SUCCESS
        (Some (sequence_of r)) (Some (event_id_of r)) (success_args x ts shared))
        (\<lambda>r'. written E (event_id_of r) r') (\<lambda>_ _. True)"
    proof (rule triple_weaken [OF triple_transition_writes])
      fix r' s
      assume "\<exists>d q now. dir_at (Events, [event_id_of r]) s0 = Some d
        \<and> transition_record now SUCCESS (success_args x ts shared) q = Inr r' \<and> valid_record (cfg E) r'
        \<and> (\<forall>x. Some (event_id_of r) = Some x \<longrightarrow> event_id_of r' = x)
        \<and> (\<forall>x. Some (sequence_of r) = Some x \<longrightarrow> sequence_of r' = x)
        \<and> dir_in (Events, [event_id_of r]) s0 (agree (stored r' d)) s"
      then obtain d q now where a: "dir_at (Events, [event_id_of r]) s0 = Some d"
        "transition_record now SUCCESS (success_args x ts shared) q = Inr r'" "valid_record (cfg E) r'"
        "event_id_of r' = event_id_of r" "sequence_of r' = sequence_of r"
        "dir_in (Events, [event_id_of r]) s0 (agree (stored r' d)) s" by blast
      have "complete_evidence E (event_id_of r) (sequence_of r') x v ts s"
        using written_stored(2) [OF a(1,6)] full a(5) by simp
      then show "written E (event_id_of r) r' s"
        using written_stored(1) [OF a(1,6)] a(3,4) success_written [OF a(2)] transition_state [OF a(2)]
        unfolding written_def proven_def by blast
    qed simp_all
  qed
qed

lemma failure_leaves:
  "triple E (\<lambda>s. s = s0) (finalize_failure r ts phase code message x secondary problem)
     (\<lambda>r'. written E (event_id_of r) r') (\<lambda>_ _. True)"
  unfolding finalize_failure_def
proof (rule triple_bind [where R = "\<lambda>cs s. event_id_of (fst cs) = event_id_of r \<and> s = s0"])
  show "triple E (\<lambda>s. s = s0) (observe (\<lambda>E s.
        bindE (require_matching_current (cfg E) r s) (\<lambda>current.
        bindE (guardE (phase \<noteq> [] \<and> code \<noteq> [] \<and> message \<noteq> []) ValueError
                 ''phase, code and message must be nonempty strings'') (\<lambda>_.
        bindE (shared_evidence_paths E (event_id_of current) False s) (\<lambda>shared.
        Inr (current, shared))))))
     (\<lambda>cs s. event_id_of (fst cs) = event_id_of r \<and> s = s0) (\<lambda>_ _. True)"
    by (rule triple_observe) (auto simp: result_simps require_matching_current_Inr)
  fix cs :: "calculation_record \<times> json"
  obtain current shared where cs: "cs = (current, shared)" by (cases cs)
  let ?args = "finalize_failure_args x ts (failure_fact phase code message secondary problem) shared"
  show "triple E (\<lambda>s. event_id_of (fst cs) = event_id_of r \<and> s = s0) (case cs of (current, shared) \<Rightarrow>
      transition_current_record_terminal (event_id_of current) (sequence_of current) FAILED
        (finalize_failure_args x ts (failure_fact phase code message secondary problem) shared))
      (\<lambda>r'. written E (event_id_of r) r') (\<lambda>_ _. True)"
    unfolding cs prod.case fst_conv
  proof (rule triple_pure)
    assume e: "event_id_of current = event_id_of r"
    have "triple E (\<lambda>s. s = s0) (transition_record_directory (Events, [event_id_of r]) FAILED
        (Some (sequence_of current)) (Some (event_id_of r)) ?args)
        (\<lambda>r'. written E (event_id_of r) r') (\<lambda>_ _. True)"
      by (rule triple_weaken [OF triple_transition_writes])
         (auto simp: written_def written_stored(1) dest: transition_state simp del: dir_at_simps)
    then show "triple E (\<lambda>s. s = s0) (transition_current_record_terminal (event_id_of current)
        (sequence_of current) FAILED ?args) (\<lambda>r'. written E (event_id_of r) r') (\<lambda>_ _. True)"
      unfolding transition_current_record_terminal_def event_service_dir_def e
      by (intro triple_bind [where R = "\<lambda>_ s. s = s0"] triple_then [where R = "\<lambda>s. s = s0"] triple_liftE triple_check) auto
  qed
qed

section \<open>Closing the transaction\<close>

lemma written_dir: "written E e r s \<Longrightarrow> \<exists>d. dir_at (Events, [e]) s = Some d \<and> aget d STATUS_FILE = Some (File (Json (record_to_dict r)))"
  by (auto simp: written_def status_holds_def entry_at_def simp del: dir_at_simps split: option.splits)

lemma written_read:
  assumes "written E e r s"
  shows "read_current_record (cfg E) e s = Inr (Some r)" "valid_event_id e"
    "r_status r \<in> {jstr ''SUCCESS'', jstr ''FAILED''}"
proof -
  obtain d where d: "dir_at (Events, [e]) s = Some d" using written_dir [OF assms] by blast
  have r: "valid_record (cfg E) r" "event_id_of r = e" using assms by (simp_all add: written_def)
  show ev: "valid_event_id e" using valid_record_identity(2) [OF r(1)] r(2) by simp
  have "load_record (cfg E) (Events, [e]) None (Some e) s = Inr r"
    by (rule load_stored) (use assms in \<open>auto simp: written_def status_holds_def\<close>)
  then show "read_current_record (cfg E) e s = Inr (Some r)"
    using ev by (simp add: read_current_record_def read_record_directory_def event_service_dir_def
        open_record_dir [OF d] validate_event_id_Inr)
  show "r_status r \<in> {jstr ''SUCCESS'', jstr ''FAILED''}"
    using assms by (auto simp: written_def state_of_def parse_state_Some)
qed

lemma written_removed:
  assumes "written E e r s"
  shows "written E e r (update_at (Events, [e]) (adel TRANSACTION_FILE) s)"
    "entry_at (Events, [e]) TRANSACTION_FILE (update_at (Events, [e]) (adel TRANSACTION_FILE) s) = None"
proof -
  obtain d where d: "dir_at (Events, [e]) s = Some d" using written_dir [OF assms] by blast
  let ?s = "update_at (Events, [e]) (adel TRANSACTION_FILE) s"
  note at = dir_at_update_at [OF d, of "adel TRANSACTION_FILE"]
  have "complete_evidence E e n x v ts ?s = complete_evidence E e n x v ts s" for n x v ts
    by (rule complete_evidence_cong [OF d at])
       (auto simp: TRANSACTION_FILE_def MANIFEST_NAME_def PROVENANCE_NAME_def lit_inject)
  moreover have "entry_at (Events, [e]) STATUS_FILE ?s = entry_at (Events, [e]) STATUS_FILE s"
    using at d by (simp add: entry_at_def del: dir_at_simps update_at_simps)
  ultimately show "written E e r ?s"
    using assms by (simp add: written_def status_holds_def proven_def)
  show "entry_at (Events, [e]) TRANSACTION_FILE ?s = None"
    using at by (simp add: entry_at_def del: dir_at_simps update_at_simps)
qed

lemma written_construct: "written E e r s \<Longrightarrow> read_json (Events, [e]) STATUS_FILE RecalculationError s = Inr (record_to_dict r)"
  by (simp add: written_def status_holds_def read_json_def open_regular_def)

lemma remove_leaves:
  assumes "written E e r s0" "entry_at (Events, [e]) TRANSACTION_FILE s0 = Some (File c)"
  shows "triple E (\<lambda>s. s = s0) (remove_journal (Events, [e])) (\<lambda>_. ended_record E e r) (\<lambda>_ s. \<not> quiet E)"
proof -
  have ended: "ended_record E e r (update_at (Events, [e]) (adel TRANSACTION_FILE) s0)"
    using written_removed [OF assms(1)] by (simp add: ended_record_def)
  have un: "triple E (\<lambda>s. s = s0) (unlink (Events, [e]) TRANSACTION_FILE) (\<lambda>_. ended_record E e r)
      (\<lambda>q s. \<not> quiet E \<and> (\<forall>x. q = Some x \<longrightarrow> \<not> is_not_found x))"
    unfolding unlink_def
    by (rule triple_sys) (use ended assms(2) in \<open>auto simp: unlink_effect_def injected_def is_not_found_def\<close>)
  have caught: "triple E (\<lambda>s. s = s0) (catchM (thenM (unlink (Events, [e]) TRANSACTION_FILE) (ret True))
      (\<lambda>q. if is_not_found q then ret False else reraise q)) (\<lambda>_. ended_record E e r) (\<lambda>_ s. \<not> quiet E)"
  proof (rule triple_catch [where R = "\<lambda>q s. \<not> quiet E \<and> \<not> is_not_found q"])
    show "triple E (\<lambda>s. s = s0) (thenM (unlink (Events, [e]) TRANSACTION_FILE) (ret True))
        (\<lambda>_. ended_record E e r)
        (\<lambda>q. case q of None \<Rightarrow> \<lambda>s. \<not> quiet E | Some q' \<Rightarrow> \<lambda>s. \<not> quiet E \<and> \<not> is_not_found q')"
      by (rule triple_then [OF triple_weaken [OF un] triple_ret]) (auto split: option.splits)
    show "triple E (\<lambda>s. \<not> quiet E \<and> \<not> is_not_found q) (if is_not_found q then ret False else reraise q)
        (\<lambda>_. ended_record E e r) (\<lambda>_ s. \<not> quiet E)" for q
      by (cases "is_not_found q") (simp_all add: triple_reraise, simp add: triple_def)
  qed
  show ?thesis
    unfolding remove_journal_def
    by (rule triple_bind [OF caught], rule triple_when, rule triple_fsync) auto
qed

definition closable :: "settings \<Rightarrow> ustr \<Rightarrow> calculation_record \<Rightarrow> fsys \<Rightarrow> bool" where
  "closable c e r s \<longleftrightarrow>
     (\<exists>j. entry_at (Events, [e]) TRANSACTION_FILE s = Some (File (Json (journal_to_json j))) \<and> journal_ok c j
        \<and> j_completed j = CHECKPOINTS \<and> j_recovery_failure j = JNull \<and> \<not> j_candidate_removal j
        \<and> validate_journal_identity j r = Inr ())"

lemma triple_same:
  assumes "\<And>x. f E s0 = Inr x \<Longrightarrow> triple E (\<lambda>s. s = s0) (k x) Q X" "\<And>q. f E s0 = Inl q \<Longrightarrow> X (Some q) s0"
  shows "triple E (\<lambda>s. s = s0) (bindM (observe f) k) Q X"
  using assms by (auto simp: triple_def bindM_def observe_def split: sum.splits)

lemma triple_known:
  "f E s0 = Inr z \<Longrightarrow> triple E (\<lambda>s. s = s0) (k z) Q X \<Longrightarrow> triple E (\<lambda>s. s = s0) (bindM (observe f) k) Q X"
  by (rule triple_same) auto

lemma triple_known_then:
  "f E s0 = Inr z \<Longrightarrow> triple E (\<lambda>s. s = s0) m Q X \<Longrightarrow> triple E (\<lambda>s. s = s0) (thenM (observe f) m) Q X"
  unfolding thenM_def by (rule triple_known)

lemma triple_lifted:
  "r = Inr z \<Longrightarrow> triple E P (k z) Q X \<Longrightarrow> triple E P (bindM (liftE r) k) Q X"
  by (simp add: triple_def bindM_def liftE_def ret_def)

lemma closing_leaves:
  assumes w: "written E e r s0"
    and X: "(\<forall>q s. X q s) \<or> closable (cfg E) e r s0 \<and> (\<forall>q s. \<not> quiet E \<longrightarrow> X q s)"
  shows "triple E (\<lambda>s. s = s0) (finalize_transaction e) (\<lambda>_. ended_record E e r) X"
proof -
  let ?p = "(Events, [e])" and ?t = "\<lambda>m. triple E (\<lambda>s. s = s0) m (\<lambda>_. ended_record E e r) X"
  note rd = written_read [OF w]
  have removed: "?t (thenM (remove_journal ?p) (ret True))" if "entry_at ?p TRANSACTION_FILE s0 = Some (File c)" for c
    by (rule triple_then [OF triple_weaken [OF remove_leaves [OF w that]] triple_ret]) (use X in auto)
  have checked: "?t (thenM (liftE (validate_journal_identity j r))
         (thenM (check (j_completed j = CHECKPOINTS) RecalculationError
                   ''transaction journal is not fully completed'')
         (thenM (check (j_recovery_failure j = JNull) RecalculationError
                   ''transaction journal contains recovery failure evidence'')
         (thenM (check (\<not> j_candidate_removal j) RecalculationError
                   ''transaction journal contains recovery removal intent'')
         (thenM (remove_journal ?p) (ret True))))))"
    if j: "load_journal (cfg E) ?p s0 = Inr j" for j
  proof -
    obtain c where c: "entry_at ?p TRANSACTION_FILE s0 = Some (File c)"
      using j by (auto simp: load_journal_def read_json_def open_regular_def result_simps simp del: dir_at_simps
          split: option.splits node.splits)
    have ok: "(\<forall>q s. X q s) \<or> (\<forall>q s. \<not> quiet E \<longrightarrow> X q s) \<and> j_completed j = CHECKPOINTS
        \<and> j_recovery_failure j = JNull \<and> \<not> j_candidate_removal j \<and> validate_journal_identity j r = Inr ()"
      using X j by (auto simp: closable_def load_journal_round_trip)
    show ?thesis
      by (intro triple_then [where R = "\<lambda>s. s = s0"] triple_liftE triple_check removed [OF c]) (use ok in auto)
  qed
  have present: "?t (bindM (observe (\<lambda>E. load_journal (cfg E) ?p)) (\<lambda>j.
          thenM (liftE (validate_journal_identity j r))
         (thenM (check (j_completed j = CHECKPOINTS) RecalculationError
                   ''transaction journal is not fully completed'')
         (thenM (check (j_recovery_failure j = JNull) RecalculationError
                   ''transaction journal contains recovery failure evidence'')
         (thenM (check (\<not> j_candidate_removal j) RecalculationError
                   ''transaction journal contains recovery removal intent'')
         (thenM (remove_journal ?p) (ret True)))))))"
    by (rule triple_same, rule checked) (use X in \<open>auto simp: closable_def load_journal_round_trip\<close>)
  have absent: "?t (ret False)" if "entry_at ?p TRANSACTION_FILE s0 = None"
    using that w by (intro triple_ret) (auto simp: ended_record_def)
  show ?thesis
    unfolding finalize_transaction_def Let_def event_service_dir_def revalidate_status_def entry_exists_def
    by (rule triple_lifted, simp add: rd(2), rule triple_known [where z = r], use rd(1,3) in \<open>force simp: guardE_def bindE_def\<close>)
       (rule triple_known_then [where z = "()"], simp add: written_construct [OF w] guardE_def bindE_def, rule triple_known, rule refl,
        use absent present in \<open>cases "entry_at ?p TRANSACTION_FILE s0"; simp\<close>)
qed

section \<open>A promoted record without faults\<close>

text \<open>
  What the preparation hands to the calculation, and every step before the terminal write keeps: a
  valid running record of the event with this sequence, and its completed journal beside it.
\<close>

definition calculating :: "settings \<Rightarrow> ustr \<Rightarrow> int \<Rightarrow> fsys \<Rightarrow> bool" where
  "calculating c e n s \<longleftrightarrow>
     (\<exists>r. status_holds e r s \<and> valid_record c r \<and> state_of r = Some RUNNING \<and> event_id_of r = e
        \<and> sequence_of r = n \<and> closable c e r s)"

definition promoted :: "ustr \<Rightarrow> int \<Rightarrow> calculation_record \<Rightarrow> bool" where
  "promoted e n r \<longleftrightarrow> event_id_of r = e \<and> sequence_of r = n \<and> r_status r = jstr ''RUNNING''"

lemma calculatingE:
  assumes "calculating c e n s"
  obtains r d where "dir_at (Events, [e]) s = Some d" "aget d STATUS_FILE = Some (File (Json (record_to_dict r)))"
    "valid_record c r" "state_of r = Some RUNNING" "event_id_of r = e" "sequence_of r = n" "closable c e r s"
    "valid_event_id e" "load_record c (Events, [e]) None (Some e) s = Inr r"
    "read_current_record c e s = Inr (Some r)"
proof -
  obtain r where r: "status_holds e r s" "valid_record c r" "state_of r = Some RUNNING" "event_id_of r = e"
      "sequence_of r = n" "closable c e r s"
    using assms by (auto simp: calculating_def)
  obtain d where d: "dir_at (Events, [e]) s = Some d" "aget d STATUS_FILE = Some (File (Json (record_to_dict r)))"
    using r(1) by (auto simp: status_holds_def entry_at_def simp del: dir_at_simps split: option.splits)
  have ev: "valid_event_id e" using valid_record_identity(2) [OF r(2)] r(4) by simp
  have load: "load_record c (Events, [e]) None (Some e) s = Inr r"
    by (rule load_stored) (use r in \<open>auto simp: status_holds_def\<close>)
  then have "read_current_record c e s = Inr (Some r)"
    using ev by (simp add: read_current_record_def read_record_directory_def event_service_dir_def
        open_record_dir [OF d(1)] validate_event_id_Inr)
  with r d ev load that show thesis by blast
qed

lemma closable_stored:
  assumes "dir_at (Events, [e]) s0 = Some d" "dir_in (Events, [e]) s0 (agree (stored r' d)) s"
    and "closable c e r s0" "same_identity r r'"
  shows "closable c e r' s"
  using assms(3,4) written_stored(3) [OF assms(1,2)]
  by (simp add: closable_def validate_journal_identity_def same_identity_def)

lemma set_field_updated:
  assumes "name \<in> set UPDATED_FIELDS"
  shows "\<exists>r'. set_field name v r = Some r' \<and> same_identity r r' \<and> r_status r' = r_status r"
proof -
  consider "name = ''progress''" | "name = ''timestamps''" | "name = ''native_outcome''"
    using assms by (auto simp: UPDATED_FIELDS_def)
  then show ?thesis by cases (simp_all add: same_identity_def)
qed

declare set_field.simps [simp del]

lemma apply_changes_updated:
  assumes "set (map fst changes) \<subseteq> set UPDATED_FIELDS"
  shows "\<exists>r'. apply_changes changes r = Inr r' \<and> same_identity r r' \<and> r_status r' = r_status r"
  using assms
proof (induction changes arbitrary: r)
  case Nil
  then show ?case by (simp add: same_identity_def)
next
  case (Cons ch changes)
  obtain name v where ch: "ch = (name, v)" by (cases ch)
  with Cons.prems obtain r1 where r1: "set_field name v r = Some r1" "same_identity r r1" "r_status r1 = r_status r"
    using set_field_updated [of name v r] by auto
  from Cons.IH [of r1] Cons.prems obtain r' where "apply_changes changes r1 = Inr r'" "same_identity r1 r'"
      "r_status r' = r_status r1" by auto
  with r1 ch show ?case by (simp add: same_identity_def)
qed

lemma update_keeps:
  assumes quiet: "quiet E" and names: "set (map fst changes) \<subseteq> set UPDATED_FIELDS"
  shows "triple E (calculating (cfg E) e n) (update_current_record e changes)
     (\<lambda>r s. promoted e n r \<and> calculating (cfg E) e n s) (exits (calculating (cfg E) e n) (\<lambda>_ _. False))"
proof (rule triple_fixed)
  fix s0 assume J: "calculating (cfg E) e n s0"
  then obtain r d where r: "dir_at (Events, [e]) s0 = Some d" "aget d STATUS_FILE = Some (File (Json (record_to_dict r)))"
    "valid_record (cfg E) r" "state_of r = Some RUNNING" "event_id_of r = e" "sequence_of r = n" "closable (cfg E) e r s0"
    "valid_event_id e" by (rule calculatingE)
  obtain r' where r': "apply_changes changes r = Inr r'" "same_identity r r'" "r_status r' = r_status r"
    using apply_changes_updated [OF names] by blast
  have allowed: "list_all (\<lambda>(name, v). name \<notin> set FORBIDDEN_CHANGES) changes"
    using names by (auto simp: list_all_iff UPDATED_FIELDS_def FORBIDDEN_CHANGES_def)
  have st: "state_of r' = Some RUNNING" "event_id_of r' = e" "sequence_of r' = n"
    using r(4-6) r'(3) same_identityD [OF r'(2)] by (simp_all add: state_of_def)
  have last: "triple E (\<lambda>s. s = s0) (thenM (replace_record (Events, [e]) r' None (Some e)) (ret r'))
     (\<lambda>r s. promoted e n r \<and> calculating (cfg E) e n s) (exits (calculating (cfg E) e n) (\<lambda>_ _. False))"
  proof (cases "validate_record (cfg E) r' None (Some e) = Inr ()")
    case True
    then have valid: "valid_record (cfg E) r'" by (simp add: validate_record_expected)
    have "calculating (cfg E) e n s" if "dir_in (Events, [e]) s0 (agree (stored r' d)) s" for s
      using written_stored(1) [OF r(1) that] valid st closable_stored [OF r(1) that r(7) r'(2)]
      by (auto simp: calculating_def)
    moreover have "promoted e n r'" using st by (simp add: promoted_def state_of_def parse_state_Some)
    ultimately show ?thesis
      by (intro triple_then [where R = "dir_in (Events, [e]) s0 (agree (stored r' d))"]
            triple_weaken [OF triple_replace [OF r(1) _ True]] triple_ret)
         (use quiet r(2) in auto)
  next
    case False
    then obtain q where "validate_record (cfg E) r' None (Some e) = Inl q"
      by (cases "validate_record (cfg E) r' None (Some e)") auto
    with J show ?thesis
      by (simp add: replace_record_def thenM_def bindM_def ask_def liftE_def reraise_def triple_def)
  qed
  show "triple E (\<lambda>s. s = s0) (update_current_record e changes)
     (\<lambda>r s. promoted e n r \<and> calculating (cfg E) e n s) (exits (calculating (cfg E) e n) (\<lambda>_ _. False))"
    unfolding update_current_record_def update_record_directory_def event_service_dir_def
    by (rule triple_lifted, rule validate_event_id_JStr [OF r(8)],
        rule triple_then [where R = "\<lambda>s. s = s0"], rule triple_check, assumption, use allowed in simp,
        rule triple_bind [OF triple_load [OF r(1-3)]], simp, use r(5) in simp,
        rule triple_pure, simp, rule triple_lifted [OF r'(1)], rule last)
qed

lemma reading_valid: "clock_valid E \<Longrightarrow> reading E t \<Longrightarrow> valid_ts (JStr t)"
  by (auto simp: reading_def clock_valid_def)

lemma matching_promoted:
  assumes "promoted e n r" "event_id_of r0 = e" "sequence_of r0 = n" "state_of r0 = Some RUNNING"
    "read_current_record c e s = Inr (Some r0)"
  shows "require_matching_current c r s = Inr r0"
  using assms by (simp add: require_matching_current_Inr promoted_def state_of_def parse_state_Some)

text \<open>The terminal record that a calculation may still close.\<close>

definition closing :: "env \<Rightarrow> ustr \<Rightarrow> int \<Rightarrow> calculation_record \<Rightarrow> fsys \<Rightarrow> bool" where
  "closing E e n r s \<longleftrightarrow> written E e r s \<and> sequence_of r = n \<and> closable (cfg E) e r s"

lemma failure_step:
  assumes r: "valid_record c r" "state_of r = Some RUNNING" and t: "valid_ts (JStr t)"
    and phase: "phase \<in> set CALCULATION_PHASES"
    and sp: "validate_shared_paths c (r\<lparr>r_shared_paths := shared\<rparr>) = Inr ()"
  shows "\<exists>r'. transition_record now FAILED (finalize_failure_args x t
       (failure_fact (lit phase) code message secondary problem) shared) r = Inr r' \<and> valid_record c r'"
proof -
  let ?args = "finalize_failure_args x t (failure_fact (lit phase) code message secondary problem) shared"
  have ph: "jstr phase \<in> set (map jstr OPERATIONAL_PHASES)"
    using phase by (auto simp: CALCULATION_PHASES_def OPERATIONAL_PHASES_def)
  have "failure_ok (failure_fact (lit phase) code message secondary problem)"
    using ph by (simp add: failure_ok_def failure_fact_def del: set_map)
  moreover have "native_outcome_of x = JNull \<or> is_dict (native_outcome_of x)"
    by (cases x) (simp_all add: native_outcome_of_def)
  ultimately have "\<exists>r'. transition_record now FAILED ?args r = Inr r' \<and> valid_record c r'
      \<and> state_of r' = Some FAILED \<and> same_identity r r'"
    by (intro fail_transition [OF r, where f = "failure_fact (lit phase) code message secondary problem"
          and so = service_failed])
       (simp_all add: finalize_failure_args_def no_args_def service_failed_def t sp)
  then show ?thesis by blast
qed

lemma failure_returns:
  assumes quiet: "quiet E" and clk: "clock_valid E" and r: "promoted e n r" and t: "reading E t"
    and phase: "phase \<in> set CALCULATION_PHASES" and ne: "code \<noteq> []" "message \<noteq> []"
  shows "triple E (calculating (cfg E) e n) (finalize_failure r t (lit phase) (lit code) message x secondary problem)
     (closing E e n) (\<lambda>_ _. False)"
proof (rule triple_fixed)
  fix s0 assume "calculating (cfg E) e n s0"
  then obtain r0 d where r0: "dir_at (Events, [e]) s0 = Some d" "aget d STATUS_FILE = Some (File (Json (record_to_dict r0)))"
    "valid_record (cfg E) r0" "state_of r0 = Some RUNNING" "event_id_of r0 = e" "sequence_of r0 = n" "closable (cfg E) e r0 s0"
    "valid_event_id e" "load_record (cfg E) (Events, [e]) None (Some e) s0 = Inr r0"
    "read_current_record (cfg E) e s0 = Inr (Some r0)" by (rule calculatingE)
  obtain shared where shared: "shared_evidence_paths E e False s0 = Inr shared"
    using r0(8) by (auto simp: shared_evidence_paths_def shared_paths_for_def validate_event_id_Inr)
  have "r0\<lparr>r_event_id := JStr e, r_shared_paths := shared\<rparr> = r0\<lparr>r_shared_paths := shared\<rparr>"
    using valid_record_identity(1) [OF r0(3)] r0(5) by (cases r0) simp
  then have sp: "validate_shared_paths (cfg E) (r0\<lparr>r_shared_paths := shared\<rparr>) = Inr ()"
    using shared_evidence_paths_Inr(1) [OF shared, of r0] by simp
  let ?args = "finalize_failure_args x t (failure_fact (lit phase) (lit code) message secondary problem) shared"
  have run: "triple E (\<lambda>s. s = s0) (transition_record_directory (Events, [e]) FAILED (Some n) (Some e) ?args)
      (closing E e n) (\<lambda>_ _. False)"
  proof (rule triple_weaken [OF triple_transition [OF r0(1-3) _ _ clk, where R = "\<lambda>_. True"]])
    show "\<exists>rec'. transition_record now FAILED ?args r0 = Inr rec' \<and> valid_record (cfg E) rec' \<and> True" for now
      using failure_step [OF r0(3,4) reading_valid [OF clk t] phase sp] by simp
    show "closing E e n r' s"
      if "valid_record (cfg E) r' \<and> state_of r' = Some FAILED \<and> same_identity r0 r' \<and> True
          \<and> dir_in (Events, [e]) s0 (agree (stored r' d)) s" for r' s
      using that written_stored(1) [OF r0(1), of r' s] closable_stored [OF r0(1) _ r0(7), of r' s]
        same_identityD [of r0 r'] r0(5,6)
      by (simp add: closing_def written_def)
  qed (use quiet r0(5,6) in auto)
  have n: "1 \<le> n" using valid_record_identity(4) [OF r0(3)] r0(6) by simp
  have named: "event_id_of r = e" using r by (simp add: promoted_def)
  have "lit phase \<noteq> []" "lit code \<noteq> []"
    using phase ne(1) by (auto simp: CALCULATION_PHASES_def lit_def)
  with ne(2) show "triple E (\<lambda>s. s = s0) (finalize_failure r t (lit phase) (lit code) message x secondary problem)
     (closing E e n) (\<lambda>_ _. False)"
    unfolding finalize_failure_def
    by (intro triple_known [where z = "(r0, shared)"])
       (simp_all add: matching_promoted [OF r r0(5,6,4,10)] named r0(5,6,8) shared guardE_def bindE_def n
         run [unfolded triple_def]
         transition_current_record_terminal_def event_service_dir_def liftE_def check_def thenM_def
         bindM_def ret_def triple_def)
qed

lemma success_returns:
  assumes quiet: "quiet E" and clk: "clock_valid E" and r: "promoted e n r" and t: "reading E t"
  shows "triple E (calculating (cfg E) e n) (finalize_success r x v t) (closing E e n)
     (exits (calculating (cfg E) e n) (\<lambda>_ _. False))"
proof (rule triple_fixed)
  fix s0 assume J: "calculating (cfg E) e n s0"
  then obtain r0 d where r0: "dir_at (Events, [e]) s0 = Some d" "aget d STATUS_FILE = Some (File (Json (record_to_dict r0)))"
    "valid_record (cfg E) r0" "state_of r0 = Some RUNNING" "event_id_of r0 = e" "sequence_of r0 = n" "closable (cfg E) e r0 s0"
    "valid_event_id e" "load_record (cfg E) (Events, [e]) None (Some e) s0 = Inr r0"
    "read_current_record (cfg E) e s0 = Inr (Some r0)" by (rule calculatingE)
  have named: "event_id_of r = e" "sequence_of r = n" using r by (simp_all add: promoted_def)
  show "triple E (\<lambda>s. s = s0) (finalize_success r x v t) (closing E e n)
     (exits (calculating (cfg E) e n) (\<lambda>_ _. False))"
  proof (cases "success_evidence E r x v t s0")
    case (Inl q)
    with J show ?thesis by (simp add: triple_def finalize_success_refused)
  next
    case (Inr cs)
    obtain current shared where "cs = (current, shared)" by (cases cs)
    with Inr have ev: "success_evidence E r x v t s0 = Inr (current, shared)" by simp
    then have shared: "shared_evidence_paths E e True s0 = Inr shared"
      by (simp add: success_evidence_Inr named)
    have "r0\<lparr>r_event_id := JStr e, r_shared_paths := shared\<rparr> = r0\<lparr>r_shared_paths := shared\<rparr>"
      using valid_record_identity(1) [OF r0(3)] r0(5) by (cases r0) simp
    then have sp: "validate_shared_paths (cfg E) (r0\<lparr>r_shared_paths := shared\<rparr>) = Inr ()"
        "all_evidence_paths (cfg E) e shared"
      using shared_evidence_paths_Inr(1) [OF shared, of r0] shared_evidence_paths_Inr(2) [OF shared] by simp_all
    have returns: "triple E (\<lambda>s. s = s0) (transition_record_directory (Events, [e]) SUCCESS (Some n) (Some e)
        (success_args x t shared))
        (\<lambda>r' s. valid_record (cfg E) r' \<and> state_of r' = Some SUCCESS \<and> same_identity r0 r' \<and> True
           \<and> dir_in (Events, [e]) s0 (agree (stored r' d)) s) (\<lambda>_ _. False)"
      by (rule triple_weaken [OF triple_transition [OF r0(1-3) _ _ clk, where R = "\<lambda>_. True"]])
         (use quiet r0(5,6) success_step [OF r0(3,4) reading_valid [OF clk t] sp] in fastforce)+
    have "triple E (\<lambda>s. s = s0) (finalize_success r x v t)
        (\<lambda>r' s. valid_record (cfg E) r' \<and> state_of r' = Some SUCCESS \<and> same_identity r0 r' \<and> True
           \<and> dir_in (Events, [e]) s0 (agree (stored r' d)) s) (\<lambda>_ _. False)"
      using returns by (simp add: triple_def finalize_success_accepted ev named)
    from triple_conj [OF this success_leaves [of E s0 r x v t]] show ?thesis
      by (rule triple_weaken)
         (use closable_stored [OF r0(1) _ r0(7)] r0(6) named in \<open>auto simp: closing_def dest: same_identityD\<close>)
  qed
qed

end
