(* ===== verification/Calculation_Properties.thy ===== *)
theory Calculation_Properties
  imports Calculation_Outcomes Samples
begin

text \<open>
  The whole calculation: \<open>calculation_run\<close> holds of the model's own operations, once for the outcome
  under any faults, and once for a store without faults.
\<close>

section \<open>Any faults\<close>

lemma tries_anything: "tries E (\<lambda>_. True) (\<lambda>_ _. True) m"
  by (auto simp: tries_def triple_def exits_def split: prod.splits outcome.splits)

lemma exits_anything: "exits (\<lambda>_. True) (\<lambda>_ _. True) = (\<lambda>_ _. True)"
  by (auto simp: exits_def fun_eq_iff split: option.splits)

lemma update_names:
  "triple E (\<lambda>_. True) (update_current_record e changes) (\<lambda>r _. event_id_of r = e) (\<lambda>_ _. True)"
proof -
  have last: "triple E (\<lambda>_. True) (thenM (replace_record p r' None (Some e)) (ret r')) (\<lambda>r _. event_id_of r = e)
      (\<lambda>_ _. True)" for p r'
  proof (cases "validate_record (cfg E) r' None (Some e) = Inr ()")
    case True
    then have "event_id_of r' = e" by (simp add: validate_record_expected)
    then show ?thesis
      by (auto simp: triple_def thenM_def bindM_def ret_def split: prod.splits outcome.splits)
  next
    case False
    then obtain q where "validate_record (cfg E) r' None (Some e) = Inl q"
      by (cases "validate_record (cfg E) r' None (Some e)") auto
    then show ?thesis
      by (simp add: replace_record_def thenM_def bindM_def ask_def liftE_def reraise_def triple_def)
  qed
  show ?thesis
    unfolding update_current_record_def update_record_directory_def load_existing_def
    by (rule triple_bind [where R = "\<lambda>_ _. True"], rule triple_liftE, simp, simp,
        rule triple_then [where R = "\<lambda>_. True"], rule triple_check, simp, simp,
        rule triple_bind [where R = "\<lambda>_ _. True"], rule triple_observe, simp, simp,
        rule triple_bind [where R = "\<lambda>_ _. True"], rule triple_liftE, simp, simp, rule last)
qed

interpretation outcome: calculation_run E Z e "\<lambda>r. event_id_of r = e" "\<lambda>_. True" "\<lambda>_ _. True" "written E e"
  "ended_as E e" for E Z e
proof (unfold_locales, goal_cases)
  case (7 changes)
  show ?case
    by (rule triple_weaken [OF update_names]) (simp_all add: exits_anything)
next
  case (13 r t phase code message ex secondary problem)
  show ?case
    unfolding 13(1) [symmetric] by (rule triple_fixed) (rule failure_leaves)
next
  case (14 r t x v)
  show ?case
    unfolding exits_anything 14(1) [symmetric] by (rule triple_fixed) (rule success_leaves)
next
  case (15 r')
  show ?case
    by (rule triple_fixed, rule triple_weaken [OF closing_leaves]) (auto simp: ended_as_def)
next
  case (11 pid)
  then show ?case by (auto simp: triple_def split: prod.splits outcome.splits)
qed (simp_all add: tries_anything)

text \<open>
  C35: a calculation that returns has ended. Whatever the helper programs, the native process and
  the libraries do to the store, and whatever system call fails, when \<open>execute_calculation\<close> returns a
  state the current record of its event on disk is valid and terminal with that very state, and its
  transaction journal is gone; and if the state is \<open>SUCCESS\<close>, complete evidence is on disk: a native
  exit code 0, a complete product manifest and a provenance of this calculation with the record's
  completion time, and two nonempty logs.
\<close>

theorem returned_calculation_has_ended:
  "triple E (\<lambda>_. True) (execute_calculation Z r environment)
     (\<lambda>st s. \<exists>r'. status_holds (event_id_of r) r' s \<and> valid_record (cfg E) r' \<and> event_id_of r' = event_id_of r
        \<and> r_status r' = st \<and> entry_at (Events, [event_id_of r]) TRANSACTION_FILE s = None
        \<and> (state_of r' = Some FAILED
           \<or> state_of r' = Some SUCCESS
             \<and> (\<exists>x v ts. complete_evidence E (event_id_of r) (sequence_of r') x v ts s
                  \<and> r_native_outcome r' = native_outcome_of (Some x)
                  \<and> jget (r_timestamps r') ''completed_at'' = JStr ts)))
     (\<lambda>_ _. True)"
proof -
  have "triple E (\<lambda>_. True) (execute_prepared Z r environment) (ended_as E (event_id_of r)) (\<lambda>_ _. True)"
    by (rule outcome.prepared_leads) (auto simp: current_promoted_record_def result_simps split: option.splits)
  then have "triple E (\<lambda>_. True) (execute_calculation Z r environment) (ended_as E (event_id_of r)) (\<lambda>_ _. True)"
    unfolding execute_calculation_def
    by (rule triple_then [where R = "\<lambda>_. True", rotated])
       (auto simp: triple_def split: prod.splits outcome.splits)
  then show ?thesis
    by (rule triple_post) (unfold ended_as_def ended_record_def written_def proven_def, blast)
qed

section \<open>No faults\<close>

lemma calculating_slots:
  "calculating c e n s \<Longrightarrow> slots e (entry_at (Events, [e]) STATUS_FILE s) (entry_at (Events, [e]) TRANSACTION_FILE s) s' \<Longrightarrow>
    calculating c e n s'"
  by (simp add: calculating_def status_holds_def closable_def slots_def)

lemma kept_tries:
  fixes m :: "('m, 'a) io"
  assumes "\<And>v u. kept E (slots e v u) m"
  shows "tries E (calculating c e n) (\<lambda>_ _. False) m"
  unfolding tries_def
proof (rule triple_fixed)
  fix s0 assume s0: "calculating c e n s0"
  show "triple E (\<lambda>s. s = s0) m (\<lambda>_. calculating c e n) (exits (calculating c e n) (\<lambda>_ _. False))"
    by (rule triple_weaken [OF assms [of "entry_at (Events, [e]) STATUS_FILE s0"
          "entry_at (Events, [e]) TRANSACTION_FILE s0", unfolded kept_def]])
       (auto simp: exits_def slots_def intro: calculating_slots [OF s0, unfolded slots_def])
qed

lemma kept_processes:
  assumes "well_behaved E Z e"
  shows "kept E (slots e v u) (launch (processes Z) command env)" "kept E (slots e v u) (await (processes Z) pid)"
  unfolding launch_def await_def
  by (intro kept well_behavedD [OF assms])+

lemma attempt_keeps:
  assumes "\<And>v u. kept E (slots e v u) m"
  shows "triple E (calculating c e n) (attempt m) (\<lambda>_. calculating c e n) (\<lambda>_ _. False)"
  by (rule triple_post [OF triple_tried [OF tries_triple [OF kept_tries [OF assms]]]]) (auto split: sum.splits)

lemma abandon_keeps:
  assumes "well_behaved E Z e"
  shows "triple E (calculating c e n) (abandon (processes Z) pid) (\<lambda>_. calculating c e n) (\<lambda>_ _. False)"
proof -
  have memory: "triple E P (modify_mem f :: (process_table, unit) io) (\<lambda>_. P) X" for P f X
    by (simp add: triple_def modify_mem_def)
  show ?thesis
    unfolding abandon_def
    by (intro triple_bind [OF attempt_keeps] kept_locally well_behavedD [OF assms])
       (auto intro: memory split: sum.splits)
qed

lemma quiet_run:
  assumes quiet: "quiet E" and clk: "clock_valid E" and behaved: "well_behaved E Z e"
  shows "calculation_run E Z e (promoted e n) (calculating (cfg E) e n) (\<lambda>_ _. False) (closing E e n)
     (\<lambda>st s. \<exists>r. ended_record E e r s \<and> r_status r = st \<and> sequence_of r = n)"
proof (unfold_locales, goal_cases)
  case (7 changes)
  then show ?case by (rule update_keeps [OF quiet])
next
  case (8 r)
  then show ?case by (simp add: promoted_def)
next
  case (11 pid)
  show ?case by (rule abandon_keeps [OF behaved])
next
  case (13 r t phase code message ex secondary problem)
  then show ?case by (rule failure_returns [OF quiet clk])
next
  case (14 r t x v)
  then show ?case by (rule success_returns [OF quiet clk])
next
  case (15 r')
  show ?case
    by (rule triple_fixed, rule triple_weaken [OF closing_leaves]) (auto simp: closing_def quiet)
next
  case (6 ctx)
  show ?case by (intro kept_tries kept_locally kept_materialize [OF quiet behaved])
next
  case (9 command env)
  show ?case by (intro kept_tries kept_processes [OF behaved])
next
  case (10 pid)
  show ?case by (intro kept_tries kept_processes [OF behaved])
next
  case (12 c)
  show ?case
    unfolding event_logs_dir_def
    by (intro kept_tries kept_calls(4) [OF quiet]) simp
qed (intro kept_tries kept quiet)+

text \<open>
  C36: a promoted calculation always ends. Without store faults, from a current running record with its
  completed journal, and with helper programs and a native process that leave those two files alone,
  the rest of \<open>execute_calculation\<close> returns: whatever fails on the way (a log, the profile, the launch,
  the native process, its products, the evidence), no exception escapes, the record on disk is the
  terminal record of this very calculation with the returned state, and the journal is gone.
\<close>

theorem promoted_calculation_ends:
  assumes "quiet E" "clock_valid E" "well_behaved E Z e"
    and "event_id_of r = e" "sequence_of r = n"
  shows "triple E (calculating (cfg E) e n) (execute_prepared Z r environment)
     (\<lambda>st s. \<exists>r'. status_holds e r' s \<and> valid_record (cfg E) r' \<and> event_id_of r' = e \<and> sequence_of r' = n
        \<and> r_status r' = st \<and> (\<exists>x. state_of r' = Some x \<and> is_terminal x)
        \<and> entry_at (Events, [e]) TRANSACTION_FILE s = None)
     (\<lambda>_ _. False)"
proof -
  have read: "\<exists>current. current_promoted_record (cfg E) r s = Inr current \<and> promoted e n current"
    if "calculating (cfg E) e n s" for s
    using that
    by (rule calculatingE)
       (simp add: current_promoted_record_def assms(4,5) guardE_def bindE_def promoted_def state_of_def parse_state_Some)
  have "triple E (calculating (cfg E) e n) (execute_prepared Z r environment)
      (\<lambda>st s. \<exists>r'. ended_record E e r' s \<and> r_status r' = st \<and> sequence_of r' = n) (\<lambda>_ _. False)"
    by (rule calculation_run.prepared_leads [OF quiet_run [OF assms(1-3)]]) (auto dest: read)
  then show ?thesis
    by (rule triple_post) (auto simp: ended_record_def written_def)
qed

text \<open>A promoted record, collaborators that do nothing, and a native process that exits with code 1.\<close>

definition sample_done :: journal where
  "sample_done = \<lparr>j_event_id = sample_event, j_sequence = 7, j_overwrite = True, j_products = False,
     j_service = False, j_archive_path = None, j_completed = CHECKPOINTS, j_stage_removal = False,
     j_candidate_removal = False, j_recovery_failure = JNull\<rparr>"

definition sample_promoted :: fsys where
  "sample_promoted = (\<lambda>_. [])(Events := [(sample_event, Dir
     ((TRANSACTION_FILE, File (Json (journal_to_json sample_done))) # sample_entry (sample_running True)))])"

definition sample_collaborators :: collaborators where
  "sample_collaborators =
     \<lparr>processes = \<lparr>os_spawn = (\<lambda>_ _. ret 5), os_poll = (\<lambda>_. ret True), os_terminate = (\<lambda>_. ret ()),
        os_kill = (\<lambda>_. ret ()), os_wait = (\<lambda>_. ret 1)\<rparr>,
      python_executable = lit ''python3'',
      profile_side = \<lparr>run_program = (\<lambda>_ _ _. ret ([], 0)), regional_tree = (\<lambda>_. None), installed_mapping = None\<rparr>,
      provenance_side = \<lparr>software_identity = Inr JNull, behind_profile_link = (\<lambda>_. Inr JNull)\<rparr>,
      hdf_side = \<lparr>hdf_import = True, hdf_open = (\<lambda>_. True), hdf_construct = (\<lambda>_. True),
        hdf_imts = (\<lambda>_. None), hdf_close_container = True, hdf_close_file = True, imt_import = True, imt_stem = (\<lambda>_. None)\<rparr>,
      product_side = \<lparr>behind_special = (\<lambda>_. Absent), directory_size = (\<lambda>_. 0)\<rparr>,
      log_line = (\<lambda>_. [1])\<rparr>"

lemma sample_behaved: "well_behaved E sample_collaborators e"
  by (simp add: well_behaved_def sample_collaborators_def kept_basic)

lemma sample_calculating: "calculating sample_cfg sample_event 7 sample_promoted"
proof -
  have event: "r_event_id (sample_running True) = JStr sample_event" "r_internal_sequence (sample_running True) = JInt 7"
    using valid_record_identity(1,3) [OF sample_running(2)] sample_running(4,5) by simp_all
  have "journal_ok sample_cfg sample_done"
    using sample_event_valid by (auto simp: journal_ok_def sample_done_def CHECKPOINTS_def valid_recovery_failure_def
        intro!: exI [of _ "6 :: nat"])
  then have "closable sample_cfg sample_event (sample_running True) sample_promoted"
    by (auto simp: closable_def sample_promoted_def entry_at_def validate_journal_identity_def event sample_running guardE_def
        sample_done_def intro!: exI [of _ sample_done])
  then show ?thesis
    by (auto simp: calculating_def status_holds_def sample_promoted_def entry_at_def sample_running
        intro!: exI [of _ "sample_running True"])
qed

theorem promoted_calculation_ends_witness:
  "\<exists>st w'. execute_prepared sample_collaborators (sample_running True) [] sample_env
       \<lparr>fs = sample_promoted, clock = 0, mem = \<lparr>launch_open = True, active = []\<rparr>\<rparr> = (Val st, w')
     \<and> entry_at (Events, [sample_event]) TRANSACTION_FILE (fs w') = None"
proof -
  have "triple sample_env (calculating sample_cfg sample_event 7)
      (execute_prepared sample_collaborators (sample_running True) [])
      (\<lambda>st s. entry_at (Events, [sample_event]) TRANSACTION_FILE s = None) (\<lambda>_ _. False)"
    by (rule triple_weaken [OF promoted_calculation_ends [OF sample_quiet sample_clock sample_behaved sample_running(4,5)]])
       auto
  from triple_total [OF this] sample_calculating show ?thesis
    by (metis world.select_convs(1))
qed

end
