(* ===== verification/Archive_Properties.thy ===== *)
theory Archive_Properties
  imports Recalculation Samples
begin

text \<open>
  The allocation of an archive name in \<open>recalculation.py\<close>: the loop over microseconds ends with the
  first free name.
\<close>

section \<open>Microseconds\<close>

lemma iterate_micro: "micro t + j \<le> 999999 \<Longrightarrow> (next_micro ^^ j) t = t\<lparr>micro := micro t + j\<rparr>"
  by (induction j) (auto simp: next_micro_def)

lemma valid_micro: "valid_datetime t \<Longrightarrow> i \<le> 999999 \<Longrightarrow> valid_datetime (t\<lparr>micro := i\<rparr>)"
  by (simp add: valid_datetime_def)

lemma carry_micro: "micro t = 999999 \<Longrightarrow> micro (next_micro t) = 0"
  by (simp add: next_micro_def)

lemma iterate_valid:
  assumes "valid_datetime t" "year t < 9999" "k \<le> 1000000"
  shows "valid_datetime ((next_micro ^^ k) t)"
proof (cases "micro t + k \<le> 999999")
  case True
  then show ?thesis by (simp add: iterate_micro valid_micro [OF assms(1)])
next
  case False
  define j where "j = 999999 - micro t"
  define i where "i = k - Suc j"
  have bound: "micro t \<le> 999999" using assms(1) by (simp add: valid_datetime_def)
  then have k: "k = i + Suc j" and i: "i \<le> 999999"
    using False assms(3) by (simp_all add: i_def j_def)
  let ?u = "next_micro (t\<lparr>micro := 999999\<rparr>)"
  have "(next_micro ^^ j) t = t\<lparr>micro := 999999\<rparr>"
    using bound iterate_micro [of t j] by (simp add: j_def)
  then have "(next_micro ^^ k) t = (next_micro ^^ i) ?u"
    by (simp add: k funpow_add funpow_swap1)
  also have "\<dots> = ?u\<lparr>micro := i\<rparr>"
    using i carry_micro [of "t\<lparr>micro := 999999\<rparr>"] by (simp add: iterate_micro)
  finally have "(next_micro ^^ k) t = ?u\<lparr>micro := i\<rparr>" .
  moreover have "valid_datetime ?u"
    using assms(1,2) by (intro valid_next_micro valid_micro) simp_all
  ultimately show ?thesis using i by (simp add: valid_micro)
qed

text \<open>A number that grows with the instant.\<close>

definition instant_key :: "datetime \<Rightarrow> nat" where
  "instant_key t =
     (((((year t * 13 + month t) * 32 + day t) * 24 + hour t) * 60 + minute t) * 60 + second t) * 1000000 + micro t"

lemma key_day:
  assumes "valid_datetime t"
  shows "(year t * 13 + month t) * 32 + day t < (year (next_day t) * 13 + month (next_day t)) * 32 + day (next_day t)"
proof -
  have "day t \<le> 31" "month t \<le> 12"
    using assms days_in_month_bounds(2) [of "year t" "month t"] by (auto simp: valid_datetime_def)
  then show ?thesis by (auto simp: next_day_def)
qed

lemma key_step:
  assumes "valid_datetime t"
  shows "instant_key t < instant_key (next_micro t)"
proof -
  have b: "hour t \<le> 23" "minute t \<le> 59" "second t \<le> 59" "micro t \<le> 999999"
    using assms by (simp_all add: valid_datetime_def)
  show ?thesis
    using b key_day [OF assms] by (auto simp: instant_key_def next_micro_def)
qed

lemma iterate_key:
  assumes "\<And>k. k \<le> m \<Longrightarrow> valid_datetime ((next_micro ^^ k) t)" "i < j" "j \<le> m"
  shows "instant_key ((next_micro ^^ i) t) < instant_key ((next_micro ^^ j) t)"
  using assms(2,3)
proof (induction j)
  case (Suc j)
  have "instant_key ((next_micro ^^ j) t) < instant_key ((next_micro ^^ Suc j) t)"
    using key_step [OF assms(1) [of j]] Suc.prems by simp
  moreover have "i < j \<Longrightarrow> instant_key ((next_micro ^^ i) t) < instant_key ((next_micro ^^ j) t)"
    using Suc by simp
  ultimately show ?case
    using Suc.prems(1) by (cases "i = j") auto
qed simp

section \<open>The loop\<close>

definition candidate_name :: "ustr \<Rightarrow> datetime \<Rightarrow> nat \<Rightarrow> ustr" where
  "candidate_name e t k = event_archive_name e (archive_timestamp ((next_micro ^^ k) t))"

lemma loop_finds:
  assumes "\<And>i. i \<le> k \<Longrightarrow> valid_datetime ((next_micro ^^ i) t)" "k < n"
    and "\<And>i. i < k \<Longrightarrow> aget d (candidate_name e t i) \<noteq> None" "aget d (candidate_name e t k) = None"
  shows "archive_name_loop n d e t = Some ((next_micro ^^ k) t)"
  using assms
proof (induction k arbitrary: n t)
  case 0
  then show ?case by (cases n) (auto simp: candidate_name_def)
next
  case (Suc k)
  obtain m where n: "n = Suc m" using Suc.prems(2) by (cases n) auto
  have shift: "(next_micro ^^ i) (next_micro t) = (next_micro ^^ Suc i) t" for i
    by (simp add: funpow_swap1)
  have "archive_name_loop m d e (next_micro t) = Some ((next_micro ^^ k) (next_micro t))"
  proof (rule Suc.IH)
    show "valid_datetime ((next_micro ^^ i) (next_micro t))" if "i \<le> k" for i
      using Suc.prems(1) [of "Suc i"] that by (simp only: shift)
    show "aget d (candidate_name e (next_micro t) i) \<noteq> None" if "i < k" for i
      using Suc.prems(3) [of "Suc i"] that by (simp add: candidate_name_def funpow_swap1)
    show "aget d (candidate_name e (next_micro t) k) = None"
      using Suc.prems(4) by (simp only: candidate_name_def shift)
    show "k < m" using Suc.prems(2) n by simp
  qed
  moreover have "aget d (event_archive_name e (archive_timestamp t)) \<noteq> None" "valid_datetime t"
    using Suc.prems(3) [of 0] Suc.prems(1) [of 0] by (simp_all add: candidate_name_def)
  ultimately show ?case by (auto simp: n shift)
qed

lemma candidate_names_differ:
  assumes "valid_datetime t" "year t < 9999" "m \<le> 1000000"
  shows "inj_on (candidate_name e t) {..m}"
proof (rule inj_onI)
  fix i j assume ij: "i \<in> {..m}" "j \<in> {..m}" "candidate_name e t i = candidate_name e t j"
  have valid: "valid_datetime ((next_micro ^^ k) t)" if "k \<le> m" for k
    using iterate_valid [OF assms(1,2)] that assms(3) by simp
  have "archive_timestamp ((next_micro ^^ i) t) = archive_timestamp ((next_micro ^^ j) t)"
    using ij(3) by (simp add: candidate_name_def event_archive_name_def)
  then have same: "(next_micro ^^ i) t = (next_micro ^^ j) t"
    using valid ij(1,2) by (simp add: archive_timestamp_inject)
  show "i = j"
    using iterate_key [of m t i j, OF valid] iterate_key [of m t j i, OF valid] same ij(1,2)
    by (cases i j rule: linorder_cases) auto
qed

text \<open>
  C37: the allocation of an archive name ends. From any instant before the year 9999, whatever the
  archive holds, as long as it has fewer entries than the loop has attempts, the loop returns: it takes
  at most one step more than the archive has entries, and its result is the earliest instant whose
  archive name is free, every instant before it being taken.
\<close>

theorem archive_allocation_ends:
  assumes "valid_datetime t" "year t < 9999" "card (set (akeys d)) < ARCHIVE_ATTEMPTS"
  shows "\<exists>k \<le> card (set (akeys d)). archive_name_loop ARCHIVE_ATTEMPTS d e t = Some ((next_micro ^^ k) t)
     \<and> aget d (candidate_name e t k) = None \<and> (\<forall>i<k. aget d (candidate_name e t i) \<noteq> None)
     \<and> valid_datetime ((next_micro ^^ k) t)"
proof -
  let ?m = "card (set (akeys d))" and ?free = "\<lambda>k. aget d (candidate_name e t k) = None"
  have m: "?m \<le> 1000000" using assms(3) by (simp add: ARCHIVE_ATTEMPTS_def)
  have "\<exists>k \<le> ?m. ?free k"
  proof (rule ccontr)
    assume "\<not> (\<exists>k \<le> ?m. ?free k)"
    then have "candidate_name e t ` {..?m} \<subseteq> set (akeys d)"
      by (auto simp: alist.names_lookup)
    then have "card (candidate_name e t ` {..?m}) \<le> ?m" by (simp add: card_mono)
    then show False by (simp add: card_image [OF candidate_names_differ [OF assms(1,2) m]])
  qed
  then obtain k0 where k0: "k0 \<le> ?m" "?free k0" by blast
  define k where "k = (LEAST k. ?free k)"
  have free: "?free k" unfolding k_def by (rule LeastI [of ?free, OF k0(2)])
  have least: "k \<le> k0" unfolding k_def by (rule Least_le [of ?free, OF k0(2)])
  have "\<not> ?free i" if "i < k" for i using that unfolding k_def by (rule not_less_Least)
  then have before: "\<forall>i<k. \<not> ?free i" by blast
  note k = le_trans [OF least k0(1)] free before
  have valid: "valid_datetime ((next_micro ^^ i) t)" if "i \<le> k" for i
    using iterate_valid [OF assms(1,2), of i] that k(1) m by simp
  have "k < ARCHIVE_ATTEMPTS" using k(1) assms(3) by simp
  then have "archive_name_loop ARCHIVE_ATTEMPTS d e t = Some ((next_micro ^^ k) t)"
    using k(2,3) by (intro loop_finds valid) simp_all
  with k valid [of k] show ?thesis by blast
qed

theorem archive_allocation_ends_witness:
  "\<exists>k \<le> 1. archive_name_loop ARCHIVE_ATTEMPTS [(candidate_name sample_event sample_time 0, Dir [])] sample_event sample_time
       = Some ((next_micro ^^ k) sample_time)"
  using archive_allocation_ends [OF sample_time_valid, where d = "[(candidate_name sample_event sample_time 0, Dir [])]"
      and e = sample_event]
  by (auto simp: sample_time_def akeys_def ARCHIVE_ATTEMPTS_def)

end
