(* ===== verification/Spec2Isabelle.thy ===== *)
theory Spec2Isabelle
  imports Record_Properties Evidence_Properties Scheduler_Properties Recovery_Properties
    Upload_Properties Queue_Properties Projection_Properties View_Properties Product_Properties
    Calculation_Properties Archive_Properties
begin

text \<open>
  A model of the ShakeMap calculation service (\<open>src/shakemap_service\<close>), and what makes it correct.

  The service accepts requests for ShakeMap calculations over HTTP (\<open>submission.py\<close>), keeps them as
  directories of a durable queue, and runs a bounded number of them at a time (\<open>scheduler.py\<close>). Before
  a calculation runs, its event's preceding products and service trees are set aside, archived or
  removed, the record directory is moved from the queue to the current records, and a fresh native
  tree is published (\<open>recalculation.py\<close>); a journal beside the record makes this restartable. Every
  change of a calculation record goes through one transition table and one atomic file replacement
  (\<open>status.py\<close>). When the native program has ended, the record becomes \<open>SUCCESS\<close> only if all evidence is
  complete (\<open>calculation_finalization.py\<close>), and \<open>FAILED\<close> otherwise.

  Theories, in the order of the code:
  \<^item> \<open>Prelude\<close>, \<open>Json\<close>: text, exceptions as values, association lists, JSON values.
  \<^item> \<open>Config\<close>, \<open>Validation\<close>, \<open>Timestamps\<close>: settings, names, request checks, clock readings
    (\<open>config.py\<close>, \<open>paths.py\<close>, \<open>request_validation.py\<close>).
  \<^item> \<open>Status_Record\<close>, \<open>Lifecycle\<close>: the record schema, its validators and transitions; \<open>Status_Store\<close>: its
    storage and the scans over it (\<open>status.py\<close>).
  \<^item> \<open>Store\<close>: the six directory trees, system calls, and the fault oracle; \<open>Triples\<close>, \<open>Memory_Triples\<close>,
    \<open>Stable\<close>, \<open>Frames\<close>, \<open>Status_Triples\<close>: the program logic over it.
  \<^item> \<open>Journal\<close>, \<open>Recalculation\<close>, \<open>Reconcile\<close>: the durable replacement, forwards and in recovery
    (\<open>recalculation.py\<close>, \<open>startup_recovery.py\<close>); \<open>Transaction_State\<close>, \<open>Transaction_Steps\<close>, \<open>Recovery\<close>,
    \<open>Preparation\<close>, \<open>Durability\<close>: the states of a replacement and the effect of every step on them.
  \<^item> \<open>Scheduler\<close>, with \<open>Scheduler_Invariants\<close> and \<open>Scheduler_Admission\<close> (\<open>scheduler.py\<close>, \<open>queue.py\<close>).
  \<^item> \<open>Evidence\<close> (\<open>calculation_finalization.py\<close>).
  \<^item> \<open>Products\<close> (\<open>required_products.py\<close>, \<open>product_validation.py\<close>, \<open>product_manifest.py\<close>), with
    \<open>Product_Lemmas\<close>: resolution, validation and inventory of the native products, and the publication of
    an evidence file.
  \<^item> \<open>Service_Log\<close>, \<open>Provenance\<close>, \<open>Native_Context\<close>, \<open>Native_Profile\<close>, \<open>Runner\<close>, \<open>Calculation\<close>: one calculation
    from its promoted record to its terminal one (\<open>calculation_log.py\<close>, \<open>provenance.py\<close>,
    \<open>native_context.py\<close>, \<open>native_profile.py\<close>, \<open>runner.py\<close>, \<open>calculation.py\<close>, \<open>worker.py\<close>). \<open>Record_Frames\<close>,
    \<open>Calculation_Lemmas\<close>: which steps spare the record and its journal; \<open>Calculation_Skeleton\<close>: the contract
    \<open>calculation_run\<close>, from which the outcome of the whole function follows; \<open>Calculation_Outcomes\<close>: the
    terminal writes. The contract is established for the model twice, once under any faults and once
    without.
  \<^item> \<open>Projections\<close>, \<open>Views\<close>, with \<open>View_Lemmas\<close>: the read-only views and what they publish of private
    evidence (\<open>public_views.py\<close>).
  \<^item> \<open>Submission\<close> (\<open>submission.py\<close>); \<open>Submission_Triples\<close>, \<open>Acceptance\<close>: what an acceptance changes and the
    entry its one rename publishes; \<open>Submission_Liveness\<close>: that an undisturbed one returns; \<open>Queue_Scan\<close>:
    the scan over one more entry.
  The properties are in the theories whose names end in \<open>Properties\<close>.

  State and effects. A tree is a nested association list; a computation maps an environment (settings,
  clock, fresh names, fault oracle) and a world (store, operation counter, in-memory object) to a value,
  an exception or the death of the process. Every call that changes the store asks the oracle whether it
  proceeds, fails or dies, so a theorem about all environments covers an error and a crash at every such
  call; \<open>quiet\<close> is the environment without faults.

  Assumptions of the model. Calls are sequential: locks are uncontended, and the checks that an opened
  directory is still the one at its name, which guard against concurrent renames, are trivial and left
  out. A completed call is visible after a crash. All trees are on one file system, except where the
  source compares devices (\<open>same_device\<close>). The six roots exist. Reads do not fail by themselves.
  \<open>uuid4\<close> names are fresh. A file written as JSON reads back as that JSON value, and any other content is
  not JSON; \<open>encoded\<close> and \<open>sha256\<close> are arbitrary functions. \<open>int()\<close> is modelled on ASCII text. A worker's
  completion is one step of the scheduler.

  Parameters. What is not in the repository is an argument of the definitions that use it: the native
  process and the two profile helper programs, with any effect on the store (\<open>os_calls\<close>,
  \<open>profile_sources\<close>), the installed mapping tree and regional files, the HDF library, what lies behind a
  symbolic link, the software identity, and the serialisation of a log line. Only the theorem that a
  promoted calculation ends assumes of them that they leave the record and its journal alone. Text
  patterns of the source are written out as scans, the order of a Python set or of a directory listing
  is fixed, and messages of exceptions are shortened.

  Bounds. The million attempts for an archive name and the hundred for a private directory are the
  source's own; \<open>Archive_Properties\<close> shows that the first search ends with the earliest free name.

  Not modelled: the native ShakeMap program and \<open>native_launcher.py\<close>, which runs inside it; HTTP and
  command-line glue (\<open>main.py\<close>, \<open>cli.py\<close>, \<open>service_information.py\<close>, \<open>access_diagnostics.py\<close>), which only
  call the modelled operations; image building, data provisioning and readiness records
  (\<open>preparation.py\<close>, \<open>profile_checks.py\<close>, \<open>readiness.py\<close>, \<open>finalization.py\<close>, \<open>release.py\<close>,
  \<open>build_identity.py\<close>, \<open>upstream_environment.py\<close>), which run other programs and inspect an installed image;
  and operator logging.
\<close>

end
